(* ===== verification/CS_Prelude.thy ===== *)
theory CS_Prelude
  imports Complex_Main "HOL-Library.Word" "HOL-Library.Char_ord" "HOL-Library.List_Lexorder"
    "HOL-Library.Sublist" "HOL-Library.Multiset"
begin

text \<open>
  Shared vocabulary of the development: the lemma collections, machine integers as
  bounded naturals with Rust's saturating, checked and wrapping operations, Rust's
  \<^verbatim>\<open>str\<close> operations on UTF-8 byte strings, \<^verbatim>\<open>BTreeMap\<close> as a key-sorted
  association list, \<^verbatim>\<open>sort_by\<close> with a comparator, and the interfaces (locales)
  that several components implement: label codecs, ordered maps, comparators and
  invariant-preserving machines.
\<close>

named_theorems width_simps \<open>unfoldings of the machine-integer operations\<close>
named_theorems str_simps \<open>evaluation of the byte-string operations\<close>
named_theorems inv_intros \<open>each operation keeps its component's invariant\<close>

section \<open>Machine integers\<close>

text \<open>
  \<^verbatim>\<open>usize\<close> is 64 bits wide on every supported platform, so it shares the bound of
  \<^verbatim>\<open>u64\<close>. Values of these types are naturals; each operation below keeps the bound.
\<close>

definition u32_max :: nat where
  "u32_max = 4294967295"

definition u64_max :: nat where
  "u64_max = 18446744073709551615"

definition sat_add64 :: "nat \<Rightarrow> nat \<Rightarrow> nat" where
  "sat_add64 a b = min (a + b) u64_max"

definition sat_mul64 :: "nat \<Rightarrow> nat \<Rightarrow> nat" where
  "sat_mul64 a b = min (a * b) u64_max"

definition sat_sub :: "nat \<Rightarrow> nat \<Rightarrow> nat" where
  "sat_sub a b = (if a < b then 0 else a - b)"

definition sat_add32 :: "nat \<Rightarrow> nat \<Rightarrow> nat" where
  "sat_add32 a b = min (a + b) u32_max"

definition wrap_add64 :: "nat \<Rightarrow> nat \<Rightarrow> nat" where
  "wrap_add64 a b = (a + b) mod (u64_max + 1)"

definition wrap_sub64 :: "nat \<Rightarrow> nat \<Rightarrow> nat" where
  "wrap_sub64 a b = (a + (u64_max + 1) - b) mod (u64_max + 1)"

declare sat_add64_def [width_simps] sat_mul64_def [width_simps] sat_sub_def [width_simps]
  sat_add32_def [width_simps] wrap_add64_def [width_simps] wrap_sub64_def [width_simps]

lemma sat_add64_le [simp]: "sat_add64 a b \<le> u64_max"
  by (simp add: sat_add64_def)

lemma sat_add64_ge: "a \<le> u64_max \<Longrightarrow> a \<le> sat_add64 a b"
  by (simp add: sat_add64_def)

lemma sat_add64_exact: "a + b \<le> u64_max \<Longrightarrow> sat_add64 a b = a + b"
  by (simp add: sat_add64_def)

lemma sat_sub_eq [simp]: "sat_sub a b = a - b"
  by (simp add: sat_sub_def)

lemma wrap_add64_le [simp]: "wrap_add64 a b \<le> u64_max"
proof -
  have "(a + b) mod (u64_max + 1) < u64_max + 1"
    by (rule mod_less_divisor) simp
  then show ?thesis by (simp add: wrap_add64_def)
qed

lemma wrap_sub64_exact: "b \<le> a \<Longrightarrow> a \<le> u64_max \<Longrightarrow> wrap_sub64 a b = a - b"
proof -
  assume "b \<le> a" "a \<le> u64_max"
  then have "a + (u64_max + 1) - b = (a - b) + (u64_max + 1)" and "a - b < u64_max + 1"
    by simp_all
  then show ?thesis unfolding wrap_sub64_def by (metis mod_add_self2 mod_less)
qed

section \<open>Byte strings\<close>

text \<open>
  A Rust \<^verbatim>\<open>str\<close> is its UTF-8 bytes, one \<^typ>\<open>char\<close> per byte, so
  \<^term>\<open>length\<close> is \<^verbatim>\<open>str::len\<close> and every offset is a byte offset. The searches
  below look for ASCII characters or for literals, which no byte of a longer UTF-8
  sequence equals, so walking bytes and walking \<^verbatim>\<open>char\<close>s agree.
\<close>

definition byte :: "char \<Rightarrow> nat" where
  "byte c = of_char c"

definition is_ws3 :: "nat \<Rightarrow> nat \<Rightarrow> nat \<Rightarrow> bool" where
  "is_ws3 b0 b1 b2 \<longleftrightarrow>
     (b0 = 0xE1 \<and> b1 = 0x9A \<and> b2 = 0x80)
   \<or> (b0 = 0xE2 \<and> b1 = 0x80 \<and> (0x80 \<le> b2 \<and> b2 \<le> 0x8A \<or> b2 = 0xA8 \<or> b2 = 0xA9 \<or> b2 = 0xAF))
   \<or> (b0 = 0xE2 \<and> b1 = 0x81 \<and> b2 = 0x9F)
   \<or> (b0 = 0xE3 \<and> b1 = 0x80 \<and> b2 = 0x80)"

text \<open>The byte length of the Unicode \<^verbatim>\<open>White_Space\<close> character a string starts (ends) with, or 0.\<close>

fun ws_prefix :: "string \<Rightarrow> nat" where
  "ws_prefix [] = 0"
| "ws_prefix (a # r) =
     (if byte a = 32 \<or> 9 \<le> byte a \<and> byte a \<le> 13 then 1
      else case r of [] \<Rightarrow> 0
        | b # r' \<Rightarrow>
            if byte a = 0xC2 \<and> (byte b = 0x85 \<or> byte b = 0xA0) then 2
            else case r' of [] \<Rightarrow> 0
              | c # _ \<Rightarrow> if is_ws3 (byte a) (byte b) (byte c) then 3 else 0)"

fun ws_suffix_rev :: "string \<Rightarrow> nat" where
  "ws_suffix_rev [] = 0"
| "ws_suffix_rev (c # r) =
     (if byte c = 32 \<or> 9 \<le> byte c \<and> byte c \<le> 13 then 1
      else case r of [] \<Rightarrow> 0
        | b # r' \<Rightarrow>
            if byte b = 0xC2 \<and> (byte c = 0x85 \<or> byte c = 0xA0) then 2
            else case r' of [] \<Rightarrow> 0
              | a # _ \<Rightarrow> if is_ws3 (byte a) (byte b) (byte c) then 3 else 0)"

lemma ws_prefix_shrinks: "0 < ws_prefix s \<Longrightarrow> length s - ws_prefix s < length s"
  by (cases s) auto

lemma ws_suffix_rev_shrinks: "0 < ws_suffix_rev s \<Longrightarrow> length s - ws_suffix_rev s < length s"
  by (cases s) auto

function trim_start :: "string \<Rightarrow> string" where
  "trim_start s = (if ws_prefix s = 0 then s else trim_start (drop (ws_prefix s) s))"
  by pat_completeness auto
termination
  by (relation "measure length") (auto intro: ws_prefix_shrinks)

function trim_rev :: "string \<Rightarrow> string" where
  "trim_rev s = (if ws_suffix_rev s = 0 then s else trim_rev (drop (ws_suffix_rev s) s))"
  by pat_completeness auto
termination
  by (relation "measure length") (auto intro: ws_suffix_rev_shrinks)

declare trim_start.simps [simp del] trim_rev.simps [simp del]

definition trim_end :: "string \<Rightarrow> string" where
  "trim_end s = rev (trim_rev (rev s))"

definition trim :: "string \<Rightarrow> string" where
  "trim s = trim_end (trim_start s)"

definition ascii_lower :: "char \<Rightarrow> char" where
  "ascii_lower c = (if 65 \<le> byte c \<and> byte c \<le> 90 then char_of (byte c + 32) else c)"

definition ascii_upper :: "char \<Rightarrow> char" where
  "ascii_upper c = (if 97 \<le> byte c \<and> byte c \<le> 122 then char_of (byte c - 32) else c)"

definition to_ascii_lowercase :: "string \<Rightarrow> string" where
  "to_ascii_lowercase s = map ascii_lower s"

definition to_ascii_uppercase :: "string \<Rightarrow> string" where
  "to_ascii_uppercase s = map ascii_upper s"

fun starts_with :: "string \<Rightarrow> string \<Rightarrow> bool" where
  "starts_with s [] = True"
| "starts_with [] (p # ps) = False"
| "starts_with (c # cs) (p # ps) = (c = p \<and> starts_with cs ps)"

definition ends_with :: "string \<Rightarrow> string \<Rightarrow> bool" where
  "ends_with s p = starts_with (rev s) (rev p)"

fun contains_str :: "string \<Rightarrow> string \<Rightarrow> bool" where
  "contains_str [] p = (p = [])"
| "contains_str (c # cs) p = (starts_with (c # cs) p \<or> contains_str cs p)"

fun find_char :: "char \<Rightarrow> string \<Rightarrow> nat option" where
  "find_char c [] = None"
| "find_char c (x # xs) = (if x = c then Some 0 else map_option Suc (find_char c xs))"

fun rfind_char :: "char \<Rightarrow> string \<Rightarrow> nat option" where
  "rfind_char c [] = None"
| "rfind_char c (x # xs) =
     (case rfind_char c xs of Some i \<Rightarrow> Some (Suc i) | None \<Rightarrow> if x = c then Some 0 else None)"

text \<open>\<^verbatim>\<open>str::replace\<close> for a non-empty pattern: leftmost, non-overlapping.\<close>

function replace_str :: "string \<Rightarrow> string \<Rightarrow> string \<Rightarrow> string" where
  "replace_str p r [] = []"
| "replace_str p r (c # cs) =
     (if p \<noteq> [] \<and> starts_with (c # cs) p then r @ replace_str p r (drop (length p - 1) cs)
      else c # replace_str p r cs)"
  by pat_completeness auto
termination
  by (relation "measure (\<lambda>(p, r, s). length s)") auto

text \<open>\<^verbatim>\<open>slice::join\<close> on strings.\<close>

fun join_str :: "string \<Rightarrow> string list \<Rightarrow> string" where
  "join_str d [] = []"
| "join_str d [x] = x"
| "join_str d (x # y # ys) = x @ d @ join_str d (y # ys)"

text \<open>\<^verbatim>\<open>Display\<close> of a non-negative and of a signed integer.\<close>

fun show_nat :: "nat \<Rightarrow> string" where
  "show_nat n = (if n < 10 then [char_of (48 + n)] else show_nat (n div 10) @ [char_of (48 + n mod 10)])"

declare show_nat.simps [simp del]

definition show_int :: "int \<Rightarrow> string" where
  "show_int i = (if i < 0 then CHR ''-'' # show_nat (nat (- i)) else show_nat (nat i))"

text \<open>\<^verbatim>\<open>u32::from_str\<close>: one optional \<^verbatim>\<open>+\<close>, then digits, with checked arithmetic.\<close>

definition digit_value :: "char \<Rightarrow> nat option" where
  "digit_value c = (if 48 \<le> byte c \<and> byte c \<le> 57 then Some (byte c - 48) else None)"

fun parse_digits :: "nat \<Rightarrow> string \<Rightarrow> nat option" where
  "parse_digits acc [] = Some acc"
| "parse_digits acc (c # cs) =
     (case digit_value c of None \<Rightarrow> None
      | Some d \<Rightarrow>
          if u32_max < acc * 10 then None
          else if u32_max < acc * 10 + d then None
          else parse_digits (acc * 10 + d) cs)"

definition parse_u32 :: "string \<Rightarrow> nat option" where
  "parse_u32 s =
     (case s of [] \<Rightarrow> None
      | c # cs \<Rightarrow> if c = CHR ''+'' then (if cs = [] then None else parse_digits 0 cs)
                 else if c = CHR ''-'' \<and> cs = [] then None
                 else parse_digits 0 s)"

lemma trim_start_suffix: "suffix (trim_start s) s"
proof (induction s rule: trim_start.induct)
  case (1 s)
  show ?case
  proof (cases "ws_prefix s = 0")
    case True
    then show ?thesis by (simp add: trim_start.simps [of s])
  next
    case False
    with "1.IH" have "suffix (trim_start (drop (ws_prefix s) s)) s"
      by (meson suffix_drop suffix_order.order_trans)
    with False show ?thesis by (simp add: trim_start.simps [of s])
  qed
qed

lemma trim_start_drop: "trim_start s = drop (length s - length (trim_start s)) s"
proof -
  obtain zs where "s = zs @ trim_start s"
    using trim_start_suffix [of s] by (auto simp: suffix_def)
  then show ?thesis by (metis append_eq_conv_conj length_append add_diff_cancel_right')
qed

lemma length_trim_start: "length (trim_start s) \<le> length s"
  by (rule suffix_length_le [OF trim_start_suffix])

lemma trim_rev_suffix: "suffix (trim_rev s) s"
proof (induction s rule: trim_rev.induct)
  case (1 s)
  show ?case
  proof (cases "ws_suffix_rev s = 0")
    case True
    then show ?thesis by (simp add: trim_rev.simps [of s])
  next
    case False
    with "1.IH" have "suffix (trim_rev (drop (ws_suffix_rev s) s)) s"
      by (meson suffix_drop suffix_order.order_trans)
    with False show ?thesis by (simp add: trim_rev.simps [of s])
  qed
qed

lemma trim_end_prefix: "prefix (trim_end s) s"
  using trim_rev_suffix [of "rev s"] by (simp add: trim_end_def suffix_to_prefix)

lemma length_trim: "length (trim s) \<le> length s"
  unfolding trim_def
  using length_trim_start [of s] prefix_length_le [OF trim_end_prefix [of "trim_start s"]] by simp

lemma length_trim_le_start: "length (trim s) \<le> length (trim_start s)"
  unfolding trim_def by (rule prefix_length_le [OF trim_end_prefix])

text \<open>Printable ASCII at both ends: nothing to trim.\<close>

definition visible :: "char \<Rightarrow> bool" where
  "visible c \<longleftrightarrow> 33 \<le> byte c \<and> byte c < 128"

lemma ws_prefix_visible: "visible c \<Longrightarrow> ws_prefix (c # cs) = 0"
  by (auto simp: visible_def is_ws3_def split: list.split)

lemma ws_suffix_visible: "visible c \<Longrightarrow> ws_suffix_rev (c # cs) = 0"
  by (auto simp: visible_def is_ws3_def split: list.split)

lemma trim_start_visible: "visible c \<Longrightarrow> trim_start (c # cs) = c # cs"
  by (subst trim_start.simps) (simp only: ws_prefix_visible if_True simp_thms)

lemma trim_end_visible:
  assumes "s \<noteq> []" and "visible (last s)"
  shows "trim_end s = s"
proof -
  have "trim_rev (last s # rev (butlast s)) = last s # rev (butlast s)"
    using assms(2) by (subst trim_rev.simps) (simp only: ws_suffix_visible if_True simp_thms)
  moreover have "rev s = last s # rev (butlast s)"
    using assms(1) by (metis append_butlast_last_id rev.simps(2) rev_rev_ident)
  ultimately show ?thesis by (metis trim_end_def rev_rev_ident)
qed

lemma trim_visible: "s \<noteq> [] \<Longrightarrow> visible (hd s) \<Longrightarrow> visible (last s) \<Longrightarrow> trim s = s"
  by (cases s) (simp_all add: trim_def trim_start_visible trim_end_visible)

lemma trim_Nil [simp]: "trim [] = []"
  by (simp add: trim_def trim_end_def trim_rev.simps trim_start.simps)

lemma starts_with_prefix: "starts_with s p \<longleftrightarrow> prefix p s"
  by (induction s p rule: starts_with.induct) auto

lemma ends_with_suffix: "ends_with s p \<longleftrightarrow> suffix p s"
  by (simp add: ends_with_def starts_with_prefix suffix_to_prefix)

lemma contains_str_sublist: "contains_str s p \<longleftrightarrow> sublist p s"
  by (induction s p rule: contains_str.induct) (auto simp: starts_with_prefix sublist_Cons_right)

lemma find_char_less: "find_char c s = Some i \<Longrightarrow> i < length s \<and> s ! i = c"
  by (induction s arbitrary: i) (auto split: if_splits)

lemma rfind_char_less: "rfind_char c s = Some i \<Longrightarrow> i < length s \<and> s ! i = c"
  by (induction s arbitrary: i) (auto split: if_splits option.splits)

lemma length_to_ascii_lowercase [simp]: "length (to_ascii_lowercase s) = length s"
  by (simp add: to_ascii_lowercase_def)

lemma parse_digits_bound: "acc \<le> u32_max \<Longrightarrow> parse_digits acc s = Some v \<Longrightarrow> v \<le> u32_max"
  by (induction acc s rule: parse_digits.induct) (auto split: option.splits if_splits)

lemma parse_digits_append:
  "parse_digits acc (s @ t) = Option.bind (parse_digits acc s) (\<lambda>v. parse_digits v t)"
  by (induction acc s rule: parse_digits.induct) (auto split: option.splits)

lemma byte_digit: "d < 10 \<Longrightarrow> byte (char_of (48 + d)) = 48 + d"
  by (simp add: byte_def)

lemma digit_value_digit: "d < 10 \<Longrightarrow> digit_value (char_of (48 + d)) = Some d"
  by (simp only: digit_value_def byte_digit) simp

lemma parse_digits_show_nat: "n \<le> u32_max \<Longrightarrow> parse_digits 0 (show_nat n) = Some n"
proof (induction n rule: show_nat.induct)
  case (1 n)
  show ?case
  proof (cases "n < 10")
    case True
    with 1 show ?thesis by (simp add: show_nat.simps [of n] digit_value_digit)
  next
    case False
    have d: "n mod 10 < 10" by simp
    from False 1 have "parse_digits 0 (show_nat (n div 10)) = Some (n div 10)" by auto
    moreover have "n div 10 * 10 + n mod 10 = n" by (rule div_mult_mod_eq)
    moreover from this have "n div 10 * 10 \<le> u32_max" using 1(2) by linarith
    ultimately show ?thesis
      using False 1(2) by (simp add: show_nat.simps [of n] parse_digits_append digit_value_digit [OF d])
  qed
qed

lemma show_nat_digits: "c \<in> set (show_nat n) \<Longrightarrow> 48 \<le> byte c \<and> byte c \<le> 57"
proof (induction n rule: show_nat.induct)
  case (1 n)
  show ?case
  proof (cases "n < 10")
    case True
    then have "set (show_nat n) = {char_of (48 + n)}" by (subst show_nat.simps) simp
    with 1 have "c = char_of (48 + n)" by blast
    with True show ?thesis by (simp only: byte_digit) simp
  next
    case False
    then have "set (show_nat n) = set (show_nat (n div 10)) \<union> {char_of (48 + n mod 10)}"
      by (subst show_nat.simps) simp
    with 1(2) consider "c \<in> set (show_nat (n div 10))" | "c = char_of (48 + n mod 10)" by blast
    then show ?thesis
    proof cases
      case 1
      with "1.IH" False show ?thesis by blast
    next
      case 2
      have "n mod 10 < 10" by simp
      with 2 show ?thesis by (simp only: byte_digit) simp
    qed
  qed
qed

lemma show_nat_nonempty [simp]: "show_nat n \<noteq> []"
  by (subst show_nat.simps) simp

lemma parse_u32_show_nat: "n \<le> u32_max \<Longrightarrow> parse_u32 (show_nat n) = Some n"
proof -
  assume n: "n \<le> u32_max"
  obtain c cs where s: "show_nat n = c # cs" by (meson show_nat_nonempty list.exhaust)
  then have "48 \<le> byte c" using show_nat_digits [of c n] by simp
  then have "c \<noteq> CHR ''+''" "c \<noteq> CHR ''-''" by (auto simp: byte_def)
  then show ?thesis
    using parse_digits_show_nat [OF n] by (simp add: parse_u32_def s del: parse_digits.simps)
qed

lemma parse_u32_bound: "parse_u32 s = Some v \<Longrightarrow> v \<le> u32_max"
  by (auto simp del: parse_digits.simps simp: parse_u32_def intro: parse_digits_bound [of 0]
      split: list.splits if_splits)

section \<open>Orderings and \<^verbatim>\<open>sort_by\<close>\<close>

datatype ordering = Less | Equal | Greater

definition ord_cmp :: "'a::linorder \<Rightarrow> 'a \<Rightarrow> ordering" where
  "ord_cmp a b = (if a < b then Less else if a = b then Equal else Greater)"

fun then_with :: "ordering \<Rightarrow> ordering \<Rightarrow> ordering" where
  "then_with Equal o2 = o2"
| "then_with o1 o2 = o1"

fun reverse_ordering :: "ordering \<Rightarrow> ordering" where
  "reverse_ordering Less = Greater"
| "reverse_ordering Equal = Equal"
| "reverse_ordering Greater = Less"

text \<open>\<^verbatim>\<open>slice::sort_by\<close> is a stable sort: equal elements keep their order.\<close>

fun insert_by :: "('a \<Rightarrow> 'a \<Rightarrow> ordering) \<Rightarrow> 'a \<Rightarrow> 'a list \<Rightarrow> 'a list" where
  "insert_by cmp x [] = [x]"
| "insert_by cmp x (y # ys) = (if cmp x y = Greater then y # insert_by cmp x ys else x # y # ys)"

definition sort_by :: "('a \<Rightarrow> 'a \<Rightarrow> ordering) \<Rightarrow> 'a list \<Rightarrow> 'a list" where
  "sort_by cmp xs = foldr (insert_by cmp) xs []"

lemma mset_insert_by [simp]: "mset (insert_by cmp x ys) = add_mset x (mset ys)"
  by (induction ys) auto

lemma mset_sort_by [simp]: "mset (sort_by cmp xs) = mset xs"
  by (induction xs) (auto simp: sort_by_def)

lemma set_sort_by [simp]: "set (sort_by cmp xs) = set xs"
  by (metis mset_sort_by set_mset_mset)

lemma length_sort_by [simp]: "length (sort_by cmp xs) = length xs"
  by (metis mset_sort_by size_mset)

text \<open>What a comparator promises: it is a total preorder read in both directions.\<close>

locale comparator =
  fixes cmp :: "'a \<Rightarrow> 'a \<Rightarrow> ordering"
  assumes cmp_reverse: "cmp y x = reverse_ordering (cmp x y)"
    and cmp_trans: "cmp x y \<noteq> Greater \<Longrightarrow> cmp y z \<noteq> Greater \<Longrightarrow> cmp x z \<noteq> Greater"
begin

definition le :: "'a \<Rightarrow> 'a \<Rightarrow> bool" where
  "le x y \<longleftrightarrow> cmp x y \<noteq> Greater"

lemma le_refl: "le x x"
  using cmp_reverse [of x x] by (cases "cmp x x") (auto simp: le_def)

lemma le_trans: "le x y \<Longrightarrow> le y z \<Longrightarrow> le x z"
  unfolding le_def by (rule cmp_trans)

lemma not_le: "\<not> le x y \<Longrightarrow> le y x"
  using cmp_reverse [of y x] by (cases "cmp x y") (auto simp: le_def)

lemma sorted_insert_by: "sorted_wrt le ys \<Longrightarrow> sorted_wrt le (insert_by cmp x ys)"
proof (induction ys)
  case Nil
  then show ?case by simp
next
  case (Cons y ys)
  have set: "set (insert_by cmp x ys) = insert x (set ys)"
    by (metis mset_insert_by set_mset_add_mset_insert set_mset_mset)
  show ?case
  proof (cases "cmp x y = Greater")
    case True
    then have "le y x" using not_le by (auto simp: le_def)
    with Cons True set show ?thesis by auto
  next
    case False
    then have "le x y" by (simp add: le_def)
    with Cons False show ?thesis by (auto intro: le_trans)
  qed
qed

lemma sorted_sort_by: "sorted_wrt le (sort_by cmp xs)"
  by (induction xs) (auto simp: sort_by_def intro: sorted_insert_by)

text \<open>A truncated sort keeps the best: nothing dropped precedes anything kept.\<close>

lemma sort_by_take_best:
  assumes "x \<in> set (take n (sort_by cmp xs))" and "y \<in> set (drop n (sort_by cmp xs))"
  shows "le x y"
proof -
  have "sorted_wrt le (take n (sort_by cmp xs) @ drop n (sort_by cmp xs))"
    by (simp add: sorted_sort_by)
  with assms show ?thesis by (auto simp only: sorted_wrt_append)
qed

text \<open>Without ties the sorted list is the only one, whatever the order of the input.\<close>

lemma sorted_unique:
  assumes "sorted_wrt le xs" and "sorted_wrt le ys" and "mset xs = mset ys"
    and "\<And>x y. x \<in> set xs \<Longrightarrow> y \<in> set xs \<Longrightarrow> cmp x y = Equal \<Longrightarrow> x = y"
  shows "xs = ys"
  using assms
proof (induction xs arbitrary: ys)
  case Nil
  then show ?case by simp
next
  case (Cons x xs)
  then obtain y ys' where ys: "ys = y # ys'" by (cases ys) auto
  have same: "set (x # xs) = set (y # ys')" using Cons.prems(3) ys by (metis set_mset_mset)
  have "x = y"
  proof (rule ccontr)
    assume "x \<noteq> y"
    with same Cons.prems(1,2) ys have "le x y" "le y x" "y \<in> set (x # xs)" by auto
    then have "cmp x y = Equal" using cmp_reverse [of x y] by (cases "cmp x y"; cases "cmp y x") (auto simp: le_def)
    with Cons.prems(4) \<open>y \<in> set (x # xs)\<close> \<open>x \<noteq> y\<close> show False by auto
  qed
  with Cons ys show ?case by auto
qed

lemma sort_by_canonical:
  assumes "mset xs = mset ys" and "\<And>x y. x \<in> set xs \<Longrightarrow> y \<in> set xs \<Longrightarrow> cmp x y = Equal \<Longrightarrow> x = y"
  shows "sort_by cmp xs = sort_by cmp ys"
  using assms by (intro sorted_unique sorted_sort_by) auto

end

text \<open>Comparators built from keys, by \<^verbatim>\<open>cmp\<close> and \<^verbatim>\<open>then_with\<close>, keep the promise.\<close>

lemma ord_cmp_simps [simp]:
  "ord_cmp a b = Less \<longleftrightarrow> a < b"
  "ord_cmp a b = Equal \<longleftrightarrow> a = b"
  "ord_cmp a b = Greater \<longleftrightarrow> b < a"
  by (auto simp: ord_cmp_def)

lemma ord_cmp_self [simp]: "ord_cmp a a = Equal"
  by simp

lemma then_with_simps [simp]:
  "then_with o1 o2 = Less \<longleftrightarrow> o1 = Less \<or> o1 = Equal \<and> o2 = Less"
  "then_with o1 o2 = Equal \<longleftrightarrow> o1 = Equal \<and> o2 = Equal"
  "then_with o1 o2 = Greater \<longleftrightarrow> o1 = Greater \<or> o1 = Equal \<and> o2 = Greater"
  by (cases o1; simp)+

lemma reverse_ordering_simps [simp]:
  "reverse_ordering o1 = Less \<longleftrightarrow> o1 = Greater"
  "reverse_ordering o1 = Equal \<longleftrightarrow> o1 = Equal"
  "reverse_ordering o1 = Greater \<longleftrightarrow> o1 = Less"
  by (cases o1; simp)+

lemma ordering_eqI: "(a = Less \<longleftrightarrow> b = Less) \<Longrightarrow> (a = Greater \<longleftrightarrow> b = Greater) \<Longrightarrow> (a :: ordering) = b"
  by (cases a; cases b) auto

text \<open>Comparators that compare a key, ascending or descending, and fall back on another.\<close>

lemma comparator_key: "comparator (\<lambda>x y. ord_cmp (f x) (f y :: 'b :: linorder))"
  by unfold_locales (rule ordering_eqI, auto)

lemma comparator_key_desc: "comparator (\<lambda>x y. ord_cmp (f y) (f x :: 'b :: linorder))"
  by unfold_locales (rule ordering_eqI, auto)

lemma comparator_then:
  assumes "comparator a" and "comparator b"
  shows "comparator (\<lambda>x y. then_with (a x y) (b x y))"
proof (unfold_locales, goal_cases)
  case (1 y x)
  show ?case
    using comparator.cmp_reverse [OF assms(1), of y x] comparator.cmp_reverse [OF assms(2), of y x]
    by (cases "a x y") auto
next
  case (2 x y z)
  have a: "a x z \<noteq> Greater"
    using 2 comparator.cmp_trans [OF assms(1), of x y z] by simp
  show ?case
  proof (cases "a x z = Equal")
    case True
    then have "a z x \<noteq> Greater" using comparator.cmp_reverse [OF assms(1), of z x] by simp
    then have "a z y \<noteq> Greater" and "a y x \<noteq> Greater"
      using 2 comparator.cmp_trans [OF assms(1)] by (metis then_with_simps(3))+
    then have "a x y = Equal" and "a y z = Equal"
      using 2 comparator.cmp_reverse [OF assms(1), of y x] comparator.cmp_reverse [OF assms(1), of z y]
      by (cases "a x y"; cases "a y z"; simp)+
    with 2 True show ?thesis using comparator.cmp_trans [OF assms(2), of x y z] by simp
  qed (use a in simp)
qed

section \<open>\<^verbatim>\<open>BTreeMap\<close> as a sorted association list\<close>

type_synonym ('k, 'v) btree_map = "('k \<times> 'v) list"

fun bt_get :: "('k::linorder, 'v) btree_map \<Rightarrow> 'k \<Rightarrow> 'v option" where
  "bt_get [] k = None"
| "bt_get ((k', v) # m) k = (if k = k' then Some v else bt_get m k)"

fun bt_insert :: "'k::linorder \<Rightarrow> 'v \<Rightarrow> ('k, 'v) btree_map \<Rightarrow> ('k, 'v) btree_map" where
  "bt_insert k v [] = [(k, v)]"
| "bt_insert k v ((k', v') # m) =
     (if k < k' then (k, v) # (k', v') # m
      else if k = k' then (k, v) # m
      else (k', v') # bt_insert k v m)"

fun bt_remove :: "'k::linorder \<Rightarrow> ('k, 'v) btree_map \<Rightarrow> ('k, 'v) btree_map" where
  "bt_remove k [] = []"
| "bt_remove k ((k', v') # m) = (if k = k' then m else (k', v') # bt_remove k m)"

definition bt_inv :: "('k::linorder, 'v) btree_map \<Rightarrow> bool" where
  "bt_inv m \<longleftrightarrow> sorted_wrt (<) (map fst m)"

lemma bt_get_None: "bt_get m k = None \<longleftrightarrow> k \<notin> fst ` set m"
  by (induction m k rule: bt_get.induct) auto

lemma bt_get_map_of: "bt_get m = map_of m"
proof
  fix k
  show "bt_get m k = map_of m k" by (induction m k rule: bt_get.induct) auto
qed

lemma bt_insert_keys [simp]: "fst ` set (bt_insert k v m) = insert k (fst ` set m)"
  by (induction k v m rule: bt_insert.induct) auto

lemma bt_insert_keys_list: "set (map fst (bt_insert k v m)) = insert k (set (map fst m))"
  by (simp add: image_image)

lemma bt_inv_insert: "bt_inv m \<Longrightarrow> bt_inv (bt_insert k v m)"
proof (induction k v m rule: bt_insert.induct)
  case (2 k v k' v' m)
  then have IH: "\<not> k < k' \<Longrightarrow> k \<noteq> k' \<Longrightarrow> sorted_wrt (<) (map fst (bt_insert k v m))"
    by (simp add: bt_inv_def)
  from "2.prems" have k': "\<forall>x \<in> set (map fst m). k' < x" and m: "sorted_wrt (<) (map fst m)"
    by (simp_all add: bt_inv_def)
  show ?case
  proof (cases k k' rule: linorder_cases)
    case less
    with k' m show ?thesis by (auto simp: bt_inv_def)
  next
    case equal
    with k' m show ?thesis by (simp add: bt_inv_def)
  next
    case greater
    then have "\<forall>x \<in> set (map fst (bt_insert k v m)). k' < x"
      using k' by (simp add: bt_insert_keys_list del: set_map)
    with greater IH show ?thesis by (auto simp: bt_inv_def)
  qed
qed (simp add: bt_inv_def)

lemma bt_remove_filter: "bt_inv m \<Longrightarrow> bt_remove k m = filter (\<lambda>p. fst p \<noteq> k) m"
proof (induction k m rule: bt_remove.induct)
  case (2 k k' v' m)
  have "k = k' \<Longrightarrow> filter (\<lambda>p. fst p \<noteq> k) m = m"
    using "2.prems" by (auto simp: bt_inv_def filter_id_conv)
  with "2" show ?case by (auto simp: bt_inv_def)
qed simp

lemma bt_inv_remove: "bt_inv m \<Longrightarrow> bt_inv (bt_remove k m)"
  by (simp add: bt_remove_filter) (simp add: bt_inv_def sorted_wrt_map sorted_wrt_filter)

lemma bt_get_insert: "bt_get (bt_insert k v m) k' = (if k' = k then Some v else bt_get m k')"
  by (induction k v m rule: bt_insert.induct) auto

lemma bt_get_remove: "bt_inv m \<Longrightarrow> bt_get (bt_remove k m) k' = (if k' = k then None else bt_get m k')"
  by (simp add: bt_remove_filter bt_get_map_of) (induction m; auto simp: bt_inv_def)

text \<open>
  The interface the clients of an ordered map rely on. The client facts
  read the map as a partial function.
\<close>

locale ordered_map =
  fixes get :: "'m \<Rightarrow> 'k \<Rightarrow> 'v option"
    and ins :: "'k \<Rightarrow> 'v \<Rightarrow> 'm \<Rightarrow> 'm"
    and del :: "'k \<Rightarrow> 'm \<Rightarrow> 'm"
    and inv :: "'m \<Rightarrow> bool"
  assumes get_ins: "inv m \<Longrightarrow> get (ins k v m) k' = (if k' = k then Some v else get m k')"
    and get_del: "inv m \<Longrightarrow> get (del k m) k' = (if k' = k then None else get m k')"
    and inv_ins: "inv m \<Longrightarrow> inv (ins k v m)"
    and inv_del: "inv m \<Longrightarrow> inv (del k m)"
begin

lemma get_ins_fun: "inv m \<Longrightarrow> get (ins k v m) = (get m)(k \<mapsto> v)"
  by (rule ext) (simp add: get_ins)

lemma get_del_fun: "inv m \<Longrightarrow> get (del k m) = (get m)(k := None)"
  by (rule ext) (simp add: get_del)

lemma dom_ins: "inv m \<Longrightarrow> dom (get (ins k v m)) = insert k (dom (get m))"
  by (simp add: get_ins_fun)

lemma dom_del: "inv m \<Longrightarrow> dom (get (del k m)) = dom (get m) - {k}"
  by (simp add: get_del_fun)

lemma ins_del_fresh: "inv m \<Longrightarrow> get m k = None \<Longrightarrow> get (del k (ins k v m)) = get m"
  by (rule ext) (auto simp: get_ins get_del inv_ins)

end

interpretation bt: ordered_map bt_get bt_insert bt_remove bt_inv
  by unfold_locales (simp_all add: bt_get_insert bt_get_remove bt_inv_insert bt_inv_remove)

lemma bt_inv_Nil [simp]: "bt_inv []"
  by (simp add: bt_inv_def)

lemma set_bt_insert_fresh: "bt_get m k = None \<Longrightarrow> set (bt_insert k v m) = insert (k, v) (set m)"
  by (induction k v m rule: bt_insert.induct) (auto split: if_splits)

lemma set_bt_remove: "bt_inv m \<Longrightarrow> set (bt_remove k m) = {e \<in> set m. fst e \<noteq> k}"
  by (simp add: bt_remove_filter)

lemma bt_remove_insert_fresh: "bt_get m k = None \<Longrightarrow> bt_remove k (bt_insert k v m) = m"
  by (induction k v m rule: bt_insert.induct) (auto split: if_splits)

lemma bt_get_in_set: "bt_get m k = Some v \<Longrightarrow> (k, v) \<in> set m"
  by (simp add: bt_get_map_of map_of_SomeD)

lemma bt_get_mem: "bt_inv m \<Longrightarrow> (k, v) \<in> set m \<Longrightarrow> bt_get m k = Some v"
proof -
  assume "bt_inv m" and "(k, v) \<in> set m"
  moreover from \<open>bt_inv m\<close> have "distinct (map fst m)"
    by (simp add: bt_inv_def strict_sorted_iff)
  ultimately show ?thesis by (simp add: bt_get_map_of)
qed

lemma bt_empty_iff: "bt_get m = Map.empty \<longleftrightarrow> m = []"
  by (simp add: bt_get_map_of)

section \<open>Interfaces shared by the components\<close>

text \<open>
  A label codec: the persisted or wire form of an enum. \<open>encode\<close> is the rendering,
  \<open>decode\<close> the parser with \<^term>\<open>None\<close> for a value outside the range.
\<close>

locale codec =
  fixes encode :: "'a \<Rightarrow> 'b" and decode :: "'b \<Rightarrow> 'a option"
  assumes decode_encode: "decode (encode x) = Some x"
    and decode_sound: "decode y = Some x \<Longrightarrow> encode x = y"
begin

lemma encode_inj: "encode x = encode x' \<Longrightarrow> x = x'"
  by (metis decode_encode option.inject)

lemma decode_iff: "decode y = Some x \<longleftrightarrow> y = encode x"
  using decode_encode decode_sound by blast

lemma decode_None_iff: "decode y = None \<longleftrightarrow> y \<notin> range encode"
  using decode_iff by (metis not_None_eq rangeE rangeI)

end

text \<open>
  A machine: a transition function and a state predicate every step keeps. Whatever
  sequence of operations the callers issue, the predicate holds at the end.
\<close>

locale machine =
  fixes step :: "'e \<Rightarrow> 's \<Rightarrow> 's" and inv :: "'s \<Rightarrow> bool"
  assumes step_inv: "inv s \<Longrightarrow> inv (step e s)"
begin

lemma run_inv: "inv s \<Longrightarrow> inv (fold step es s)"
  by (induction es arbitrary: s) (auto intro: step_inv)

end

text \<open>A machine with a measured quantity that no step lowers.\<close>

locale monotone_machine = machine step inv
  for step :: "'e \<Rightarrow> 's \<Rightarrow> 's" and inv :: "'s \<Rightarrow> bool" +
  fixes level :: "'s \<Rightarrow> nat"
  assumes step_level: "inv s \<Longrightarrow> level s \<le> level (step e s)"
begin

lemma run_level: "inv s \<Longrightarrow> level s \<le> level (fold step es s)"
proof (induction es arbitrary: s)
  case Nil
  then show ?case by simp
next
  case (Cons e es)
  then have "level (step e s) \<le> level (fold step es (step e s))"
    by (auto intro: step_inv)
  with step_level [OF Cons.prems, of e] show ?case by simp
qed

end

end
