(* ===== verification/Embedding_Protocol.thy ===== *)
theory Embedding_Protocol
  imports CS_Prelude
begin

text \<open>
  The wire structures of the per-user embedding server that its state and watchdog fill in,
  \<^verbatim>\<open>codestory-retrieval/src/per_user_embedding/protocol.rs\<close>, and the clock arithmetic of
  \<^verbatim>\<open>exchange.rs\<close>. Durations are nanoseconds; a \<^verbatim>\<open>u64\<close> is a natural number.
\<close>

definition PER_USER_EMBEDDING_SERVER_SNAPSHOT_SCHEMA_VERSION :: nat where
  "PER_USER_EMBEDDING_SERVER_SNAPSHOT_SCHEMA_VERSION = 1"

definition PER_USER_EMBEDDING_SERVER_IDLE_TIMEOUT_MS :: nat where
  "PER_USER_EMBEDDING_SERVER_IDLE_TIMEOUT_MS = 60000"

record EmbeddingServerClockSnapshot =
  ck_domain :: string
  ck_api :: string
  ck_boot_id :: string
  ck_resolution_ns :: nat

record EmbeddingServerProtocolSnapshot =
  pr_bootstrap_version :: nat
  pr_schema_version :: nat
  pr_protocol_sha256 :: string
  pr_constant_set_sha256 :: string
  pr_measurement_protocol_sha256 :: string

record EmbeddingServerAuthoritySnapshot =
  au_endpoint_namespace_id :: string
  au_lifetime_authority_id :: string
  au_listener_id :: string
  au_peer_verified :: bool

record EmbeddingServerProcessSnapshot =
  pc_server_instance_id :: string
  pc_pid :: nat
  pc_process_start_id :: string
  pc_executable_sha256 :: string
  pc_executable_version :: string

record EmbeddingServerActiveRequestSnapshot =
  aq_request_id :: string
  aq_scope_id :: string
  aq_class :: string
  aq_phase :: string
  aq_elapsed_ms :: nat

record EmbeddingServerSchedulerSnapshot =
  sc_query_capacity :: nat
  sc_query_depth :: nat
  sc_bulk_capacity :: nat
  sc_bulk_depth :: nat
  sc_connection_count :: nat
  sc_active_request_count :: nat
  sc_lease_count :: nat
  sc_active_request :: "EmbeddingServerActiveRequestSnapshot option"

record EmbeddingServerEngineSnapshot =
  es_engine_owner_id :: string
  es_native_worker_id :: string
  es_load_generation :: nat
  es_model_load_count :: nat
  es_successful_encode_count :: nat

record EmbeddingServerFailureSnapshot =
  fa_code :: string
  fa_retry_class :: string
  fa_retry_after_ms :: nat
  fa_retry_condition :: string

record EmbeddingServerSnapshot =
  sv_schema_version :: nat
  sv_event_sequence :: nat
  sv_lifecycle :: string
  sv_clock :: EmbeddingServerClockSnapshot
  sv_protocol :: EmbeddingServerProtocolSnapshot
  sv_authority :: EmbeddingServerAuthoritySnapshot
  sv_process :: EmbeddingServerProcessSnapshot
  sv_scheduler :: EmbeddingServerSchedulerSnapshot
  sv_engine :: "EmbeddingServerEngineSnapshot option"
  sv_failure :: "EmbeddingServerFailureSnapshot option"

record EmbeddingCapacityPressureWire =
  cw_reason :: string
  cw_queue_class :: string
  cw_capacity :: nat
  cw_depth :: nat
  cw_retry_after_ms :: nat
  cw_retry_condition :: string
  cw_owner_state :: string
  cw_active_scope_id :: "string option"
  cw_active_request_id :: "string option"
  cw_active_request_class :: "string option"

record EmbeddingProtocolError =
  pe_code :: string
  pe_message :: string
  pe_retry_class :: string
  pe_retry_after_ms :: nat
  pe_retry_condition :: string
  pe_capacity :: "EmbeddingCapacityPressureWire option"

record EmbeddingServerBudgets =
  bu_idle_timeout :: nat
  bu_native_no_progress :: nat
  bu_watchdog_poll :: nat

definition duration_ms :: "nat \<Rightarrow> nat" where
  "duration_ms duration = min (duration div 1000000) u64_max"

definition positive_duration_ms :: "nat \<Rightarrow> nat" where
  "positive_duration_ms duration = max (duration_ms duration) 1"

definition elapsed_since :: "nat \<Rightarrow> nat \<Rightarrow> nat" where
  "elapsed_since now_ns started_ns = sat_sub now_ns started_ns"

end
