(* ===== verification/Embedding_Admission.thy ===== *)
theory Embedding_Admission
  imports CS_Prelude
begin

text \<open>
  Native embedding admission, \<^verbatim>\<open>codestory-llama-sys/src/admission.rs\<close>: the request context
  with its atomic lifecycle cell and the tracker behind a mutex.

  An \<^verbatim>\<open>Arc\<close>-shared atomic is passed in and returned; each compare-exchange is one atomic
  step. A poisoned mutex is the flag \<open>tk_poisoned\<close>: the operations that write
  \<^verbatim>\<open>if let Ok(mut state) = lock()\<close> do nothing then, those that call \<^verbatim>\<open>into_inner\<close> go on.
\<close>

definition EMBEDDING_QUERY_QUEUE_CAPACITY :: nat where
  "EMBEDDING_QUERY_QUEUE_CAPACITY = 64"

definition EMBEDDING_BULK_QUEUE_CAPACITY :: nat where
  "EMBEDDING_BULK_QUEUE_CAPACITY = 64"

datatype EmbeddingRequestClass = Query | Bulk

fun request_class_as_str :: "EmbeddingRequestClass \<Rightarrow> string" where
  "request_class_as_str Query = ''query''"
| "request_class_as_str Bulk = ''bulk''"

datatype EmbeddingOwnerState = Unloaded | Waking | Ready | Sleeping | Draining

fun owner_state_as_str :: "EmbeddingOwnerState \<Rightarrow> string" where
  "owner_state_as_str Unloaded = ''unloaded''"
| "owner_state_as_str Waking = ''waking''"
| "owner_state_as_str Ready = ''ready''"
| "owner_state_as_str Sleeping = ''sleeping''"
| "owner_state_as_str Draining = ''draining''"

datatype EmbeddingCapacityReason = QueueFull | DeadlineElapsed | OwnerDraining | OwnerUnresponsive

fun capacity_reason_as_str :: "EmbeddingCapacityReason \<Rightarrow> string" where
  "capacity_reason_as_str QueueFull = ''queue_full''"
| "capacity_reason_as_str DeadlineElapsed = ''deadline_elapsed''"
| "capacity_reason_as_str OwnerDraining = ''owner_draining''"
| "capacity_reason_as_str OwnerUnresponsive = ''owner_unresponsive''"

record EmbeddingCapacityPressure =
  cp_reason :: EmbeddingCapacityReason
  cp_request_class :: EmbeddingRequestClass
  cp_capacity :: nat
  cp_depth :: nat
  cp_retry_after_ms :: nat
  cp_retry_condition :: string
  cp_owner_state :: EmbeddingOwnerState
  cp_active_scope_id :: "string option"
  cp_active_request_id :: "string option"
  cp_active_request_class :: "EmbeddingRequestClass option"

record EmbeddingActiveRequestSnapshot =
  as_request_id :: string
  as_scope_id :: string
  as_request_class :: EmbeddingRequestClass
  as_phase :: string

record EmbeddingAdmissionSnapshot =
  sn_owner_state :: EmbeddingOwnerState
  sn_query_capacity :: nat
  sn_query_depth :: nat
  sn_bulk_capacity :: nat
  sn_bulk_depth :: nat
  sn_active_request_count :: nat
  sn_lease_count :: nat
  sn_active_request :: "EmbeddingActiveRequestSnapshot option"
  sn_event_sequence :: nat
  sn_progress_sequence :: nat
  sn_query_progress_sequence :: nat
  sn_bulk_progress_sequence :: nat
  sn_completed_request_count :: nat
  sn_cancelled_request_count :: nat
  sn_failed_request_count :: nat

section \<open>The request context\<close>

datatype RequestLifecycle = Queued | Active | Committed | Cancelled

fun lifecycle_as_u8 :: "RequestLifecycle \<Rightarrow> 8 word" where
  "lifecycle_as_u8 Queued = 0"
| "lifecycle_as_u8 Active = 1"
| "lifecycle_as_u8 Committed = 2"
| "lifecycle_as_u8 Cancelled = 3"

record EmbeddingRequestContext =
  cx_request_id :: string
  cx_scope_id :: string
  cx_retry_after_ms :: nat
  cx_lifecycle :: "8 word"
  cx_completed_tokens :: nat

definition context_new :: "string \<Rightarrow> string \<Rightarrow> nat \<Rightarrow> EmbeddingRequestContext" where
  "context_new request_id scope_id retry_after_ms =
     \<lparr>cx_request_id = request_id, cx_scope_id = scope_id, cx_retry_after_ms = retry_after_ms,
      cx_lifecycle = lifecycle_as_u8 Queued, cx_completed_tokens = 0\<rparr>"

text \<open>\<^verbatim>\<open>AtomicU8::compare_exchange\<close>: the new cell, and the old value on failure.\<close>

definition compare_exchange :: "8 word \<Rightarrow> 8 word \<Rightarrow> 8 word \<Rightarrow> 8 word \<times> (8 word + unit)" where
  "compare_exchange current new cell =
     (if cell = current then (new, Inr ()) else (cell, Inl cell))"

text \<open>
  The loop of \<^verbatim>\<open>cancel\<close>. Its environment is the value of the cell at each weak
  compare-exchange and whether that attempt fails spuriously; the loop ends with the
  environment (\<^term>\<open>None\<close>: still spinning) or with a result and the value it wrote.
\<close>

fun cancel_loop :: "8 word \<Rightarrow> (8 word \<times> bool) list \<Rightarrow> (bool \<times> 8 word option) option" where
  "cancel_loop current env =
     (if current = lifecycle_as_u8 Committed \<or> current = lifecycle_as_u8 Cancelled
      then Some (False, None)
      else case env of [] \<Rightarrow> None
        | (cell, spurious) # rest \<Rightarrow>
            if cell = current \<and> \<not> spurious then Some (True, Some (lifecycle_as_u8 Cancelled))
            else cancel_loop cell rest)"

text \<open>\<^verbatim>\<open>cancel\<close> with no interference between its load and its compare-exchange.\<close>

definition context_cancel :: "EmbeddingRequestContext \<Rightarrow> EmbeddingRequestContext \<times> bool" where
  "context_cancel c =
     (case cancel_loop (cx_lifecycle c) [(cx_lifecycle c, False)] of
        Some (r, Some w) \<Rightarrow> (c\<lparr>cx_lifecycle := w\<rparr>, r)
      | Some (r, None) \<Rightarrow> (c, r)
      | None \<Rightarrow> (c, False))"

definition context_is_cancelled :: "EmbeddingRequestContext \<Rightarrow> bool" where
  "context_is_cancelled c \<longleftrightarrow> cx_lifecycle c = lifecycle_as_u8 Cancelled"

definition context_phase :: "EmbeddingRequestContext \<Rightarrow> string" where
  "context_phase c =
     (if cx_lifecycle c = lifecycle_as_u8 Queued then ''queued''
      else if cx_lifecycle c = lifecycle_as_u8 Active then ''native_execution''
      else if cx_lifecycle c = lifecycle_as_u8 Committed then ''committed''
      else if cx_lifecycle c = lifecycle_as_u8 Cancelled then ''cancelled''
      else ''invalid'')"

definition record_completed_tokens :: "nat \<Rightarrow> EmbeddingRequestContext \<Rightarrow> EmbeddingRequestContext" where
  "record_completed_tokens n c = c\<lparr>cx_completed_tokens := n\<rparr>"

definition context_activate :: "EmbeddingRequestContext \<Rightarrow> EmbeddingRequestContext \<times> bool" where
  "context_activate c =
     (case compare_exchange (lifecycle_as_u8 Queued) (lifecycle_as_u8 Active) (cx_lifecycle c) of
        (cell, r) \<Rightarrow> (c\<lparr>cx_lifecycle := cell\<rparr>, r = Inr ()))"

definition context_commit :: "EmbeddingRequestContext \<Rightarrow> EmbeddingRequestContext \<times> bool" where
  "context_commit c =
     (case compare_exchange (lifecycle_as_u8 Active) (lifecycle_as_u8 Committed) (cx_lifecycle c) of
        (cell, r) \<Rightarrow> (c\<lparr>cx_lifecycle := cell\<rparr>, r = Inr ()))"

section \<open>The tracker\<close>

record ActiveRequest =
  ar_context :: EmbeddingRequestContext
  ar_request_class :: EmbeddingRequestClass
  ar_phase :: string

record AdmissionState =
  ad_owner_state :: EmbeddingOwnerState
  ad_active :: "ActiveRequest list"
  ad_lease_count :: nat
  ad_event_sequence :: nat
  ad_progress_sequence :: nat
  ad_query_progress_sequence :: nat
  ad_bulk_progress_sequence :: nat
  ad_completed_request_count :: nat
  ad_cancelled_request_count :: nat
  ad_failed_request_count :: nat

definition AdmissionState_default :: AdmissionState where
  "AdmissionState_default =
     \<lparr>ad_owner_state = Waking, ad_active = [], ad_lease_count = 0, ad_event_sequence = 0,
      ad_progress_sequence = 0, ad_query_progress_sequence = 0, ad_bulk_progress_sequence = 0,
      ad_completed_request_count = 0, ad_cancelled_request_count = 0,
      ad_failed_request_count = 0\<rparr>"

record EmbeddingAdmissionTracker =
  tk_poisoned :: bool
  tk_state :: AdmissionState

definition tracker_default :: EmbeddingAdmissionTracker where
  "tracker_default = \<lparr>tk_poisoned = False, tk_state = AdmissionState_default\<rparr>"

text \<open>\<^verbatim>\<open>if let Ok(mut state) = self.state.lock()\<close>.\<close>

definition with_state ::
  "(AdmissionState \<Rightarrow> AdmissionState) \<Rightarrow> EmbeddingAdmissionTracker \<Rightarrow> EmbeddingAdmissionTracker" where
  "with_state f t = (if tk_poisoned t then t else t\<lparr>tk_state := f (tk_state t)\<rparr>)"

definition bump_admission_event :: "AdmissionState \<Rightarrow> AdmissionState" where
  "bump_admission_event st = st\<lparr>ad_event_sequence := sat_add64 (ad_event_sequence st) 1\<rparr>"

definition record_progress :: "EmbeddingRequestClass \<Rightarrow> AdmissionState \<Rightarrow> AdmissionState" where
  "record_progress c st =
     (let st1 = st\<lparr>ad_progress_sequence := sat_add64 (ad_progress_sequence st) 1\<rparr>
      in case c of
           Query \<Rightarrow> st1\<lparr>ad_query_progress_sequence := sat_add64 (ad_query_progress_sequence st1) 1\<rparr>
         | Bulk \<Rightarrow> st1\<lparr>ad_bulk_progress_sequence := sat_add64 (ad_bulk_progress_sequence st1) 1\<rparr>)"

definition tracker_set_owner_state ::
  "EmbeddingOwnerState \<Rightarrow> EmbeddingAdmissionTracker \<Rightarrow> EmbeddingAdmissionTracker" where
  "tracker_set_owner_state os = with_state (\<lambda>st. bump_admission_event (st\<lparr>ad_owner_state := os\<rparr>))"

definition tracker_cancelled :: "EmbeddingAdmissionTracker \<Rightarrow> EmbeddingAdmissionTracker" where
  "tracker_cancelled = with_state (\<lambda>st. bump_admission_event
     (st\<lparr>ad_cancelled_request_count := sat_add64 (ad_cancelled_request_count st) 1\<rparr>))"

definition tracker_begin ::
  "EmbeddingRequestContext \<Rightarrow> EmbeddingRequestClass \<Rightarrow> EmbeddingAdmissionTracker \<Rightarrow>
     EmbeddingAdmissionTracker \<times> EmbeddingRequestContext \<times> bool" where
  "tracker_begin context0 request_class t =
     (case context_activate context0 of
        (context1, False) \<Rightarrow> (tracker_cancelled t, context1, False)
      | (context1, True) \<Rightarrow>
          (with_state (\<lambda>st. record_progress request_class (bump_admission_event
             (st\<lparr>ad_active := ad_active st @
                [\<lparr>ar_context = context1, ar_request_class = request_class,
                  ar_phase = ''native_execution''\<rparr>]\<rparr>))) t,
           context1, True))"

definition tracker_progress ::
  "EmbeddingRequestClass \<Rightarrow> EmbeddingAdmissionTracker \<Rightarrow> EmbeddingAdmissionTracker" where
  "tracker_progress c = with_state (\<lambda>st. record_progress c (bump_admission_event st))"

text \<open>\<^verbatim>\<open>rposition\<close> and \<^verbatim>\<open>Vec::remove\<close>: the last entry of that request id, if any.\<close>

fun rposition :: "('a \<Rightarrow> bool) \<Rightarrow> 'a list \<Rightarrow> nat option" where
  "rposition P [] = None"
| "rposition P (x # xs) =
     (case rposition P xs of Some i \<Rightarrow> Some (Suc i) | None \<Rightarrow> if P x then Some 0 else None)"

definition vec_remove :: "nat \<Rightarrow> 'a list \<Rightarrow> 'a list" where
  "vec_remove i xs = take i xs @ drop (Suc i) xs"

definition tracker_finish ::
  "EmbeddingRequestContext \<Rightarrow> EmbeddingRequestClass \<Rightarrow> bool \<Rightarrow> bool \<Rightarrow> EmbeddingAdmissionTracker \<Rightarrow>
     EmbeddingAdmissionTracker \<times> nat" where
  "tracker_finish context0 request_class succeeded cancelled t =
     (if tk_poisoned t then (t, 0)
      else
        let st = tk_state t;
            st1 = (case rposition (\<lambda>a. cx_request_id (ar_context a) = cx_request_id context0) (ad_active st) of
                     Some index \<Rightarrow> st\<lparr>ad_active := vec_remove index (ad_active st)\<rparr>
                   | None \<Rightarrow> st);
            st2 = (if cancelled then st1\<lparr>ad_cancelled_request_count := sat_add64 (ad_cancelled_request_count st1) 1\<rparr>
                   else if succeeded then st1\<lparr>ad_completed_request_count := sat_add64 (ad_completed_request_count st1) 1\<rparr>
                   else st1\<lparr>ad_failed_request_count := sat_add64 (ad_failed_request_count st1) 1\<rparr>);
            st3 = record_progress request_class (bump_admission_event st2)
        in (t\<lparr>tk_state := st3\<rparr>, ad_completed_request_count st3))"

definition tracker_lease_acquired :: "EmbeddingAdmissionTracker \<Rightarrow> EmbeddingAdmissionTracker" where
  "tracker_lease_acquired = with_state (\<lambda>st. bump_admission_event
     (st\<lparr>ad_lease_count := sat_add64 (ad_lease_count st) 1\<rparr>))"

definition tracker_lease_released :: "EmbeddingAdmissionTracker \<Rightarrow> EmbeddingAdmissionTracker" where
  "tracker_lease_released = with_state (\<lambda>st. bump_admission_event
     (st\<lparr>ad_lease_count := sat_sub (ad_lease_count st) 1\<rparr>))"

definition last_opt :: "'a list \<Rightarrow> 'a option" where
  "last_opt xs = (if xs = [] then None else Some (last xs))"

definition tracker_pressure ::
  "EmbeddingCapacityReason \<Rightarrow> EmbeddingRequestClass \<Rightarrow> nat \<Rightarrow> nat \<Rightarrow> nat \<Rightarrow> string \<Rightarrow>
     EmbeddingAdmissionTracker \<Rightarrow> EmbeddingCapacityPressure" where
  "tracker_pressure reason request_class query_depth bulk_depth retry_after_ms retry_condition t =
     (let st = tk_state t;
          active = last_opt (ad_active st);
          (capacity, depth) = (case request_class of
              Query \<Rightarrow> (EMBEDDING_QUERY_QUEUE_CAPACITY, query_depth)
            | Bulk \<Rightarrow> (EMBEDDING_BULK_QUEUE_CAPACITY, bulk_depth))
      in \<lparr>cp_reason = reason, cp_request_class = request_class, cp_capacity = capacity,
          cp_depth = depth, cp_retry_after_ms = retry_after_ms,
          cp_retry_condition = retry_condition, cp_owner_state = ad_owner_state st,
          cp_active_scope_id = map_option (\<lambda>a. cx_scope_id (ar_context a)) active,
          cp_active_request_id = map_option (\<lambda>a. cx_request_id (ar_context a)) active,
          cp_active_request_class = map_option ar_request_class active\<rparr>)"

definition tracker_snapshot ::
  "nat \<Rightarrow> nat \<Rightarrow> EmbeddingAdmissionTracker \<Rightarrow> EmbeddingAdmissionSnapshot" where
  "tracker_snapshot query_depth bulk_depth t =
     (let st = tk_state t
      in \<lparr>sn_owner_state = ad_owner_state st,
          sn_query_capacity = EMBEDDING_QUERY_QUEUE_CAPACITY, sn_query_depth = query_depth,
          sn_bulk_capacity = EMBEDDING_BULK_QUEUE_CAPACITY, sn_bulk_depth = bulk_depth,
          sn_active_request_count = length (ad_active st), sn_lease_count = ad_lease_count st,
          sn_active_request = map_option (\<lambda>a.
             \<lparr>as_request_id = cx_request_id (ar_context a), as_scope_id = cx_scope_id (ar_context a),
              as_request_class = ar_request_class a, as_phase = ar_phase a\<rparr>)
             (last_opt (ad_active st)),
          sn_event_sequence = ad_event_sequence st,
          sn_progress_sequence = ad_progress_sequence st,
          sn_query_progress_sequence = ad_query_progress_sequence st,
          sn_bulk_progress_sequence = ad_bulk_progress_sequence st,
          sn_completed_request_count = ad_completed_request_count st,
          sn_cancelled_request_count = ad_cancelled_request_count st,
          sn_failed_request_count = ad_failed_request_count st\<rparr>)"

section \<open>The lifecycle cell\<close>

declare cancel_loop.simps [simp del]

lemmas lifecycle_defs = context_cancel_def context_activate_def context_commit_def
  compare_exchange_def cancel_loop.simps

text \<open>Committed and cancelled are final.\<close>

definition terminal_cell :: "8 word \<Rightarrow> bool" where
  "terminal_cell w \<longleftrightarrow> w = lifecycle_as_u8 Committed \<or> w = lifecycle_as_u8 Cancelled"

lemma context_cancel_eq:
  "context_cancel c = (if terminal_cell (cx_lifecycle c) then (c, False)
     else (c\<lparr>cx_lifecycle := lifecycle_as_u8 Cancelled\<rparr>, True))"
  by (simp add: lifecycle_defs terminal_cell_def)

lemma context_activate_eq:
  "context_activate c = (if cx_lifecycle c = 0 then (c\<lparr>cx_lifecycle := 1\<rparr>, True) else (c, False))"
  by (simp add: lifecycle_defs)

lemma context_commit_eq:
  "context_commit c = (if cx_lifecycle c = 1 then (c\<lparr>cx_lifecycle := 2\<rparr>, True) else (c, False))"
  by (simp add: lifecycle_defs)

datatype lifecycle_op = OpActivate | OpCommit | OpCancel

fun lifecycle_step :: "lifecycle_op \<Rightarrow> EmbeddingRequestContext \<Rightarrow> EmbeddingRequestContext \<times> bool" where
  "lifecycle_step OpActivate = context_activate"
| "lifecycle_step OpCommit = context_commit"
| "lifecycle_step OpCancel = context_cancel"

text \<open>How many commits and cancellations of a sequence of calls report success.\<close>

fun terminal_wins :: "lifecycle_op list \<Rightarrow> EmbeddingRequestContext \<Rightarrow> nat" where
  "terminal_wins [] c = 0"
| "terminal_wins (op # ops) c =
     (case lifecycle_step op c of (c', r) \<Rightarrow>
        (if r \<and> op \<noteq> OpActivate then 1 else 0) + terminal_wins ops c')"

fun lifecycle_run :: "lifecycle_op list \<Rightarrow> EmbeddingRequestContext \<Rightarrow> EmbeddingRequestContext" where
  "lifecycle_run [] c = c"
| "lifecycle_run (op # ops) c = lifecycle_run ops (fst (lifecycle_step op c))"

lemma terminal_absorbing:
  "terminal_cell (cx_lifecycle c) \<Longrightarrow> lifecycle_step op c = (c, False)"
  by (cases op) (auto simp: context_cancel_eq context_activate_eq context_commit_eq terminal_cell_def)

lemma terminal_win_is_terminal:
  "lifecycle_step op c = (c', True) \<Longrightarrow> op \<noteq> OpActivate \<Longrightarrow> terminal_cell (cx_lifecycle c')"
  by (cases op) (auto simp: context_cancel_eq context_commit_eq terminal_cell_def split: if_splits)

lemma terminal_wins_terminal: "terminal_cell (cx_lifecycle c) \<Longrightarrow> terminal_wins ops c = 0"
  by (induction ops) (auto simp: terminal_absorbing)

lemma lifecycle_run_terminal: "terminal_cell (cx_lifecycle c) \<Longrightarrow> lifecycle_run ops c = c"
  by (induction ops) (auto simp: terminal_absorbing)

lemma terminal_wins_le_1: "terminal_wins ops c \<le> 1"
proof (induction ops arbitrary: c)
  case Nil
  then show ?case by simp
next
  case (Cons op ops)
  obtain c' r where st: "lifecycle_step op c = (c', r)" by fastforce
  show ?case
  proof (cases "r \<and> op \<noteq> OpActivate")
    case True
    with st have "terminal_cell (cx_lifecycle c')" by (auto dest: terminal_win_is_terminal)
    with st True show ?thesis by (simp add: terminal_wins_terminal)
  next
    case False
    with st Cons.IH [of c'] show ?thesis by auto
  qed
qed

lemma cancel_loop_won:
  "cancel_loop current env = Some (True, w) \<Longrightarrow>
     w = Some (lifecycle_as_u8 Cancelled) \<and> (\<exists>cell. (cell, False) \<in> set env \<and> \<not> terminal_cell cell)"
proof (induction current env rule: cancel_loop.induct)
  case (1 current env)
  show ?case
  proof (cases env)
    case Nil
    with "1.prems" show ?thesis by (auto simp: cancel_loop.simps [of current] split: if_splits)
  next
    case (Cons a rest)
    with "1" show ?thesis
      by (cases a) (fastforce simp: cancel_loop.simps [of current] terminal_cell_def split: if_splits)
  qed
qed

lemma cancel_loop_lost:
  "cancel_loop current env = Some (False, w) \<Longrightarrow>
     w = None \<and> (\<exists>cell \<in> set (current # map fst env). terminal_cell cell)"
proof (induction current env rule: cancel_loop.induct)
  case (1 current env)
  show ?case
  proof (cases env)
    case Nil
    with "1.prems" show ?thesis
      by (auto simp: cancel_loop.simps [of current] terminal_cell_def split: if_splits)
  next
    case (Cons a rest)
    with "1" show ?thesis
      by (cases a) (fastforce simp: cancel_loop.simps [of current] terminal_cell_def split: if_splits)
  qed
qed

lemma cancel_loop_returns:
  "list_all (\<lambda>p. fst p = current) env \<Longrightarrow> list_ex (\<lambda>p. \<not> snd p) env \<Longrightarrow>
     cancel_loop current env \<noteq> None"
proof (induction env)
  case (Cons a env)
  then show ?case
    by (cases a) (auto simp: cancel_loop.simps [of current "(_, _) # env"])
qed simp

section \<open>The tracker as a machine\<close>

datatype tracker_op =
    TSetOwnerState EmbeddingOwnerState
  | TBegin EmbeddingRequestContext EmbeddingRequestClass
  | TProgress EmbeddingRequestClass
  | TFinish EmbeddingRequestContext EmbeddingRequestClass bool bool
  | TCancelled
  | TLeaseAcquired
  | TLeaseReleased

fun tracker_step :: "tracker_op \<Rightarrow> EmbeddingAdmissionTracker \<Rightarrow> EmbeddingAdmissionTracker" where
  "tracker_step (TSetOwnerState os) t = tracker_set_owner_state os t"
| "tracker_step (TBegin c k) t = fst (tracker_begin c k t)"
| "tracker_step (TProgress k) t = tracker_progress k t"
| "tracker_step (TFinish c k s x) t = fst (tracker_finish c k s x t)"
| "tracker_step TCancelled t = tracker_cancelled t"
| "tracker_step TLeaseAcquired t = tracker_lease_acquired t"
| "tracker_step TLeaseReleased t = tracker_lease_released t"

text \<open>
  What the sequences promise their readers (the watchdog and the status wire): the
  overall progress counts the progress of both classes, every progress is an event, an
  active entry was activated when it was pushed, and nothing exceeds its width.
\<close>

definition admission_inv :: "AdmissionState \<Rightarrow> bool" where
  "admission_inv st \<longleftrightarrow>
     ad_event_sequence st \<le> u64_max
   \<and> ad_progress_sequence st \<le> ad_event_sequence st
   \<and> ad_query_progress_sequence st \<le> u64_max
   \<and> ad_bulk_progress_sequence st \<le> u64_max
   \<and> ad_progress_sequence st = min (ad_query_progress_sequence st + ad_bulk_progress_sequence st) u64_max
   \<and> ad_lease_count st \<le> u64_max
   \<and> list_all (\<lambda>a. cx_lifecycle (ar_context a) = lifecycle_as_u8 Active \<and> ar_phase a = ''native_execution'')
       (ad_active st)"

definition tracker_inv :: "EmbeddingAdmissionTracker \<Rightarrow> bool" where
  "tracker_inv t \<longleftrightarrow> admission_inv (tk_state t)"

lemmas tracker_op_defs = tracker_set_owner_state_def tracker_begin_def tracker_progress_def
  tracker_cancelled_def tracker_lease_acquired_def tracker_lease_released_def
  tracker_finish_def with_state_def bump_admission_event_def

lemma list_all_vec_remove: "list_all P xs \<Longrightarrow> list_all P (vec_remove i xs)"
  by (auto simp: list_all_iff vec_remove_def dest: in_set_takeD in_set_dropD)

lemma admission_inv_event: "admission_inv st \<Longrightarrow> admission_inv (bump_admission_event st)"
  by (auto simp: admission_inv_def bump_admission_event_def sat_add64_def)

lemma admission_inv_event_progress:
  "admission_inv st \<Longrightarrow> admission_inv (record_progress c (bump_admission_event st))"
  by (cases c) (auto simp: admission_inv_def bump_admission_event_def record_progress_def
      sat_add64_def Let_def)

lemma admission_inv_frame [simp]:
  "admission_inv (st\<lparr>ad_owner_state := os\<rparr>) = admission_inv st"
  "admission_inv (st\<lparr>ad_completed_request_count := n\<rparr>) = admission_inv st"
  "admission_inv (st\<lparr>ad_cancelled_request_count := n\<rparr>) = admission_inv st"
  "admission_inv (st\<lparr>ad_failed_request_count := n\<rparr>) = admission_inv st"
  by (simp_all add: admission_inv_def)

lemma admission_inv_remove:
  "admission_inv st \<Longrightarrow> admission_inv (st\<lparr>ad_active := vec_remove i (ad_active st)\<rparr>)"
  by (simp add: admission_inv_def list_all_vec_remove)

lemma admission_inv_push:
  "admission_inv st \<Longrightarrow> cx_lifecycle c = 1 \<Longrightarrow>
   admission_inv (st\<lparr>ad_active := ad_active st @
     [\<lparr>ar_context = c, ar_request_class = k, ar_phase = ''native_execution''\<rparr>]\<rparr>)"
  by (simp add: admission_inv_def)

lemma admission_inv_lease:
  "admission_inv st \<Longrightarrow> admission_inv (st\<lparr>ad_lease_count := sat_add64 (ad_lease_count st) n\<rparr>)"
  "admission_inv st \<Longrightarrow> admission_inv (st\<lparr>ad_lease_count := sat_sub (ad_lease_count st) n\<rparr>)"
  by (auto simp: admission_inv_def)

lemma tracker_inv_with_state:
  "tracker_inv t \<Longrightarrow> (\<And>st. admission_inv st \<Longrightarrow> admission_inv (f st)) \<Longrightarrow> tracker_inv (with_state f t)"
  by (simp add: tracker_inv_def with_state_def)

lemmas admission_inv_intros = tracker_inv_with_state admission_inv_event_progress
  admission_inv_event admission_inv_remove admission_inv_push admission_inv_lease

lemma tracker_begin_inv: "tracker_inv t \<Longrightarrow> tracker_inv (fst (tracker_begin c k t))"
  by (auto simp: tracker_begin_def tracker_cancelled_def context_activate_eq
      intro!: admission_inv_intros)

lemma tracker_finish_inv: "tracker_inv t \<Longrightarrow> tracker_inv (fst (tracker_finish c k s x t))"
  by (auto simp: tracker_finish_def tracker_inv_def Let_def split: option.splits
      intro!: admission_inv_intros)

lemma tracker_step_inv: "tracker_inv t \<Longrightarrow> tracker_inv (tracker_step op t)"
  by (cases op) (auto simp: tracker_begin_inv tracker_finish_inv tracker_set_owner_state_def
      tracker_progress_def tracker_cancelled_def tracker_lease_acquired_def
      tracker_lease_released_def simp del: sat_sub_eq intro!: admission_inv_intros)

lemma tracker_inv_default: "tracker_inv tracker_default"
  by (simp add: tracker_inv_def admission_inv_def tracker_default_def AdmissionState_default_def)

lemma ad_event_record_progress [simp]:
  "ad_event_sequence (record_progress c st) = ad_event_sequence st"
  by (cases c) (simp_all add: record_progress_def Let_def)

lemma tracker_step_event:
  "ad_event_sequence (tk_state (tracker_step op t)) =
     (if tk_poisoned t then ad_event_sequence (tk_state t)
      else sat_add64 (ad_event_sequence (tk_state t)) 1)"
  by (cases op) (auto simp: tracker_op_defs context_activate_eq Let_def split: option.splits)

interpretation tracker: monotone_machine tracker_step tracker_inv "\<lambda>t. ad_event_sequence (tk_state t)"
proof
  show "tracker_inv t \<Longrightarrow> tracker_inv (tracker_step op t)" for op t
    by (rule tracker_step_inv)
  show "tracker_inv t \<Longrightarrow> ad_event_sequence (tk_state t) \<le> ad_event_sequence (tk_state (tracker_step op t))"
    for op t
    by (simp only: tracker_step_event) (simp add: tracker_inv_def admission_inv_def sat_add64_ge)
qed

lemma rposition_snoc: "P x \<Longrightarrow> rposition P (xs @ [x]) = Some (length xs)"
  by (induction xs) auto

lemma vec_remove_snoc: "vec_remove (length xs) (xs @ [x]) = xs"
  by (simp add: vec_remove_def)

lemma ad_active_record_progress [simp]: "ad_active (record_progress c st) = ad_active st"
  by (cases c) (simp_all add: record_progress_def Let_def)

section \<open>Properties\<close>

text \<open>C20: of all commits and cancellations of a request, in any order, at most one reports
  success, and after it nothing changes the request any more.\<close>

theorem one_terminal_outcome:
  "terminal_wins ops c \<le> 1 \<and> (lifecycle_step op c = (c', True) \<and> op \<noteq> OpActivate \<longrightarrow> lifecycle_run ops c' = c')"
  using terminal_wins_le_1 [of ops c] lifecycle_run_terminal [of c' ops] terminal_win_is_terminal [of op c c']
  by blast

theorem one_terminal_outcome_witness:
  "lifecycle_run [OpCancel, OpActivate, OpCommit] (context_new ''r'' ''s'' 0\<lparr>cx_lifecycle := 2\<rparr>)
     = context_new ''r'' ''s'' 0\<lparr>cx_lifecycle := 2\<rparr>"
  using one_terminal_outcome [of "[OpCancel, OpActivate, OpCommit]" "context_new ''r'' ''s'' 0\<lparr>cx_lifecycle := 1\<rparr>" OpCommit
      "context_new ''r'' ''s'' 0\<lparr>cx_lifecycle := 2\<rparr>"]
  by (simp add: context_commit_eq context_new_def)

text \<open>C21: the compare-exchange loop of a cancellation, against every interference of other
  threads and every spurious failure: it reports success only for the write it made over a
  non-terminal cell, and failure only after it saw a terminal one; it cannot spin when the
  cell stands still and one exchange is not spurious.\<close>

theorem cancel_loop_linearizes:
  "(cancel_loop current env = Some (True, w) \<longrightarrow>
      w = Some (lifecycle_as_u8 Cancelled) \<and> (\<exists>cell. (cell, False) \<in> set env \<and> \<not> terminal_cell cell))
   \<and> (cancel_loop current env = Some (False, w) \<longrightarrow>
      w = None \<and> (\<exists>cell. cell \<in> set (current # map fst env) \<and> terminal_cell cell))
   \<and> (list_all (\<lambda>p. fst p = current) env \<and> list_ex (\<lambda>p. \<not> snd p) env \<longrightarrow> cancel_loop current env \<noteq> None)"
  using cancel_loop_won [of current env w] cancel_loop_lost [of current env w] cancel_loop_returns [of current env]
  by blast

theorem cancel_loop_linearizes_witness:
  "cancel_loop 0 [(0, True), (0, False)] \<noteq> None"
  using cancel_loop_linearizes [of 0 "[(0, True), (0, False)]" None] by simp

text \<open>Along every sequence of tracker operations the counters keep what their readers rely
  on: overall progress is the progress of both classes, no progress without an event, every
  active entry was activated, and the event counter never falls.\<close>

theorem tracker_run_invariant:
  "tracker_inv (fold tracker_step ops tracker_default)
   \<and> ad_event_sequence (tk_state (fold tracker_step ops tracker_default))
       \<le> ad_event_sequence (tk_state (fold tracker_step (ops @ later) tracker_default))"
  using tracker.run_inv [OF tracker_inv_default, of ops]
    tracker.run_level [OF tracker.run_inv [OF tracker_inv_default, of ops], of later] by simp

end
