(* ===== verification/Engine_Queue.thy ===== *)
theory Engine_Queue
  imports Embedding_Admission
begin

text \<open>
  The native engine's queues and schedulers, \<^verbatim>\<open>codestory-llama-sys/src/lib.rs\<close>: the
  cancellable bounded queues, the fair class scheduler, the residency tracker with its
  control messages, submission, draining and the batching of tokenised inputs.

  Request contexts are shared (\<^verbatim>\<open>Arc\<close>), and a client may cancel one while it is queued, so
  a request names its context by reference and the operations take the current context
  store. The wake-up channel is \<^verbatim>\<open>bounded(1)\<close>: a flag. Responses are returned in the order
  they are sent. Time is nanoseconds of a monotonic clock.
\<close>

datatype EngineError =
    ModelNotEmbedded
  | ModelCache string
  | ModelRequestMismatch string string
  | InvalidConfiguration string
  | BackendNotCompiled string string
  | BackendUnavailable string
  | SoftwareAdapter string
  | AcceleratorExecutionUnverified string
  | Llama string
  | EmptyInput
  | InputTooLong nat nat
  | WorkerUnavailable string
  | Dimension nat nat
  | AdmissionFull EmbeddingCapacityPressure
  | EngineCancelled

fun reason_code :: "EngineError \<Rightarrow> string" where
  "reason_code ModelNotEmbedded = ''native_model_not_embedded''"
| "reason_code (ModelCache _) = ''native_model_cache_error''"
| "reason_code (ModelRequestMismatch _ _) = ''native_model_request_mismatch''"
| "reason_code (InvalidConfiguration _) = ''native_engine_config_invalid''"
| "reason_code (BackendNotCompiled _ _) = ''native_backend_not_compiled''"
| "reason_code (BackendUnavailable _) = ''native_backend_unavailable''"
| "reason_code (SoftwareAdapter _) = ''native_software_adapter_rejected''"
| "reason_code (AcceleratorExecutionUnverified _) = ''native_accelerator_execution_unverified''"
| "reason_code (Llama _) = ''native_engine_initialization_failed''"
| "reason_code EmptyInput = ''native_embedding_input_empty''"
| "reason_code (InputTooLong _ _) = ''native_embedding_input_too_long''"
| "reason_code (WorkerUnavailable _) = ''native_engine_worker_unavailable''"
| "reason_code (Dimension _ _) = ''native_embedding_dimension_mismatch''"
| "reason_code (AdmissionFull _) = ''embedding_admission_full''"
| "reason_code EngineCancelled = ''embedding_request_cancelled''"

text \<open>The \<^verbatim>\<open>Display\<close> its attributes derive.\<close>

fun engine_display :: "EngineError \<Rightarrow> string" where
  "engine_display ModelNotEmbedded = ''the CodeStory executable was built without its embedded embedding model''"
| "engine_display (ModelCache e) = ''embedding model cache error: '' @ e"
| "engine_display (ModelRequestMismatch requested compiled) =
     ''requested model `'' @ requested @ ''` does not match compiled model `'' @ compiled @ ''`''"
| "engine_display (InvalidConfiguration reason) = ''native engine configuration is invalid: '' @ reason"
| "engine_display (BackendNotCompiled requested compiled) =
     ''requested backend `'' @ requested @ ''` is not compiled into this binary; compiled backends: '' @ compiled"
| "engine_display (BackendUnavailable requested) =
     ''requested backend `'' @ requested @ ''` is not available in the loaded native runtime''"
| "engine_display (SoftwareAdapter a) = ''software adapter `'' @ a @ ''` was rejected by the native backend request''"
| "engine_display (AcceleratorExecutionUnverified a) = ''the loaded model did not prove execution on `'' @ a @ ''`''"
| "engine_display (Llama e) = ''llama.cpp initialization failed: '' @ e"
| "engine_display EmptyInput = ''embedding input is empty''"
| "engine_display (InputTooLong actual maximum) =
     ''embedding input contains '' @ show_nat actual @ '' tokens; maximum is '' @ show_nat maximum"
| "engine_display (WorkerUnavailable e) = ''embedding engine worker unavailable: '' @ e"
| "engine_display (Dimension expected actual) =
     ''llama.cpp returned '' @ show_nat actual @ '' dimensions; expected '' @ show_nat expected"
| "engine_display (AdmissionFull p) =
     ''embedding '' @ request_class_as_str (cp_request_class p) @ '' queue is full (depth='' @ show_nat (cp_depth p)
     @ '' capacity='' @ show_nat (cp_capacity p) @ ''); retry when '' @ cp_retry_condition p"
| "engine_display EngineCancelled = ''embedding request was cancelled before its result committed''"

definition capacity_pressure :: "EngineError \<Rightarrow> EmbeddingCapacityPressure option" where
  "capacity_pressure e = (case e of AdmissionFull p \<Rightarrow> Some p | _ \<Rightarrow> None)"

type_synonym ctx_ref = nat
type_synonym ctx_store = "ctx_ref \<Rightarrow> EmbeddingRequestContext"

record EmbeddingRequest =
  rq_context :: ctx_ref
  rq_inputs :: "string list"

record CancellableRequestQueue =
  cq_capacity :: nat
  cq_requests :: "EmbeddingRequest list"
  cq_signal :: bool

definition queue_new :: "nat \<Rightarrow> CancellableRequestQueue" where
  "queue_new capacity = \<lparr>cq_capacity = capacity, cq_requests = [], cq_signal = False\<rparr>"

definition request_cancelled :: "ctx_store \<Rightarrow> EmbeddingRequest \<Rightarrow> bool" where
  "request_cancelled cs r \<longleftrightarrow> context_is_cancelled (cs (rq_context r))"

text \<open>The \<^verbatim>\<open>while let\<close> of \<^verbatim>\<open>prune_cancelled\<close>: retained requests, tracker, responses sent.\<close>

fun prune_cancelled ::
  "ctx_store \<Rightarrow> EmbeddingRequest list \<Rightarrow> EmbeddingAdmissionTracker \<Rightarrow>
     EmbeddingRequest list \<times> EmbeddingAdmissionTracker \<times> (ctx_ref \<times> EngineError) list" where
  "prune_cancelled cs [] t = ([], t, [])"
| "prune_cancelled cs (r # rs) t =
     (if request_cancelled cs r then
        (case prune_cancelled cs rs (tracker_cancelled t) of
           (retained, t', out) \<Rightarrow> (retained, t', (rq_context r, EngineCancelled) # out))
      else
        (case prune_cancelled cs rs t of (retained, t', out) \<Rightarrow> (r # retained, t', out)))"

definition queue_try_push ::
  "ctx_store \<Rightarrow> EmbeddingRequest \<Rightarrow> CancellableRequestQueue \<Rightarrow> EmbeddingAdmissionTracker \<Rightarrow>
     CancellableRequestQueue \<times> EmbeddingAdmissionTracker \<times> (ctx_ref \<times> EngineError) list \<times>
     (EmbeddingRequest + unit)" where
  "queue_try_push cs r q t =
     (case prune_cancelled cs (cq_requests q) t of
        (requests, t', out) \<Rightarrow>
          if length requests \<ge> cq_capacity q
          then (q\<lparr>cq_requests := requests\<rparr>, t', out, Inl r)
          else (q\<lparr>cq_requests := requests @ [r], cq_signal := True\<rparr>, t', out, Inr ()))"

definition queue_try_pop ::
  "ctx_store \<Rightarrow> CancellableRequestQueue \<Rightarrow> EmbeddingAdmissionTracker \<Rightarrow>
     CancellableRequestQueue \<times> EmbeddingAdmissionTracker \<times> (ctx_ref \<times> EngineError) list \<times>
     EmbeddingRequest option" where
  "queue_try_pop cs q t =
     (case prune_cancelled cs (cq_requests q) t of
        (requests, t', out) \<Rightarrow>
          (case requests of
             [] \<Rightarrow> (q\<lparr>cq_requests := []\<rparr>, t', out, None)
           | r # rest \<Rightarrow>
               (q\<lparr>cq_requests := rest, cq_signal := (cq_signal q \<or> rest \<noteq> [])\<rparr>, t', out, Some r)))"

definition queue_depth :: "ctx_store \<Rightarrow> CancellableRequestQueue \<Rightarrow> nat" where
  "queue_depth cs q = length (filter (\<lambda>r. \<not> request_cancelled cs r) (cq_requests q))"

section \<open>The fair scheduler\<close>

text \<open>\<^verbatim>\<open>RequestPriority\<close> has the variants of \<^verbatim>\<open>EmbeddingRequestClass\<close>.\<close>

datatype RequestPriority = PriorityQuery | PriorityBulk

fun priority_request_class :: "RequestPriority \<Rightarrow> EmbeddingRequestClass" where
  "priority_request_class PriorityQuery = Query"
| "priority_request_class PriorityBulk = Bulk"

record FairRequestScheduler =
  next_when_both_ready :: RequestPriority

definition scheduler_default :: FairRequestScheduler where
  "scheduler_default = \<lparr>next_when_both_ready = PriorityQuery\<rparr>"

definition record_served :: "RequestPriority \<Rightarrow> FairRequestScheduler \<Rightarrow> FairRequestScheduler" where
  "record_served p s = s\<lparr>next_when_both_ready :=
     (case p of PriorityQuery \<Rightarrow> PriorityBulk | PriorityBulk \<Rightarrow> PriorityQuery)\<rparr>"

record engine_queues =
  eq_query :: CancellableRequestQueue
  eq_bulk :: CancellableRequestQueue
  eq_tracker :: EmbeddingAdmissionTracker
  eq_responses :: "(ctx_ref \<times> EngineError) list"

definition pop_class ::
  "ctx_store \<Rightarrow> RequestPriority \<Rightarrow> engine_queues \<Rightarrow> engine_queues \<times> EmbeddingRequest option" where
  "pop_class cs p e =
     (case p of
        PriorityQuery \<Rightarrow> (case queue_try_pop cs (eq_query e) (eq_tracker e) of
            (q, t, out, r) \<Rightarrow> (e\<lparr>eq_query := q, eq_tracker := t, eq_responses := eq_responses e @ out\<rparr>, r))
      | PriorityBulk \<Rightarrow> (case queue_try_pop cs (eq_bulk e) (eq_tracker e) of
            (q, t, out, r) \<Rightarrow> (e\<lparr>eq_bulk := q, eq_tracker := t, eq_responses := eq_responses e @ out\<rparr>, r)))"

text \<open>The \<^verbatim>\<open>for priority in priorities\<close> loop: the first class with a live request wins.\<close>

fun pop_first ::
  "ctx_store \<Rightarrow> RequestPriority list \<Rightarrow> FairRequestScheduler \<Rightarrow> engine_queues \<Rightarrow>
     FairRequestScheduler \<times> engine_queues \<times> (EmbeddingRequest \<times> RequestPriority) option" where
  "pop_first cs [] s e = (s, e, None)"
| "pop_first cs (p # ps) s e =
     (case pop_class cs p e of
        (e', Some r) \<Rightarrow> (record_served p s, e', Some (r, p))
      | (e', None) \<Rightarrow> pop_first cs ps s e')"

definition scheduler_try_pop ::
  "ctx_store \<Rightarrow> FairRequestScheduler \<Rightarrow> engine_queues \<Rightarrow>
     FairRequestScheduler \<times> engine_queues \<times> (EmbeddingRequest \<times> RequestPriority) option" where
  "scheduler_try_pop cs s e =
     (let priorities = (case next_when_both_ready s of
            PriorityQuery \<Rightarrow> [PriorityQuery, PriorityBulk]
          | PriorityBulk \<Rightarrow> [PriorityBulk, PriorityQuery])
      in pop_first cs priorities s e)"

section \<open>Submission and draining\<close>

definition engine_admission_snapshot :: "ctx_store \<Rightarrow> engine_queues \<Rightarrow> EmbeddingAdmissionSnapshot" where
  "engine_admission_snapshot cs e =
     tracker_snapshot (queue_depth cs (eq_query e)) (queue_depth cs (eq_bulk e)) (eq_tracker e)"

definition engine_begin_draining_if_idle :: "ctx_store \<Rightarrow> engine_queues \<Rightarrow> engine_queues \<times> bool" where
  "engine_begin_draining_if_idle cs e =
     (let snapshot = engine_admission_snapshot cs e
      in if sn_query_depth snapshot \<noteq> 0 \<or> sn_bulk_depth snapshot \<noteq> 0
            \<or> sn_active_request_count snapshot \<noteq> 0 \<or> sn_lease_count snapshot \<noteq> 0
         then (e, False)
         else (e\<lparr>eq_tracker := tracker_set_owner_state Draining (eq_tracker e)\<rparr>, True))"

text \<open>
  \<^verbatim>\<open>submit\<close>: an empty input list is answered at once with no vectors and never queued;
  \<open>Inr True\<close> is a queued request, \<open>Inr False\<close> an answered one.
\<close>

definition engine_submit ::
  "ctx_store \<Rightarrow> ctx_ref \<Rightarrow> string list \<Rightarrow> RequestPriority \<Rightarrow> engine_queues \<Rightarrow>
     engine_queues \<times> (EngineError + bool)" where
  "engine_submit cs ref inputs p e =
     (if inputs = [] then (e, Inr False)
      else
        let request = \<lparr>rq_context = ref, rq_inputs = inputs\<rparr>;
            queue = (case p of PriorityQuery \<Rightarrow> eq_query e | PriorityBulk \<Rightarrow> eq_bulk e)
        in case queue_try_push cs request queue (eq_tracker e) of
             (q, t, out, res) \<Rightarrow>
               let e1 = e\<lparr>eq_tracker := t, eq_responses := eq_responses e @ out\<rparr>;
                   e2 = (case p of PriorityQuery \<Rightarrow> e1\<lparr>eq_query := q\<rparr> | PriorityBulk \<Rightarrow> e1\<lparr>eq_bulk := q\<rparr>)
               in case res of
                    Inr _ \<Rightarrow> (e2, Inr True)
                  | Inl _ \<Rightarrow> (e2, Inl (AdmissionFull (tracker_pressure QueueFull (priority_request_class p)
                       (queue_depth cs (eq_query e2)) (queue_depth cs (eq_bulk e2))
                       (cx_retry_after_ms (cs ref))
                       ''a queued request completes, is cancelled, or the server instance changes''
                       (eq_tracker e2)))))"

section \<open>Residency\<close>

record ResidencyTracker =
  rt_idle_timeout :: nat
  rt_last_activity :: nat
  rt_leases :: nat

definition residency_new :: "nat \<Rightarrow> nat \<Rightarrow> ResidencyTracker" where
  "residency_new idle_timeout now =
     \<lparr>rt_idle_timeout = idle_timeout, rt_last_activity = now, rt_leases = 0\<rparr>"

definition complete_activity :: "nat \<Rightarrow> ResidencyTracker \<Rightarrow> ResidencyTracker" where
  "complete_activity now t = t\<lparr>rt_last_activity := now\<rparr>"

definition acquire_lease :: "ResidencyTracker \<Rightarrow> ResidencyTracker" where
  "acquire_lease t = t\<lparr>rt_leases := rt_leases t + 1\<rparr>"

definition release_lease :: "nat \<Rightarrow> ResidencyTracker \<Rightarrow> ResidencyTracker" where
  "release_lease now t = t\<lparr>rt_leases := sat_sub (rt_leases t) 1, rt_last_activity := now\<rparr>"

definition residency_remaining :: "nat \<Rightarrow> ResidencyTracker \<Rightarrow> nat" where
  "residency_remaining now t =
     (if rt_leases t > 0 then rt_idle_timeout t
      else sat_sub (rt_idle_timeout t) (sat_sub now (rt_last_activity t)))"

definition should_sleep :: "nat \<Rightarrow> ResidencyTracker \<Rightarrow> bool" where
  "should_sleep now t \<longleftrightarrow>
     rt_leases t = 0 \<and> sat_sub now (rt_last_activity t) \<ge> rt_idle_timeout t"

text \<open>
  Control messages. The flag of \<open>CtlAcquireLease\<close> says whether the requester still holds the
  receiving end: \<^verbatim>\<open>grant_residency_lease\<close> counts a lease only if its response was sent.
\<close>

datatype Control = CtlShutdown | CtlEnsureResident | CtlAcquireLease bool | CtlReleaseLease

datatype resident_outcome = RunShutdown | RunSleeping

definition grant_residency_lease :: "bool \<Rightarrow> ResidencyTracker \<Rightarrow> ResidencyTracker" where
  "grant_residency_lease delivered t = (if delivered then acquire_lease t else t)"

fun handle_resident_control ::
  "nat \<Rightarrow> Control \<Rightarrow> ResidencyTracker \<Rightarrow> ResidencyTracker \<times> resident_outcome option" where
  "handle_resident_control now CtlShutdown t = (t, Some RunShutdown)"
| "handle_resident_control now CtlEnsureResident t = (complete_activity now t, None)"
| "handle_resident_control now (CtlAcquireLease delivered) t = (grant_residency_lease delivered t, None)"
| "handle_resident_control now CtlReleaseLease t = (release_lease now t, None)"

section \<open>Batching\<close>

text \<open>The loop of \<^verbatim>\<open>batch_end\<close>; the accumulator is \<open>tokens\<close>.\<close>

function batch_end_loop :: "'a list list \<Rightarrow> nat \<Rightarrow> nat \<Rightarrow> nat \<Rightarrow> nat \<Rightarrow> nat \<Rightarrow> nat" where
  "batch_end_loop tokenized offset max_batch_sequences batch_tokens stop tokens =
     (if stop < length tokenized \<and> stop - offset < max_batch_sequences then
        let next = length (tokenized ! stop)
        in if stop > offset \<and> tokens + next > batch_tokens then stop
           else batch_end_loop tokenized offset max_batch_sequences batch_tokens (stop + 1) (tokens + next)
      else stop)"
  by pat_completeness auto
termination
  by (relation "measure (\<lambda>(tokenized, _, _, _, stop, _). length tokenized - stop)") auto

declare batch_end_loop.simps [simp del]

definition batch_end :: "'a list list \<Rightarrow> nat \<Rightarrow> nat \<Rightarrow> nat \<Rightarrow> nat" where
  "batch_end tokenized offset max_batch_sequences batch_tokens =
     batch_end_loop tokenized offset max_batch_sequences batch_tokens offset 0"

text \<open>
  The slices \<^verbatim>\<open>tokenized[offset..end]\<close> that the \<^verbatim>\<open>while offset < tokenized.len()\<close> loop of
  \<^verbatim>\<open>embed_inputs\<close> hands to the native encoder, for a request that is never cancelled. With
  \<^verbatim>\<open>max_batch_sequences = 0\<close> the loop would not advance; \<^term>\<open>None\<close> is not returning.
\<close>

partial_function (option) batch_slices ::
  "nat \<Rightarrow> nat \<Rightarrow> 'a list list \<Rightarrow> nat \<Rightarrow> 'a list list list option" where
  "batch_slices max_batch_sequences batch_tokens tokenized offset =
     (if offset < length tokenized then
        let stop = batch_end tokenized offset max_batch_sequences batch_tokens
        in Option.bind (batch_slices max_batch_sequences batch_tokens tokenized stop)
             (\<lambda>rest. Some (take (stop - offset) (drop offset tokenized) # rest))
      else Some [])"

section \<open>The queue as a bounded FIFO of live requests\<close>

text \<open>
  What a bounded FIFO promises, stated on the list of elements still wanted. The client
  fact: pops come out in the order of that list.
\<close>

locale bounded_fifo =
  fixes live :: "'q \<Rightarrow> 'r list"
    and limit :: "'q \<Rightarrow> nat"
    and push :: "'r \<Rightarrow> 'q \<Rightarrow> 'q \<times> bool"
    and pop :: "'q \<Rightarrow> 'q \<times> 'r option"
    and wanted :: "'r \<Rightarrow> bool"
  assumes push_full: "limit q \<le> length (live q) \<Longrightarrow> \<exists>q'. push r q = (q', False) \<and> live q' = live q \<and> limit q' = limit q"
    and push_room: "length (live q) < limit q \<Longrightarrow> wanted r \<Longrightarrow>
      \<exists>q'. push r q = (q', True) \<and> live q' = live q @ [r] \<and> limit q' = limit q"
    and pop_Nil: "live q = [] \<Longrightarrow> \<exists>q'. pop q = (q', None) \<and> live q' = [] \<and> limit q' = limit q"
    and pop_Cons: "live q = r # rs \<Longrightarrow> \<exists>q'. pop q = (q', Some r) \<and> live q' = rs \<and> limit q' = limit q"
begin

fun drain :: "nat \<Rightarrow> 'q \<Rightarrow> 'r list" where
  "drain 0 q = []"
| "drain (Suc n) q = (case pop q of (q', None) \<Rightarrow> [] | (q', Some r) \<Rightarrow> r # drain n q')"

lemma drain_live: "length (live q) \<le> n \<Longrightarrow> drain n q = live q"
proof (induction n arbitrary: q)
  case (Suc n)
  show ?case
  proof (cases "live q")
    case Nil
    with pop_Nil [of q] show ?thesis by auto
  next
    case (Cons r rs)
    with pop_Cons [of q] obtain q' where "pop q = (q', Some r)" "live q' = rs" by blast
    with Suc Cons show ?thesis by simp
  qed
qed simp

lemma push_accepts_iff: "wanted r \<Longrightarrow> snd (push r q) \<longleftrightarrow> length (live q) < limit q"
  using push_full [of q r] push_room [of q r] by (cases "length (live q) < limit q") auto

lemma push_within_limit: "wanted r \<Longrightarrow> length (live q) \<le> limit q \<Longrightarrow>
    length (live (fst (push r q))) \<le> limit (fst (push r q))"
  using push_full [of q r] push_room [of q r] by (cases "length (live q) < limit q") auto

end

definition queue_live :: "ctx_store \<Rightarrow> CancellableRequestQueue \<Rightarrow> EmbeddingRequest list" where
  "queue_live cs q = filter (\<lambda>r. \<not> request_cancelled cs r) (cq_requests q)"

lemma prune_cancelled_live:
  "fst (prune_cancelled cs rs t) = filter (\<lambda>r. \<not> request_cancelled cs r) rs"
  by (induction cs rs t rule: prune_cancelled.induct) (auto split: prod.splits)

lemma prune_cancelled_responses:
  "snd (snd (prune_cancelled cs rs t)) =
     map (\<lambda>r. (rq_context r, EngineCancelled)) (filter (request_cancelled cs) rs)"
  by (induction cs rs t rule: prune_cancelled.induct) (auto split: prod.splits)

lemma prune_cancelled_tracker:
  "fst (snd (prune_cancelled cs rs t)) = (tracker_cancelled ^^ length (filter (request_cancelled cs) rs)) t"
  by (induction cs rs t rule: prune_cancelled.induct)
    (auto split: prod.splits simp: funpow_swap1)

lemma filter_not_idem [simp]: "filter (\<lambda>r. \<not> P r) (filter (\<lambda>r. \<not> P r) xs) = filter (\<lambda>r. \<not> P r) xs"
  by simp

definition queue_push_view ::
  "ctx_store \<Rightarrow> EmbeddingAdmissionTracker \<Rightarrow> EmbeddingRequest \<Rightarrow> CancellableRequestQueue \<Rightarrow>
     CancellableRequestQueue \<times> bool" where
  "queue_push_view cs t r q = (case queue_try_push cs r q t of (q', _, _, res) \<Rightarrow> (q', res = Inr ()))"

definition queue_pop_view ::
  "ctx_store \<Rightarrow> EmbeddingAdmissionTracker \<Rightarrow> CancellableRequestQueue \<Rightarrow>
     CancellableRequestQueue \<times> EmbeddingRequest option" where
  "queue_pop_view cs t q = (case queue_try_pop cs q t of (q', _, _, res) \<Rightarrow> (q', res))"

lemma queue_push_view_eq:
  "queue_push_view cs t r q =
     (if cq_capacity q \<le> length (queue_live cs q)
      then (q\<lparr>cq_requests := queue_live cs q\<rparr>, False)
      else (q\<lparr>cq_requests := queue_live cs q @ [r], cq_signal := True\<rparr>, True))"
  using prune_cancelled_live [of cs "cq_requests q" t]
  by (auto simp: queue_push_view_def queue_try_push_def queue_live_def split: prod.splits)

lemma queue_pop_view_eq:
  "queue_pop_view cs t q =
     (case queue_live cs q of
        [] \<Rightarrow> (q\<lparr>cq_requests := []\<rparr>, None)
      | r # rest \<Rightarrow> (q\<lparr>cq_requests := rest, cq_signal := (cq_signal q \<or> rest \<noteq> [])\<rparr>, Some r))"
  using prune_cancelled_live [of cs "cq_requests q" t]
  by (auto simp: queue_pop_view_def queue_try_pop_def queue_live_def split: prod.splits list.splits)

lemma queue_live_upd [simp]:
  "queue_live cs (q\<lparr>cq_requests := rs\<rparr>) = filter (\<lambda>r. \<not> request_cancelled cs r) rs"
  "queue_live cs (q\<lparr>cq_signal := b\<rparr>) = queue_live cs q"
  by (simp_all add: queue_live_def)

lemma queue_live_live [simp]:
  "filter (\<lambda>r. \<not> request_cancelled cs r) (queue_live cs q) = queue_live cs q"
  by (simp add: queue_live_def)

lemma filter_tail_live: "queue_live cs q = r # rest \<Longrightarrow> filter (\<lambda>r. \<not> request_cancelled cs r) rest = rest"
proof -
  assume "queue_live cs q = r # rest"
  moreover have "\<forall>x \<in> set (queue_live cs q). \<not> request_cancelled cs x"
    by (auto simp: queue_live_def)
  ultimately show ?thesis by (simp add: filter_id_conv)
qed

interpretation cq: bounded_fifo "queue_live cs" cq_capacity "queue_push_view cs t" "queue_pop_view cs t"
  "\<lambda>r. \<not> request_cancelled cs r" for cs t
  by unfold_locales (auto simp: queue_push_view_eq queue_pop_view_eq filter_tail_live)

section \<open>Fairness\<close>

definition class_live :: "ctx_store \<Rightarrow> RequestPriority \<Rightarrow> engine_queues \<Rightarrow> EmbeddingRequest list" where
  "class_live cs p e = queue_live cs (case p of PriorityQuery \<Rightarrow> eq_query e | PriorityBulk \<Rightarrow> eq_bulk e)"

fun other_priority :: "RequestPriority \<Rightarrow> RequestPriority" where
  "other_priority PriorityQuery = PriorityBulk"
| "other_priority PriorityBulk = PriorityQuery"

lemma other_other [simp]: "other_priority (other_priority p) = p"
  by (cases p) simp_all

lemma other_neq [simp]: "other_priority p \<noteq> p" "p \<noteq> other_priority p"
  by (cases p; simp)+

lemma record_served_other: "next_when_both_ready (record_served p s) = other_priority p"
  by (cases p) (simp_all add: record_served_def)

lemma queue_try_pop_view:
  "queue_try_pop cs q t = (q', t', out, res) \<Longrightarrow> queue_pop_view cs t q = (q', res)"
  by (simp add: queue_pop_view_def)

lemma pop_class_live:
  assumes "pop_class cs p e = (e', res)"
  shows "res = (case class_live cs p e of [] \<Rightarrow> None | r # _ \<Rightarrow> Some r)"
    and "class_live cs p e' = tl (class_live cs p e)"
    and "class_live cs (other_priority p) e' = class_live cs (other_priority p) e"
  using assms
  by (cases p; auto simp: pop_class_def class_live_def queue_pop_view_eq filter_tail_live
      dest!: queue_try_pop_view split: prod.splits list.splits)+

lemma scheduler_try_pop_priorities:
  "scheduler_try_pop cs s e =
     pop_first cs [next_when_both_ready s, other_priority (next_when_both_ready s)] s e"
  by (cases "next_when_both_ready s") (simp_all add: scheduler_try_pop_def)

text \<open>One pop: the preferred class if it has a live request, otherwise the other class.\<close>

lemma scheduler_try_pop_preferred:
  assumes "class_live cs (next_when_both_ready s) e = r # rest"
  shows "\<exists>e'. scheduler_try_pop cs s e =
      (record_served (next_when_both_ready s) s, e', Some (r, next_when_both_ready s))
     \<and> class_live cs (next_when_both_ready s) e' = rest
     \<and> class_live cs (other_priority (next_when_both_ready s)) e' =
        class_live cs (other_priority (next_when_both_ready s)) e"
proof -
  obtain e' res where p: "pop_class cs (next_when_both_ready s) e = (e', res)" by fastforce
  from pop_class_live [OF p] assms p show ?thesis
    by (auto simp: scheduler_try_pop_priorities)
qed

lemma scheduler_try_pop_other:
  assumes "class_live cs (next_when_both_ready s) e = []"
  shows "\<exists>e'. (case class_live cs (other_priority (next_when_both_ready s)) e of
      [] \<Rightarrow> scheduler_try_pop cs s e = (s, e', None)
    | r # rest \<Rightarrow> scheduler_try_pop cs s e =
        (record_served (other_priority (next_when_both_ready s)) s, e',
         Some (r, other_priority (next_when_both_ready s))))
    \<and> class_live cs (next_when_both_ready s) e' = []
    \<and> class_live cs (other_priority (next_when_both_ready s)) e' =
       tl (class_live cs (other_priority (next_when_both_ready s)) e)"
proof -
  let ?p = "next_when_both_ready s"
  obtain e1 res1 where p1: "pop_class cs ?p e = (e1, res1)" by fastforce
  obtain e2 res2 where p2: "pop_class cs (other_priority ?p) e1 = (e2, res2)" by fastforce
  from pop_class_live [OF p1] assms have 1: "res1 = None" "class_live cs ?p e1 = []"
    "class_live cs (other_priority ?p) e1 = class_live cs (other_priority ?p) e" by simp_all
  from pop_class_live [OF p2] 1 show ?thesis
    by (intro exI [of _ e2]) (auto simp: scheduler_try_pop_priorities p1 p2 split: list.split)
qed

section \<open>Batches\<close>

text \<open>
  The loop invariant of \<^verbatim>\<open>batch_end\<close>: it never moves back, never passes the end or the
  sequence limit, and every slice longer than one sequence fits the token budget.
\<close>

lemma batch_end_loop_bounds:
  assumes "offset \<le> stop" "stop \<le> length ts" "stop - offset \<le> m"
  shows "stop \<le> batch_end_loop ts offset m k stop n \<and>
     batch_end_loop ts offset m k stop n \<le> length ts \<and>
     batch_end_loop ts offset m k stop n - offset \<le> m"
  using assms
proof (induction ts offset m k stop n rule: batch_end_loop.induct)
  case (1 ts offset m k stop n)
  then show ?case
    by (subst (1 2 3) batch_end_loop.simps) (auto simp: Let_def Suc_diff_le)
qed

lemma batch_end_loop_tokens:
  assumes "offset \<le> stop" "stop \<le> length ts"
    and "n = sum_list (map length (take (stop - offset) (drop offset ts)))"
    and "stop - offset \<le> 1 \<or> n \<le> k"
    and "e = batch_end_loop ts offset m k stop n"
  shows "e - offset \<le> 1 \<or> sum_list (map length (take (e - offset) (drop offset ts))) \<le> k"
  using assms
proof (induction ts offset m k stop n rule: batch_end_loop.induct)
  case (1 ts offset m k stop n)
  show ?case
  proof (cases "stop < length ts \<and> stop - offset < m \<and> \<not> (offset < stop \<and> k < n + length (ts ! stop))")
    case False
    then have "e = stop" using "1.prems"(5) by (auto simp: batch_end_loop.simps [of ts offset m k stop n] Let_def)
    with "1.prems" show ?thesis by simp
  next
    case True
    have take: "take (Suc stop - offset) (drop offset ts) = take (stop - offset) (drop offset ts) @ [ts ! stop]"
    proof -
      have "stop - offset < length (drop offset ts)" and "offset \<le> stop"
        using True "1.prems"(1) by auto
      then show ?thesis by (simp add: Suc_diff_le take_Suc_conv_app_nth)
    qed
    have e: "e = batch_end_loop ts offset m k (stop + 1) (n + length (ts ! stop))"
      using True "1.prems"(5) by (auto simp: batch_end_loop.simps [of ts offset m k stop n] Let_def)
    have n: "n + length (ts ! stop) = sum_list (map length (take (stop + 1 - offset) (drop offset ts)))"
      using take "1.prems"(3) by simp
    have k: "stop + 1 - offset \<le> 1 \<or> n + length (ts ! stop) \<le> k"
      using True by auto
    show ?thesis
      by (rule "1.IH") (use True "1.prems"(1) e n k in auto)
  qed
qed

lemma batch_end_progress:
  "offset < length ts \<Longrightarrow> 0 < m \<Longrightarrow> offset < batch_end ts offset m k"
proof -
  assume a: "offset < length ts" "0 < m"
  have "Suc offset \<le> batch_end_loop ts offset m k (Suc offset) (length (ts ! offset))"
    using batch_end_loop_bounds [of offset "Suc offset" ts m k] a by simp
  with a show ?thesis
    by (simp add: batch_end_def batch_end_loop.simps [of ts offset m k offset])
qed

lemmas batch_end_bounds = batch_end_loop_bounds [of offset offset ts m k 0 for offset ts m k,
    folded batch_end_def, simplified]

lemma batch_end_tokens:
  "offset \<le> length ts \<Longrightarrow> batch_end ts offset m k - offset \<le> 1 \<or>
     sum_list (map length (take (batch_end ts offset m k - offset) (drop offset ts))) \<le> k"
  by (rule batch_end_loop_tokens [of offset offset]) (simp_all add: batch_end_def)

lemma batch_slices_correct:
  assumes "0 < m"
  shows "\<exists>bs. batch_slices m k ts offset = Some bs \<and> concat bs = drop offset ts \<and>
     (\<forall>b \<in> set bs. 0 < length b \<and> length b \<le> m \<and> (length b = 1 \<or> sum_list (map length b) \<le> k))"
proof (induction "length ts - offset" arbitrary: offset rule: less_induct)
  case less
  show ?case
  proof (cases "offset < length ts")
    case False
    then show ?thesis by (subst batch_slices.simps) simp
  next
    case True
    let ?e = "batch_end ts offset m k"
    let ?b = "take (?e - offset) (drop offset ts)"
    have e: "offset < ?e" "?e \<le> length ts" "?e - offset \<le> m"
      using batch_end_progress [OF True assms] batch_end_bounds [of offset ts m k] True by simp_all
    with less [of ?e] True obtain bs where bs: "batch_slices m k ts ?e = Some bs"
      "concat bs = drop ?e ts"
      "\<forall>b \<in> set bs. 0 < length b \<and> length b \<le> m \<and> (length b = 1 \<or> sum_list (map length b) \<le> k)"
      by fastforce
    have "?b @ drop ?e ts = drop offset ts"
      using e by (metis append_take_drop_id drop_drop le_add_diff_inverse2 less_imp_le)
    moreover have "length ?b = ?e - offset" using e by simp
    moreover from this e have "length ?b = 1 \<or> sum_list (map length ?b) \<le> k"
      using batch_end_tokens [of offset ts m k] True by auto
    ultimately show ?thesis
      using True bs e by (subst batch_slices.simps) (auto simp: Let_def)
  qed
qed

section \<open>Residency\<close>

lemma residency_remaining_zero:
  "rt_leases t = 0 \<Longrightarrow> residency_remaining now t = 0 \<longleftrightarrow> should_sleep now t"
  by (auto simp: residency_remaining_def should_sleep_def)

lemma residency_released_fresh:
  "should_sleep now' (release_lease now t) \<Longrightarrow> rt_idle_timeout t \<le> now' - now"
  by (simp add: should_sleep_def release_lease_def)

section \<open>Properties\<close>



text \<open>C32: no class starves: when both classes wait, two consecutive pops serve the oldest live
  request of each, the preferred class first.\<close>

theorem scheduler_serves_both:
  assumes "class_live cs (next_when_both_ready s) e = r # rs"
    and "class_live cs (other_priority (next_when_both_ready s)) e = r' # rs'"
  shows "\<exists>s1 e1 s2 e2. scheduler_try_pop cs s e = (s1, e1, Some (r, next_when_both_ready s))
     \<and> scheduler_try_pop cs s1 e1 = (s2, e2, Some (r', other_priority (next_when_both_ready s)))"
proof -
  let ?p = "next_when_both_ready s"
  from scheduler_try_pop_preferred [OF assms(1)] assms(2) obtain e1 where
    1: "scheduler_try_pop cs s e = (record_served ?p s, e1, Some (r, ?p))"
      "class_live cs (other_priority ?p) e1 = r' # rs'" by auto
  then show ?thesis
    using scheduler_try_pop_preferred [of cs "record_served ?p s" e1 r' rs'] by (auto simp: record_served_other)
qed

definition sample_queues :: engine_queues where
  "sample_queues = \<lparr>eq_query = (queue_new 2)\<lparr>cq_requests := [\<lparr>rq_context = 0, rq_inputs = [''q'']\<rparr>]\<rparr>,
     eq_bulk = (queue_new 2)\<lparr>cq_requests := [\<lparr>rq_context = 1, rq_inputs = [''b'']\<rparr>]\<rparr>,
     eq_tracker = tracker_default, eq_responses = []\<rparr>"

theorem scheduler_serves_both_witness:
  "\<exists>s1 e1 s2 e2. scheduler_try_pop (\<lambda>_. context_new ''r'' ''s'' 0) scheduler_default sample_queues
       = (s1, e1, Some (\<lparr>rq_context = 0, rq_inputs = [''q'']\<rparr>, PriorityQuery))
     \<and> scheduler_try_pop (\<lambda>_. context_new ''r'' ''s'' 0) s1 e1
       = (s2, e2, Some (\<lparr>rq_context = 1, rq_inputs = [''b'']\<rparr>, PriorityBulk))"
  using scheduler_serves_both [of "\<lambda>_. context_new ''r'' ''s'' 0" scheduler_default sample_queues]
  by (simp add: scheduler_default_def sample_queues_def class_live_def queue_live_def queue_new_def
      request_cancelled_def context_is_cancelled_def context_new_def)

text \<open>C34: the batching loop of an embedding call ends, and its slices are the tokenized inputs in
  order, none empty, none over the sequence limit, and over the token budget only when a single
  input alone is.\<close>

theorem batches_partition_inputs:
  assumes "0 < max_batch_sequences"
  shows "\<exists>bs. batch_slices max_batch_sequences batch_tokens tokenized 0 = Some bs \<and> concat bs = tokenized
     \<and> list_all (\<lambda>b. 0 < length b \<and> length b \<le> max_batch_sequences
          \<and> (length b = 1 \<or> sum_list (map length b) \<le> batch_tokens)) bs"
  using batch_slices_correct [OF assms, of batch_tokens tokenized 0] by (auto simp: list_all_iff)

theorem batches_partition_inputs_witness:
  "\<exists>bs. batch_slices 2 3 [[1], [2, 3], [4::nat], [5, 6, 7, 8]] 0 = Some bs \<and> concat bs = [[1], [2, 3], [4], [5, 6, 7, 8]]"
  using batches_partition_inputs [of 2 3 "[[1], [2, 3], [4::nat], [5, 6, 7, 8]]"] by auto

text \<open>The model sleeps only with no lease held and the whole idle window passed since the last
  activity; the wait the worker computes is zero exactly then, and releasing a lease starts the
  window anew.\<close>

theorem residency_sleeps_only_idle:
  "(should_sleep now t \<longleftrightarrow> rt_leases t = 0 \<and> rt_idle_timeout t \<le> now - rt_last_activity t)
   \<and> (rt_leases t = 0 \<longrightarrow> (residency_remaining now t = 0 \<longleftrightarrow> should_sleep now t))
   \<and> (should_sleep later (release_lease now t) \<longrightarrow> rt_leases t \<le> 1 \<and> rt_idle_timeout t \<le> later - now)"
  using residency_remaining_zero [of t now] residency_released_fresh [of later now t]
  by (auto simp: should_sleep_def release_lease_def)

theorem residency_sleeps_only_idle_witness:
  "should_sleep 70 (release_lease 5 (acquire_lease (residency_new 60 0)))"
  using residency_sleeps_only_idle [of 70 "release_lease 5 (acquire_lease (residency_new 60 0))" 70]
  by (simp add: release_lease_def acquire_lease_def residency_new_def)

end
