(* ===== verification/Embedding_Wire.thy ===== *)
theory Embedding_Wire
  imports Embedding_Protocol Engine_Queue
begin

text \<open>
  Frames of the per-user embedding protocol: \<^verbatim>\<open>write_frame\<close>, \<^verbatim>\<open>read_frame\<close> and the
  vector payloads of \<^verbatim>\<open>per_user_embedding/exchange.rs\<close>, and the incremental reader of
  \<^verbatim>\<open>server/frame.rs\<close>.

  JSON (\<^verbatim>\<open>serde_json\<close>) is a pair of parameters, a serializer and a parser, each of which
  may fail. A connection is the bytes the peer has sent, what follows them (the end of the stream
  or an error), the bytes written so far and the call at which writing fails, if any. An
  \<^verbatim>\<open>f32\<close> is its bit pattern, which is all \<^verbatim>\<open>to_le_bytes\<close> and \<^verbatim>\<open>from_le_bytes\<close>
  look at.
\<close>

type_synonym octet = "8 word"
type_synonym bytes = "octet list"

definition PER_USER_EMBEDDING_MAX_DOCUMENT_COUNT :: nat where
  "PER_USER_EMBEDDING_MAX_DOCUMENT_COUNT = 2048"

definition PER_USER_EMBEDDING_MAX_INPUT_BYTES :: nat where
  "PER_USER_EMBEDDING_MAX_INPUT_BYTES = 1024 * 1024"

definition PER_USER_EMBEDDING_MAX_METADATA_BYTES :: nat where
  "PER_USER_EMBEDDING_MAX_METADATA_BYTES = 16 * 1024 * 1024"

definition PER_USER_EMBEDDING_MAX_PAYLOAD_BYTES :: nat where
  "PER_USER_EMBEDDING_MAX_PAYLOAD_BYTES = 16 * 1024 * 1024"

definition RETRIEVAL_EMBEDDING_DIM :: nat where
  "RETRIEVAL_EMBEDDING_DIM = 768"

section \<open>Errors\<close>

datatype io_kind =
    TimedOut | WouldBlock | BrokenPipe | ConnectionAborted | ConnectionReset | NotConnected
  | UnexpectedEof | OtherKind string

text \<open>An \<^verbatim>\<open>io::Error\<close>: its kind, its OS code and the \<^verbatim>\<open>io::Error\<close> it wraps, if any.\<close>

datatype io_error = IoError (io_error_kind: io_kind) (io_raw_os_error: "int option") (io_inner: "io_error option")

record PerUserEmbeddingError =
  ue_code :: string
  ue_message :: string
  ue_retry_class :: string
  ue_retry_after_ms :: nat
  ue_retry_condition :: string
  ue_capacity :: "EmbeddingCapacityPressureWire option"

text \<open>
  An \<^verbatim>\<open>anyhow::Error\<close>: its chain of messages, outermost first, the first I/O error in
  the chain, and the typed errors that \<^verbatim>\<open>downcast_ref\<close> can find in it.
\<close>

record any_error =
  ae_chain :: "string list"
  ae_io :: "io_error option"
  ae_typed :: "PerUserEmbeddingError option"
  ae_engine :: "EngineError option"

definition bail :: "string \<Rightarrow> any_error" where
  "bail msg = \<lparr>ae_chain = [msg], ae_io = None, ae_typed = None, ae_engine = None\<rparr>"

definition io_context :: "string \<Rightarrow> io_error \<Rightarrow> any_error" where
  "io_context ctx e = \<lparr>ae_chain = [ctx], ae_io = Some e, ae_typed = None, ae_engine = None\<rparr>"

definition msg_context :: "string \<Rightarrow> string \<Rightarrow> any_error" where
  "msg_context ctx msg = \<lparr>ae_chain = [ctx, msg], ae_io = None, ae_typed = None, ae_engine = None\<rparr>"

definition engine_error :: "EngineError \<Rightarrow> any_error" where
  "engine_error e = \<lparr>ae_chain = [engine_display e], ae_io = None, ae_typed = None, ae_engine = Some e\<rparr>"

text \<open>\<^verbatim>\<open>to_string\<close> of an \<^verbatim>\<open>anyhow::Error\<close>: its outermost message.\<close>

definition error_message :: "any_error \<Rightarrow> string" where
  "error_message err = (case ae_chain err of [] \<Rightarrow> [] | m # _ \<Rightarrow> m)"

section \<open>Connections\<close>

record connection =
  cn_incoming :: bytes
  cn_read_end :: "io_error option"
  cn_written :: bytes
  cn_write_fault :: "(nat \<times> io_error) option"

definition read_exact :: "nat \<Rightarrow> connection \<Rightarrow> io_error + bytes \<times> connection" where
  "read_exact n c =
     (if n \<le> length (cn_incoming c)
      then Inr (take n (cn_incoming c), c\<lparr>cn_incoming := drop n (cn_incoming c)\<rparr>)
      else Inl (case cn_read_end c of Some e \<Rightarrow> e | None \<Rightarrow> IoError UnexpectedEof None None))"

definition write_all :: "bytes \<Rightarrow> connection \<Rightarrow> io_error + connection" where
  "write_all bs c =
     (case cn_write_fault c of
        None \<Rightarrow> Inr (c\<lparr>cn_written := cn_written c @ bs\<rparr>)
      | Some (0, e) \<Rightarrow> Inl e
      | Some (Suc k, e) \<Rightarrow> Inr (c\<lparr>cn_written := cn_written c @ bs, cn_write_fault := Some (k, e)\<rparr>))"

definition flush :: "connection \<Rightarrow> io_error + connection" where
  "flush = write_all []"

definition to_be_bytes :: "nat \<Rightarrow> bytes" where
  "to_be_bytes n = [of_nat (n div 2 ^ 24), of_nat (n div 2 ^ 16), of_nat (n div 2 ^ 8), of_nat n]"

definition from_be_bytes :: "bytes \<Rightarrow> nat" where
  "from_be_bytes bs = foldl (\<lambda>acc b. acc * 256 + unat b) 0 bs"

section \<open>Frames\<close>

definition write_frame ::
  "('t \<Rightarrow> string + bytes) \<Rightarrow> 't \<Rightarrow> bytes \<Rightarrow> connection \<Rightarrow> any_error + connection" where
  "write_frame ser control0 payload c =
     (case ser control0 of
        Inl msg \<Rightarrow> Inl (msg_context ''serialize embedding protocol frame'' msg)
      | Inr control \<Rightarrow>
          if length control > PER_USER_EMBEDDING_MAX_METADATA_BYTES
             \<or> length payload > PER_USER_EMBEDDING_MAX_PAYLOAD_BYTES
          then Inl (bail ''embedding_server_frame_too_large'')
          else case write_all (to_be_bytes (length control mod 2 ^ 32)) c of
            Inl e \<Rightarrow> Inl (io_context ''write embedding control length'' e)
          | Inr c1 \<Rightarrow> (case write_all (to_be_bytes (length payload mod 2 ^ 32)) c1 of
            Inl e \<Rightarrow> Inl (io_context ''write embedding payload length'' e)
          | Inr c2 \<Rightarrow> (case write_all control c2 of
            Inl e \<Rightarrow> Inl (io_context ''write embedding control frame'' e)
          | Inr c3 \<Rightarrow> (case write_all payload c3 of
            Inl e \<Rightarrow> Inl (io_context ''write embedding payload frame'' e)
          | Inr c4 \<Rightarrow> (case flush c4 of
            Inl e \<Rightarrow> Inl (io_context ''flush embedding protocol frame'' e)
          | Inr c5 \<Rightarrow> Inr c5)))))"

definition frame_lengths_invalid :: "nat \<Rightarrow> nat \<Rightarrow> bool" where
  "frame_lengths_invalid control_len payload_len \<longleftrightarrow>
     control_len = 0 \<or> control_len > PER_USER_EMBEDDING_MAX_METADATA_BYTES
     \<or> payload_len > PER_USER_EMBEDDING_MAX_PAYLOAD_BYTES"

definition read_frame ::
  "(bytes \<Rightarrow> string + 't) \<Rightarrow> connection \<Rightarrow> any_error + ('t \<times> bytes) \<times> connection" where
  "read_frame de c =
     (case read_exact 4 c of
        Inl e \<Rightarrow> Inl (io_context ''read embedding control length'' e)
      | Inr (cl, c1) \<Rightarrow> (case read_exact 4 c1 of
        Inl e \<Rightarrow> Inl (io_context ''read embedding payload length'' e)
      | Inr (pl, c2) \<Rightarrow>
          if frame_lengths_invalid (from_be_bytes cl) (from_be_bytes pl)
          then Inl (bail ''embedding_server_frame_too_large'')
          else case read_exact (from_be_bytes cl) c2 of
            Inl e \<Rightarrow> Inl (io_context ''read embedding control frame'' e)
          | Inr (control, c3) \<Rightarrow> (case read_exact (from_be_bytes pl) c3 of
            Inl e \<Rightarrow> Inl (io_context ''read embedding payload frame'' e)
          | Inr (payload, c4) \<Rightarrow> (case de control of
            Inl msg \<Rightarrow> Inl (msg_context ''decode embedding protocol control frame'' msg)
          | Inr t \<Rightarrow> Inr ((t, payload), c4)))))"

section \<open>The incremental reader\<close>

record IncrementalProtocolFrameReader =
  fr_bytes :: bytes

datatype 't ProtocolFramePoll = PollPending | PollClosed | PollReady 't bytes

text \<open>One \<^verbatim>\<open>read\<close> call: the bytes it returns, of which none is the end of the stream, or an error.\<close>

datatype read_event = ReadOk bytes | ReadErr io_error

definition READ_CHUNK :: nat where
  "READ_CHUNK = 8 * 1024"

definition decode_ready ::
  "(bytes \<Rightarrow> string + 't) \<Rightarrow> bytes \<Rightarrow> any_error + ('t \<times> bytes) option \<times> bytes" where
  "decode_ready de bs =
     (if length bs < 8 then Inr (None, bs)
      else
        let control_len = from_be_bytes (take 4 bs);
            payload_len = from_be_bytes (take 4 (drop 4 bs))
        in if frame_lengths_invalid control_len payload_len
           then Inl (bail ''embedding_server_frame_too_large'')
           else if 8 + control_len > u64_max \<or> 8 + control_len + payload_len > u64_max
           then Inl (bail ''embedding_server_frame_length_overflow'')
           else
             let frame_len = 8 + control_len + payload_len
             in if length bs < frame_len then Inr (None, bs)
                else case de (take control_len (drop 8 bs)) of
                       Inl msg \<Rightarrow> Inl (msg_context ''decode held embedding lease control frame'' msg)
                     | Inr control \<Rightarrow>
                         Inr (Some (control, take payload_len (drop (8 + control_len) bs)), drop frame_len bs))"

definition stream_read :: "read_event list \<Rightarrow> read_event \<times> read_event list" where
  "stream_read evs =
     (case evs of [] \<Rightarrow> (ReadErr (IoError WouldBlock None None), []) | ev # rest \<Rightarrow> (ev, rest))"

text \<open>
  One poll: the outcome, the reader and the remaining reads. A script that has run out of reads
  blocks.
\<close>

definition frame_poll ::
  "(bytes \<Rightarrow> string + 't) \<Rightarrow> IncrementalProtocolFrameReader \<Rightarrow> read_event list \<Rightarrow>
     (any_error + 't ProtocolFramePoll) \<times> IncrementalProtocolFrameReader \<times> read_event list" where
  "frame_poll de r evs =
     (case decode_ready de (fr_bytes r) of
        Inl e \<Rightarrow> (Inl e, r, evs)
      | Inr (Some (t, p), bs) \<Rightarrow> (Inr (PollReady t p), r\<lparr>fr_bytes := bs\<rparr>, evs)
      | Inr (None, _) \<Rightarrow>
          (case stream_read evs of
             (ReadOk chunk, evs') \<Rightarrow>
               if chunk = [] then
                 if fr_bytes r = [] then (Inr PollClosed, r, evs')
                 else (Inl (bail ''embedding_server_frame_truncated''), r, evs')
               else
                 let r1 = r\<lparr>fr_bytes := fr_bytes r @ chunk\<rparr>
                 in (case decode_ready de (fr_bytes r1) of
                       Inl e \<Rightarrow> (Inl e, r1, evs')
                     | Inr (Some (t, p), bs) \<Rightarrow> (Inr (PollReady t p), r1\<lparr>fr_bytes := bs\<rparr>, evs')
                     | Inr (None, _) \<Rightarrow> (Inr PollPending, r1, evs'))
           | (ReadErr e, evs') \<Rightarrow>
               if io_error_kind e = TimedOut \<or> io_error_kind e = WouldBlock then (Inr PollPending, r, evs')
               else if List.member [BrokenPipe, ConnectionAborted, ConnectionReset, NotConnected, UnexpectedEof] (io_error_kind e)
               then (Inr PollClosed, r, evs')
               else (Inl (io_context ''read held embedding lease frame'' e), r, evs')))"

section \<open>Vectors\<close>

type_synonym f32_bits = "32 word"

definition to_le_bytes :: "f32_bits \<Rightarrow> bytes" where
  "to_le_bytes w = rev (to_be_bytes (unat w))"

definition from_le_bytes :: "bytes \<Rightarrow> f32_bits" where
  "from_le_bytes bs = of_nat (from_be_bytes (rev bs))"

definition checked_mul64 :: "nat \<Rightarrow> nat \<Rightarrow> nat option" where
  "checked_mul64 a b = (if a * b \<le> u64_max then Some (a * b) else None)"

definition vector_bytes :: "nat \<Rightarrow> nat \<Rightarrow> any_error + nat" where
  "vector_bytes rows columns =
     (case Option.bind (checked_mul64 rows columns) (\<lambda>values. checked_mul64 values 4) of
        None \<Rightarrow> Inl (bail ''embedding_vector_payload_overflow'')
      | Some n \<Rightarrow> Inr n)"

definition encode_vectors :: "f32_bits list list \<Rightarrow> any_error + bytes" where
  "encode_vectors vectors =
     (if length vectors > PER_USER_EMBEDDING_MAX_DOCUMENT_COUNT
         \<or> (\<exists>v \<in> set vectors. length v \<noteq> RETRIEVAL_EMBEDDING_DIM)
      then Inl (bail ''embedding_vector_shape_invalid'')
      else case vector_bytes (length vectors) RETRIEVAL_EMBEDDING_DIM of
             Inl e \<Rightarrow> Inl e
           | Inr n \<Rightarrow>
               if n > PER_USER_EMBEDDING_MAX_PAYLOAD_BYTES then Inl (bail ''embedding_vector_payload_too_large'')
               else Inr (concat (map (\<lambda>v. concat (map to_le_bytes v)) vectors)))"

text \<open>\<^verbatim>\<open>chunks_exact\<close>: whole chunks only, a remainder is dropped.\<close>

function chunks_exact :: "nat \<Rightarrow> 'a list \<Rightarrow> 'a list list" where
  "chunks_exact k xs = (if k = 0 \<or> length xs < k then [] else take k xs # chunks_exact k (drop k xs))"
  by pat_completeness auto
termination
  by (relation "measure (\<lambda>(k, xs). length xs)") auto

declare chunks_exact.simps [simp del]

definition decode_vectors :: "nat \<Rightarrow> nat \<Rightarrow> bytes \<Rightarrow> any_error + f32_bits list list" where
  "decode_vectors rows columns payload =
     (if columns \<noteq> RETRIEVAL_EMBEDDING_DIM
      then Inl (bail (''embedding_vector_dimension_mismatch: expected='' @ show_nat RETRIEVAL_EMBEDDING_DIM
                      @ '' observed='' @ show_nat columns))
      else case vector_bytes rows columns of
             Inl e \<Rightarrow> Inl e
           | Inr expected \<Rightarrow>
               if length payload \<noteq> expected
               then Inl (bail (''embedding_vector_payload_length_mismatch: expected='' @ show_nat expected
                               @ '' observed='' @ show_nat (length payload)))
               else Inr (map (\<lambda>row. map from_le_bytes (chunks_exact 4 row)) (chunks_exact (columns * 4) payload)))"

section \<open>Round trips\<close>

lemma unat_octet: "unat (of_nat n :: octet) = n mod 256"
  by (simp add: unat_of_nat)

lemma base256: "n div (k * 256) * 256 + n div k mod 256 = (n :: nat) div k"
  by (simp add: div_mult2_eq)

lemma from_be_to_be:
  assumes "n < 2 ^ 32"
  shows "from_be_bytes (to_be_bytes n) = n"
proof -
  have "n div 2 ^ 24 mod 256 = n div 2 ^ 24" using assms by simp
  then have "from_be_bytes (to_be_bytes n)
      = ((n div 2 ^ 24 * 256 + n div 2 ^ 16 mod 256) * 256 + n div 2 ^ 8 mod 256) * 256 + n mod 256"
    by (simp add: from_be_bytes_def to_be_bytes_def unat_octet)
  also have "n div 2 ^ 24 * 256 + n div 2 ^ 16 mod 256 = n div 2 ^ 16" using base256 [of n "2 ^ 16"] by simp
  also have "n div 2 ^ 16 * 256 + n div 2 ^ 8 mod 256 = n div 2 ^ 8" using base256 [of n "2 ^ 8"] by simp
  also have "n div 2 ^ 8 * 256 + n mod 256 = n" using base256 [of n 1] by simp
  finally show ?thesis .
qed

lemma length_to_be [simp]: "length (to_be_bytes n) = 4"
  by (simp add: to_be_bytes_def)

lemmas wire_limits = PER_USER_EMBEDDING_MAX_METADATA_BYTES_def PER_USER_EMBEDDING_MAX_PAYLOAD_BYTES_def

text \<open>A frame the writer accepts and the reader does not refuse, and its bytes on the wire.\<close>

definition frame_ok :: "bytes \<Rightarrow> bytes \<Rightarrow> bool" where
  "frame_ok control payload \<longleftrightarrow> \<not> frame_lengths_invalid (length control) (length payload)"

definition frame_bytes :: "bytes \<Rightarrow> bytes \<Rightarrow> bytes" where
  "frame_bytes control payload = to_be_bytes (length control) @ to_be_bytes (length payload) @ control @ payload"

lemma frame_ok_bounds:
  "frame_ok control payload \<Longrightarrow> 0 < length control \<and> length control < 2 ^ 32 \<and> length payload < 2 ^ 32"
  by (simp add: frame_ok_def frame_lengths_invalid_def wire_limits)

lemma length_frame_bytes: "length (frame_bytes control payload) = 8 + length control + length payload"
  by (simp add: frame_bytes_def)

lemma frame_header:
  assumes "frame_ok control payload"
  shows "from_be_bytes (take 4 (frame_bytes control payload @ rest)) = length control"
    and "from_be_bytes (take 4 (drop 4 (frame_bytes control payload @ rest))) = length payload"
  using frame_ok_bounds [OF assms] by (simp_all add: frame_bytes_def from_be_to_be)

lemma write_frame_bytes:
  assumes "write_frame ser x payload c = Inr c'"
  shows "\<exists>control. ser x = Inr control \<and> cn_written c' = cn_written c @ frame_bytes control payload
    \<and> length control \<le> PER_USER_EMBEDDING_MAX_METADATA_BYTES \<and> length payload \<le> PER_USER_EMBEDDING_MAX_PAYLOAD_BYTES"
proof -
  have wa: "write_all bs c = Inr c' \<Longrightarrow> cn_written c' = cn_written c @ bs" for bs c c'
    by (auto simp: write_all_def split: option.splits nat.splits)
  from assms obtain control where "ser x = Inr control" and le: "length control \<le> PER_USER_EMBEDDING_MAX_METADATA_BYTES"
    "length payload \<le> PER_USER_EMBEDDING_MAX_PAYLOAD_BYTES"
    by (auto simp: write_frame_def split: sum.splits if_splits)
  moreover have "length control mod 2 ^ 32 = length control" "length payload mod 2 ^ 32 = length payload"
    using le by (simp_all add: wire_limits)
  ultimately show ?thesis
    using assms by (auto simp: write_frame_def flush_def frame_bytes_def dest!: wa split: sum.splits if_splits)
qed

lemma write_frame_ok:
  assumes "ser x = Inr control" and "frame_ok control payload" and "cn_write_fault c = None"
  shows "write_frame ser x payload c = Inr (c\<lparr>cn_written := cn_written c @ frame_bytes control payload\<rparr>)"
proof -
  have "length control mod 2 ^ 32 = length control" "length payload mod 2 ^ 32 = length payload"
    using frame_ok_bounds [OF assms(2)] by simp_all
  then show ?thesis
    using assms by (simp add: write_frame_def write_all_def flush_def frame_bytes_def frame_ok_def frame_lengths_invalid_def)
qed

lemma read_frame_ok:
  assumes "cn_incoming c = frame_bytes control payload @ rest" and "frame_ok control payload" and "de control = Inr x"
  shows "read_frame de c = Inr ((x, payload), c\<lparr>cn_incoming := rest\<rparr>)"
  using frame_ok_bounds [OF assms(2)] assms
  by (simp add: read_frame_def read_exact_def frame_bytes_def from_be_to_be frame_ok_def)

text \<open>A frame written by one side of the connection is read by the other as the same
  control value and payload, with exactly its bytes consumed, whatever follows it; the hypothesis
  on the JSON codec is that parsing undoes serializing for the value at hand.\<close>

theorem frame_roundtrip:
  assumes "de control = Inr x" and "ser x = Inr control" and "control \<noteq> []"
    and "write_frame ser x payload c = Inr c'" and "cn_written c = []"
  shows "read_frame de (d\<lparr>cn_incoming := cn_written c' @ rest\<rparr>) = Inr ((x, payload), d\<lparr>cn_incoming := rest\<rparr>)"
proof -
  have "cn_written c' = frame_bytes control payload" "frame_ok control payload"
    using write_frame_bytes [OF assms(4)] assms(2,3,5) by (auto simp: frame_ok_def frame_lengths_invalid_def)
  then show ?thesis using assms(1) by (simp add: read_frame_ok)
qed

theorem frame_roundtrip_witness:
  "\<exists>c'. write_frame (\<lambda>x :: nat. Inr [of_nat x]) 7 [1, 2] \<lparr>cn_incoming = [], cn_read_end = None, cn_written = [], cn_write_fault = None\<rparr>
        = Inr c'
     \<and> read_frame (\<lambda>bs. Inr (unat (hd bs))) (c'\<lparr>cn_incoming := cn_written c' @ [9]\<rparr>) = Inr ((7, [1, 2]), c'\<lparr>cn_incoming := [9]\<rparr>)"
proof -
  let ?c = "\<lparr>cn_incoming = [], cn_read_end = None, cn_written = [], cn_write_fault = None\<rparr>"
  let ?ser = "\<lambda>x :: nat. Inr [of_nat x] :: string + bytes" and ?de = "\<lambda>bs :: bytes. Inr (unat (hd bs)) :: string + nat"
  have w: "write_frame ?ser 7 [1, 2] ?c = Inr (?c\<lparr>cn_written := frame_bytes [7] [1, 2]\<rparr>)"
    by (subst write_frame_ok [where control = "[7]"])
      (simp_all add: frame_ok_def frame_lengths_invalid_def wire_limits)
  from frame_roundtrip [where de = ?de and ser = ?ser and control = "[7]" and x = 7 and d = "?c\<lparr>cn_written := frame_bytes [7] [1, 2]\<rparr>"
      and rest = "[9]", OF _ _ _ w] w show ?thesis by simp
qed

lemma from_le_to_le [simp]: "from_le_bytes (to_le_bytes w) = w"
proof -
  have "unat w < 2 ^ 32" using unsigned_less [of w] by simp
  then show ?thesis by (simp only: from_le_bytes_def to_le_bytes_def rev_rev_ident from_be_to_be) simp
qed

lemma length_to_le [simp]: "length (to_le_bytes w) = 4"
  by (simp add: to_le_bytes_def)

lemma chunks_exact_concat:
  assumes "0 < k" and "\<forall>x \<in> set xs. length x = k"
  shows "chunks_exact k (concat xs) = xs"
  using assms(2)
proof (induction xs)
  case Nil
  then show ?case using assms(1) by (simp add: chunks_exact.simps)
next
  case (Cons x xs)
  then show ?case using assms(1) by (subst chunks_exact.simps) simp
qed

lemma length_concat_same: "\<forall>x \<in> set xs. length x = k \<Longrightarrow> length (concat xs) = length xs * k"
  by (induction xs) auto

lemma vector_bytes_exact: "rows \<le> 2048 \<Longrightarrow> vector_bytes rows RETRIEVAL_EMBEDDING_DIM = Inr (rows * RETRIEVAL_EMBEDDING_DIM * 4)"
  by (simp add: vector_bytes_def checked_mul64_def RETRIEVAL_EMBEDDING_DIM_def u64_max_def)

lemma chunks_exact_shape:
  "0 < k \<Longrightarrow> length xs = n * k \<Longrightarrow> length (chunks_exact k xs) = n \<and> list_all (\<lambda>c. length c = k) (chunks_exact k xs)"
proof (induction n arbitrary: xs)
  case (Suc n)
  then have "length (drop k xs) = n * k" "\<not> length xs < k" by simp_all
  with Suc show ?case by (subst (1 2) chunks_exact.simps) simp
qed (simp add: chunks_exact.simps)

lemma decode_vectors_shape:
  assumes "decode_vectors rows columns payload = Inr ws"
  shows "length ws = rows" and "list_all (\<lambda>v. length v = RETRIEVAL_EMBEDDING_DIM) ws"
proof -
  have len: "length payload = rows * (RETRIEVAL_EMBEDDING_DIM * 4)"
    and ws: "ws = map (\<lambda>row. map from_le_bytes (chunks_exact 4 row)) (chunks_exact (RETRIEVAL_EMBEDDING_DIM * 4) payload)"
    using assms by (auto simp: decode_vectors_def vector_bytes_def checked_mul64_def bind_eq_Some_conv
        split: if_splits sum.splits option.splits)
  have "0 < RETRIEVAL_EMBEDDING_DIM * 4" by (simp add: RETRIEVAL_EMBEDDING_DIM_def)
  note shape = chunks_exact_shape [OF this len]
  show "length ws = rows" using shape by (simp add: ws)
  show "list_all (\<lambda>v. length v = RETRIEVAL_EMBEDDING_DIM) ws"
    using shape chunks_exact_shape [of 4 _ RETRIEVAL_EMBEDDING_DIM] by (auto simp: ws list_all_iff)
qed

text \<open>Vectors of the embedding dimension, up to the document limit, are always encoded, into
  a payload that fits a frame, and decoding that payload with their count gives them back bit for
  bit; conversely whatever the decoder accepts has the declared number of rows, each of the
  embedding dimension.\<close>

theorem vectors_roundtrip:
  "(length vs \<le> PER_USER_EMBEDDING_MAX_DOCUMENT_COUNT \<longrightarrow> list_all (\<lambda>v. length v = RETRIEVAL_EMBEDDING_DIM) vs \<longrightarrow>
      (\<exists>payload. encode_vectors vs = Inr payload \<and> length payload \<le> PER_USER_EMBEDDING_MAX_PAYLOAD_BYTES
         \<and> decode_vectors (length vs) RETRIEVAL_EMBEDDING_DIM payload = Inr vs))
   \<and> (\<forall>rows columns payload ws. decode_vectors rows columns payload = Inr ws \<longrightarrow>
        length ws = rows \<and> list_all (\<lambda>v. length v = RETRIEVAL_EMBEDDING_DIM) ws)"
proof (intro conjI impI allI)
  let ?row = "\<lambda>v. concat (map to_le_bytes v)"
  let ?payload = "concat (map ?row vs)"
  assume len: "length vs \<le> PER_USER_EMBEDDING_MAX_DOCUMENT_COUNT" and dim: "list_all (\<lambda>v. length v = RETRIEVAL_EMBEDDING_DIM) vs"
  have le: "length vs \<le> 2048" using len by (simp add: PER_USER_EMBEDDING_MAX_DOCUMENT_COUNT_def)
  have row_len: "length (?row v) = length v * 4" for v
    by (subst length_concat_same [where k = 4]) auto
  have rows: "\<forall>r \<in> set (map ?row vs). length r = RETRIEVAL_EMBEDDING_DIM * 4"
    using dim by (auto simp: row_len list_all_iff)
  have n: "length ?payload = length vs * RETRIEVAL_EMBEDDING_DIM * 4" using length_concat_same [OF rows] by simp
  have fits: "length vs * RETRIEVAL_EMBEDDING_DIM * 4 \<le> PER_USER_EMBEDDING_MAX_PAYLOAD_BYTES"
    using le by (simp add: RETRIEVAL_EMBEDDING_DIM_def wire_limits)
  have "chunks_exact (RETRIEVAL_EMBEDDING_DIM * 4) ?payload = map ?row vs"
    using rows by (intro chunks_exact_concat) (simp_all add: RETRIEVAL_EMBEDDING_DIM_def)
  moreover have "chunks_exact 4 (?row v) = map to_le_bytes v" for v by (intro chunks_exact_concat) auto
  ultimately have "decode_vectors (length vs) RETRIEVAL_EMBEDDING_DIM ?payload = Inr vs"
    using n by (simp add: decode_vectors_def vector_bytes_exact [OF le] comp_def)
  moreover have "encode_vectors vs = Inr ?payload"
    using len dim fits by (auto simp: encode_vectors_def vector_bytes_exact [OF le] list_all_iff)
  ultimately show "\<exists>payload. encode_vectors vs = Inr payload \<and> length payload \<le> PER_USER_EMBEDDING_MAX_PAYLOAD_BYTES
      \<and> decode_vectors (length vs) RETRIEVAL_EMBEDDING_DIM payload = Inr vs"
    using n fits by auto
next
  fix rows columns :: nat and payload ws
  assume "decode_vectors rows columns payload = Inr ws"
  then show "length ws = rows" "list_all (\<lambda>v. length v = RETRIEVAL_EMBEDDING_DIM) ws"
    by (fact decode_vectors_shape)+
qed

theorem vectors_roundtrip_witness:
  "\<exists>payload. encode_vectors [replicate 768 0x3F800000, replicate 768 7] = Inr payload
     \<and> decode_vectors 2 RETRIEVAL_EMBEDDING_DIM payload = Inr [replicate 768 0x3F800000, replicate 768 7]"
proof -
  let ?vs = "[replicate 768 0x3F800000, replicate 768 (7 :: f32_bits)]"
  have "length ?vs \<le> PER_USER_EMBEDDING_MAX_DOCUMENT_COUNT" "list_all (\<lambda>v. length v = RETRIEVAL_EMBEDDING_DIM) ?vs"
    by (simp_all add: PER_USER_EMBEDDING_MAX_DOCUMENT_COUNT_def RETRIEVAL_EMBEDDING_DIM_def)
  with vectors_roundtrip [of ?vs] show ?thesis by (auto simp: numeral_2_eq_2)
qed

section \<open>Reading a stream in pieces\<close>

lemma decode_ready_consumes:
  "decode_ready de bs = Inr (Some f, bs') \<Longrightarrow> length bs' < length bs"
  by (auto simp: decode_ready_def Let_def frame_lengths_invalid_def split: if_splits sum.splits)

lemma decode_ready_None: "decode_ready de bs = Inr (None, bs') \<Longrightarrow> bs' = bs"
  by (auto simp: decode_ready_def Let_def split: if_splits sum.splits)

lemma frame_poll_ready:
  "frame_poll de r evs = (Inr (PollReady t p), r', evs') \<Longrightarrow>
     length evs' < length evs \<or> evs' = evs \<and> length (fr_bytes r') < length (fr_bytes r)"
  by (auto simp: frame_poll_def stream_read_def Let_def dest: decode_ready_consumes
      split: sum.splits option.splits prod.splits list.splits read_event.splits if_splits)

lemma frame_poll_pending:
  "frame_poll de r evs = (Inr PollPending, r', evs') \<Longrightarrow> evs \<noteq> [] \<Longrightarrow> length evs' < length evs"
  by (auto simp: frame_poll_def stream_read_def Let_def
      split: sum.splits option.splits prod.splits list.splits read_event.splits if_splits)

datatype poll_end = EndWaiting | EndClosed | EndError any_error

text \<open>Polling until the stream blocks, ends or fails: the frames delivered, how it ended, the bytes kept.\<close>

function poll_all ::
  "(bytes \<Rightarrow> string + 't) \<Rightarrow> IncrementalProtocolFrameReader \<Rightarrow> read_event list \<Rightarrow> ('t \<times> bytes) list \<times> poll_end \<times> bytes" where
  "poll_all de r evs =
     (case frame_poll de r evs of
        (Inl e, r', evs') \<Rightarrow> ([], EndError e, fr_bytes r')
      | (Inr PollClosed, r', evs') \<Rightarrow> ([], EndClosed, fr_bytes r')
      | (Inr (PollReady t p), r', evs') \<Rightarrow> (case poll_all de r' evs' of (fs, e, bs) \<Rightarrow> ((t, p) # fs, e, bs))
      | (Inr PollPending, r', evs') \<Rightarrow> if evs = [] then ([], EndWaiting, fr_bytes r') else poll_all de r' evs')"
  by pat_completeness auto
termination
  by (relation "measures [\<lambda>(de, r, evs). length evs, \<lambda>(de, r, evs). length (fr_bytes r)]")
    (auto dest!: frame_poll_ready [OF sym] frame_poll_pending [OF sym])

declare poll_all.simps [simp del]

text \<open>A complete frame at the front is decoded; a strict prefix of one is kept waiting.\<close>

lemma decode_ready_frame:
  assumes "frame_ok control payload" and "de control = Inr t"
  shows "decode_ready de (frame_bytes control payload @ rest) = Inr (Some (t, payload), rest)"
proof -
  define bs where "bs = frame_bytes control payload @ rest"
  have lens: "from_be_bytes (take 4 bs) = length control" "from_be_bytes (take 4 (drop 4 bs)) = length payload"
    unfolding bs_def by (rule frame_header [OF assms(1)])+
  have "8 + length control + length payload \<le> u64_max"
    using assms(1) by (simp add: frame_ok_def frame_lengths_invalid_def wire_limits u64_max_def)
  moreover have "8 + length control + length payload \<le> length bs" "take (length control) (drop 8 bs) = control"
    "take (length payload) (drop (8 + length control) bs) = payload" "drop (8 + length control + length payload) bs = rest"
    by (simp_all add: bs_def length_frame_bytes) (simp_all add: frame_bytes_def)
  ultimately have "decode_ready de bs = Inr (Some (t, payload), rest)"
    using assms by (simp add: decode_ready_def lens Let_def frame_ok_def)
  then show ?thesis by (simp add: bs_def)
qed

lemma decode_ready_prefix:
  assumes "decode_ready de (bs @ rest) = Inr (None, bs')"
  shows "decode_ready de bs = Inr (None, bs)"
proof (cases "length bs < 8")
  case False
  then have "take 4 (bs @ rest) = take 4 bs" "take 4 (drop 4 (bs @ rest)) = take 4 (drop 4 bs)" by simp_all
  with assms False show ?thesis
    by (auto simp: decode_ready_def Let_def split: if_splits sum.splits)
qed (simp add: decode_ready_def)

lemma decode_ready_partial:
  assumes "frame_ok control payload" and "bs @ rest = frame_bytes control payload" and "rest \<noteq> []"
  shows "decode_ready de bs = Inr (None, bs)"
proof (cases "length bs < 8")
  case False
  have "take 4 bs = take 4 (frame_bytes control payload @ [])" "take 4 (drop 4 bs) = take 4 (drop 4 (frame_bytes control payload @ []))"
    using False assms(2) [symmetric] by simp_all
  then have lens: "from_be_bytes (take 4 bs) = length control" "from_be_bytes (take 4 (drop 4 bs)) = length payload"
    by (simp_all only: frame_header [OF assms(1)])
  have "length bs < 8 + length control + length payload"
    using assms(2,3) length_frame_bytes [of control payload] by (metis length_append length_greater_0_conv less_add_same_cancel1)
  moreover have "8 + length control + length payload \<le> u64_max"
    using assms(1) by (simp add: frame_ok_def frame_lengths_invalid_def wire_limits u64_max_def)
  ultimately show ?thesis
    using assms(1) by (simp add: decode_ready_def lens Let_def frame_ok_def)
qed (simp add: decode_ready_def)

text \<open>Reads that only deliver bytes or time out, and the bytes they deliver.\<close>

fun harmless :: "read_event \<Rightarrow> bool" where
  "harmless (ReadOk chunk) = (chunk \<noteq> [])"
| "harmless (ReadErr e) = (io_error_kind e = TimedOut \<or> io_error_kind e = WouldBlock)"

fun delivered :: "read_event \<Rightarrow> bytes" where
  "delivered (ReadOk chunk) = chunk"
| "delivered (ReadErr e) = []"

text \<open>The frames \<open>fs\<close> on the wire: each is a control value with its serialization, and a payload.\<close>

definition wire_ok :: "(bytes \<Rightarrow> string + 't) \<Rightarrow> ('t \<times> bytes \<times> bytes) \<Rightarrow> bool" where
  "wire_ok de f \<longleftrightarrow> (case f of (t, control, payload) \<Rightarrow> frame_ok control payload \<and> de control = Inr t)"

definition wire_of :: "('t \<times> bytes \<times> bytes) \<Rightarrow> bytes" where
  "wire_of f = (case f of (t, control, payload) \<Rightarrow> frame_bytes control payload)"

definition frame_of :: "('t \<times> bytes \<times> bytes) \<Rightarrow> 't \<times> bytes" where
  "frame_of f = (case f of (t, control, payload) \<Rightarrow> (t, payload))"

lemma wire_simps [simp]:
  "wire_ok de (t, control, payload) \<longleftrightarrow> frame_ok control payload \<and> de control = Inr t"
  "wire_of (t, control, payload) = frame_bytes control payload"
  "frame_of (t, control, payload) = (t, payload)"
  by (simp_all add: wire_ok_def wire_of_def frame_of_def)

text \<open>What the buffer decodes to is determined by the stream it is a piece of.\<close>

lemma decode_ready_of_stream:
  assumes "list_all (wire_ok de) fs" and "bs @ rest = concat (map wire_of fs) @ tail"
    and "decode_ready de tail = Inr (None, tail)"
  shows "decode_ready de bs = Inr (None, bs)
    \<or> (\<exists>f fs' bs'. fs = f # fs' \<and> decode_ready de bs = Inr (Some (frame_of f), bs') \<and> bs' @ rest = concat (map wire_of fs') @ tail)"
proof (cases fs)
  case Nil
  then show ?thesis using assms decode_ready_prefix [of de bs rest] by simp
next
  case (Cons f fs')
  obtain t control payload where f: "f = (t, control, payload)" by (cases f)
  have ok: "frame_ok control payload" "de control = Inr t" using assms(1) Cons f by (simp_all add: wire_ok_def)
  have eq: "bs @ rest = frame_bytes control payload @ concat (map wire_of fs') @ tail"
    using assms(2) Cons f by (simp add: wire_of_def)
  then obtain us where us: "bs = frame_bytes control payload @ us \<and> us @ rest = concat (map wire_of fs') @ tail
      \<or> bs @ us = frame_bytes control payload \<and> rest = us @ concat (map wire_of fs') @ tail"
    using iffD1 [OF append_eq_append_conv2 eq] by (elim exE disjE conjE) (auto simp del: append_assoc)
  consider "bs = frame_bytes control payload @ us" "us @ rest = concat (map wire_of fs') @ tail"
    | "bs @ us = frame_bytes control payload" "us \<noteq> []"
    | "bs = frame_bytes control payload @ []" "[] @ rest = concat (map wire_of fs') @ tail"
    using us by (cases "us = []") auto
  then show ?thesis
  proof cases
    case 1
    then show ?thesis using decode_ready_frame [where de = de, OF ok] Cons f by (simp add: frame_of_def)
  next
    case 2
    then show ?thesis using decode_ready_partial [OF ok(1)] by blast
  next
    case 3
    then show ?thesis using decode_ready_frame [where de = de and rest = "[]", OF ok] Cons f by (simp add: frame_of_def)
  qed
qed

lemma frame_poll_None:
  assumes "decode_ready de (fr_bytes r) = Inr (None, fr_bytes r)"
  shows "frame_poll de r [] = (Inr PollPending, r, [])"
    and "io_error_kind e = TimedOut \<or> io_error_kind e = WouldBlock \<Longrightarrow> frame_poll de r (ReadErr e # evs) = (Inr PollPending, r, evs)"
    and "chunk \<noteq> [] \<Longrightarrow> decode_ready de (fr_bytes r @ chunk) = Inr (None, fr_bytes r @ chunk) \<Longrightarrow>
      frame_poll de r (ReadOk chunk # evs) = (Inr PollPending, r\<lparr>fr_bytes := fr_bytes r @ chunk\<rparr>, evs)"
    and "chunk \<noteq> [] \<Longrightarrow> decode_ready de (fr_bytes r @ chunk) = Inr (Some (t, p), bs) \<Longrightarrow>
      frame_poll de r (ReadOk chunk # evs) = (Inr (PollReady t p), r\<lparr>fr_bytes := bs\<rparr>, evs)"
  using assms by (auto simp: frame_poll_def stream_read_def)

text \<open>A frame that is complete in the buffer is delivered without reading.\<close>

definition prepend_frames :: "('t \<times> bytes) list \<Rightarrow> ('t \<times> bytes) list \<times> poll_end \<times> bytes \<Rightarrow> ('t \<times> bytes) list \<times> poll_end \<times> bytes" where
  "prepend_frames fs x = (fs @ fst x, snd x)"

lemma prepend_frames_simps [simp]:
  "prepend_frames [] x = x"
  "prepend_frames [f] (prepend_frames fs x) = prepend_frames (f # fs) x"
  by (simp_all add: prepend_frames_def)

lemma poll_all_buffered:
  assumes "decode_ready de (fr_bytes r) = Inr (Some (frame_of f), bs)"
  shows "poll_all de r evs = prepend_frames [frame_of f] (poll_all de (r\<lparr>fr_bytes := bs\<rparr>) evs)"
proof -
  obtain t p where f: "frame_of f = (t, p)" by fastforce
  with assms have "frame_poll de r evs = (Inr (PollReady t p), r\<lparr>fr_bytes := bs\<rparr>, evs)" by (simp add: frame_poll_def)
  with f show ?thesis by (subst poll_all.simps) (simp add: prepend_frames_def split: prod.split)
qed

lemma poll_all_frames:
  assumes "list_all (wire_ok de) fs" and "list_all harmless evs"
    and "fr_bytes r @ concat (map delivered evs) = concat (map wire_of fs) @ tail"
    and tail: "decode_ready de tail = Inr (None, tail)"
  shows "poll_all de r (evs @ later) = prepend_frames (map frame_of fs) (poll_all de \<lparr>fr_bytes = tail\<rparr> later)"
  using assms(1-3)
proof (induction evs arbitrary: r fs)
  case Nil
  then show ?case
  proof (induction fs arbitrary: r)
    case Nil
    then show ?case by (cases r) simp
  next
    case (Cons f fs)
    have "decode_ready de (fr_bytes r) = Inr (Some (frame_of f), concat (map wire_of fs) @ tail)"
      using Cons(2,4) by (cases f) (simp add: decode_ready_frame)
    moreover have "poll_all de (r\<lparr>fr_bytes := concat (map wire_of fs) @ tail\<rparr>) ([] @ later) = prepend_frames (map frame_of fs) (poll_all de \<lparr>fr_bytes = tail\<rparr> later)"
      using Cons(2,3) by (intro Cons(1)) simp_all
    ultimately show ?case by (simp add: poll_all_buffered)
  qed
next
  case (Cons ev evs)
  have read: "poll_all de r ((ev # evs) @ later) = prepend_frames (map frame_of fs) (poll_all de \<lparr>fr_bytes = tail\<rparr> later)"
    if fs: "list_all (wire_ok de) fs" and none: "decode_ready de (fr_bytes r) = Inr (None, fr_bytes r)"
      and eq: "fr_bytes r @ concat (map delivered (ev # evs)) = concat (map wire_of fs) @ tail" for r fs
  proof (cases ev)
    case (ReadErr e)
    then have "poll_all de r (ev # evs @ later) = poll_all de r (evs @ later)"
      using Cons.prems(2) none by (subst poll_all.simps) (simp add: frame_poll_None)
    then show ?thesis using Cons.IH [OF fs] Cons.prems(2) eq ReadErr by simp
  next
    case (ReadOk chunk)
    then have chunk: "chunk \<noteq> []" using Cons.prems(2) by simp
    have "(fr_bytes r @ chunk) @ concat (map delivered evs) = concat (map wire_of fs) @ tail" using eq ReadOk by simp
    from decode_ready_of_stream [OF fs this tail] show ?thesis
    proof (elim disjE exE conjE)
      assume "decode_ready de (fr_bytes r @ chunk) = Inr (None, fr_bytes r @ chunk)"
      then have "poll_all de r (ev # evs @ later) = poll_all de (r\<lparr>fr_bytes := fr_bytes r @ chunk\<rparr>) (evs @ later)"
        using chunk none ReadOk by (subst poll_all.simps) (simp add: frame_poll_None)
      then show ?thesis using Cons.IH [OF fs] Cons.prems(2) eq ReadOk by simp
    next
      fix f fs' bs'
      assume f: "fs = f # fs'" "decode_ready de (fr_bytes r @ chunk) = Inr (Some (frame_of f), bs')"
        "bs' @ concat (map delivered evs) = concat (map wire_of fs') @ tail"
      then have "poll_all de r (ev # evs @ later) = prepend_frames [frame_of f] (poll_all de (r\<lparr>fr_bytes := bs'\<rparr>) (evs @ later))"
        using chunk none ReadOk by (subst poll_all.simps) (cases "frame_of f", simp add: frame_poll_None prepend_frames_def split: prod.split)
      then show ?thesis using Cons.IH [of fs' "r\<lparr>fr_bytes := bs'\<rparr>"] Cons.prems(2) fs f by simp
    qed
  qed
  from Cons.prems(1,3) show ?case
  proof (induction fs arbitrary: r)
    case Nil
    then show ?case using read decode_ready_of_stream [OF Nil tail] by blast
  next
    case inner: (Cons f fs)
    from decode_ready_of_stream [OF inner.prems tail] show ?case
    proof (elim disjE exE conjE)
      assume "decode_ready de (fr_bytes r) = Inr (None, fr_bytes r)"
      then show ?thesis using read inner.prems by blast
    next
      fix f' fs' bs'
      assume f: "f # fs = f' # fs'" "decode_ready de (fr_bytes r) = Inr (Some (frame_of f'), bs')"
        "bs' @ concat (map delivered (ev # evs)) = concat (map wire_of fs') @ tail"
      then have "poll_all de (r\<lparr>fr_bytes := bs'\<rparr>) ((ev # evs) @ later) = prepend_frames (map frame_of fs) (poll_all de \<lparr>fr_bytes = tail\<rparr> later)"
        using inner.prems by (intro inner.IH) simp_all
      then show ?thesis using f by (simp add: poll_all_buffered)
    qed
  qed
qed

lemma poll_all_end:
  assumes "decode_ready de tail = Inr (None, tail)"
  shows "poll_all de \<lparr>fr_bytes = tail\<rparr> [] = ([], EndWaiting, tail)"
    and "poll_all de \<lparr>fr_bytes = tail\<rparr> (ReadOk [] # evs) =
      ([], if tail = [] then EndClosed else EndError (bail ''embedding_server_frame_truncated''), tail)"
  using assms by (simp_all add: poll_all.simps frame_poll_def stream_read_def)

text \<open>C38: the incremental reader does not depend on how the stream is cut into reads: whatever
  the chunks and the timeouts between them, polling delivers exactly the frames the peer sent, in
  order, keeps an incomplete last frame for later, and when the stream then ends reports a clean
  close only at a frame boundary.\<close>

theorem reader_chunking_independent:
  assumes "list_all (wire_ok de) fs" and "list_all harmless evs"
    and "concat (map delivered evs) = concat (map wire_of fs) @ tail"
    and "decode_ready de tail = Inr (None, tail)"
  shows "poll_all de \<lparr>fr_bytes = []\<rparr> evs = (map frame_of fs, EndWaiting, tail)
    \<and> poll_all de \<lparr>fr_bytes = []\<rparr> (evs @ [ReadOk []]) =
        (map frame_of fs, if tail = [] then EndClosed else EndError (bail ''embedding_server_frame_truncated''), tail)"
  using poll_all_frames [of de fs evs "\<lparr>fr_bytes = []\<rparr>" tail "[]"] poll_all_frames [of de fs evs "\<lparr>fr_bytes = []\<rparr>" tail "[ReadOk []]"]
    assms by (simp add: poll_all_end prepend_frames_def)

theorem reader_chunking_independent_witness:
  "poll_all (\<lambda>bs. Inr (unat (hd bs))) \<lparr>fr_bytes = []\<rparr>
     [ReadOk [0, 0, 0], ReadErr (IoError TimedOut None None), ReadOk ([1, 0, 0, 0, 2, 7, 1, 2] @ frame_bytes [8] [] @ [0])]
   = ([(7, [1, 2]), (8, [])], EndWaiting, [0])"
proof -
  let ?de = "\<lambda>bs :: bytes. Inr (unat (hd bs)) :: string + nat"
  let ?fs = "[(7, [7], [1, 2]), (8, [8], [])] :: (nat \<times> bytes \<times> bytes) list"
  let ?evs = "[ReadOk [0, 0, 0], ReadErr (IoError TimedOut None None), ReadOk ([1, 0, 0, 0, 2, 7, 1, 2] @ frame_bytes [8] [] @ [0])]"
  have "frame_bytes [7] [1, 2] = [0, 0, 0, 1, 0, 0, 0, 2, 7, 1, 2]" by (simp add: frame_bytes_def to_be_bytes_def)
  then have "concat (map delivered ?evs) = concat (map wire_of ?fs) @ [0]" by simp
  moreover have "list_all (wire_ok ?de) ?fs" by (simp add: frame_ok_def frame_lengths_invalid_def wire_limits)
  moreover have "list_all harmless ?evs" by simp
  moreover have "decode_ready ?de [0] = Inr (None, [0])" by (simp add: decode_ready_def)
  ultimately have "poll_all ?de \<lparr>fr_bytes = []\<rparr> ?evs = (map frame_of ?fs, EndWaiting, [0])"
    using reader_chunking_independent by blast
  then show ?thesis by simp
qed

definition READER_BOUND :: nat where
  "READER_BOUND = 8 + PER_USER_EMBEDDING_MAX_METADATA_BYTES + PER_USER_EMBEDDING_MAX_PAYLOAD_BYTES + READ_CHUNK"

lemma decode_ready_waiting_short:
  "decode_ready de bs = Inr (None, bs') \<Longrightarrow>
     length bs < 8 + PER_USER_EMBEDDING_MAX_METADATA_BYTES + PER_USER_EMBEDDING_MAX_PAYLOAD_BYTES"
  by (auto simp: decode_ready_def Let_def frame_lengths_invalid_def split: if_splits sum.splits)

fun read_size :: "read_event \<Rightarrow> nat" where
  "read_size ev = length (delivered ev)"

lemma frame_poll_bound:
  assumes "length (fr_bytes r) \<le> READER_BOUND" and "list_all (\<lambda>ev. read_size ev \<le> READ_CHUNK) evs"
    and "frame_poll de r evs = (res, r', evs')"
  shows "length (fr_bytes r') \<le> READER_BOUND" and "list_all (\<lambda>ev. read_size ev \<le> READ_CHUNK) evs'"
  using assms decode_ready_waiting_short [of de "fr_bytes r"] decode_ready_consumes [of de "fr_bytes r"]
    decode_ready_consumes [of de "fr_bytes r @ _"]
  by (fastforce simp: frame_poll_def stream_read_def READER_BOUND_def Let_def
      split: sum.splits option.splits prod.splits list.splits read_event.splits if_splits)+

lemma poll_all_bound:
  "length (fr_bytes r) \<le> READER_BOUND \<Longrightarrow> list_all (\<lambda>ev. read_size ev \<le> READ_CHUNK) evs \<Longrightarrow>
     length (snd (snd (poll_all de r evs))) \<le> READER_BOUND"
proof (induction de r evs rule: poll_all.induct)
  case (1 de r evs)
  obtain res r' evs' where poll: "frame_poll de r evs = (res, r', evs')" by (metis prod_cases3)
  note kept = frame_poll_bound [OF 1(3,4) poll]
  show ?case
    using kept 1(1) [OF poll [symmetric]] 1(2) [OF poll [symmetric]] poll
    by (subst poll_all.simps) (auto split: sum.split ProtocolFramePoll.split prod.split)
qed

text \<open>Whatever a peer sends, malformed frames included, the reader never holds more than one
  maximal frame and one read: each poll keeps its buffer within that bound, and so does a whole
  polling run.\<close>

theorem reader_buffer_bounded:
  assumes "length (fr_bytes r) \<le> READER_BOUND" and "list_all (\<lambda>ev. read_size ev \<le> READ_CHUNK) evs"
  shows "length (fr_bytes (fst (snd (frame_poll de r evs)))) \<le> READER_BOUND
    \<and> length (snd (snd (poll_all de r evs))) \<le> READER_BOUND"
proof
  obtain res r' evs' where poll: "frame_poll de r evs = (res, r', evs')" by (metis prod_cases3)
  show "length (fr_bytes (fst (snd (frame_poll de r evs)))) \<le> READER_BOUND"
    using frame_poll_bound(1) [OF assms poll] by (simp add: poll)
  show "length (snd (snd (poll_all de r evs))) \<le> READER_BOUND" by (rule poll_all_bound [OF assms])
qed

theorem reader_buffer_bounded_witness:
  "length (fr_bytes (fst (snd (frame_poll (\<lambda>bs. Inr (hd bs)) \<lparr>fr_bytes = [0, 0, 0, 1]\<rparr> [ReadOk [255, 255]])))) \<le> READER_BOUND"
  using reader_buffer_bounded [of "\<lparr>fr_bytes = [0, 0, 0, 1]\<rparr>" "[ReadOk [255, 255]]" "\<lambda>bs. Inr (hd bs)"]
  by (simp add: READER_BOUND_def READ_CHUNK_def)

end
