(* ===== verification/Embedding_Exchange.thy ===== *)
theory Embedding_Exchange
  imports Embedding_Wire
begin

text \<open>
  Messages of the per-user embedding protocol (\<^verbatim>\<open>protocol.rs\<close>, \<^verbatim>\<open>transport.rs\<close>),
  the client's bounded exchange with its identity checks and error classification
  (\<^verbatim>\<open>exchange.rs\<close>), and the responses the server builds (\<^verbatim>\<open>server/response.rs\<close>).

  Constants the build generates (digests, budgets, the model's identity) are parameters; so are
  \<^verbatim>\<open>serde_json\<close>, the SHA-256 digest and the \<^verbatim>\<open>Display\<close> of foreign errors.
\<close>

section \<open>Messages\<close>

definition PER_USER_EMBEDDING_BOOTSTRAP_VERSION :: nat where
  "PER_USER_EMBEDDING_BOOTSTRAP_VERSION = 1"

definition PER_USER_EMBEDDING_PROTOCOL_SCHEMA_VERSION :: nat where
  "PER_USER_EMBEDDING_PROTOCOL_SCHEMA_VERSION = 1"

definition PER_USER_EMBEDDING_PROTOCOL_V1 :: string where
  "PER_USER_EMBEDDING_PROTOCOL_V1 = ''codestory.per-user-embedding/v1''"

record EmbeddingCompatibility =
  ec_protocol_schema_version :: nat
  ec_product_runtime_id :: string
  ec_model_id :: string
  ec_model_sha256 :: string
  ec_tokenizer_sha256 :: string
  ec_config_sha256 :: string
  ec_query_prefix :: string
  ec_document_prefix :: string
  ec_pooling :: string
  ec_normalization :: string
  ec_dimension :: nat
  ec_element_type :: string
  ec_vector_schema_version :: nat
  ec_ggml_build_identity :: string
  ec_target_triple :: string
  ec_policy :: string

text \<open>The digests the build compiles in.\<close>

record protocol_digests =
  pd_protocol_sha256 :: string
  pd_constant_set_sha256 :: string
  pd_measurement_protocol_sha256 :: string

definition protocol_snapshot_current :: "protocol_digests \<Rightarrow> EmbeddingServerProtocolSnapshot" where
  "protocol_snapshot_current d =
     \<lparr>pr_bootstrap_version = PER_USER_EMBEDDING_BOOTSTRAP_VERSION,
      pr_schema_version = PER_USER_EMBEDDING_PROTOCOL_SCHEMA_VERSION,
      pr_protocol_sha256 = pd_protocol_sha256 d,
      pr_constant_set_sha256 = pd_constant_set_sha256 d,
      pr_measurement_protocol_sha256 = pd_measurement_protocol_sha256 d\<rparr>"

record EmbeddingEngineIdentity =
  ei_server_instance_id :: string
  ei_load_generation :: nat
  ei_model_load_count :: nat
  ei_residency :: string
  ei_worker_alive :: bool
  ei_load_error :: "string option"
  ei_model_digest :: string
  ei_ggml_build_identity :: string
  ei_backend :: string
  ei_adapter_name :: string
  ei_adapter_description :: string
  ei_policy :: string
  ei_embedded_model :: bool
  ei_materialized_model_sha256 :: string
  ei_materialized_reused :: bool
  ei_initialization_ms :: nat
  ei_smoke_ms :: nat
  ei_adapter_memory_total :: nat
  ei_adapter_memory_used_by_load :: nat
  ei_execution_device_names :: "string list"
  ei_execution_backend_names :: "string list"
  ei_execution_observation_source :: string
  ei_encode_count :: nat
  ei_execution_node_count :: nat
  ei_resident_accelerator_tensor_count :: nat
  ei_resident_accelerator_tensor_bytes :: nat
  ei_model_layer_count :: nat
  ei_offloaded_layer_count :: nat
  ei_accelerator_execution_verified :: bool

record EmbeddingEngineLeaseIdentity =
  le_lease_token :: string
  le_server_instance_id :: string
  le_load_generation :: nat
  le_compatibility_sha256 :: string

datatype EmbeddingOperation =
    OpHello (op_intent: string) (op_client_pid: nat) (op_client_process_start_id: string)
      (op_client_executable_sha256: string) (op_client_executable_version: string)
  | OpSnapshot
  | OpEnsureResident (op_scope_id: string) (op_deadline_ms: nat) (op_retry_after_ms: nat)
  | OpAcquireLease (op_scope_id: string) (op_deadline_ms: nat) (op_retry_after_ms: nat)
  | OpReleaseLease (op_lease_token: string)
  | OpEmbedQuery (op_scope_id: string) (op_deadline_ms: nat) (op_retry_after_ms: nat)
      (op_cancel_token: "string option") (op_input: string)
  | OpEmbedDocuments (op_scope_id: string) (op_deadline_ms: nat) (op_retry_after_ms: nat)
      (op_cancel_token: "string option") (op_inputs: "string list")
  | OpCancelRequest (op_target_request_id: string) (op_target_token: string)

record EmbeddingProtocolRequest =
  rq_protocol :: string
  rq_schema_version :: nat
  rq_request_id :: string
  rq_compatibility :: EmbeddingCompatibility
  rq_operation :: EmbeddingOperation

datatype EmbeddingResult =
    ResHello string EmbeddingServerSnapshot
  | ResSnapshot EmbeddingServerSnapshot "EmbeddingEngineLeaseIdentity option" "EmbeddingEngineIdentity option"
  | ResIdentity EmbeddingEngineIdentity
  | ResLease EmbeddingEngineLeaseIdentity EmbeddingEngineIdentity
  | ResVectors nat nat string EmbeddingEngineIdentity
  | ResReleased
  | ResCancelled

record EmbeddingProtocolResponse =
  rp_protocol :: string
  rp_schema_version :: nat
  rp_request_id :: string
  rp_result :: "EmbeddingResult option"
  rp_error :: "EmbeddingProtocolError option"

record EmbeddingRetryStateWire =
  rt_code :: string
  rt_message :: string
  rt_retry_class :: string
  rt_retry_after_ms :: nat
  rt_retry_condition :: string
  rt_capacity :: "EmbeddingCapacityPressureWire option"

definition embedding_retry_state :: "any_error \<Rightarrow> EmbeddingRetryStateWire option" where
  "embedding_retry_state err =
     map_option (\<lambda>e. \<lparr>rt_code = ue_code e, rt_message = ue_message e, rt_retry_class = ue_retry_class e,
       rt_retry_after_ms = ue_retry_after_ms e, rt_retry_condition = ue_retry_condition e,
       rt_capacity = ue_capacity e\<rparr>) (ae_typed err)"

definition embedding_capacity_pressure :: "any_error \<Rightarrow> EmbeddingCapacityPressureWire option" where
  "embedding_capacity_pressure err = Option.bind (embedding_retry_state err) rt_capacity"

fun checked_total :: "nat \<Rightarrow> string list \<Rightarrow> nat option" where
  "checked_total acc [] = Some acc"
| "checked_total acc (x # xs) = (if acc + length x \<le> u64_max then checked_total (acc + length x) xs else None)"

definition validate_raw_inputs :: "string list \<Rightarrow> any_error + unit" where
  "validate_raw_inputs inputs =
     (if inputs = [] \<or> length inputs > PER_USER_EMBEDDING_MAX_DOCUMENT_COUNT \<or> list_ex (\<lambda>i. trim i = []) inputs
      then Inl (bail ''embedding_server_input_shape_invalid'')
      else case checked_total 0 inputs of
             None \<Rightarrow> Inl (bail ''embedding_server_input_length_overflow'')
           | Some n \<Rightarrow>
               if n > PER_USER_EMBEDDING_MAX_INPUT_BYTES then Inl (bail ''embedding_server_input_too_large'')
               else Inr ())"

definition is_lower_hex :: "char \<Rightarrow> bool" where
  "is_lower_hex c \<longleftrightarrow> 48 \<le> byte c \<and> byte c \<le> 57 \<or> 97 \<le> byte c \<and> byte c \<le> 102"

definition is_ascii_hexdigit :: "char \<Rightarrow> bool" where
  "is_ascii_hexdigit c \<longleftrightarrow> is_lower_hex c \<or> 65 \<le> byte c \<and> byte c \<le> 70"

definition is_ascii_alphanumeric :: "char \<Rightarrow> bool" where
  "is_ascii_alphanumeric c \<longleftrightarrow>
     48 \<le> byte c \<and> byte c \<le> 57 \<or> 65 \<le> byte c \<and> byte c \<le> 90 \<or> 97 \<le> byte c \<and> byte c \<le> 122"

definition is_sha256 :: "string \<Rightarrow> bool" where
  "is_sha256 v \<longleftrightarrow> length v = 64 \<and> list_all is_ascii_hexdigit v"

definition watchdog_marker_filename :: "string \<Rightarrow> string \<Rightarrow> any_error + string" where
  "watchdog_marker_filename nonce_sha256 server_instance_id =
     (if length nonce_sha256 \<noteq> 64 \<or> \<not> list_all is_lower_hex nonce_sha256
         \<or> server_instance_id = [] \<or> length server_instance_id > 128
         \<or> \<not> list_all (\<lambda>c. is_ascii_alphanumeric c \<or> c = CHR ''-'') server_instance_id
      then Inl (bail ''embedding_qualification_watchdog_marker_identity_invalid'')
      else Inr (nonce_sha256 @ ''.'' @ server_instance_id @ ''.watchdog-fail-stop.json''))"

record EmbeddingTransportIdentity =
  ti_endpoint_namespace_id :: string
  ti_lifetime_authority_id :: string
  ti_listener_id :: string
  ti_peer_verified :: bool
  ti_peer_pid :: "nat option"
  ti_peer_process_start_id :: "string option"

datatype EmbeddingConnectIntent = Activate | Observe

record EmbeddingExecutableIdentity =
  xi_pid :: nat
  xi_process_start_id :: string
  xi_executable_sha256 :: string
  xi_executable_version :: string

record EmbeddingClientBudgets =
  cb_connect :: nat
  cb_spawn :: nat
  cb_retry_after :: nat
  cb_query_request :: nat
  cb_bulk_request :: nat

section \<open>The exchange\<close>

definition protocol_request :: "string \<Rightarrow> EmbeddingCompatibility \<Rightarrow> EmbeddingOperation \<Rightarrow> EmbeddingProtocolRequest" where
  "protocol_request request_id compatibility operation =
     \<lparr>rq_protocol = PER_USER_EMBEDDING_PROTOCOL_V1,
      rq_schema_version = PER_USER_EMBEDDING_PROTOCOL_SCHEMA_VERSION,
      rq_request_id = request_id, rq_compatibility = compatibility, rq_operation = operation\<rparr>"

fun nested_io_raw_os_error :: "io_error \<Rightarrow> int option" where
  "nested_io_raw_os_error (IoError k (Some code) inner) = Some code"
| "nested_io_raw_os_error (IoError k None None) = None"
| "nested_io_raw_os_error (IoError k None (Some e)) = nested_io_raw_os_error e"

definition exchange_raw_os_error :: "any_error \<Rightarrow> int option" where
  "exchange_raw_os_error err = Option.bind (ae_io err) nested_io_raw_os_error"

text \<open>What the probes of the peer answer, in the order they are made.\<close>

record stream_probe =
  sp_identity :: EmbeddingTransportIdentity
  sp_exit_code :: "string + nat option"
  sp_alive :: "string + bool"
  sp_exit_code_again :: "string + nat option"

definition peer_state :: "stream_probe \<Rightarrow> string \<times> nat option" where
  "peer_state p =
     (case sp_exit_code p of
        Inr (Some code) \<Rightarrow> (''exited'', Some code)
      | Inr None \<Rightarrow>
          (case sp_alive p of
             Inr True \<Rightarrow> (''running'', None)
           | Inr False \<Rightarrow>
               (case sp_exit_code_again p of
                  Inr code \<Rightarrow> (''exited'', code)
                | Inl e \<Rightarrow> (''exited (exit-code probe failed: '' @ e @ '')'', None))
           | Inl e \<Rightarrow> (''unknown ('' @ e @ '')'', None))
      | Inl e \<Rightarrow> (''unknown ('' @ e @ '')'', None))"

definition with_typed :: "PerUserEmbeddingError \<Rightarrow> any_error \<Rightarrow> any_error" where
  "with_typed e err =
     err\<lparr>ae_chain := (ue_code e @ '': '' @ ue_message e) # ae_chain err, ae_typed := Some e\<rparr>"

definition timeout_kind :: "io_kind \<Rightarrow> bool" where
  "timeout_kind k \<longleftrightarrow> k = TimedOut \<or> k = WouldBlock"

definition lost_kind :: "io_kind \<Rightarrow> bool" where
  "lost_kind k \<longleftrightarrow> List.member [BrokenPipe, ConnectionAborted, ConnectionReset, NotConnected, UnexpectedEof] k"

definition map_bounded_exchange_error ::
  "EmbeddingClientBudgets \<Rightarrow> (any_error \<Rightarrow> string) \<Rightarrow> stream_probe \<Rightarrow> any_error \<Rightarrow> any_error" where
  "map_bounded_exchange_error budgets source_chain p err =
     (case map_option io_error_kind (ae_io err) of
        None \<Rightarrow> err
      | Some k \<Rightarrow>
          if timeout_kind k then
            with_typed \<lparr>ue_code = ''embedding_server_owner_unresponsive'',
              ue_message = ''the embedding server did not complete a bounded exchange'',
              ue_retry_class = ''after_server_change'', ue_retry_after_ms = duration_ms (cb_retry_after budgets),
              ue_retry_condition = ''the lifetime authority or server instance changes'', ue_capacity = None\<rparr> err
          else if lost_kind k then
            (case peer_state p of (state, exit_code) \<Rightarrow>
               with_typed \<lparr>ue_code = ''embedding_server_connection_lost'',
                 ue_message =
                   ''the authenticated embedding server connection was lost; raw_os_error=''
                   @ (case exchange_raw_os_error err of None \<Rightarrow> ''none'' | Some code \<Rightarrow> show_int code)
                   @ ''; peer_pid='' @ (case ti_peer_pid (sp_identity p) of None \<Rightarrow> ''unknown'' | Some pid \<Rightarrow> show_nat pid)
                   @ ''; peer_process_start_id=''
                   @ (case ti_peer_process_start_id (sp_identity p) of None \<Rightarrow> ''unknown'' | Some i \<Rightarrow> i)
                   @ ''; peer_state='' @ state
                   @ ''; peer_exit_code='' @ (case exit_code of None \<Rightarrow> ''none'' | Some code \<Rightarrow> show_nat code)
                   @ ''; source='' @ source_chain err,
                 ue_retry_class = ''same_rpc_once'', ue_retry_after_ms = 0,
                 ue_retry_condition = ''the server instance changes'', ue_capacity = None\<rparr> err)
          else err)"

definition is_server_loss :: "any_error \<Rightarrow> bool" where
  "is_server_loss err \<longleftrightarrow>
     (case ae_typed err of None \<Rightarrow> False
      | Some e \<Rightarrow> ue_code e = ''embedding_server_owner_unresponsive'' \<or> ue_code e = ''embedding_server_connection_lost'')"

text \<open>A codec is the serializer of requests and the parser of responses on the client's side.\<close>

definition exchange ::
  "(any_error \<Rightarrow> any_error) \<Rightarrow> (EmbeddingProtocolRequest \<Rightarrow> string + bytes) \<Rightarrow> (bytes \<Rightarrow> string + EmbeddingProtocolResponse) \<Rightarrow>
     EmbeddingProtocolRequest \<Rightarrow> connection \<Rightarrow> any_error + (EmbeddingProtocolResponse \<times> bytes) \<times> connection" where
  "exchange map_err ser de request c =
     (case write_frame ser request [] c of
        Inl e \<Rightarrow> Inl (map_err e)
      | Inr c1 \<Rightarrow>
          (case read_frame de c1 of
             Inl e \<Rightarrow> Inl (map_err e)
           | Inr ((response, payload), c2) \<Rightarrow>
               if rp_request_id response \<noteq> rq_request_id request
               then Inl (bail ''embedding_server_response_request_id_mismatch'')
               else if rp_protocol response \<noteq> PER_USER_EMBEDDING_PROTOCOL_V1
                       \<or> rp_schema_version response \<noteq> PER_USER_EMBEDDING_PROTOCOL_SCHEMA_VERSION
               then Inl (bail ''embedding_server_protocol_mismatch'')
               else Inr ((response, payload), c2)))"

definition response_result :: "EmbeddingProtocolResponse \<Rightarrow> any_error + EmbeddingResult" where
  "response_result response =
     (if rp_protocol response \<noteq> PER_USER_EMBEDDING_PROTOCOL_V1
         \<or> rp_schema_version response \<noteq> PER_USER_EMBEDDING_PROTOCOL_SCHEMA_VERSION
      then Inl (bail ''embedding_server_protocol_mismatch'')
      else case rp_result response of
             Some result \<Rightarrow> Inr result
           | None \<Rightarrow>
               (case rp_error response of
                  None \<Rightarrow> Inl (bail ''embedding server returned neither result nor error'')
                | Some e \<Rightarrow>
                    Inl (let u = \<lparr>ue_code = pe_code e, ue_message = pe_message e, ue_retry_class = pe_retry_class e,
                           ue_retry_after_ms = pe_retry_after_ms e, ue_retry_condition = pe_retry_condition e,
                           ue_capacity = pe_capacity e\<rparr>
                         in \<lparr>ae_chain = [pe_code e @ '': '' @ pe_message e], ae_io = None, ae_typed = Some u, ae_engine = None\<rparr>)))"

definition vectors_result ::
  "EmbeddingResult \<times> bytes \<Rightarrow> any_error + (nat \<times> nat \<times> EmbeddingEngineIdentity \<times> bytes)" where
  "vectors_result r =
     (case r of
        (ResVectors rows columns encoding identity, payload) \<Rightarrow>
          if encoding \<noteq> ''f32_le'' then Inl (bail ''embedding_vector_encoding_mismatch'')
          else Inr (rows, columns, identity, payload)
      | _ \<Rightarrow> Inl (bail ''embedding_server_protocol_mismatch: expected vectors''))"

section \<open>Identity checks\<close>

definition validate_engine_identity :: "EmbeddingEngineIdentity \<Rightarrow> EmbeddingCompatibility \<Rightarrow> any_error + unit" where
  "validate_engine_identity i k =
     (if \<not> ei_worker_alive i \<or> ei_load_error i \<noteq> None then Inl (bail ''embedding_server_engine_unavailable'')
      else if ei_model_digest i \<noteq> ec_model_sha256 k \<or> ei_ggml_build_identity i \<noteq> ec_ggml_build_identity k
              \<or> ei_policy i \<noteq> ec_policy k \<or> ei_materialized_model_sha256 i \<noteq> ec_model_sha256 k
              \<or> ei_load_generation i = 0
      then Inl (bail ''embedding_server_engine_identity_mismatch'')
      else Inr ())"

definition validate_engine_server_identity :: "EmbeddingEngineIdentity \<Rightarrow> EmbeddingServerSnapshot \<Rightarrow> any_error + unit" where
  "validate_engine_server_identity i server =
     (if ei_server_instance_id i \<noteq> pc_server_instance_id (sv_process server)
      then Inl (bail ''embedding_server_instance_changed'') else Inr ())"

definition validate_lease_server_identity ::
  "EmbeddingEngineLeaseIdentity \<Rightarrow> EmbeddingEngineIdentity \<Rightarrow> EmbeddingServerSnapshot \<Rightarrow> any_error + unit" where
  "validate_lease_server_identity l i server =
     (if le_server_instance_id l \<noteq> pc_server_instance_id (sv_process server)
         \<or> le_server_instance_id l \<noteq> ei_server_instance_id i
         \<or> le_load_generation l \<noteq> ei_load_generation i
         \<or> trim (le_lease_token l) = []
      then Inl (bail ''embedding_publication_lease_changed'') else Inr ())"

definition validate_same_server :: "EmbeddingServerSnapshot \<Rightarrow> EmbeddingServerSnapshot \<Rightarrow> any_error + unit" where
  "validate_same_server observed accepted =
     (if sv_process observed \<noteq> sv_process accepted \<or> sv_protocol observed \<noteq> sv_protocol accepted
         \<or> sv_authority observed \<noteq> sv_authority accepted
      then Inl (bail ''embedding_server_instance_changed'') else Inr ())"

definition validate_server_snapshot ::
  "protocol_digests \<Rightarrow> EmbeddingServerSnapshot \<Rightarrow> EmbeddingTransportIdentity \<Rightarrow> EmbeddingExecutableIdentity \<Rightarrow> any_error + unit" where
  "validate_server_snapshot digests s t x =
     (if sv_schema_version s \<noteq> PER_USER_EMBEDDING_SERVER_SNAPSHOT_SCHEMA_VERSION
         \<or> sv_protocol s \<noteq> protocol_snapshot_current digests
         \<or> trim (pc_server_instance_id (sv_process s)) = []
         \<or> pc_pid (sv_process s) = 0
         \<or> trim (pc_process_start_id (sv_process s)) = []
         \<or> trim (pc_executable_sha256 (sv_process s)) = []
         \<or> trim (pc_executable_version (sv_process s)) = []
      then Inl (bail ''embedding_server_snapshot_contract_mismatch'')
      else if \<not> ti_peer_verified t
         \<or> \<not> au_peer_verified (sv_authority s)
         \<or> au_endpoint_namespace_id (sv_authority s) \<noteq> ti_endpoint_namespace_id t
         \<or> au_lifetime_authority_id (sv_authority s) \<noteq> ti_lifetime_authority_id t
         \<or> au_listener_id (sv_authority s) \<noteq> ti_listener_id t
         \<or> ti_peer_pid t \<noteq> Some (pc_pid (sv_process s))
         \<or> ti_peer_process_start_id t \<noteq> Some (pc_process_start_id (sv_process s))
      then Inl (bail ''embedding_server_peer_identity_mismatch'')
      else if pc_executable_sha256 (sv_process s) \<noteq> xi_executable_sha256 x
         \<or> pc_executable_version (sv_process s) \<noteq> xi_executable_version x
      then Inl (bail ''embedding_server_executable_identity_mismatch'')
      else Inr ())"

fun intent_label :: "EmbeddingConnectIntent \<Rightarrow> string" where
  "intent_label Activate = ''activate''"
| "intent_label Observe = ''observe''"

definition hello ::
  "(any_error \<Rightarrow> any_error) \<Rightarrow> (EmbeddingProtocolRequest \<Rightarrow> string + bytes) \<Rightarrow> (bytes \<Rightarrow> string + EmbeddingProtocolResponse) \<Rightarrow>
     (EmbeddingCompatibility \<Rightarrow> any_error + string) \<Rightarrow> protocol_digests \<Rightarrow> string \<Rightarrow>
     EmbeddingConnectIntent \<Rightarrow> EmbeddingCompatibility \<Rightarrow> EmbeddingTransportIdentity \<Rightarrow> EmbeddingExecutableIdentity \<Rightarrow>
     connection \<Rightarrow> any_error + EmbeddingServerSnapshot \<times> connection" where
  "hello map_err ser de digest digests request_id intent compatibility transport executable c =
     (case exchange map_err ser de
             (protocol_request request_id compatibility
                (OpHello (intent_label intent) (xi_pid executable) (xi_process_start_id executable)
                   (xi_executable_sha256 executable) (xi_executable_version executable))) c of
        Inl e \<Rightarrow> Inl e
      | Inr ((response, _), c1) \<Rightarrow>
          (case response_result response of
             Inl e \<Rightarrow> Inl e
           | Inr (ResHello compatibility_sha256 snapshot) \<Rightarrow>
               (case digest compatibility of
                  Inl e \<Rightarrow> Inl e
                | Inr expected \<Rightarrow>
                    if compatibility_sha256 \<noteq> expected then Inl (bail ''embedding_server_incompatible_active_owner'')
                    else case validate_server_snapshot digests snapshot transport executable of
                           Inl e \<Rightarrow> Inl e | Inr _ \<Rightarrow> Inr (snapshot, c1))
           | Inr _ \<Rightarrow> Inl (bail ''embedding_server_protocol_mismatch: expected hello'')))"

section \<open>Server responses\<close>

definition validate_protocol_request :: "EmbeddingProtocolRequest \<Rightarrow> any_error + unit" where
  "validate_protocol_request r =
     (if rq_protocol r \<noteq> PER_USER_EMBEDDING_PROTOCOL_V1
         \<or> rq_schema_version r \<noteq> PER_USER_EMBEDDING_PROTOCOL_SCHEMA_VERSION
         \<or> trim (rq_request_id r) = [] \<or> length (rq_request_id r) > 256
      then Inl (bail ''embedding_server_protocol_mismatch'') else Inr ())"

definition capacity_wire ::
  "EmbeddingAdmissionSnapshot \<Rightarrow> EmbeddingCapacityReason \<Rightarrow> EmbeddingRequestClass \<Rightarrow> nat \<Rightarrow> string \<Rightarrow> EmbeddingCapacityPressureWire" where
  "capacity_wire s reason request_class retry_after_ms retry_condition =
     (let (capacity, depth) = (case request_class of Query \<Rightarrow> (sn_query_capacity s, sn_query_depth s)
                               | Bulk \<Rightarrow> (sn_bulk_capacity s, sn_bulk_depth s))
      in \<lparr>cw_reason = capacity_reason_as_str reason, cw_queue_class = request_class_as_str request_class,
          cw_capacity = capacity, cw_depth = depth, cw_retry_after_ms = retry_after_ms,
          cw_retry_condition = retry_condition, cw_owner_state = owner_state_as_str (sn_owner_state s),
          cw_active_scope_id = map_option as_scope_id (sn_active_request s),
          cw_active_request_id = map_option as_request_id (sn_active_request s),
          cw_active_request_class = map_option (\<lambda>a. request_class_as_str (as_request_class a)) (sn_active_request s)\<rparr>)"

definition capacity_wire_from :: "EmbeddingCapacityPressure \<Rightarrow> EmbeddingCapacityPressureWire" where
  "capacity_wire_from p =
     \<lparr>cw_reason = capacity_reason_as_str (cp_reason p), cw_queue_class = request_class_as_str (cp_request_class p),
      cw_capacity = cp_capacity p, cw_depth = cp_depth p, cw_retry_after_ms = cp_retry_after_ms p,
      cw_retry_condition = cp_retry_condition p, cw_owner_state = owner_state_as_str (cp_owner_state p),
      cw_active_scope_id = cp_active_scope_id p, cw_active_request_id = cp_active_request_id p,
      cw_active_request_class = map_option request_class_as_str (cp_active_request_class p)\<rparr>"

definition success_response :: "string \<Rightarrow> EmbeddingResult \<Rightarrow> EmbeddingProtocolResponse" where
  "success_response request_id result =
     \<lparr>rp_protocol = PER_USER_EMBEDDING_PROTOCOL_V1, rp_schema_version = PER_USER_EMBEDDING_PROTOCOL_SCHEMA_VERSION,
      rp_request_id = request_id, rp_result = Some result, rp_error = None\<rparr>"

definition failure_response :: "string \<Rightarrow> EmbeddingProtocolError \<Rightarrow> EmbeddingProtocolResponse" where
  "failure_response request_id e =
     \<lparr>rp_protocol = PER_USER_EMBEDDING_PROTOCOL_V1, rp_schema_version = PER_USER_EMBEDDING_PROTOCOL_SCHEMA_VERSION,
      rp_request_id = request_id, rp_result = None, rp_error = Some e\<rparr>"

definition protocol_error :: "string \<Rightarrow> string \<Rightarrow> EmbeddingProtocolError" where
  "protocol_error code message =
     \<lparr>pe_code = code, pe_message = message, pe_retry_class = ''terminal'', pe_retry_after_ms = 0,
      pe_retry_condition = ''the request or compatible executable changes'', pe_capacity = None\<rparr>"

definition deadline_invalid_response :: "string \<Rightarrow> EmbeddingProtocolResponse" where
  "deadline_invalid_response request_id =
     failure_response request_id
       (protocol_error ''embedding_server_deadline_invalid'' ''embedding request deadline must be finite and positive'')"

definition deadline_exceeded_response ::
  "string \<Rightarrow> nat \<Rightarrow> EmbeddingRequestClass \<Rightarrow> EmbeddingAdmissionSnapshot option \<Rightarrow> EmbeddingProtocolResponse" where
  "deadline_exceeded_response request_id retry_after_ms request_class engine =
     failure_response request_id
       \<lparr>pe_code = ''embedding_deadline_exceeded'',
        pe_message = ''embedding request exceeded its server-owned soft deadline'',
        pe_retry_class = ''after_delay'', pe_retry_after_ms = retry_after_ms,
        pe_retry_condition = ''the active request completes or the server instance changes'',
        pe_capacity = map_option (\<lambda>s. capacity_wire s DeadlineElapsed request_class retry_after_ms
          ''the active request completes or the server instance changes'') engine\<rparr>"

definition engine_failure_response :: "string \<Rightarrow> EngineError \<Rightarrow> EmbeddingProtocolResponse" where
  "engine_failure_response request_id e =
     failure_response request_id
       (case capacity_pressure e of
          Some p \<Rightarrow>
            \<lparr>pe_code = ''embedding_capacity'', pe_message = engine_display e, pe_retry_class = ''after_capacity_change'',
             pe_retry_after_ms = cp_retry_after_ms p, pe_retry_condition = cp_retry_condition p,
             pe_capacity = Some (capacity_wire_from p)\<rparr>
        | None \<Rightarrow>
            \<lparr>pe_code = reason_code e, pe_message = engine_display e,
             pe_retry_class = (if e = EngineCancelled then ''none'' else ''after_server_change''),
             pe_retry_after_ms = 0, pe_retry_condition = ''the server instance or engine evidence changes'',
             pe_capacity = None\<rparr>)"

definition anyhow_failure_response :: "string \<Rightarrow> any_error \<Rightarrow> EmbeddingProtocolResponse" where
  "anyhow_failure_response request_id err =
     failure_response request_id
       (case ae_engine err of
          Some e \<Rightarrow>
            \<lparr>pe_code = reason_code e, pe_message = error_message err, pe_retry_class = ''after_server_change'',
             pe_retry_after_ms = 0, pe_retry_condition = ''the server instance or engine evidence changes'',
             pe_capacity = map_option capacity_wire_from (capacity_pressure e)\<rparr>
        | None \<Rightarrow>
            \<lparr>pe_code = ''embedding_server_internal_error'', pe_message = error_message err, pe_retry_class = ''terminal'',
             pe_retry_after_ms = 0, pe_retry_condition = ''the request or server implementation changes'',
             pe_capacity = None\<rparr>)"

definition write_protocol_response ::
  "(EmbeddingProtocolResponse \<Rightarrow> string + bytes) \<Rightarrow> EmbeddingProtocolResponse \<Rightarrow> bytes \<Rightarrow> connection \<Rightarrow> any_error + connection" where
  "write_protocol_response ser response payload c = write_frame ser response payload c"

section \<open>Properties of an exchange\<close>

lemma exchange_Inr:
  assumes "exchange map_err ser de request c = Inr ((response, payload), c')"
  obtains c1 where "write_frame ser request [] c = Inr c1" "read_frame de c1 = Inr ((response, payload), c')"
    "rp_request_id response = rq_request_id request" "rp_protocol response = PER_USER_EMBEDDING_PROTOCOL_V1"
    "rp_schema_version response = PER_USER_EMBEDDING_PROTOCOL_SCHEMA_VERSION"
  using assms by (auto simp: exchange_def split: sum.splits if_splits prod.splits)

lemma write_frame_frame:
  assumes "write_frame ser x payload c = Inr c'"
  shows "cn_incoming c' = cn_incoming c" "cn_read_end c' = cn_read_end c"
proof -
  have wa: "write_all bs c = Inr c' \<Longrightarrow> cn_incoming c' = cn_incoming c \<and> cn_read_end c' = cn_read_end c" for bs c c'
    by (auto simp: write_all_def split: option.splits nat.splits)
  show "cn_incoming c' = cn_incoming c" "cn_read_end c' = cn_read_end c"
    using assms by (auto simp: write_frame_def flush_def dest!: wa split: sum.splits if_splits)
qed


text \<open>C37: a hello only succeeds against the authenticated owner: the snapshot it returns names the
  very process the transport verified, the same endpoint, lifetime authority and listener, the
  client's own executable and this build's protocol digests, and was answered for the digest of
  the client's compatibility.\<close>

theorem hello_authenticates:
  assumes "hello map_err ser de digest digests request_id intent compatibility transport executable c = Inr (s, c')"
  shows "ti_peer_verified transport \<and> ti_peer_pid transport = Some (pc_pid (sv_process s)) \<and> pc_pid (sv_process s) \<noteq> 0
    \<and> ti_peer_process_start_id transport = Some (pc_process_start_id (sv_process s))
    \<and> au_endpoint_namespace_id (sv_authority s) = ti_endpoint_namespace_id transport
    \<and> au_lifetime_authority_id (sv_authority s) = ti_lifetime_authority_id transport
    \<and> au_listener_id (sv_authority s) = ti_listener_id transport
    \<and> pc_executable_sha256 (sv_process s) = xi_executable_sha256 executable
    \<and> pc_executable_version (sv_process s) = xi_executable_version executable
    \<and> sv_protocol s = protocol_snapshot_current digests
    \<and> (\<exists>sha r p c1. digest compatibility = Inr sha \<and> rp_result r = Some (ResHello sha s) \<and> rp_request_id r = request_id
         \<and> exchange map_err ser de (protocol_request request_id compatibility
             (OpHello (intent_label intent) (xi_pid executable) (xi_process_start_id executable)
                (xi_executable_sha256 executable) (xi_executable_version executable))) c = Inr ((r, p), c1))"
proof -
  obtain r p sha where ex: "exchange map_err ser de (protocol_request request_id compatibility
      (OpHello (intent_label intent) (xi_pid executable) (xi_process_start_id executable)
        (xi_executable_sha256 executable) (xi_executable_version executable))) c = Inr ((r, p), c')"
    and res: "response_result r = Inr (ResHello sha s)" "digest compatibility = Inr sha"
    and valid: "validate_server_snapshot digests s transport executable = Inr ()"
    using assms by (auto simp: hello_def split: sum.splits prod.splits EmbeddingResult.splits if_splits)
  have "rp_result r = Some (ResHello sha s)"
    using res(1) by (auto simp: response_result_def split: if_splits option.splits)
  moreover have "rp_request_id r = request_id" using ex by (auto elim!: exchange_Inr simp: protocol_request_def)
  ultimately show ?thesis
    using ex res(2) valid by (auto simp: validate_server_snapshot_def split: if_splits)
qed

definition sample_snapshot :: EmbeddingServerSnapshot where
  "sample_snapshot =
     \<lparr>sv_schema_version = 1, sv_event_sequence = 3, sv_lifecycle = ''ready'',
      sv_clock = \<lparr>ck_domain = ''awake'', ck_api = ''clock'', ck_boot_id = ''b'', ck_resolution_ns = 1\<rparr>,
      sv_protocol = protocol_snapshot_current \<lparr>pd_protocol_sha256 = ''p'', pd_constant_set_sha256 = ''c'', pd_measurement_protocol_sha256 = ''m''\<rparr>,
      sv_authority = \<lparr>au_endpoint_namespace_id = ''ns'', au_lifetime_authority_id = ''la'', au_listener_id = ''li'', au_peer_verified = True\<rparr>,
      sv_process = \<lparr>pc_server_instance_id = ''i'', pc_pid = 42, pc_process_start_id = ''s'', pc_executable_sha256 = ''x'', pc_executable_version = ''v''\<rparr>,
      sv_scheduler = \<lparr>sc_query_capacity = 8, sc_query_depth = 0, sc_bulk_capacity = 2, sc_bulk_depth = 0, sc_connection_count = 1,
        sc_active_request_count = 0, sc_lease_count = 0, sc_active_request = None\<rparr>,
      sv_engine = None, sv_failure = None\<rparr>"

definition sample_transport :: EmbeddingTransportIdentity where
  "sample_transport =
     \<lparr>ti_endpoint_namespace_id = ''ns'', ti_lifetime_authority_id = ''la'', ti_listener_id = ''li'', ti_peer_verified = True,
      ti_peer_pid = Some 42, ti_peer_process_start_id = Some ''s''\<rparr>"

definition sample_executable :: EmbeddingExecutableIdentity where
  "sample_executable = \<lparr>xi_pid = 7, xi_process_start_id = ''t'', xi_executable_sha256 = ''x'', xi_executable_version = ''v''\<rparr>"

definition sample_compatibility :: EmbeddingCompatibility where
  "sample_compatibility =
     \<lparr>ec_protocol_schema_version = 1, ec_product_runtime_id = ''rt'', ec_model_id = ''m'', ec_model_sha256 = ''ms'',
      ec_tokenizer_sha256 = ''ts'', ec_config_sha256 = ''cs'', ec_query_prefix = ''q: '', ec_document_prefix = [],
      ec_pooling = ''cls'', ec_normalization = ''l2'', ec_dimension = 768, ec_element_type = ''f32'',
      ec_vector_schema_version = 1, ec_ggml_build_identity = ''g'', ec_target_triple = ''t'', ec_policy = ''accelerated''\<rparr>"

definition sample_connection :: "bytes \<Rightarrow> connection" where
  "sample_connection incoming = \<lparr>cn_incoming = incoming, cn_read_end = None, cn_written = [], cn_write_fault = None\<rparr>"

lemma sample_frame_ok: "frame_ok [1] []"
  by (simp add: frame_ok_def frame_lengths_invalid_def wire_limits)


lemma sample_trims: "trim ''i'' = ''i''" "trim ''s'' = ''s''" "trim ''x'' = ''x''" "trim ''v'' = ''v''"
  by (simp_all add: trim_visible visible_def byte_def)

lemma sample_hello:
  "hello (\<lambda>e. e) (\<lambda>_. Inr [1]) (\<lambda>_. Inr (success_response ''r'' (ResHello ''d'' sample_snapshot))) (\<lambda>_. Inr ''d'')
     \<lparr>pd_protocol_sha256 = ''p'', pd_constant_set_sha256 = ''c'', pd_measurement_protocol_sha256 = ''m''\<rparr> ''r'' Activate
     sample_compatibility sample_transport sample_executable (sample_connection (frame_bytes [1] []))
   = Inr (sample_snapshot, (sample_connection [])\<lparr>cn_written := frame_bytes [1] []\<rparr>)"
proof -
  have w: "write_frame (\<lambda>_. Inr [1]) rq [] (sample_connection (frame_bytes [1] []))
      = Inr ((sample_connection (frame_bytes [1] []))\<lparr>cn_written := frame_bytes [1] []\<rparr>)" for rq :: EmbeddingProtocolRequest
    by (subst write_frame_ok [where control = "[1]"]) (simp_all add: sample_frame_ok sample_connection_def)
  have r: "read_frame (\<lambda>_. Inr x) ((sample_connection (frame_bytes [1] []))\<lparr>cn_written := frame_bytes [1] []\<rparr>)
      = Inr ((x, []), (sample_connection [])\<lparr>cn_written := frame_bytes [1] []\<rparr>)" for x :: EmbeddingProtocolResponse
    by (subst read_frame_ok [where control = "[1]" and payload = "[]" and rest = "[]" and x = x])
      (simp_all add: sample_frame_ok sample_connection_def)
  show ?thesis
    by (simp add: hello_def exchange_def w r success_response_def protocol_request_def response_result_def
        validate_server_snapshot_def sample_snapshot_def sample_transport_def sample_executable_def sample_trims
        PER_USER_EMBEDDING_SERVER_SNAPSHOT_SCHEMA_VERSION_def)
qed

theorem hello_authenticates_witness:
  "ti_peer_pid sample_transport = Some (pc_pid (sv_process sample_snapshot))
   \<and> sv_protocol sample_snapshot = protocol_snapshot_current
       \<lparr>pd_protocol_sha256 = ''p'', pd_constant_set_sha256 = ''c'', pd_measurement_protocol_sha256 = ''m''\<rparr>"
  using hello_authenticates [OF sample_hello] by blast

text \<open>A failed exchange is classified for replay by its I/O kind alone: a timeout asks for a
  change of server, a lost connection allows the same call once, and every other error keeps its
  form; so exactly these two count as the loss of the server.\<close>

theorem exchange_loss_classified:
  assumes "ae_typed err = None"
  shows "(is_server_loss (map_bounded_exchange_error budgets chain p err) \<longleftrightarrow>
        (\<exists>io. ae_io err = Some io \<and> (timeout_kind (io_error_kind io) \<or> lost_kind (io_error_kind io))))
    \<and> ((\<exists>e. ae_typed (map_bounded_exchange_error budgets chain p err) = Some e \<and> ue_retry_class e = ''same_rpc_once'') \<longleftrightarrow>
        (\<exists>io. ae_io err = Some io \<and> lost_kind (io_error_kind io)))
    \<and> (is_server_loss (map_bounded_exchange_error budgets chain p err)
        \<or> map_bounded_exchange_error budgets chain p err = err)
    \<and> ae_io (map_bounded_exchange_error budgets chain p err) = ae_io err"
proof (cases "ae_io err")
  case None
  then show ?thesis
    using assms by (simp add: map_bounded_exchange_error_def is_server_loss_def)
next
  case (Some io)
  consider (timeout) "timeout_kind (io_error_kind io)" "\<not> lost_kind (io_error_kind io)"
    | (lost) "\<not> timeout_kind (io_error_kind io)" "lost_kind (io_error_kind io)"
    | (other) "\<not> timeout_kind (io_error_kind io)" "\<not> lost_kind (io_error_kind io)"
    by (cases "io_error_kind io") (auto simp: timeout_kind_def lost_kind_def)
  then show ?thesis
    using Some assms
    by cases (simp_all add: map_bounded_exchange_error_def is_server_loss_def with_typed_def split: prod.split)
qed

theorem exchange_loss_classified_witness:
  "is_server_loss (map_bounded_exchange_error
     \<lparr>cb_connect = 1, cb_spawn = 1, cb_retry_after = 1, cb_query_request = 1, cb_bulk_request = 1\<rparr> (\<lambda>_. [])
     \<lparr>sp_identity = sample_transport, sp_exit_code = Inr None, sp_alive = Inr True, sp_exit_code_again = Inr None\<rparr>
     (io_context ''read'' (IoError BrokenPipe (Some 32) None)))"
proof -
  have untyped: "ae_typed (io_context ''read'' (IoError BrokenPipe (Some 32) None)) = None"
    and io: "ae_io (io_context ''read'' (IoError BrokenPipe (Some 32) None)) = Some (IoError BrokenPipe (Some 32) None)"
    by (simp_all add: io_context_def)
  show ?thesis
    using exchange_loss_classified [OF untyped] io by (simp add: lost_kind_def)
qed

end
