(* ===== verification/Server_Admission.thy ===== *)
theory Server_Admission
  imports Embedding_Admission
begin

text \<open>
  Front-door admission of the per-user embedding server,
  \<^verbatim>\<open>codestory-retrieval/src/per_user_embedding/admission.rs\<close>.

  A permit is an \<^verbatim>\<open>Arc\<close> of an inner cell with a \<open>released\<close> flag; cloning a permit shares
  the cell, and dropping any clone releases it. The model keeps the cells in a store
  indexed by permit number, so that clones are copies of the number.
\<close>

record ServerRequestAdmissionDepths =
  dp_query :: nat
  dp_bulk :: nat

definition depths_default :: ServerRequestAdmissionDepths where
  "depths_default = \<lparr>dp_query = 0, dp_bulk = 0\<rparr>"

fun depths_depth :: "ServerRequestAdmissionDepths \<Rightarrow> EmbeddingRequestClass \<Rightarrow> nat" where
  "depths_depth d Query = dp_query d"
| "depths_depth d Bulk = dp_bulk d"

fun depths_capacity :: "EmbeddingRequestClass \<Rightarrow> nat" where
  "depths_capacity Query = EMBEDDING_QUERY_QUEUE_CAPACITY"
| "depths_capacity Bulk = EMBEDDING_BULK_QUEUE_CAPACITY"

fun depths_increment :: "EmbeddingRequestClass \<Rightarrow> ServerRequestAdmissionDepths \<Rightarrow> ServerRequestAdmissionDepths" where
  "depths_increment Query d = d\<lparr>dp_query := dp_query d + 1\<rparr>"
| "depths_increment Bulk d = d\<lparr>dp_bulk := dp_bulk d + 1\<rparr>"

fun depths_decrement :: "EmbeddingRequestClass \<Rightarrow> ServerRequestAdmissionDepths \<Rightarrow> ServerRequestAdmissionDepths" where
  "depths_decrement Query d = d\<lparr>dp_query := sat_sub (dp_query d) 1\<rparr>"
| "depths_decrement Bulk d = d\<lparr>dp_bulk := sat_sub (dp_bulk d) 1\<rparr>"

text \<open>The cell of a permit, and the admission with every cell it handed out.\<close>

record ServerRequestAdmissionPermitInner =
  pi_request_class :: EmbeddingRequestClass
  pi_released :: bool

type_synonym permit = nat

record ServerRequestAdmission =
  sa_depths :: ServerRequestAdmissionDepths
  sa_permits :: "ServerRequestAdmissionPermitInner list"

definition ServerRequestAdmission_default :: ServerRequestAdmission where
  "ServerRequestAdmission_default = \<lparr>sa_depths = depths_default, sa_permits = []\<rparr>"

definition try_acquire ::
  "EmbeddingRequestClass \<Rightarrow> bool \<Rightarrow> ServerRequestAdmission \<Rightarrow>
     ServerRequestAdmission \<times> (ServerRequestAdmissionDepths + permit)" where
  "try_acquire request_class active_execution a =
     (let in_flight_capacity =
            sat_add64 (depths_capacity request_class) (if active_execution then 1 else 0)
      in if depths_depth (sa_depths a) request_class \<ge> in_flight_capacity
         then (a, Inl (sa_depths a))
         else (a\<lparr>sa_depths := depths_increment request_class (sa_depths a),
                 sa_permits := sa_permits a @ [\<lparr>pi_request_class = request_class, pi_released = False\<rparr>]\<rparr>,
               Inr (length (sa_permits a))))"

definition admission_snapshot :: "ServerRequestAdmission \<Rightarrow> ServerRequestAdmissionDepths" where
  "admission_snapshot a = sa_depths a"

definition admission_release :: "EmbeddingRequestClass \<Rightarrow> ServerRequestAdmission \<Rightarrow> ServerRequestAdmission" where
  "admission_release request_class a = a\<lparr>sa_depths := depths_decrement request_class (sa_depths a)\<rparr>"

text \<open>
  \<^verbatim>\<open>released.swap(true)\<close> then the decrement. Dropping a clone calls the same function.
  A permit always names a cell of its admission; the other case changes nothing.
\<close>

definition permit_release :: "permit \<Rightarrow> ServerRequestAdmission \<Rightarrow> ServerRequestAdmission" where
  "permit_release p a =
     (if p < length (sa_permits a) then
        let inner = sa_permits a ! p;
            a1 = a\<lparr>sa_permits := (sa_permits a)[p := inner\<lparr>pi_released := True\<rparr>]\<rparr>
        in if \<not> pi_released inner then admission_release (pi_request_class inner) a1 else a1
      else a)"

definition permit_drop :: "permit \<Rightarrow> ServerRequestAdmission \<Rightarrow> ServerRequestAdmission" where
  "permit_drop = permit_release"

section \<open>Depths count the outstanding permits\<close>

definition outstanding :: "EmbeddingRequestClass \<Rightarrow> ServerRequestAdmission \<Rightarrow> nat" where
  "outstanding c a = length (filter (\<lambda>i. pi_request_class i = c \<and> \<not> pi_released i) (sa_permits a))"

definition server_admission_inv :: "ServerRequestAdmission \<Rightarrow> bool" where
  "server_admission_inv a \<longleftrightarrow>
     (\<forall>c. depths_depth (sa_depths a) c = outstanding c a \<and> outstanding c a \<le> depths_capacity c + 1)"

datatype admission_op = AcquireOp EmbeddingRequestClass bool | ReleaseOp permit

fun admission_step :: "admission_op \<Rightarrow> ServerRequestAdmission \<Rightarrow> ServerRequestAdmission" where
  "admission_step (AcquireOp c active) a = fst (try_acquire c active a)"
| "admission_step (ReleaseOp p) a = permit_release p a"

lemma capacity_small: "depths_capacity c + 1 < u64_max"
  by (cases c) (simp_all add: EMBEDDING_QUERY_QUEUE_CAPACITY_def EMBEDDING_BULK_QUEUE_CAPACITY_def u64_max_def)

lemma in_flight_capacity:
  "sat_add64 (depths_capacity c) (if b then 1 else 0) = depths_capacity c + (if b then 1 else 0)"
  using capacity_small [of c] by (simp add: sat_add64_def)

lemma depths_depth_increment [simp]:
  "depths_depth (depths_increment c d) c' = (if c' = c then depths_depth d c + 1 else depths_depth d c')"
  by (cases c; cases c') auto

lemma depths_depth_decrement [simp]:
  "depths_depth (depths_decrement c d) c' = (if c' = c then depths_depth d c - 1 else depths_depth d c')"
  by (cases c; cases c') auto

lemma try_acquire_cases:
  "try_acquire c b a =
     (if depths_capacity c + (if b then 1 else 0) \<le> depths_depth (sa_depths a) c
      then (a, Inl (sa_depths a))
      else (a\<lparr>sa_depths := depths_increment c (sa_depths a),
              sa_permits := sa_permits a @ [\<lparr>pi_request_class = c, pi_released = False\<rparr>]\<rparr>,
            Inr (length (sa_permits a))))"
  by (simp only: try_acquire_def Let_def in_flight_capacity)

lemma outstanding_acquire:
  "outstanding c' (a\<lparr>sa_depths := d, sa_permits := sa_permits a @ [\<lparr>pi_request_class = c, pi_released = False\<rparr>]\<rparr>)
     = outstanding c' a + (if c' = c then 1 else 0)"
  by (auto simp: outstanding_def)

text \<open>Releasing a live permit takes exactly one off its class; a second release takes none.\<close>

lemma length_filter_update:
  "p < length xs \<Longrightarrow>
   length (filter P (xs[p := y])) + (if P (xs ! p) then 1 else 0) =
   length (filter P xs) + (if P y then 1 else 0)"
proof (induction xs arbitrary: p)
  case (Cons x xs)
  show ?case
  proof (cases p)
    case (Suc q)
    with Cons.prems Cons.IH [of q] show ?thesis by simp
  qed simp
qed simp

lemma outstanding_release:
  assumes "p < length (sa_permits a)"
  shows "outstanding c (permit_release p a) +
     (if pi_request_class (sa_permits a ! p) = c \<and> \<not> pi_released (sa_permits a ! p) then 1 else 0)
     = outstanding c a"
  using length_filter_update [OF assms, of "\<lambda>i. pi_request_class i = c \<and> \<not> pi_released i"
      "(sa_permits a ! p)\<lparr>pi_released := True\<rparr>"]
  by (auto simp: outstanding_def permit_release_def admission_release_def Let_def assms)

lemma permit_release_inv: "server_admission_inv a \<Longrightarrow> server_admission_inv (permit_release p a)"
proof -
  assume inv: "server_admission_inv a"
  show ?thesis
  proof (cases "p < length (sa_permits a)")
    case False
    with inv show ?thesis by (simp add: permit_release_def)
  next
    case True
    let ?i = "sa_permits a ! p"
    have d: "depths_depth (sa_depths (permit_release p a)) c =
        depths_depth (sa_depths a) c - (if pi_request_class ?i = c \<and> \<not> pi_released ?i then 1 else 0)" for c
      by (simp add: permit_release_def admission_release_def Let_def True)
    show ?thesis unfolding server_admission_inv_def
    proof
      fix c
      from inv have "depths_depth (sa_depths a) c = outstanding c a" "outstanding c a \<le> depths_capacity c + 1"
        by (simp_all add: server_admission_inv_def)
      with d [of c] outstanding_release [OF True, of c]
      show "depths_depth (sa_depths (permit_release p a)) c = outstanding c (permit_release p a) \<and>
          outstanding c (permit_release p a) \<le> depths_capacity c + 1"
        by (auto split: if_splits)
    qed
  qed
qed

lemma try_acquire_inv: "server_admission_inv a \<Longrightarrow> server_admission_inv (fst (try_acquire c b a))"
  by (auto simp: server_admission_inv_def try_acquire_cases outstanding_acquire)

lemma admission_step_inv: "server_admission_inv a \<Longrightarrow> server_admission_inv (admission_step op a)"
  by (cases op) (simp_all add: try_acquire_inv permit_release_inv)

lemma server_admission_inv_default: "server_admission_inv ServerRequestAdmission_default"
proof -
  have "depths_depth depths_default c = 0" for c
    by (cases c) (simp_all add: depths_default_def)
  then show ?thesis
    by (simp add: server_admission_inv_def ServerRequestAdmission_default_def outstanding_def)
qed

interpretation front_door: machine admission_step server_admission_inv
  by unfold_locales (rule admission_step_inv)

lemma permit_release_idem: "permit_release p (permit_release p a) = permit_release p a"
  by (simp add: permit_release_def admission_release_def Let_def)

section \<open>Properties\<close>

text \<open>Whatever the order of acquisitions and (repeated) releases, the front door's depths
  count exactly the permits not yet released, and never pass the capacity by more than the one
  request in execution.\<close>

theorem depths_count_permits:
  "depths_depth (admission_snapshot (fold admission_step ops ServerRequestAdmission_default)) c
     = outstanding c (fold admission_step ops ServerRequestAdmission_default)
   \<and> outstanding c (fold admission_step ops ServerRequestAdmission_default) \<le> depths_capacity c + 1"
  using front_door.run_inv [OF server_admission_inv_default, of ops]
  by (simp add: server_admission_inv_def admission_snapshot_def)

text \<open>A permit gives its slot back once: acquiring and then releasing it any positive number
  of times restores the depths.\<close>

theorem permit_slot_returned_once:
  assumes "try_acquire c b a = (a', Inr p)"
  shows "sa_depths ((permit_release p ^^ Suc n) a') = sa_depths a"
proof -
  have "(permit_release p ^^ Suc n) a' = permit_release p a'"
    by (induction n) (simp_all add: permit_release_idem)
  moreover have "depths_decrement c (depths_increment c d) = d" for d
    by (cases c) simp_all
  ultimately show ?thesis
    using assms by (auto simp: try_acquire_cases permit_release_def admission_release_def Let_def split: if_splits)
qed

theorem permit_slot_returned_once_witness:
  "sa_depths ((permit_release 0 ^^ Suc 2) (fst (try_acquire Query False ServerRequestAdmission_default)))
     = depths_default"
  using permit_slot_returned_once [of Query False ServerRequestAdmission_default
      "fst (try_acquire Query False ServerRequestAdmission_default)" 0 2]
  by (simp add: try_acquire_cases ServerRequestAdmission_default_def depths_default_def EMBEDDING_QUERY_QUEUE_CAPACITY_def)

end
