(* ===== verification/Server_State.thy ===== *)
theory Server_State
  imports Server_Admission Engine_Queue Embedding_Wire
begin

text \<open>
  The per-user embedding server: its state and guards
  (\<^verbatim>\<open>codestory-retrieval/src/per_user_embedding/server/state.rs\<close>), the fail-stop watchdog
  (\<^verbatim>\<open>scheduler.rs\<close>) and the accept loop's idle decision (\<^verbatim>\<open>server/lifecycle.rs\<close>).

  Each lock is held for one operation, so an operation is one step on the state record.
  A poisoned mutex and an engine mutex held by another thread (\<^verbatim>\<open>try_lock\<close>) are flags of
  the state. Guards are the values \<^verbatim>\<open>Drop\<close> acts on: dropping one is an operation. The
  native engine's creation is a parameter of \<open>server_engine\<close>.
\<close>

section \<open>State\<close>

record ActiveServerRequest =
  sr_request_id :: string
  sr_scope_id :: string
  sr_request_class :: EmbeddingRequestClass
  sr_phase :: string
  sr_started_ns :: nat

record ServerCancellationAuth =
  ca_token :: string
  ca_client_pid :: nat
  ca_client_process_start_id :: string

record ServerCancellation =
  sx_context :: ctx_ref
  sx_admission :: permit
  sx_auth :: "ServerCancellationAuth option"

record ServerRequestRegistration =
  rg_connection_id :: string
  rg_request_id :: string
  rg_scope_id :: string
  rg_request_class :: EmbeddingRequestClass
  rg_phase :: string
  rg_context :: ctx_ref
  rg_admission :: permit
  rg_cancellation_auth :: "ServerCancellationAuth option"

text \<open>The part of \<^verbatim>\<open>EngineLifecycleSnapshot\<close> the server reports.\<close>

record engine_lifecycle =
  el_residency :: string
  el_load_generation :: nat
  el_model_load_count :: nat
  el_encode_count :: nat

record EmbeddingEngine =
  en_queues :: engine_queues
  en_lifecycle :: "engine_lifecycle option"

record PerUserEmbeddingServerState =
  ss_contexts :: ctx_store
  ss_engine :: "EmbeddingEngine option"
  ss_process :: EmbeddingServerProcessSnapshot
  ss_protocol :: EmbeddingServerProtocolSnapshot
  ss_authority :: EmbeddingServerAuthoritySnapshot
  ss_connections :: nat
  ss_pre_request_connections :: nat
  ss_request_admission :: ServerRequestAdmission
  ss_active :: "(string, ActiveServerRequest) btree_map"
  ss_cancellations :: "(string, ServerCancellation) btree_map"
  ss_draining :: bool
  ss_stopped :: bool
  ss_last_work_ended_ns :: nat
  ss_event_sequence :: nat
  ss_last_failure :: "EmbeddingServerFailureSnapshot option"
  ss_gate_poisoned :: bool
  ss_engine_poisoned :: bool
  ss_engine_held :: bool
  ss_active_poisoned :: bool
  ss_cancellations_poisoned :: bool
  ss_failure_poisoned :: bool

definition SERVER_CONTROL_CONNECTION_RESERVE :: nat where
  "SERVER_CONTROL_CONNECTION_RESERVE = 8"

definition SERVER_REJECTION_CONNECTION_RESERVE :: nat where
  "SERVER_REJECTION_CONNECTION_RESERVE = 8"

definition SERVER_CONNECTION_HANDLER_CAPACITY :: nat where
  "SERVER_CONNECTION_HANDLER_CAPACITY =
     EMBEDDING_QUERY_QUEUE_CAPACITY + EMBEDDING_BULK_QUEUE_CAPACITY + SERVER_CONTROL_CONNECTION_RESERVE"

definition SERVER_TOTAL_CONNECTION_HANDLER_CAPACITY :: nat where
  "SERVER_TOTAL_CONNECTION_HANDLER_CAPACITY =
     SERVER_CONNECTION_HANDLER_CAPACITY + SERVER_REJECTION_CONNECTION_RESERVE"

definition bump_event :: "PerUserEmbeddingServerState \<Rightarrow> PerUserEmbeddingServerState" where
  "bump_event s = s\<lparr>ss_event_sequence := wrap_add64 (ss_event_sequence s) 1\<rparr>"

section \<open>Engine access\<close>

definition server_engine ::
  "(EngineError + EmbeddingEngine) \<Rightarrow> PerUserEmbeddingServerState \<Rightarrow>
     PerUserEmbeddingServerState \<times> (any_error + EmbeddingEngine)" where
  "server_engine initialize s =
     (if ss_gate_poisoned s then (s, Inl (bail ''embedding_server_admission_gate_poisoned''))
      else if ss_draining s then (s, Inl (bail ''embedding_server_draining''))
      else if ss_engine_poisoned s then (s, Inl (bail ''embedding_server_engine_state_poisoned''))
      else case ss_engine s of
             Some e \<Rightarrow> (s, Inr e)
           | None \<Rightarrow> (case initialize of
                 Inl err \<Rightarrow> (s, Inl (engine_error err))
               | Inr e \<Rightarrow> (bump_event (s\<lparr>ss_engine := Some e\<rparr>), Inr e)))"

definition initialized_engine :: "PerUserEmbeddingServerState \<Rightarrow> EmbeddingEngine option" where
  "initialized_engine s = (if ss_engine_poisoned s then None else ss_engine s)"

definition try_initialized_engine :: "PerUserEmbeddingServerState \<Rightarrow> EmbeddingEngine option" where
  "try_initialized_engine s =
     (if ss_engine_poisoned s \<or> ss_engine_held s then None else ss_engine s)"

definition engine_snapshot_of ::
  "PerUserEmbeddingServerState \<Rightarrow> EmbeddingEngine \<Rightarrow> EmbeddingAdmissionSnapshot" where
  "engine_snapshot_of s e = engine_admission_snapshot (ss_contexts s) (en_queues e)"

definition first_active :: "PerUserEmbeddingServerState \<Rightarrow> ActiveServerRequest option" where
  "first_active s =
     (if ss_active_poisoned s then None
      else case ss_active s of [] \<Rightarrow> None | (k, a) # _ \<Rightarrow> Some a)"

definition current_owner_state :: "PerUserEmbeddingServerState \<Rightarrow> EmbeddingOwnerState" where
  "current_owner_state s =
     (case try_initialized_engine s of
        Some e \<Rightarrow> sn_owner_state (engine_snapshot_of s e) | None \<Rightarrow> Waking)"

section \<open>Admission\<close>

definition try_admit_request ::
  "EmbeddingRequestClass \<Rightarrow> nat \<Rightarrow> PerUserEmbeddingServerState \<Rightarrow>
     PerUserEmbeddingServerState \<times> (EmbeddingProtocolError + permit)" where
  "try_admit_request request_class retry_after_ms s =
     (let active_execution =
            (case try_initialized_engine s of
               None \<Rightarrow> False
             | Some e \<Rightarrow> (case sn_active_request (engine_snapshot_of s e) of
                 None \<Rightarrow> False | Some a \<Rightarrow> as_request_class a = request_class))
      in case try_acquire request_class active_execution (ss_request_admission s) of
           (adm, Inr p) \<Rightarrow> (s\<lparr>ss_request_admission := adm\<rparr>, Inr p)
         | (adm, Inl depths) \<Rightarrow>
             let active = first_active s;
                 pressure =
                   \<lparr>cw_reason = capacity_reason_as_str QueueFull,
                    cw_queue_class = request_class_as_str request_class,
                    cw_capacity = depths_capacity request_class,
                    cw_depth = sat_sub (depths_depth depths request_class) (if active_execution then 1 else 0),
                    cw_retry_after_ms = retry_after_ms,
                    cw_retry_condition = ''an admitted request completes or is cancelled'',
                    cw_owner_state = owner_state_as_str (current_owner_state s),
                    cw_active_scope_id = map_option sr_scope_id active,
                    cw_active_request_id = map_option sr_request_id active,
                    cw_active_request_class = map_option (request_class_as_str \<circ> sr_request_class) active\<rparr>
             in (s\<lparr>ss_request_admission := adm\<rparr>,
                 Inl \<lparr>pe_code = ''embedding_capacity'',
                      pe_message = request_class_as_str request_class @ '' request admission is full'',
                      pe_retry_class = ''after_capacity_change'',
                      pe_retry_after_ms = retry_after_ms,
                      pe_retry_condition = cw_retry_condition pressure,
                      pe_capacity = Some pressure\<rparr>))"

text \<open>\<open>retry_after\<close> is \<^verbatim>\<open>EmbeddingClientBudgets::current().retry_after\<close>, a build constant.\<close>

definition connection_capacity_error ::
  "nat \<Rightarrow> string \<Rightarrow> nat \<Rightarrow> nat \<Rightarrow> PerUserEmbeddingServerState \<Rightarrow> EmbeddingProtocolError" where
  "connection_capacity_error retry_after reason capacity depth s =
     (let active = first_active s;
          pressure =
            \<lparr>cw_reason = reason, cw_queue_class = ''connection'', cw_capacity = capacity,
             cw_depth = depth, cw_retry_after_ms = duration_ms retry_after,
             cw_retry_condition = ''an authenticated connection handler completes'',
             cw_owner_state = owner_state_as_str (current_owner_state s),
             cw_active_scope_id = map_option sr_scope_id active,
             cw_active_request_id = map_option sr_request_id active,
             cw_active_request_class = map_option (request_class_as_str \<circ> sr_request_class) active\<rparr>
      in \<lparr>pe_code = ''embedding_capacity'',
          pe_message = ''embedding connection admission is full'',
          pe_retry_class = ''after_capacity_change'',
          pe_retry_after_ms = cw_retry_after_ms pressure,
          pe_retry_condition = cw_retry_condition pressure,
          pe_capacity = Some pressure\<rparr>)"

text \<open>The three \<^verbatim>\<open>fetch_update\<close> gates; \<^term>\<open>True\<close> is a guard handed out.\<close>

definition try_begin_connection ::
  "PerUserEmbeddingServerState \<Rightarrow> PerUserEmbeddingServerState \<times> bool" where
  "try_begin_connection s =
     (if ss_connections s < SERVER_CONNECTION_HANDLER_CAPACITY
      then (bump_event (s\<lparr>ss_connections := ss_connections s + 1\<rparr>), True) else (s, False))"

definition try_begin_rejection_connection ::
  "PerUserEmbeddingServerState \<Rightarrow> PerUserEmbeddingServerState \<times> bool" where
  "try_begin_rejection_connection s =
     (if ss_connections s < SERVER_TOTAL_CONNECTION_HANDLER_CAPACITY
      then (bump_event (s\<lparr>ss_connections := ss_connections s + 1\<rparr>), True) else (s, False))"

definition try_begin_pre_request ::
  "PerUserEmbeddingServerState \<Rightarrow> PerUserEmbeddingServerState \<times> bool" where
  "try_begin_pre_request s =
     (if ss_pre_request_connections s < SERVER_CONTROL_CONNECTION_RESERVE
      then (s\<lparr>ss_pre_request_connections := ss_pre_request_connections s + 1\<rparr>, True) else (s, False))"

definition drop_connection_guard :: "PerUserEmbeddingServerState \<Rightarrow> PerUserEmbeddingServerState" where
  "drop_connection_guard s = bump_event (s\<lparr>ss_connections := wrap_sub64 (ss_connections s) 1\<rparr>)"

definition drop_pre_request_guard :: "PerUserEmbeddingServerState \<Rightarrow> PerUserEmbeddingServerState" where
  "drop_pre_request_guard s =
     s\<lparr>ss_pre_request_connections := wrap_sub64 (ss_pre_request_connections s) 1\<rparr>"

section \<open>Requests\<close>

definition request_key :: "string \<Rightarrow> string \<Rightarrow> string" where
  "request_key connection_id request_id = connection_id @ '':'' @ request_id"

definition release_permit :: "permit \<Rightarrow> PerUserEmbeddingServerState \<Rightarrow> PerUserEmbeddingServerState" where
  "release_permit p s = s\<lparr>ss_request_admission := permit_release p (ss_request_admission s)\<rparr>"

record ServerRequestGuard =
  gd_key :: "string option"
  gd_admission :: permit

text \<open>
  Every early return drops the registration's permit. \<^verbatim>\<open>BTreeMap::insert\<close> drops a value it
  replaces, and with it that value's permit clone.
\<close>

definition begin_request ::
  "nat \<Rightarrow> ServerRequestRegistration \<Rightarrow> PerUserEmbeddingServerState \<Rightarrow>
     PerUserEmbeddingServerState \<times> (string + ServerRequestGuard)" where
  "begin_request now_ns r s =
     (let failed = (\<lambda>msg. (release_permit (rg_admission r) s, Inl msg));
          key = request_key (rg_connection_id r) (rg_request_id r)
      in if ss_gate_poisoned s then failed ''embedding_server_admission_gate_poisoned''
         else if ss_draining s then failed ''embedding_server_draining''
         else if ss_active_poisoned s then failed ''embedding_server_active_state_poisoned''
         else if ss_cancellations_poisoned s then failed ''embedding_server_cancellation_state_poisoned''
         else if bt_get (ss_active s) key \<noteq> None then failed ''embedding_server_duplicate_request_id''
         else
           let s1 = s\<lparr>ss_active := bt_insert key
                       \<lparr>sr_request_id = rg_request_id r, sr_scope_id = rg_scope_id r,
                        sr_request_class = rg_request_class r, sr_phase = rg_phase r,
                        sr_started_ns = now_ns\<rparr> (ss_active s)\<rparr>;
               s2 = (case bt_get (ss_cancellations s1) key of
                       Some old \<Rightarrow> release_permit (sx_admission old) s1 | None \<Rightarrow> s1);
               s3 = s2\<lparr>ss_cancellations := bt_insert key
                        \<lparr>sx_context = rg_context r, sx_admission = rg_admission r,
                         sx_auth = rg_cancellation_auth r\<rparr> (ss_cancellations s2)\<rparr>
           in (bump_event s3, Inr \<lparr>gd_key = Some key, gd_admission = rg_admission r\<rparr>))"

definition auth_matches :: "string \<Rightarrow> nat \<Rightarrow> string \<Rightarrow> ServerCancellationAuth option \<Rightarrow> bool" where
  "auth_matches cancel_token client_pid client_process_start_id auth =
     (case auth of None \<Rightarrow> False
      | Some a \<Rightarrow> ca_token a = cancel_token \<and> ca_client_pid a = client_pid
                 \<and> ca_client_process_start_id a = client_process_start_id)"

definition server_cancel ::
  "string \<Rightarrow> string \<Rightarrow> nat \<Rightarrow> string \<Rightarrow> PerUserEmbeddingServerState \<Rightarrow>
     PerUserEmbeddingServerState \<times> bool" where
  "server_cancel request_id cancel_token client_pid client_process_start_id s =
     (if ss_cancellations_poisoned s then (s, False)
      else
        let suffix = '':'' @ request_id;
            matching = filter (\<lambda>(key, c). ends_with key suffix
                \<and> auth_matches cancel_token client_pid client_process_start_id (sx_auth c))
              (ss_cancellations s)
        in case matching of
             [(key, c)] \<Rightarrow>
               (case context_cancel (ss_contexts s (sx_context c)) of
                  (ctx, cancelled) \<Rightarrow>
                    let s1 = s\<lparr>ss_contexts := (ss_contexts s)(sx_context c := ctx)\<rparr>
                    in (if cancelled then release_permit (sx_admission c) s1 else s1, cancelled))
           | _ \<Rightarrow> (s, False))"

definition update_request_phase ::
  "string \<Rightarrow> string \<Rightarrow> PerUserEmbeddingServerState \<Rightarrow> PerUserEmbeddingServerState" where
  "update_request_phase key phase s =
     (if ss_active_poisoned s then s
      else case bt_get (ss_active s) key of
             None \<Rightarrow> s
           | Some r \<Rightarrow> if sr_phase r \<noteq> phase
                       then bump_event (s\<lparr>ss_active := bt_insert key (r\<lparr>sr_phase := phase\<rparr>) (ss_active s)\<rparr>)
                       else s)"

definition restart_idle_window :: "nat \<Rightarrow> PerUserEmbeddingServerState \<Rightarrow> PerUserEmbeddingServerState" where
  "restart_idle_window now_ns s = s\<lparr>ss_last_work_ended_ns := now_ns\<rparr>"

definition finish_request :: "nat \<Rightarrow> string \<Rightarrow> PerUserEmbeddingServerState \<Rightarrow> PerUserEmbeddingServerState" where
  "finish_request now_ns key s =
     (let s1 = (if ss_active_poisoned s then s else s\<lparr>ss_active := bt_remove key (ss_active s)\<rparr>);
          s2 = (if ss_cancellations_poisoned s1 then s1
                else case bt_get (ss_cancellations s1) key of
                       None \<Rightarrow> s1
                     | Some c \<Rightarrow> release_permit (sx_admission c)
                         (s1\<lparr>ss_cancellations := bt_remove key (ss_cancellations s1)\<rparr>))
      in bump_event (restart_idle_window now_ns s2))"

text \<open>\<^verbatim>\<open>Drop for ServerRequestGuard\<close>, then the drop of its permit field.\<close>

definition drop_request_guard ::
  "nat \<Rightarrow> ServerRequestGuard \<Rightarrow> PerUserEmbeddingServerState \<Rightarrow> PerUserEmbeddingServerState" where
  "drop_request_guard now_ns g s =
     release_permit (gd_admission g)
       (case gd_key g of None \<Rightarrow> s | Some key \<Rightarrow> finish_request now_ns key s)"

section \<open>Idleness and draining\<close>

definition true_idle :: "PerUserEmbeddingServerState \<Rightarrow> bool" where
  "true_idle s =
     (if ss_active_poisoned s \<or> ss_active s \<noteq> [] then False
      else if admission_snapshot (ss_request_admission s) \<noteq> depths_default then False
      else case initialized_engine s of
             None \<Rightarrow> True
           | Some e \<Rightarrow> (let a = engine_snapshot_of s e
               in sn_query_depth a = 0 \<and> sn_bulk_depth a = 0 \<and> sn_active_request_count a = 0
                  \<and> sn_lease_count a = 0))"

definition begin_draining_if_idle ::
  "PerUserEmbeddingServerState \<Rightarrow> PerUserEmbeddingServerState \<times> bool" where
  "begin_draining_if_idle s =
     (if ss_gate_poisoned s then (s, False)
      else if ss_draining s then (s, true_idle s)
      else
        let s1 = s\<lparr>ss_draining := True\<rparr>
        in if \<not> true_idle s1 then (s1\<lparr>ss_draining := False\<rparr>, False)
           else case initialized_engine s1 of
                  None \<Rightarrow> (bump_event s1, True)
                | Some e \<Rightarrow>
                    (case engine_begin_draining_if_idle (ss_contexts s1) (en_queues e) of
                       (q, ok) \<Rightarrow>
                         let s2 = s1\<lparr>ss_engine := Some (e\<lparr>en_queues := q\<rparr>)\<rparr>
                         in if \<not> ok then (s2\<lparr>ss_draining := False\<rparr>, False)
                            else (bump_event s2, True)))"

definition record_failure ::
  "EmbeddingServerFailureSnapshot \<Rightarrow> PerUserEmbeddingServerState \<Rightarrow> PerUserEmbeddingServerState" where
  "record_failure failure s =
     bump_event (if ss_failure_poisoned s then s else s\<lparr>ss_last_failure := Some failure\<rparr>)"

definition shutdown_engine :: "PerUserEmbeddingServerState \<Rightarrow> PerUserEmbeddingServerState" where
  "shutdown_engine s = s\<lparr>ss_engine := None\<rparr>"

text \<open>
  \<^verbatim>\<open>Drop for ServerLeaseActivity\<close>: restart the idle window, then drop the native lease
  (\<^verbatim>\<open>lease_released\<close> on the tracker), then the event.
\<close>

definition release_native_lease :: "PerUserEmbeddingServerState \<Rightarrow> PerUserEmbeddingServerState" where
  "release_native_lease s =
     (case ss_engine s of None \<Rightarrow> s
      | Some e \<Rightarrow> s\<lparr>ss_engine := Some (e\<lparr>en_queues := (en_queues e)\<lparr>eq_tracker :=
          tracker_lease_released (eq_tracker (en_queues e))\<rparr>\<rparr>)\<rparr>)"

definition drop_lease_activity :: "nat \<Rightarrow> PerUserEmbeddingServerState \<Rightarrow> PerUserEmbeddingServerState" where
  "drop_lease_activity now_ns s = bump_event (release_native_lease (restart_idle_window now_ns s))"

section \<open>Snapshots\<close>

definition active_request_snapshot :: "nat \<Rightarrow> ActiveServerRequest \<Rightarrow> EmbeddingServerActiveRequestSnapshot" where
  "active_request_snapshot now_ns a =
     \<lparr>aq_request_id = sr_request_id a, aq_scope_id = sr_scope_id a,
      aq_class = request_class_as_str (sr_request_class a), aq_phase = sr_phase a,
      aq_elapsed_ms = duration_ms (elapsed_since now_ns (sr_started_ns a))\<rparr>"

definition scheduler_snapshot ::
  "nat \<Rightarrow> EmbeddingAdmissionSnapshot \<Rightarrow> nat \<Rightarrow> ActiveServerRequest option \<Rightarrow> EmbeddingServerSchedulerSnapshot" where
  "scheduler_snapshot now_ns admission connections active =
     \<lparr>sc_query_capacity = sn_query_capacity admission, sc_query_depth = sn_query_depth admission,
      sc_bulk_capacity = sn_bulk_capacity admission, sc_bulk_depth = sn_bulk_depth admission,
      sc_connection_count = connections,
      sc_active_request_count = sn_active_request_count admission,
      sc_lease_count = sn_lease_count admission,
      sc_active_request = map_option (active_request_snapshot now_ns) active\<rparr>"

definition snapshot_active :: "PerUserEmbeddingServerState \<Rightarrow> EmbeddingAdmissionSnapshot option \<Rightarrow> ActiveServerRequest option" where
  "snapshot_active s admission =
     (if ss_active_poisoned s then None
      else
        let matched = (case admission of None \<Rightarrow> None
              | Some ad \<Rightarrow> (case sn_active_request ad of None \<Rightarrow> None
                  | Some native \<Rightarrow> List.find (\<lambda>c. sr_request_id c = as_request_id native
                        \<and> sr_scope_id c = as_scope_id native
                        \<and> sr_request_class c = as_request_class native) (map snd (ss_active s))))
        in case matched of Some a \<Rightarrow> Some a
           | None \<Rightarrow> (if admission = None
                     then (case ss_active s of [] \<Rightarrow> None | (k, a) # _ \<Rightarrow> Some a) else None))"

definition server_snapshot ::
  "EmbeddingServerClockSnapshot \<Rightarrow> nat \<Rightarrow> PerUserEmbeddingServerState \<Rightarrow> EmbeddingServerSnapshot" where
  "server_snapshot clock now_ns s =
     (let engine = try_initialized_engine s;
          lifecycle = Option.bind engine en_lifecycle;
          admission = map_option (engine_snapshot_of s) engine;
          front_admission = admission_snapshot (ss_request_admission s);
          active = snapshot_active s admission;
          scheduler = (case admission of
              Some ad \<Rightarrow> scheduler_snapshot now_ns ad (ss_connections s) active
            | None \<Rightarrow>
                \<lparr>sc_query_capacity = EMBEDDING_QUERY_QUEUE_CAPACITY, sc_query_depth = dp_query front_admission,
                 sc_bulk_capacity = EMBEDDING_BULK_QUEUE_CAPACITY, sc_bulk_depth = dp_bulk front_admission,
                 sc_connection_count = ss_connections s,
                 sc_active_request_count = (if ss_active_poisoned s then 0 else length (ss_active s)),
                 sc_lease_count = 0,
                 sc_active_request = map_option (active_request_snapshot now_ns) active\<rparr>);
          instance_id = pc_server_instance_id (ss_process s);
          engine_part = map_option (\<lambda>l.
              \<lparr>es_engine_owner_id = instance_id @ '':engine-owner'',
               es_native_worker_id = instance_id @ '':native-worker:'' @ show_nat (el_load_generation l),
               es_load_generation = el_load_generation l,
               es_model_load_count = el_model_load_count l,
               es_successful_encode_count = el_encode_count l\<rparr>) lifecycle;
          lifecycle_name = (if ss_draining s then ''draining''
              else case lifecycle of None \<Rightarrow> ''listening'' | Some l \<Rightarrow> el_residency l)
      in \<lparr>sv_schema_version = PER_USER_EMBEDDING_SERVER_SNAPSHOT_SCHEMA_VERSION,
          sv_event_sequence = ss_event_sequence s, sv_lifecycle = lifecycle_name, sv_clock = clock,
          sv_protocol = ss_protocol s, sv_authority = ss_authority s, sv_process = ss_process s,
          sv_scheduler = scheduler, sv_engine = engine_part,
          sv_failure = (if ss_failure_poisoned s then None else ss_last_failure s)\<rparr>)"

section \<open>Frame facts\<close>

text \<open>What each operation leaves alone; the component's proofs run on these.\<close>

lemma bump_event_frame [simp]:
  "ss_contexts (bump_event s) = ss_contexts s" "ss_engine (bump_event s) = ss_engine s"
  "ss_connections (bump_event s) = ss_connections s"
  "ss_pre_request_connections (bump_event s) = ss_pre_request_connections s"
  "ss_request_admission (bump_event s) = ss_request_admission s"
  "ss_active (bump_event s) = ss_active s" "ss_cancellations (bump_event s) = ss_cancellations s"
  "ss_draining (bump_event s) = ss_draining s" "ss_stopped (bump_event s) = ss_stopped s"
  "ss_last_work_ended_ns (bump_event s) = ss_last_work_ended_ns s"
  "ss_gate_poisoned (bump_event s) = ss_gate_poisoned s"
  "ss_engine_poisoned (bump_event s) = ss_engine_poisoned s"
  "ss_engine_held (bump_event s) = ss_engine_held s"
  "ss_active_poisoned (bump_event s) = ss_active_poisoned s"
  "ss_cancellations_poisoned (bump_event s) = ss_cancellations_poisoned s"
  by (simp_all add: bump_event_def)

lemma release_permit_frame [simp]:
  "ss_contexts (release_permit p s) = ss_contexts s" "ss_engine (release_permit p s) = ss_engine s"
  "ss_connections (release_permit p s) = ss_connections s"
  "ss_pre_request_connections (release_permit p s) = ss_pre_request_connections s"
  "ss_request_admission (release_permit p s) = permit_release p (ss_request_admission s)"
  "ss_active (release_permit p s) = ss_active s" "ss_cancellations (release_permit p s) = ss_cancellations s"
  "ss_draining (release_permit p s) = ss_draining s" "ss_stopped (release_permit p s) = ss_stopped s"
  "ss_last_work_ended_ns (release_permit p s) = ss_last_work_ended_ns s"
  "ss_gate_poisoned (release_permit p s) = ss_gate_poisoned s"
  "ss_engine_poisoned (release_permit p s) = ss_engine_poisoned s"
  "ss_active_poisoned (release_permit p s) = ss_active_poisoned s"
  "ss_cancellations_poisoned (release_permit p s) = ss_cancellations_poisoned s"
  by (simp_all add: release_permit_def)

text \<open>Idleness does not look at the draining flag or the event counter.\<close>

lemma true_idle_frame [simp]:
  "true_idle (s\<lparr>ss_draining := b\<rparr>) = true_idle s" "true_idle (bump_event s) = true_idle s"
  by (simp_all add: true_idle_def initialized_engine_def engine_snapshot_of_def bump_event_def split: option.split)

lemma initialized_engine_draining [simp]:
  "initialized_engine (s\<lparr>ss_draining := b\<rparr>) = initialized_engine s"
  by (simp add: initialized_engine_def)

text \<open>A registration is exactly one entry in each map, on a fresh key, and only while not draining.\<close>

lemma begin_request_ok:
  assumes "begin_request now r s = (s', Inr g)"
  defines "key \<equiv> request_key (rg_connection_id r) (rg_request_id r)"
  shows "\<not> ss_draining s" "\<not> ss_gate_poisoned s" "\<not> ss_active_poisoned s" "\<not> ss_cancellations_poisoned s"
    "bt_get (ss_active s) key = None"
    "g = \<lparr>gd_key = Some key, gd_admission = rg_admission r\<rparr>"
  using assms by (auto simp: begin_request_def Let_def split: if_splits)

lemma begin_request_error:
  assumes "begin_request now r s = (s', Inl msg)"
  shows "s' = release_permit (rg_admission r) s"
  using assms by (auto simp: begin_request_def Let_def split: if_splits)

lemma begin_request_fresh:
  assumes "begin_request now r s = (s', Inr g)"
  defines "key \<equiv> request_key (rg_connection_id r) (rg_request_id r)"
  assumes "bt_get (ss_cancellations s) key = None"
  shows "s' = bump_event (s\<lparr>ss_active := bt_insert key
               \<lparr>sr_request_id = rg_request_id r, sr_scope_id = rg_scope_id r,
                sr_request_class = rg_request_class r, sr_phase = rg_phase r,
                sr_started_ns = now\<rparr> (ss_active s),
             ss_cancellations := bt_insert key
               \<lparr>sx_context = rg_context r, sx_admission = rg_admission r,
                sx_auth = rg_cancellation_auth r\<rparr> (ss_cancellations s)\<rparr>)"
  using assms by (auto simp: begin_request_def Let_def split: if_splits)

lemma finish_request_live:
  assumes "\<not> ss_active_poisoned s" "\<not> ss_cancellations_poisoned s"
    and "bt_get (ss_cancellations s) key = Some c"
  shows "finish_request now key s =
     bump_event (s\<lparr>ss_active := bt_remove key (ss_active s),
       ss_cancellations := bt_remove key (ss_cancellations s),
       ss_request_admission := permit_release (sx_admission c) (ss_request_admission s),
       ss_last_work_ended_ns := now\<rparr>)"
  using assms by (simp add: finish_request_def Let_def restart_idle_window_def release_permit_def)

end
