(* ===== verification/Server_Lifecycle.thy ===== *)
theory Server_Lifecycle
  imports Server_State
begin

text \<open>
  The life of the per-user embedding server: the fail-stop watchdog
  (\<^verbatim>\<open>per_user_embedding/scheduler.rs\<close>), the listener loop and its idle shutdown
  (\<^verbatim>\<open>server/lifecycle.rs\<close>), and the interleavings of handlers, as a step relation over
  the server state and the guards its threads hold.

  Every read of the clock is an argument. The qualification control (a test harness driven by
  files) is absent, as in production, and a mutex is never poisoned along a run of the step
  relation: poisoning needs a panic inside a critical section. The branches for poisoned
  mutexes are in the operations themselves.
\<close>

section \<open>Watchdog\<close>

record WatchdogStall =
  ws_sequence :: nat
  ws_last_progress_ns :: nat

record WatchdogClassProgress =
  wp_sequence :: nat
  wp_last_progress_ns :: nat
  wp_was_active :: bool

definition WatchdogClassProgress_new :: "nat \<Rightarrow> WatchdogClassProgress" where
  "WatchdogClassProgress_new now_ns =
     \<lparr>wp_sequence = 0, wp_last_progress_ns = now_ns, wp_was_active = False\<rparr>"

definition watchdog_observe ::
  "bool \<Rightarrow> nat \<Rightarrow> nat \<Rightarrow> nat \<Rightarrow> WatchdogClassProgress \<Rightarrow> WatchdogClassProgress \<times> WatchdogStall option" where
  "watchdog_observe active sequence now_ns timeout w =
     (if \<not> active then
        (w\<lparr>wp_was_active := False, wp_sequence := sequence, wp_last_progress_ns := now_ns\<rparr>, None)
      else if \<not> wp_was_active w \<or> sequence \<noteq> wp_sequence w then
        (w\<lparr>wp_was_active := True, wp_sequence := sequence, wp_last_progress_ns := now_ns\<rparr>, None)
      else
        (w, if elapsed_since now_ns (wp_last_progress_ns w) \<ge> timeout
            then Some \<lparr>ws_sequence = sequence, ws_last_progress_ns = wp_last_progress_ns w\<rparr>
            else None))"

record ActiveRequestClasses =
  rc_query :: bool
  rc_bulk :: bool

record WatchdogProgressSnapshot =
  wq_overall :: nat
  wq_query :: nat
  wq_bulk :: nat

definition active_request_classes :: "PerUserEmbeddingServerState \<Rightarrow> ActiveRequestClasses" where
  "active_request_classes s =
     (if ss_active_poisoned s then \<lparr>rc_query = False, rc_bulk = False\<rparr>
      else \<lparr>rc_query = list_ex (\<lambda>a. sr_request_class a = Query) (map snd (ss_active s)),
            rc_bulk = list_ex (\<lambda>a. sr_request_class a = Bulk) (map snd (ss_active s))\<rparr>)"

definition watchdog_progress :: "PerUserEmbeddingServerState \<Rightarrow> WatchdogProgressSnapshot" where
  "watchdog_progress s =
     (case try_initialized_engine s of
        None \<Rightarrow> \<lparr>wq_overall = 0, wq_query = 0, wq_bulk = 0\<rparr>
      | Some e \<Rightarrow> (let a = engine_snapshot_of s e
          in \<lparr>wq_overall = sn_progress_sequence a, wq_query = sn_query_progress_sequence a,
              wq_bulk = sn_bulk_progress_sequence a\<rparr>))"

record server_watchdog =
  wd_query :: WatchdogClassProgress
  wd_bulk :: WatchdogClassProgress
  wd_draining :: WatchdogClassProgress

definition watchdog_start :: "nat \<Rightarrow> server_watchdog" where
  "watchdog_start started_ns =
     \<lparr>wd_query = WatchdogClassProgress_new started_ns,
      wd_bulk = WatchdogClassProgress_new started_ns,
      wd_draining = WatchdogClassProgress_new started_ns\<rparr>"

definition watchdog_failure :: EmbeddingServerFailureSnapshot where
  "watchdog_failure =
     \<lparr>fa_code = ''embedding_engine_stalled'', fa_retry_class = ''same_rpc_once'',
      fa_retry_after_ms = 0, fa_retry_condition = ''the server instance changes''\<rparr>"

text \<open>
  The three observations of a poll, lazily: a stalled query class leaves the other two
  unobserved. \<open>t1\<close>, \<open>t2\<close>, \<open>t3\<close> are the clock readings they make.
\<close>

definition watchdog_observe_all ::
  "nat \<Rightarrow> nat \<Rightarrow> nat \<Rightarrow> nat \<Rightarrow> PerUserEmbeddingServerState \<Rightarrow> server_watchdog \<Rightarrow>
     server_watchdog \<times> WatchdogStall option" where
  "watchdog_observe_all timeout t1 t2 t3 s w =
     (let classes = active_request_classes s; progress = watchdog_progress s
      in case watchdog_observe (rc_query classes) (wq_query progress) t1 timeout (wd_query w) of
           (q, Some st) \<Rightarrow> (w\<lparr>wd_query := q\<rparr>, Some st)
         | (q, None) \<Rightarrow>
             (case watchdog_observe (rc_bulk classes) (wq_bulk progress) t2 timeout (wd_bulk w) of
                (b, Some st) \<Rightarrow> (w\<lparr>wd_query := q, wd_bulk := b\<rparr>, Some st)
              | (b, None) \<Rightarrow>
                  (case watchdog_observe (ss_draining s \<and> \<not> rc_query classes \<and> \<not> rc_bulk classes)
                          (wq_overall progress) t3 timeout (wd_draining w) of
                     (d, st) \<Rightarrow> (w\<lparr>wd_query := q, wd_bulk := b, wd_draining := d\<rparr>, st))))"

text \<open>
  One pass of the watchdog's loop after its sleep; the last component says that the thread
  returned. \<^verbatim>\<open>transport.fail_stop\<close> is the third component.
\<close>

definition watchdog_poll ::
  "EmbeddingServerBudgets \<Rightarrow> nat \<Rightarrow> nat \<Rightarrow> nat \<Rightarrow> server_watchdog \<Rightarrow> PerUserEmbeddingServerState \<Rightarrow>
     server_watchdog \<times> PerUserEmbeddingServerState \<times> string option \<times> bool" where
  "watchdog_poll budgets t1 t2 t3 w s =
     (if ss_stopped s then (w, s, None, True)
      else case watchdog_observe_all (bu_native_no_progress budgets) t1 t2 t3 s w of
             (w', None) \<Rightarrow> (w', s, None, False)
           | (w', Some st) \<Rightarrow>
               (w', (record_failure watchdog_failure s)\<lparr>ss_draining := True, ss_stopped := True\<rparr>,
                Some ''embedding_engine_stalled'', True))"

section \<open>Listener loop\<close>

record EmbeddingExecutableIdentity =
  ex_pid :: nat
  ex_process_start_id :: string
  ex_executable_sha256 :: string
  ex_executable_version :: string

record PerUserEmbeddingServerConfig =
  cf_executable :: EmbeddingExecutableIdentity
  cf_budgets :: EmbeddingServerBudgets
  cf_protocol :: EmbeddingServerProtocolSnapshot

text \<open>\<open>constants\<close> is the protocol identity compiled into the binary from the checked-in constant set.\<close>

definition validate_server_config ::
  "EmbeddingServerProtocolSnapshot \<Rightarrow> PerUserEmbeddingServerConfig \<Rightarrow> string + unit" where
  "validate_server_config constants config =
     (if bu_idle_timeout (cf_budgets config) \<noteq> PER_USER_EMBEDDING_SERVER_IDLE_TIMEOUT_MS * 1000000
      then Inl ''embedding_server_idle_timeout_contract_mismatch''
      else if bu_native_no_progress (cf_budgets config) = 0 \<or> bu_watchdog_poll (cf_budgets config) = 0
        \<or> pr_bootstrap_version (cf_protocol config) \<noteq> pr_bootstrap_version constants
        \<or> pr_schema_version (cf_protocol config) \<noteq> pr_schema_version constants
        \<or> pr_protocol_sha256 (cf_protocol config) \<noteq> pr_protocol_sha256 constants
        \<or> pr_constant_set_sha256 (cf_protocol config) \<noteq> pr_constant_set_sha256 constants
        \<or> pr_measurement_protocol_sha256 (cf_protocol config) \<noteq> pr_measurement_protocol_sha256 constants
      then Inl ''embedding_server_constant_contract_mismatch''
      else if list_ex (\<lambda>value. trim value = [])
          [ex_process_start_id (cf_executable config), ex_executable_sha256 (cf_executable config),
           ex_executable_version (cf_executable config)]
      then Inl ''embedding_server_process_identity_incomplete''
      else Inr ())"

text \<open>The state a bound listener starts from; \<open>instance\<close> is the fresh UUID.\<close>

definition server_start ::
  "string \<Rightarrow> nat \<Rightarrow> EmbeddingServerAuthoritySnapshot \<Rightarrow> PerUserEmbeddingServerConfig \<Rightarrow>
     PerUserEmbeddingServerState" where
  "server_start instance_id now_ns authority config =
     \<lparr>ss_contexts = (\<lambda>_. context_new [] [] 0), ss_engine = None,
      ss_process = \<lparr>pc_server_instance_id = instance_id, pc_pid = ex_pid (cf_executable config),
        pc_process_start_id = ex_process_start_id (cf_executable config),
        pc_executable_sha256 = ex_executable_sha256 (cf_executable config),
        pc_executable_version = ex_executable_version (cf_executable config)\<rparr>,
      ss_protocol = cf_protocol config, ss_authority = authority,
      ss_connections = 0, ss_pre_request_connections = 0,
      ss_request_admission = ServerRequestAdmission_default,
      ss_active = [], ss_cancellations = [], ss_draining = False, ss_stopped = False,
      ss_last_work_ended_ns = now_ns, ss_event_sequence = 1, ss_last_failure = None,
      ss_gate_poisoned = False, ss_engine_poisoned = False, ss_engine_held = False,
      ss_active_poisoned = False, ss_cancellations_poisoned = False, ss_failure_poisoned = False\<rparr>"

datatype accept_outcome = AcceptedStream | AcceptTimedOut | AcceptFailed string

datatype handler = ConnectionHandler | RejectionHandler | StreamShutDown

datatype loop_exit = LoopContinue | LoopBreak | LoopError string

text \<open>
  One pass of the loop. \<open>now_ns\<close> is read only when the server is idle; \<open>draining_late\<close> is the
  second load of the draining flag, after a failed accept.
\<close>

definition listener_iteration ::
  "EmbeddingServerBudgets \<Rightarrow> nat \<Rightarrow> accept_outcome \<Rightarrow> bool \<Rightarrow> PerUserEmbeddingServerState \<Rightarrow>
     PerUserEmbeddingServerState \<times> handler option \<times> loop_exit" where
  "listener_iteration budgets now_ns accepted draining_late s =
     (if ss_draining s then (s, None, LoopBreak)
      else
        let (s1, drained) =
              (if true_idle s \<and> elapsed_since now_ns (ss_last_work_ended_ns s) \<ge> bu_idle_timeout budgets
               then begin_draining_if_idle s else (s, False))
        in if drained then (s1, None, LoopBreak)
           else case accepted of
                  AcceptedStream \<Rightarrow>
                    (case try_begin_connection s1 of
                       (s2, True) \<Rightarrow> (s2, Some ConnectionHandler, LoopContinue)
                     | (s2, False) \<Rightarrow>
                         (case try_begin_rejection_connection s2 of
                            (s3, True) \<Rightarrow> (s3, Some RejectionHandler, LoopContinue)
                          | (s3, False) \<Rightarrow> (s3, Some StreamShutDown, LoopContinue)))
                | AcceptTimedOut \<Rightarrow> (s1, None, LoopContinue)
                | AcceptFailed error \<Rightarrow>
                    if draining_late then (s1, None, LoopBreak) else (s1, None, LoopError error))"

text \<open>What follows the loop: the flag, the listener's close, the cleanup thread.\<close>

definition server_cleanup :: "PerUserEmbeddingServerState \<Rightarrow> PerUserEmbeddingServerState" where
  "server_cleanup s = (shutdown_engine (s\<lparr>ss_draining := True\<rparr>))\<lparr>ss_stopped := True\<rparr>"

text \<open>A join handle is modelled by whether its thread has finished.\<close>

definition reap_finished_connection_handlers :: "bool list \<Rightarrow> bool list" where
  "reap_finished_connection_handlers connections = filter (\<lambda>finished. \<not> finished) connections"

section \<open>Watchdog soundness\<close>

text \<open>
  A poll is the triple of what the watchdog saw: whether the class was active, its progress
  counter, the clock. A stall is justified when the last polls all saw the class active on the
  same counter, and the first of them was at least the timeout ago.
\<close>

type_synonym watchdog_view = "bool \<times> nat \<times> nat"

fun watchdog_run :: "nat \<Rightarrow> watchdog_view list \<Rightarrow> WatchdogClassProgress \<Rightarrow> WatchdogClassProgress" where
  "watchdog_run timeout [] w = w"
| "watchdog_run timeout ((a, q, t) # vs) w = watchdog_run timeout vs (fst (watchdog_observe a q t timeout w))"

lemma watchdog_run_snoc:
  "watchdog_run timeout (vs @ [(a, q, t)]) w = fst (watchdog_observe a q t timeout (watchdog_run timeout vs w))"
  by (induction timeout vs w rule: watchdog_run.induct) simp_all

definition no_progress_since :: "watchdog_view list \<Rightarrow> nat \<Rightarrow> nat \<Rightarrow> bool" where
  "no_progress_since vs sequence t0 \<longleftrightarrow>
     (\<exists>older recent. vs = older @ (True, sequence, t0) # recent
        \<and> list_all (\<lambda>(a, q, t). a \<and> q = sequence) recent)"

lemma no_progress_since_snoc:
  "no_progress_since vs q t0 \<Longrightarrow> no_progress_since (vs @ [(True, q, t)]) q t0"
proof -
  assume "no_progress_since vs q t0"
  then obtain older recent where "vs = older @ (True, q, t0) # recent"
    and "list_all (\<lambda>(a, q', t). a \<and> q' = q) recent"
    by (auto simp: no_progress_since_def)
  then have "vs @ [(True, q, t)] = older @ (True, q, t0) # (recent @ [(True, q, t)])
      \<and> list_all (\<lambda>(a, q', t). a \<and> q' = q) (recent @ [(True, q, t)])" by simp
  then show ?thesis unfolding no_progress_since_def by blast
qed

lemma no_progress_since_now: "no_progress_since (vs @ [(True, q, t)]) q t"
  unfolding no_progress_since_def by (rule exI [of _ vs], rule exI [of _ "[]"]) simp

lemma watchdog_run_active:
  "wp_was_active (watchdog_run timeout vs (WatchdogClassProgress_new started)) \<Longrightarrow>
   no_progress_since vs (wp_sequence (watchdog_run timeout vs (WatchdogClassProgress_new started)))
     (wp_last_progress_ns (watchdog_run timeout vs (WatchdogClassProgress_new started)))"
proof (induction vs rule: rev_induct)
  case Nil
  then show ?case by (simp add: WatchdogClassProgress_new_def)
next
  case (snoc v vs)
  obtain a q t where v: "v = (a, q, t)" by (cases v) auto
  let ?w = "watchdog_run timeout vs (WatchdogClassProgress_new started)"
  show ?case
  proof (cases "a \<and> wp_was_active ?w \<and> q = wp_sequence ?w")
    case True
    with snoc show ?thesis
      by (auto simp: v watchdog_run_snoc watchdog_observe_def intro: no_progress_since_snoc)
  next
    case False
    with snoc.prems show ?thesis
      by (auto simp: v watchdog_run_snoc watchdog_observe_def no_progress_since_now split: if_splits)
  qed
qed

lemma watchdog_observe_stall:
  assumes "snd (watchdog_observe a q t timeout w) = Some st"
  shows "a" "wp_was_active w" "wp_sequence w = q" "st = \<lparr>ws_sequence = q, ws_last_progress_ns = wp_last_progress_ns w\<rparr>"
    "timeout \<le> t - wp_last_progress_ns w"
  using assms by (auto simp: watchdog_observe_def elapsed_since_def split: if_splits)

section \<open>Draining in two steps\<close>

text \<open>
  \<^verbatim>\<open>begin_draining_if_idle\<close> publishes the flag before it has decided. The admission gate hides
  the interval from registrations, but the listener loop and the watchdog load the flag without
  the gate.
\<close>

definition begin_draining_mark :: "PerUserEmbeddingServerState \<Rightarrow> PerUserEmbeddingServerState" where
  "begin_draining_mark s = s\<lparr>ss_draining := True\<rparr>"

definition begin_draining_settle ::
  "PerUserEmbeddingServerState \<Rightarrow> PerUserEmbeddingServerState \<times> bool" where
  "begin_draining_settle s1 =
     (if \<not> true_idle s1 then (s1\<lparr>ss_draining := False\<rparr>, False)
      else case initialized_engine s1 of
             None \<Rightarrow> (bump_event s1, True)
           | Some e \<Rightarrow>
               (case engine_begin_draining_if_idle (ss_contexts s1) (en_queues e) of
                  (q, ok) \<Rightarrow>
                    let s2 = s1\<lparr>ss_engine := Some (e\<lparr>en_queues := q\<rparr>)\<rparr>
                    in if \<not> ok then (s2\<lparr>ss_draining := False\<rparr>, False) else (bump_event s2, True)))"

lemma begin_draining_two_steps:
  "\<not> ss_gate_poisoned s \<Longrightarrow> \<not> ss_draining s \<Longrightarrow>
   begin_draining_if_idle s = begin_draining_settle (begin_draining_mark s)"
  by (simp add: begin_draining_if_idle_def begin_draining_settle_def begin_draining_mark_def Let_def
      split: option.split prod.split)

lemma draining_restored: "\<not> ss_draining s \<Longrightarrow> s\<lparr>ss_draining := True, ss_draining := False\<rparr> = s"
  by (cases s) simp

lemma begin_draining_sound:
  assumes "begin_draining_if_idle s = (s', True)"
  shows "true_idle s" "ss_draining s'"
  using assms
  by (auto simp: begin_draining_if_idle_def Let_def split: if_splits option.splits prod.splits)

lemma begin_draining_refused:
  assumes "begin_draining_if_idle s = (s', False)"
  shows "ss_draining s' = ss_draining s"
  using assms
  by (auto simp: begin_draining_if_idle_def Let_def split: if_splits option.splits prod.splits)

lemma begin_draining_frame:
  "ss_connections (fst (begin_draining_if_idle s)) = ss_connections s"
  "ss_pre_request_connections (fst (begin_draining_if_idle s)) = ss_pre_request_connections s"
  "ss_request_admission (fst (begin_draining_if_idle s)) = ss_request_admission s"
  "ss_active (fst (begin_draining_if_idle s)) = ss_active s"
  "ss_cancellations (fst (begin_draining_if_idle s)) = ss_cancellations s"
  "ss_active_poisoned (fst (begin_draining_if_idle s)) = ss_active_poisoned s"
  "ss_cancellations_poisoned (fst (begin_draining_if_idle s)) = ss_cancellations_poisoned s"
  by (auto simp: begin_draining_if_idle_def Let_def split: option.splits prod.splits)

section \<open>Interleavings of handlers\<close>

text \<open>
  The server with what its threads hold: the number of live connection and pre-request guards,
  the permits admitted but not yet registered, and the request guards. A rule is one critical
  section of one thread, so a path is an interleaving.
\<close>

record server_world =
  sw_state :: PerUserEmbeddingServerState
  sw_connections :: nat
  sw_pre_requests :: nat
  sw_permits :: "permit set"
  sw_guards :: "ServerRequestGuard set"

definition world_start :: "PerUserEmbeddingServerState \<Rightarrow> server_world" where
  "world_start s =
     \<lparr>sw_state = s, sw_connections = 0, sw_pre_requests = 0, sw_permits = {}, sw_guards = {}\<rparr>"

inductive server_step :: "server_world \<Rightarrow> server_world \<Rightarrow> bool" where
  connection_begun:
    "try_begin_connection (sw_state w) = (s', True) \<Longrightarrow>
     server_step w (w\<lparr>sw_state := s', sw_connections := sw_connections w + 1\<rparr>)"
| rejection_begun:
    "try_begin_rejection_connection (sw_state w) = (s', True) \<Longrightarrow>
     server_step w (w\<lparr>sw_state := s', sw_connections := sw_connections w + 1\<rparr>)"
| connection_ended:
    "0 < sw_connections w \<Longrightarrow>
     server_step w (w\<lparr>sw_state := drop_connection_guard (sw_state w), sw_connections := sw_connections w - 1\<rparr>)"
| pre_request_begun:
    "try_begin_pre_request (sw_state w) = (s', True) \<Longrightarrow>
     server_step w (w\<lparr>sw_state := s', sw_pre_requests := sw_pre_requests w + 1\<rparr>)"
| pre_request_ended:
    "0 < sw_pre_requests w \<Longrightarrow>
     server_step w (w\<lparr>sw_state := drop_pre_request_guard (sw_state w), sw_pre_requests := sw_pre_requests w - 1\<rparr>)"
| admitted:
    "try_admit_request c retry_after_ms (sw_state w) = (s', Inr p) \<Longrightarrow>
     server_step w (w\<lparr>sw_state := s', sw_permits := insert p (sw_permits w)\<rparr>)"
| not_admitted:
    "try_admit_request c retry_after_ms (sw_state w) = (s', Inl e) \<Longrightarrow>
     server_step w (w\<lparr>sw_state := s'\<rparr>)"
| permit_dropped:
    "p \<in> sw_permits w \<Longrightarrow>
     server_step w (w\<lparr>sw_state := release_permit p (sw_state w), sw_permits := sw_permits w - {p}\<rparr>)"
| registered:
    "rg_admission r \<in> sw_permits w \<Longrightarrow> begin_request now_ns r (sw_state w) = (s', Inr g) \<Longrightarrow>
     server_step w (w\<lparr>sw_state := s', sw_permits := sw_permits w - {rg_admission r},
                      sw_guards := insert g (sw_guards w)\<rparr>)"
| not_registered:
    "rg_admission r \<in> sw_permits w \<Longrightarrow> begin_request now_ns r (sw_state w) = (s', Inl msg) \<Longrightarrow>
     server_step w (w\<lparr>sw_state := s', sw_permits := sw_permits w - {rg_admission r}\<rparr>)"
| phase_updated:
    "server_step w (w\<lparr>sw_state := update_request_phase key phase (sw_state w)\<rparr>)"
| cancel_asked:
    "server_cancel request_id token pid start_id (sw_state w) = (s', ok) \<Longrightarrow>
     server_step w (w\<lparr>sw_state := s'\<rparr>)"
| guard_dropped:
    "g \<in> sw_guards w \<Longrightarrow>
     server_step w (w\<lparr>sw_state := drop_request_guard now_ns g (sw_state w), sw_guards := sw_guards w - {g}\<rparr>)"
| lease_dropped:
    "server_step w (w\<lparr>sw_state := drop_lease_activity now_ns (sw_state w)\<rparr>)"
| engine_moved:
    "server_step w (w\<lparr>sw_state := (sw_state w)\<lparr>ss_contexts := contexts, ss_engine := engine, ss_engine_held := held\<rparr>\<rparr>)"
| engine_opened:
    "server_engine initialize (sw_state w) = (s', res) \<Longrightarrow>
     server_step w (w\<lparr>sw_state := s'\<rparr>)"
| drain_tried:
    "server_step w (w\<lparr>sw_state := fst (begin_draining_if_idle (sw_state w))\<rparr>)"
| watchdog_polled:
    "watchdog_poll budgets t1 t2 t3 wd (sw_state w) = (wd', s', marker, finished) \<Longrightarrow>
     server_step w (w\<lparr>sw_state := s'\<rparr>)"
| cleaned_up:
    "server_step w (w\<lparr>sw_state := server_cleanup (sw_state w)\<rparr>)"

inductive_simps server_step_simps: "server_step w w'"

definition guard_of :: "string \<times> ServerCancellation \<Rightarrow> ServerRequestGuard" where
  "guard_of e = \<lparr>gd_key = Some (fst e), gd_admission = sx_admission (snd e)\<rparr>"

text \<open>The permits of an admission that still count against their class.\<close>

definition live_permits :: "ServerRequestAdmission \<Rightarrow> permit set" where
  "live_permits a = {p. p < length (sa_permits a) \<and> \<not> pi_released (sa_permits a ! p)}"

lemma live_permits_release [simp]: "live_permits (permit_release p a) = live_permits a - {p}"
  by (auto simp: live_permits_def permit_release_def admission_release_def Let_def nth_list_update split: if_splits)

lemma length_permits_release [simp]: "length (sa_permits (permit_release p a)) = length (sa_permits a)"
  by (simp add: permit_release_def admission_release_def Let_def)

lemma live_permits_default [simp]: "live_permits ServerRequestAdmission_default = {}"
  by (simp add: live_permits_def ServerRequestAdmission_default_def)

lemma outstanding_zero: "outstanding c a = 0 \<longleftrightarrow> (\<forall>p \<in> live_permits a. pi_request_class (sa_permits a ! p) \<noteq> c)"
  unfolding outstanding_def live_permits_def
  by (auto simp: filter_empty_conv in_set_conv_nth) (metis nth_mem)

lemma depths_eqI: "(\<And>c. depths_depth d c = depths_depth d' c) \<Longrightarrow> d = d'"
  by (metis ServerRequestAdmissionDepths.equality depths_depth.simps old.unit.exhaust)

lemma depths_depth_default [simp]: "depths_depth depths_default c = 0"
  by (cases c) (simp_all add: depths_default_def)

lemma depths_default_iff:
  assumes "server_admission_inv a"
  shows "admission_snapshot a = depths_default \<longleftrightarrow> live_permits a = {}"
proof
  assume "admission_snapshot a = depths_default"
  then have "outstanding c a = 0" for c
    using assms by (metis admission_snapshot_def depths_depth_default server_admission_inv_def)
  then show "live_permits a = {}" by (auto simp: outstanding_zero)
next
  assume "live_permits a = {}"
  then have "outstanding c a = 0" for c by (simp add: outstanding_zero)
  with assms show "admission_snapshot a = depths_default"
    by (intro depths_eqI) (simp add: admission_snapshot_def server_admission_inv_def)
qed

definition registry_inv :: "server_world \<Rightarrow> bool" where
  "registry_inv w \<longleftrightarrow>
     (let s = sw_state w in
      \<not> ss_gate_poisoned s \<and> \<not> ss_active_poisoned s \<and> \<not> ss_cancellations_poisoned s
      \<and> bt_inv (ss_active s) \<and> bt_inv (ss_cancellations s)
      \<and> fst ` set (ss_active s) = fst ` set (ss_cancellations s)
      \<and> sw_guards w = guard_of ` set (ss_cancellations s))"

definition permit_inv :: "server_world \<Rightarrow> bool" where
  "permit_inv w \<longleftrightarrow>
     (let a = ss_request_admission (sw_state w) in
      server_admission_inv a
      \<and> sw_permits w \<subseteq> live_permits a
      \<and> live_permits a \<subseteq> sw_permits w \<union> gd_admission ` sw_guards w
      \<and> gd_admission ` sw_guards w \<subseteq> {..<length (sa_permits a)} - sw_permits w)"

definition connection_inv :: "server_world \<Rightarrow> bool" where
  "connection_inv w \<longleftrightarrow>
     ss_connections (sw_state w) = sw_connections w
     \<and> sw_connections w \<le> SERVER_TOTAL_CONNECTION_HANDLER_CAPACITY
     \<and> ss_pre_request_connections (sw_state w) = sw_pre_requests w
     \<and> sw_pre_requests w \<le> SERVER_CONTROL_CONNECTION_RESERVE"

text \<open>What the remaining operations leave of the registry and of the admission.\<close>

lemma try_admit_ok:
  assumes "try_admit_request c retry s = (s', Inr p)"
  shows "\<exists>b. try_acquire c b (ss_request_admission s) = (ss_request_admission s', Inr p)"
  using assms by (auto simp: try_admit_request_def Let_def split: prod.splits sum.splits)

lemma try_admit_full:
  assumes "try_admit_request c retry s = (s', Inl e)"
  shows "s' = s"
  using assms by (auto simp: try_admit_request_def Let_def try_acquire_cases split: prod.splits sum.splits if_splits)

lemma try_acquire_live:
  assumes "try_acquire c b a = (a', Inr p)"
  shows "p = length (sa_permits a)" "live_permits a' = insert p (live_permits a)"
    "length (sa_permits a') = Suc (length (sa_permits a))"
  using assms by (auto simp: try_acquire_cases live_permits_def nth_append split: if_splits)

lemma server_cancel_cases:
  assumes "server_cancel request_id token pid start_id s = (s', ok)"
  obtains "s' = s" "\<not> ok"
  | k c ctx where "(k, c) \<in> set (ss_cancellations s)" "\<not> ss_cancellations_poisoned s"
      "context_cancel (ss_contexts s (sx_context c)) = (ctx, ok)"
      "s' = (if ok then release_permit (sx_admission c) else id) (s\<lparr>ss_contexts := (ss_contexts s)(sx_context c := ctx)\<rparr>)"
proof -
  let ?match = "\<lambda>(key, c). ends_with key ('':'' @ request_id) \<and> auth_matches token pid start_id (sx_auth c)"
  let ?ms = "filter ?match (ss_cancellations s)"
  show ?thesis
  proof (cases "\<exists>k c. ?ms = [(k, c)] \<and> \<not> ss_cancellations_poisoned s")
    case True
    then obtain k c where ms: "?ms = [(k, c)]" and np: "\<not> ss_cancellations_poisoned s" by auto
    from ms have "(k, c) \<in> set ?ms" by simp
    then have mem: "(k, c) \<in> set (ss_cancellations s)" by (simp only: set_filter) blast
    obtain ctx won where cc: "context_cancel (ss_contexts s (sx_context c)) = (ctx, won)" by fastforce
    with assms ms np show ?thesis
      by (intro that(2) [OF mem np]) (auto simp: server_cancel_def Let_def)
  next
    case False
    with assms show ?thesis
      by (intro that(1)) (auto simp: server_cancel_def Let_def split: if_splits list.splits prod.splits)
  qed
qed

lemma update_request_phase_keys:
  assumes "bt_inv (ss_active s)"
  shows "bt_inv (ss_active (update_request_phase key phase s))"
    "fst ` set (ss_active (update_request_phase key phase s)) = fst ` set (ss_active s)"
  using assms
  by (auto simp: update_request_phase_def bt_inv_insert insert_absorb bt_get_None split: option.split)
    (metis bt_get_None option.distinct(1))+

lemma update_request_phase_frame [simp]:
  "ss_cancellations (update_request_phase key phase s) = ss_cancellations s"
  "ss_request_admission (update_request_phase key phase s) = ss_request_admission s"
  "ss_connections (update_request_phase key phase s) = ss_connections s"
  "ss_pre_request_connections (update_request_phase key phase s) = ss_pre_request_connections s"
  "ss_gate_poisoned (update_request_phase key phase s) = ss_gate_poisoned s"
  "ss_active_poisoned (update_request_phase key phase s) = ss_active_poisoned s"
  "ss_cancellations_poisoned (update_request_phase key phase s) = ss_cancellations_poisoned s"
  by (simp_all add: update_request_phase_def split: option.split)

definition same_registry :: "PerUserEmbeddingServerState \<Rightarrow> PerUserEmbeddingServerState \<Rightarrow> bool" where
  "same_registry s s' \<longleftrightarrow>
     ss_active s' = ss_active s \<and> ss_cancellations s' = ss_cancellations s
     \<and> ss_gate_poisoned s' = ss_gate_poisoned s \<and> ss_active_poisoned s' = ss_active_poisoned s
     \<and> ss_cancellations_poisoned s' = ss_cancellations_poisoned s"

lemma try_admit_frame:
  assumes "try_admit_request c retry s = (s', res)"
  shows "same_registry s s'" "ss_connections s' = ss_connections s"
    "ss_pre_request_connections s' = ss_pre_request_connections s"
  using assms by (auto simp: same_registry_def try_admit_request_def Let_def split: prod.splits sum.splits)

lemma watchdog_poll_frame:
  assumes "watchdog_poll budgets t1 t2 t3 wd s = (wd', s', marker, finished)"
  shows "same_registry s s'" "ss_request_admission s' = ss_request_admission s"
    "ss_connections s' = ss_connections s" "ss_pre_request_connections s' = ss_pre_request_connections s"
  using assms
  by (auto simp: watchdog_poll_def same_registry_def record_failure_def split: if_splits prod.splits option.splits)

lemma server_engine_frame:
  assumes "server_engine initialize s = (s', res)"
  shows "same_registry s s'" "ss_request_admission s' = ss_request_admission s"
    "ss_connections s' = ss_connections s" "ss_pre_request_connections s' = ss_pre_request_connections s"
  using assms by (auto simp: server_engine_def same_registry_def split: if_splits option.splits sum.splits)

lemma begin_draining_registry: "same_registry s (fst (begin_draining_if_idle s))"
  by (auto simp: same_registry_def begin_draining_if_idle_def Let_def split: option.splits prod.splits)

lemma drop_lease_frame:
  "same_registry s (drop_lease_activity now s)"
  "ss_request_admission (drop_lease_activity now s) = ss_request_admission s"
  "ss_connections (drop_lease_activity now s) = ss_connections s"
  "ss_pre_request_connections (drop_lease_activity now s) = ss_pre_request_connections s"
  by (simp_all add: same_registry_def drop_lease_activity_def release_native_lease_def restart_idle_window_def
      split: option.split)

lemma registry_inv_same:
  assumes "registry_inv w" and "same_registry (sw_state w) (sw_state w')" and "sw_guards w' = sw_guards w"
  shows "registry_inv w'"
  using assms by (simp add: registry_inv_def same_registry_def Let_def)

lemma registry_inv_fresh:
  assumes "registry_inv w" and "bt_get (ss_active (sw_state w)) k = None"
  shows "bt_get (ss_cancellations (sw_state w)) k = None"
  using assms by (simp add: registry_inv_def Let_def bt_get_None)

lemma registry_inv_guard:
  assumes "registry_inv w" and "g \<in> sw_guards w"
  obtains k c where "g = \<lparr>gd_key = Some k, gd_admission = sx_admission c\<rparr>"
    "bt_get (ss_cancellations (sw_state w)) k = Some c"
  using assms by (auto simp: registry_inv_def Let_def guard_of_def dest: bt_get_mem)

lemma drop_guard_state:
  assumes "registry_inv w"
    and "bt_get (ss_cancellations (sw_state w)) k = Some c"
  shows "drop_request_guard now \<lparr>gd_key = Some k, gd_admission = sx_admission c\<rparr> (sw_state w) =
     bump_event ((sw_state w)\<lparr>ss_active := bt_remove k (ss_active (sw_state w)),
       ss_cancellations := bt_remove k (ss_cancellations (sw_state w)),
       ss_request_admission := permit_release (sx_admission c) (ss_request_admission (sw_state w)),
       ss_last_work_ended_ns := now\<rparr>)"
  using assms
  by (simp add: drop_request_guard_def registry_inv_def Let_def finish_request_live release_permit_def
      bump_event_def permit_release_idem)

lemma guard_of_removed:
  assumes "bt_inv m" and "bt_get m k = Some c"
  shows "guard_of ` set m - {\<lparr>gd_key = Some k, gd_admission = sx_admission c\<rparr>} = guard_of ` {e \<in> set m. fst e \<noteq> k}"
proof -
  have eq: "guard_of e = \<lparr>gd_key = Some k, gd_admission = sx_admission c\<rparr> \<longleftrightarrow> fst e = k" if "e \<in> set m" for e
    using that assms bt_get_mem [OF assms(1), of "fst e" "snd e"] by (auto simp: guard_of_def)
  show ?thesis by (rule set_eqI) (auto simp: eq)
qed

lemma registered_state:
  assumes "registry_inv w" and "begin_request now r (sw_state w) = (s', Inr g)"
  defines "key \<equiv> request_key (rg_connection_id r) (rg_request_id r)"
  obtains a c where "g = guard_of (key, c)" "sx_admission c = rg_admission r"
    "bt_get (ss_active (sw_state w)) key = None" "bt_get (ss_cancellations (sw_state w)) key = None"
    "s' = bump_event ((sw_state w)\<lparr>ss_active := bt_insert key a (ss_active (sw_state w)),
       ss_cancellations := bt_insert key c (ss_cancellations (sw_state w))\<rparr>)"
proof -
  note ok = begin_request_ok [OF assms(2), folded key_def]
  from registry_inv_fresh [OF assms(1) ok(5)] have fresh: "bt_get (ss_cancellations (sw_state w)) key = None" .
  from that [OF _ _ ok(5) fresh begin_request_fresh [OF assms(2), folded key_def, OF fresh]] ok(6)
  show thesis by (simp add: guard_of_def)
qed

lemma registry_inv_registered:
  assumes "registry_inv w" and "begin_request now r (sw_state w) = (s', Inr g)"
  shows "registry_inv (w\<lparr>sw_state := s', sw_permits := P, sw_guards := insert g (sw_guards w)\<rparr>)"
proof -
  from registered_state [OF assms] obtain k a c where st: "g = guard_of (k, c)"
    "bt_get (ss_active (sw_state w)) k = None" "bt_get (ss_cancellations (sw_state w)) k = None"
    "s' = bump_event ((sw_state w)\<lparr>ss_active := bt_insert k a (ss_active (sw_state w)),
       ss_cancellations := bt_insert k c (ss_cancellations (sw_state w))\<rparr>)" by metis
  with assms(1) show ?thesis
    by (simp add: registry_inv_def Let_def bt_inv_insert set_bt_insert_fresh)
qed

lemma registry_inv_step:
  assumes step: "server_step w w'" and inv: "registry_inv w"
  shows "registry_inv w'"
  using step
proof cases
  case (registered r now s' g)
  with registry_inv_registered [OF inv] show ?thesis by simp
next
  case (guard_dropped g now)
  from registry_inv_guard [OF inv guard_dropped(2)] obtain k c where
    g: "g = \<lparr>gd_key = Some k, gd_admission = sx_admission c\<rparr>"
    and k: "bt_get (ss_cancellations (sw_state w)) k = Some c" .
  from inv have bt: "bt_inv (ss_active (sw_state w))" "bt_inv (ss_cancellations (sw_state w))"
    and keys: "fst ` set (ss_active (sw_state w)) = fst ` set (ss_cancellations (sw_state w))"
    by (simp_all add: registry_inv_def Let_def)
  have removed: "fst ` {e \<in> set m. fst e \<noteq> k} = fst ` set m - {k}" for m :: "(string \<times> 'x) list" by auto
  show ?thesis
    using guard_dropped inv bt keys k
    by (simp add: registry_inv_def Let_def g drop_guard_state [OF inv k] bt_inv_remove set_bt_remove
        guard_of_removed removed)
next
  case (phase_updated key phase)
  with inv show ?thesis
    by (simp add: registry_inv_def Let_def update_request_phase_keys)
next
  case (cancel_asked rid tok pid sid s' ok)
  show ?thesis
    using cancel_asked(2)
  proof (cases rule: server_cancel_cases)
    case 1
    with cancel_asked inv show ?thesis by (simp add: registry_inv_def)
  next
    case (2 k c ctx)
    with cancel_asked inv show ?thesis by (simp add: registry_inv_def Let_def)
  qed
next
  case (admitted c ra s' p)
  then show ?thesis
    by (intro registry_inv_same [OF inv]) (simp_all add: try_admit_frame(1) [OF admitted(2)])
next
  case (engine_opened initialize s' res)
  then show ?thesis
    by (intro registry_inv_same [OF inv]) (simp_all add: server_engine_frame(1) [OF engine_opened(2)])
next
  case (watchdog_polled b t1 t2 t3 wd wd' s' m f)
  then show ?thesis
    by (intro registry_inv_same [OF inv]) (simp_all add: watchdog_poll_frame(1) [OF watchdog_polled(2)])
next
  case drain_tried
  then show ?thesis by (intro registry_inv_same [OF inv]) (simp_all add: begin_draining_registry)
next
  case (lease_dropped now)
  then show ?thesis by (intro registry_inv_same [OF inv]) (simp_all add: drop_lease_frame)
next
  case (not_admitted c ra s' e)
  then show ?thesis
    by (intro registry_inv_same [OF inv]) (simp_all add: try_admit_frame(1) [OF not_admitted(2)])
next
  case (not_registered r now s' msg)
  then show ?thesis
    by (intro registry_inv_same [OF inv]) (simp_all add: same_registry_def begin_request_error [OF not_registered(3)])
qed (rule registry_inv_same [OF inv];
     auto simp: same_registry_def try_begin_connection_def try_begin_rejection_connection_def
       try_begin_pre_request_def drop_connection_guard_def drop_pre_request_guard_def
       server_cleanup_def shutdown_engine_def split: if_splits)+

lemma permit_inv_same:
  assumes "permit_inv w" and "ss_request_admission (sw_state w') = ss_request_admission (sw_state w)"
    and "sw_permits w' = sw_permits w" and "sw_guards w' = sw_guards w"
  shows "permit_inv w'"
  using assms by (simp add: permit_inv_def)

text \<open>Releasing a permit a thread gives up, or one a guard still names, keeps the account.\<close>

lemma permit_inv_release:
  assumes "permit_inv w" and "ss_request_admission (sw_state w') = permit_release p (ss_request_admission (sw_state w))"
    and "sw_permits w' = sw_permits w - {p}" and "sw_guards w' \<subseteq> sw_guards w"
    and "\<And>g. g \<in> sw_guards w - sw_guards w' \<Longrightarrow> gd_admission g = p"
  shows "permit_inv w'"
proof -
  have "live_permits (ss_request_admission (sw_state w)) - {p} \<subseteq> sw_permits w - {p} \<union> gd_admission ` sw_guards w'"
  proof -
    have "gd_admission ` sw_guards w \<subseteq> insert p (gd_admission ` sw_guards w')" using assms(5) by blast
    with assms(1) show ?thesis unfolding permit_inv_def Let_def by blast
  qed
  moreover have "gd_admission ` sw_guards w' \<subseteq>
      {..<length (sa_permits (ss_request_admission (sw_state w)))} - (sw_permits w - {p})"
  proof (rule order_trans [OF image_mono [OF assms(4)]])
    show "gd_admission ` sw_guards w \<subseteq>
        {..<length (sa_permits (ss_request_admission (sw_state w)))} - (sw_permits w - {p})"
      using assms(1) unfolding permit_inv_def Let_def by blast
  qed
  moreover have "sw_permits w - {p} \<subseteq> live_permits (ss_request_admission (sw_state w)) - {p}"
    using assms(1) unfolding permit_inv_def Let_def by blast
  moreover have "server_admission_inv (permit_release p (ss_request_admission (sw_state w)))"
    using assms(1) by (simp add: permit_inv_def Let_def permit_release_inv)
  ultimately show ?thesis
    unfolding permit_inv_def Let_def assms(2,3) live_permits_release length_permits_release
    by (intro conjI)
qed

lemma permit_inv_guard_release:
  assumes "permit_inv w" and "ss_request_admission (sw_state w') = permit_release p (ss_request_admission (sw_state w))"
    and "sw_permits w' = sw_permits w" and "p \<in> gd_admission ` sw_guards w" and "sw_guards w' \<subseteq> sw_guards w"
    and "\<And>g. g \<in> sw_guards w - sw_guards w' \<Longrightarrow> gd_admission g = p"
  shows "permit_inv w'"
proof (rule permit_inv_release [OF assms(1,2) _ assms(5,6)])
  show "sw_permits w' = sw_permits w - {p}"
    using assms(1,3,4) by (auto simp: permit_inv_def Let_def)
qed

lemma permit_inv_step:
  assumes step: "server_step w w'" and reg: "registry_inv w" and inv: "permit_inv w"
  shows "permit_inv w'"
  using step
proof cases
  case (admitted c ra s' p)
  from try_admit_ok [OF admitted(2)] obtain b where
    acq: "try_acquire c b (ss_request_admission (sw_state w)) = (ss_request_admission s', Inr p)" by blast
  note live = try_acquire_live [OF acq]
  from try_acquire_inv [of _ c b] acq inv have "server_admission_inv (ss_request_admission s')"
    by (metis fst_conv permit_inv_def)
  with admitted inv live show ?thesis by (auto simp: permit_inv_def Let_def)
next
  case (permit_dropped p)
  then show ?thesis by (intro permit_inv_release [OF inv, where p = p]) auto
next
  case (registered r now s' g)
  have g: "gd_admission g = rg_admission r"
    by (rule registered_state [OF reg registered(3)]) (simp add: guard_of_def)
  have s': "ss_request_admission s' = ss_request_admission (sw_state w)"
    by (rule registered_state [OF reg registered(3)]) simp
  from inv registered(2) have "rg_admission r < length (sa_permits (ss_request_admission (sw_state w)))"
    by (auto simp: permit_inv_def Let_def live_permits_def)
  with registered(1,2) inv g s' show ?thesis by (auto simp: permit_inv_def Let_def)
next
  case (not_registered r now s' msg)
  then show ?thesis
    by (intro permit_inv_release [OF inv, where p = "rg_admission r"]) (auto simp: begin_request_error [OF not_registered(3)])
next
  case (cancel_asked rid tok pid sid s' ok)
  show ?thesis
    using cancel_asked(2)
  proof (cases rule: server_cancel_cases)
    case 1
    with cancel_asked inv show ?thesis by (simp add: permit_inv_def)
  next
    case (2 k c ctx)
    have "sx_admission c \<in> gd_admission ` sw_guards w"
      using imageI [OF imageI [OF 2(1)], of gd_admission guard_of] reg
      by (simp add: registry_inv_def Let_def) (simp add: guard_of_def)
    with 2 cancel_asked inv show ?thesis
      by (cases ok) (auto intro: permit_inv_guard_release [OF inv, where p = "sx_admission c"] permit_inv_same [OF inv])
  qed
next
  case (guard_dropped g now)
  from registry_inv_guard [OF reg guard_dropped(2)] obtain k c where
    g: "g = \<lparr>gd_key = Some k, gd_admission = sx_admission c\<rparr>"
    and k: "bt_get (ss_cancellations (sw_state w)) k = Some c" .
  have "gd_admission g \<in> gd_admission ` sw_guards w" using guard_dropped(2) by (rule imageI)
  with guard_dropped show ?thesis
    by (intro permit_inv_guard_release [OF inv, where p = "gd_admission g"]) (auto simp: g drop_guard_state [OF reg k])
next
  case (not_admitted c ra s' e)
  then show ?thesis using try_admit_full [OF not_admitted(2)] by (intro permit_inv_same [OF inv]) simp_all
next
  case (engine_opened initialize s' res)
  then show ?thesis
    by (intro permit_inv_same [OF inv]) (simp_all add: server_engine_frame(2) [OF engine_opened(2)])
next
  case (watchdog_polled b t1 t2 t3 wd wd' s' m f)
  then show ?thesis
    by (intro permit_inv_same [OF inv]) (simp_all add: watchdog_poll_frame(2) [OF watchdog_polled(2)])
qed (rule permit_inv_same [OF inv];
     auto simp: begin_draining_frame drop_lease_frame try_begin_connection_def try_begin_rejection_connection_def
       try_begin_pre_request_def drop_connection_guard_def drop_pre_request_guard_def
       server_cleanup_def shutdown_engine_def split: if_splits)+

lemma capacity_le_u64: "SERVER_TOTAL_CONNECTION_HANDLER_CAPACITY \<le> u64_max"
  by (simp add: SERVER_TOTAL_CONNECTION_HANDLER_CAPACITY_def SERVER_CONNECTION_HANDLER_CAPACITY_def
      SERVER_REJECTION_CONNECTION_RESERVE_def SERVER_CONTROL_CONNECTION_RESERVE_def
      EMBEDDING_QUERY_QUEUE_CAPACITY_def EMBEDDING_BULK_QUEUE_CAPACITY_def u64_max_def)

lemma handler_le_total: "SERVER_CONNECTION_HANDLER_CAPACITY \<le> SERVER_TOTAL_CONNECTION_HANDLER_CAPACITY"
  by (simp add: SERVER_TOTAL_CONNECTION_HANDLER_CAPACITY_def)

lemma reserve_le_total: "SERVER_CONTROL_CONNECTION_RESERVE \<le> SERVER_TOTAL_CONNECTION_HANDLER_CAPACITY"
  by (simp add: SERVER_TOTAL_CONNECTION_HANDLER_CAPACITY_def SERVER_CONNECTION_HANDLER_CAPACITY_def)

lemma connection_inv_same:
  assumes "connection_inv w" and "ss_connections (sw_state w') = ss_connections (sw_state w)"
    and "ss_pre_request_connections (sw_state w') = ss_pre_request_connections (sw_state w)"
    and "sw_connections w' = sw_connections w" and "sw_pre_requests w' = sw_pre_requests w"
  shows "connection_inv w'"
  using assms by (simp add: connection_inv_def)

lemma begin_request_connections:
  assumes "begin_request now r s = (s', res)"
  shows "ss_connections s' = ss_connections s" "ss_pre_request_connections s' = ss_pre_request_connections s"
  using assms by (auto simp: begin_request_def Let_def split: if_splits option.splits)

lemma server_cancel_connections:
  assumes "server_cancel rid tok pid sid s = (s', ok)"
  shows "ss_connections s' = ss_connections s" "ss_pre_request_connections s' = ss_pre_request_connections s"
  using assms by (cases rule: server_cancel_cases; simp)+

lemma drop_request_guard_connections:
  "ss_connections (drop_request_guard now g s) = ss_connections s"
  "ss_pre_request_connections (drop_request_guard now g s) = ss_pre_request_connections s"
  by (simp_all add: drop_request_guard_def finish_request_def Let_def restart_idle_window_def split: option.split)

lemma connection_inv_step:
  assumes step: "server_step w w'" and inv: "connection_inv w"
  shows "connection_inv w'"
  using step
proof cases
  case connection_ended
  with inv capacity_le_u64 show ?thesis
    by (auto simp: connection_inv_def drop_connection_guard_def wrap_sub64_exact)
next
  case pre_request_ended
  with inv capacity_le_u64 reserve_le_total show ?thesis
    by (auto simp: connection_inv_def drop_pre_request_guard_def wrap_sub64_exact)
next
  case (engine_opened initialize s' res)
  then show ?thesis
    by (intro connection_inv_same [OF inv]) (simp_all add: server_engine_frame [OF engine_opened(2)])
next
  case (watchdog_polled b t1 t2 t3 wd wd' s' m f)
  then show ?thesis
    by (intro connection_inv_same [OF inv]) (simp_all add: watchdog_poll_frame [OF watchdog_polled(2)])
next
  case (cancel_asked rid tok pid sid s' ok)
  then show ?thesis
    by (intro connection_inv_same [OF inv]) (simp_all add: server_cancel_connections [OF cancel_asked(2)])
next
  case (admitted c ra s' p)
  then show ?thesis by (intro connection_inv_same [OF inv]) (simp_all add: try_admit_frame [OF admitted(2)])
next
  case (not_admitted c ra s' e)
  then show ?thesis by (intro connection_inv_same [OF inv]) (simp_all add: try_admit_frame [OF not_admitted(2)])
next
  case (registered r now s' g)
  then show ?thesis by (intro connection_inv_same [OF inv]) (simp_all add: begin_request_connections [OF registered(3)])
next
  case (not_registered r now s' msg)
  then show ?thesis by (intro connection_inv_same [OF inv]) (simp_all add: begin_request_connections [OF not_registered(3)])
qed (use inv handler_le_total in \<open>auto simp: connection_inv_def begin_draining_frame drop_lease_frame drop_request_guard_connections
       try_begin_connection_def try_begin_rejection_connection_def try_begin_pre_request_def
       server_cleanup_def shutdown_engine_def split: if_splits\<close>)+

definition world_inv :: "server_world \<Rightarrow> bool" where
  "world_inv w \<longleftrightarrow> registry_inv w \<and> permit_inv w \<and> connection_inv w"

lemma world_inv_step: "server_step w w' \<Longrightarrow> world_inv w \<Longrightarrow> world_inv w'"
  unfolding world_inv_def using registry_inv_step permit_inv_step connection_inv_step by blast

lemma world_inv_start: "world_inv (world_start (server_start instance_id now authority config))"
  by (simp add: world_inv_def registry_inv_def permit_inv_def connection_inv_def Let_def world_start_def
      server_start_def server_admission_inv_default)

definition server_reaches :: "server_world \<Rightarrow> server_world \<Rightarrow> bool" where
  "server_reaches = server_step\<^sup>*\<^sup>*"

lemma server_reaches_inv:
  assumes "server_reaches w w'" and "world_inv w"
  shows "world_inv w'"
  using assms unfolding server_reaches_def
  by (induction rule: rtranclp_induct) (auto intro: world_inv_step)

section \<open>Properties\<close>

lemma world_inv_quiet_iff:
  assumes "world_inv w"
  shows "admission_snapshot (ss_request_admission (sw_state w)) = depths_default \<and> ss_active (sw_state w) = []
     \<longleftrightarrow> sw_permits w = {} \<and> sw_guards w = {}"
proof -
  let ?a = "ss_request_admission (sw_state w)"
  from assms have reg: "sw_guards w = guard_of ` set (ss_cancellations (sw_state w))"
      "fst ` set (ss_active (sw_state w)) = fst ` set (ss_cancellations (sw_state w))"
    and per: "sw_permits w \<subseteq> live_permits ?a" "live_permits ?a \<subseteq> sw_permits w \<union> gd_admission ` sw_guards w"
    and adm: "server_admission_inv ?a"
    unfolding world_inv_def registry_inv_def permit_inv_def Let_def by blast+
  have "ss_active (sw_state w) = [] \<longleftrightarrow> sw_guards w = {}"
    using reg by (metis image_is_empty set_empty)
  with per show ?thesis unfolding depths_default_iff [OF adm] by auto
qed

lemma true_idle_quiet:
  "true_idle s \<Longrightarrow> admission_snapshot (ss_request_admission s) = depths_default \<and> ss_active s = []"
  by (auto simp: true_idle_def split: if_splits)

lemma server_start_quiet_inv:
  "server_reaches (world_start (server_start instance_id now authority config)) w \<Longrightarrow> world_inv w"
  using server_reaches_inv world_inv_start by blast

text \<open>C1: along every interleaving of handlers, the server's own account (no depth, no active
  request) is empty exactly when no thread holds a permit or a request guard: admission never
  leaks a slot, and never loses one that is still held.\<close>

theorem server_account_exact:
  assumes "server_reaches (world_start (server_start instance_id now authority config)) w"
  shows "admission_snapshot (ss_request_admission (sw_state w)) = depths_default \<and> ss_active (sw_state w) = []
     \<longleftrightarrow> sw_permits w = {} \<and> sw_guards w = {}"
  by (rule world_inv_quiet_iff [OF server_start_quiet_inv [OF assms]])

text \<open>C2: draining begins only when no admitted or registered request exists anywhere, and from
  then on every registration is refused with its permit given back.\<close>

theorem draining_only_when_quiet:
  assumes "server_reaches (world_start (server_start instance_id now authority config)) w"
    and "begin_draining_if_idle (sw_state w) = (s', True)"
  shows "sw_permits w = {} \<and> sw_guards w = {} \<and> ss_draining s' \<and>
     begin_request now_ns r s' = (release_permit (rg_admission r) s', Inl ''embedding_server_draining'')"
proof -
  have inv: "world_inv w" by (rule server_start_quiet_inv [OF assms(1)])
  have "sw_permits w = {} \<and> sw_guards w = {}"
    using true_idle_quiet [OF begin_draining_sound(1) [OF assms(2)]] world_inv_quiet_iff [OF inv] by blast
  moreover have "\<not> ss_gate_poisoned s'"
    using inv begin_draining_registry [of "sw_state w"] assms(2)
    by (simp add: world_inv_def registry_inv_def same_registry_def Let_def)
  ultimately show ?thesis using begin_draining_sound(2) [OF assms(2)] by (simp add: begin_request_def)
qed

text \<open>The connection counters always equal the live handlers and never pass the 144 and 8
  the server reserves, so a guard's decrement never wraps.\<close>

theorem connections_bounded:
  assumes "server_reaches (world_start (server_start instance_id now authority config)) w"
  shows "ss_connections (sw_state w) = sw_connections w \<and> sw_connections w \<le> 144
     \<and> ss_pre_request_connections (sw_state w) = sw_pre_requests w \<and> sw_pre_requests w \<le> 8"
  using server_start_quiet_inv [OF assms]
  by (simp add: world_inv_def connection_inv_def SERVER_TOTAL_CONNECTION_HANDLER_CAPACITY_def
      SERVER_CONNECTION_HANDLER_CAPACITY_def SERVER_REJECTION_CONNECTION_RESERVE_def
      SERVER_CONTROL_CONNECTION_RESERVE_def EMBEDDING_QUERY_QUEUE_CAPACITY_def EMBEDDING_BULK_QUEUE_CAPACITY_def)

text \<open>C19: a drain attempt on a busy server is undone exactly, but the flag it published in between
  makes a listener pass that falls there leave its loop: the busy server shuts down.\<close>

theorem failed_drain_stops_listener:
  assumes "\<not> ss_gate_poisoned s" and "\<not> ss_draining s" and "\<not> true_idle s"
  shows "begin_draining_if_idle s = begin_draining_settle (begin_draining_mark s)
     \<and> begin_draining_settle (begin_draining_mark s) = (s, False)
     \<and> listener_iteration budgets now_ns accepted late (begin_draining_mark s)
         = (begin_draining_mark s, None, LoopBreak)"
  using assms begin_draining_two_steps [OF assms(1,2)] draining_restored [OF assms(2)]
  by (simp add: begin_draining_settle_def begin_draining_mark_def listener_iteration_def)

text \<open>C35: a stall the watchdog reports is real: from the reported instant on, every poll saw the
  class active on the same progress counter, and that instant is at least the timeout ago.\<close>

theorem watchdog_stall_sound:
  assumes "snd (watchdog_observe a q t timeout
      (watchdog_run timeout vs (WatchdogClassProgress_new started))) = Some st"
  shows "a \<and> ws_sequence st = q \<and> no_progress_since vs q (ws_last_progress_ns st)
     \<and> timeout \<le> t - ws_last_progress_ns st"
  using watchdog_observe_stall [OF assms] watchdog_run_active [of timeout vs started] by simp

text \<open>Once a class is active without progress, polls keep the first instant.\<close>

lemma watchdog_last_le:
  assumes "started \<le> t0" and "list_all (\<lambda>(a, q, t). t \<le> t0) vs"
  shows "wp_last_progress_ns (watchdog_run timeout vs (WatchdogClassProgress_new started)) \<le> t0"
  using assms
proof (induction vs rule: rev_induct)
  case Nil
  then show ?case by (simp add: WatchdogClassProgress_new_def)
next
  case (snoc v vs)
  then show ?case by (cases v) (auto simp: watchdog_run_snoc watchdog_observe_def)
qed

lemma watchdog_run_append: "watchdog_run timeout (vs @ us) w = watchdog_run timeout us (watchdog_run timeout vs w)"
  by (induction timeout vs w rule: watchdog_run.induct) simp_all

lemma watchdog_run_stuck:
  assumes "list_all (\<lambda>(a, q', t). a \<and> q' = q) vs" and "wp_was_active w" and "wp_sequence w = q"
  shows "watchdog_run timeout vs w = w"
  using assms by (induction timeout vs w rule: watchdog_run.induct) (auto simp: watchdog_observe_def)

text \<open>The watchdog fires: a class polled active on one counter from \<open>t0\<close> on is reported by the
  first poll at least the timeout later, whatever it saw before.\<close>

theorem watchdog_stall_detected:
  assumes "started \<le> t0" and "list_all (\<lambda>(a, q, t). t \<le> t0) older"
    and "list_all (\<lambda>(a, q', t). a \<and> q' = q) recent" and "t0 + timeout \<le> t"
  shows "\<exists>st. snd (watchdog_observe True q t timeout
      (watchdog_run timeout (older @ (True, q, t0) # recent) (WatchdogClassProgress_new started))) = Some st"
proof -
  let ?w0 = "watchdog_run timeout older (WatchdogClassProgress_new started)"
  let ?w = "fst (watchdog_observe True q t0 timeout ?w0)"
  have w: "wp_was_active ?w" "wp_sequence ?w = q" "wp_last_progress_ns ?w \<le> t0"
    using watchdog_last_le [OF assms(1,2)] by (auto simp: watchdog_observe_def)
  then have "watchdog_run timeout (older @ (True, q, t0) # recent) (WatchdogClassProgress_new started) = ?w"
    using watchdog_run_stuck [OF assms(3) w(1,2)] by (simp add: watchdog_run_append)
  with w assms(4) show ?thesis
    by (auto simp: watchdog_observe_def [of True q t] elapsed_since_def)
qed

text \<open>A cancellation changes no request but one that its client authenticated: same request id
  suffix, same token, same process identity.\<close>

theorem cancel_touches_authenticated_only:
  assumes "server_cancel request_id token pid start_id s = (s', ok)"
    and "ss_contexts s' x \<noteq> ss_contexts s x \<or> ss_request_admission s' \<noteq> ss_request_admission s"
  shows "ok \<and> (\<exists>k c. (k, c) \<in> set (ss_cancellations s) \<and> suffix ('':'' @ request_id) k
     \<and> sx_auth c = Some \<lparr>ca_token = token, ca_client_pid = pid, ca_client_process_start_id = start_id\<rparr>
     \<and> cx_lifecycle (ss_contexts s' (sx_context c)) = lifecycle_as_u8 Cancelled)"
proof -
  let ?ms = "filter (\<lambda>(key, c). ends_with key ('':'' @ request_id) \<and> auth_matches token pid start_id (sx_auth c))
      (ss_cancellations s)"
  obtain k c where ms: "?ms = [(k, c)]" and np: "\<not> ss_cancellations_poisoned s"
    using assms by (auto simp: server_cancel_def Let_def split: if_splits list.splits prod.splits)
  then have "(k, c) \<in> set ?ms" by simp
  then have "(k, c) \<in> set (ss_cancellations s)" "ends_with k ('':'' @ request_id)"
    "auth_matches token pid start_id (sx_auth c)" by (simp_all only: set_filter) blast+
  moreover from this(3) have "sx_auth c = Some \<lparr>ca_token = token, ca_client_pid = pid, ca_client_process_start_id = start_id\<rparr>"
    by (auto simp: auth_matches_def split: option.splits)
  moreover have "ok" "cx_lifecycle (ss_contexts s' (sx_context c)) = lifecycle_as_u8 Cancelled"
    using assms ms np
    by (auto simp: server_cancel_def Let_def context_cancel_eq split: if_splits)
  ultimately show ?thesis by (auto simp: ends_with_suffix)
qed

section \<open>Witnesses\<close>

definition sample_config :: PerUserEmbeddingServerConfig where
  "sample_config =
     \<lparr>cf_executable = \<lparr>ex_pid = 7, ex_process_start_id = ''p'', ex_executable_sha256 = ''e'', ex_executable_version = ''1''\<rparr>,
      cf_budgets = \<lparr>bu_idle_timeout = 60000000000, bu_native_no_progress = 5, bu_watchdog_poll = 1\<rparr>,
      cf_protocol = \<lparr>pr_bootstrap_version = 1, pr_schema_version = 1, pr_protocol_sha256 = ''a'',
        pr_constant_set_sha256 = ''b'', pr_measurement_protocol_sha256 = ''c''\<rparr>\<rparr>"

definition sample_state :: PerUserEmbeddingServerState where
  "sample_state = server_start ''i'' 0
     \<lparr>au_endpoint_namespace_id = ''n'', au_lifetime_authority_id = ''l'', au_listener_id = ''s'', au_peer_verified = True\<rparr>
     sample_config"

definition sample_registration :: ServerRequestRegistration where
  "sample_registration =
     \<lparr>rg_connection_id = ''c'', rg_request_id = ''r'', rg_scope_id = ''p'', rg_request_class = Query,
      rg_phase = ''queued'', rg_context = 0, rg_admission = 0,
      rg_cancellation_auth = Some \<lparr>ca_token = ''t'', ca_client_pid = 9, ca_client_process_start_id = ''q''\<rparr>\<rparr>"

definition sample_admitted :: PerUserEmbeddingServerState where
  "sample_admitted = fst (try_admit_request Query 0 sample_state)"

definition sample_registered :: PerUserEmbeddingServerState where
  "sample_registered = fst (begin_request 1 sample_registration sample_admitted)"

lemmas sample_simps = sample_state_def server_start_def sample_admitted_def sample_registered_def
  sample_registration_def try_admit_request_def try_initialized_engine_def try_acquire_cases
  ServerRequestAdmission_default_def depths_default_def EMBEDDING_QUERY_QUEUE_CAPACITY_def
  begin_request_def request_key_def bump_event_def Let_def

lemma sample_admitted_step: "try_admit_request Query 0 sample_state = (sample_admitted, Inr 0)"
  by (simp add: sample_simps)

lemma sample_admitted_reached:
  "server_reaches (world_start sample_state)
     ((world_start sample_state)\<lparr>sw_state := sample_admitted, sw_permits := {0}\<rparr>)"
proof -
  have "server_step (world_start sample_state)
      ((world_start sample_state)\<lparr>sw_state := sample_admitted, sw_permits := insert 0 (sw_permits (world_start sample_state))\<rparr>)"
    by (rule admitted [where c = Query and retry_after_ms = 0]) (simp add: world_start_def sample_admitted_step)
  then show ?thesis by (simp add: server_reaches_def world_start_def)
qed

theorem server_account_exact_witness:
  "admission_snapshot (ss_request_admission sample_admitted) \<noteq> depths_default"
  using server_account_exact [OF sample_admitted_reached [unfolded sample_state_def]]
  by (simp add: world_start_def) (simp add: sample_simps)

lemma sample_start_reached: "server_reaches (world_start sample_state) (world_start sample_state)"
  by (simp add: server_reaches_def)

lemma sample_drains: "begin_draining_if_idle sample_state = (bump_event (sample_state\<lparr>ss_draining := True\<rparr>), True)"
  by (simp add: begin_draining_if_idle_def true_idle_def initialized_engine_def admission_snapshot_def sample_simps)

theorem draining_only_when_quiet_witness:
  "snd (begin_request 1 sample_registration (bump_event (sample_state\<lparr>ss_draining := True\<rparr>)))
     = Inl ''embedding_server_draining''"
  using draining_only_when_quiet [OF sample_start_reached [unfolded sample_state_def],
      where s' = "bump_event (sample_state\<lparr>ss_draining := True\<rparr>)" and now_ns = 1 and r = sample_registration]
  by (simp add: world_start_def sample_drains flip: sample_state_def)

theorem connections_bounded_witness:
  "ss_connections sample_admitted \<le> 144"
  using connections_bounded [OF sample_admitted_reached [unfolded sample_state_def]] by (simp add: world_start_def)

theorem failed_drain_stops_listener_witness:
  "listener_iteration (cf_budgets sample_config) 0 AcceptTimedOut False (begin_draining_mark sample_admitted)
     = (begin_draining_mark sample_admitted, None, LoopBreak)"
  using failed_drain_stops_listener [of sample_admitted]
  by (simp add: true_idle_def admission_snapshot_def sample_simps)

theorem watchdog_stall_sound_witness:
  "no_progress_since [(True, 3, 10)] 3 10"
  using watchdog_stall_sound [of True 3 20 5 "[(True, 3, 10)]" 0 "\<lparr>ws_sequence = 3, ws_last_progress_ns = 10\<rparr>"]
  by (simp add: watchdog_observe_def WatchdogClassProgress_new_def elapsed_since_def)

theorem watchdog_stall_detected_witness:
  "\<exists>st. snd (watchdog_observe True 3 20 5
     (watchdog_run 5 ([(False, 1, 4)] @ (True, 3, 10) # [(True, 3, 12)]) (WatchdogClassProgress_new 0))) = Some st"
  by (rule watchdog_stall_detected) simp_all

theorem cancel_touches_authenticated_only_witness:
  "snd (server_cancel ''r'' ''t'' 9 ''q'' sample_registered)
     \<and> cx_lifecycle (ss_contexts (fst (server_cancel ''r'' ''t'' 9 ''q'' sample_registered)) 0) = lifecycle_as_u8 Cancelled"
  using cancel_touches_authenticated_only [of "''r''" "''t''" 9 "''q''" sample_registered _ _ 0, OF surjective_pairing]
  by (simp add: server_cancel_def auth_matches_def context_cancel_eq context_new_def terminal_cell_def sample_simps ends_with_def)

end
