(* ===== verification/Handler_Monad.thy ===== *)
theory Handler_Monad
  imports Embedding_Exchange Server_Lifecycle
begin

text \<open>
  What a connection handler of the per-user embedding server runs in: its stream, the shared
  server, and what the guards it holds stand for. A handler's program is a function on this
  record; \<^verbatim>\<open>?\<close> is \<open>bind_h\<close> and the drop of a guard at the end of its scope \<open>finally_h\<close>.

  Everything a handler does not decide is an answer of \<open>handler_env\<close> at a moment, the handler's
  tick: the clock, the stream's probes, the engine's worker, fresh identifiers. Before each of
  its own accesses to the server the other threads may act (\<open>ev_others\<close>), on anything but what
  this handler holds. Loops poll at most \<open>ev_fuel\<close> times; a handler still in a loop then is
  \<open>Running\<close>, and has dropped nothing.
\<close>

section \<open>The engine's answers\<close>

datatype NativeDeviceClass = DeviceCpu | DeviceAccelerator | DeviceUnknown

record RuntimeBackendCapability =
  bc_backend :: string
  bc_adapter_name :: string
  bc_adapter_description :: string
  bc_device_class :: NativeDeviceClass
  bc_software_adapter :: bool

record EngineIdentity =
  ni_model_digest :: string
  ni_ggml_build_identity :: string
  ni_backend :: string
  ni_adapter_name :: string
  ni_adapter_description :: string
  ni_selected_device_class :: NativeDeviceClass
  ni_runtime_capabilities :: "RuntimeBackendCapability list"
  ni_embedded_model :: bool
  ni_materialized_path :: string
  ni_materialized_reused :: bool
  ni_initialization_duration :: nat
  ni_smoke_duration :: nat
  ni_adapter_memory_total :: nat
  ni_adapter_memory_free_before_load :: nat
  ni_adapter_memory_free_after_load :: nat
  ni_execution_device_names :: "string list"
  ni_execution_backend_names :: "string list"
  ni_execution_observation_source :: string
  ni_encode_count :: nat
  ni_execution_node_count :: nat
  ni_resident_accelerator_tensor_count :: nat
  ni_resident_accelerator_tensor_bytes :: nat
  ni_model_layer_count :: nat
  ni_offloaded_layer_count :: nat
  ni_accelerator_execution_verified :: bool

datatype EngineResidency = EngineResident | EngineSleeping

fun residency_as_str :: "EngineResidency \<Rightarrow> string" where
  "residency_as_str EngineResident = ''resident''"
| "residency_as_str EngineSleeping = ''sleeping''"

record EngineLifecycleSnapshot =
  ls_identity :: EngineIdentity
  ls_residency :: EngineResidency
  ls_load_generation :: nat
  ls_model_load_count :: nat
  ls_worker_alive :: bool
  ls_load_error :: "string option"

record EmbeddingRequestCompletion =
  rc_vectors :: "f32_bits list list"
  rc_completion_sequence :: nat

section \<open>Handlers\<close>

text \<open>The guards a handler holds.\<close>

record handler_holds =
  own_pre :: bool
  own_permit :: "permit option"
  own_guard :: "ServerRequestGuard option"
  own_lease :: bool

definition no_holds :: handler_holds where
  "no_holds = \<lparr>own_pre = False, own_permit = None, own_guard = None, own_lease = False\<rparr>"

record handler_env =
  ev_now :: "nat \<Rightarrow> nat"
  ev_others :: "nat \<Rightarrow> handler_holds \<Rightarrow> server_world \<Rightarrow> server_world"
  ev_timeout :: "nat \<Rightarrow> io_error option"
  ev_alive :: "nat \<Rightarrow> io_error + bool"
  ev_finish_delivery :: "nat \<Rightarrow> io_error option"
  ev_uuid :: "nat \<Rightarrow> string"
  ev_ref :: "nat \<Rightarrow> ctx_ref"
  ev_initialize :: "nat \<Rightarrow> EngineError + EmbeddingEngine"
  ev_lifecycle :: "nat \<Rightarrow> EngineError + EngineLifecycleSnapshot"
  ev_control :: "nat \<Rightarrow> EngineError + EngineLifecycleSnapshot"
  ev_recv :: "nat \<Rightarrow> EngineError + (EngineError + EmbeddingRequestCompletion) option"
  ev_record_event :: "nat \<Rightarrow> any_error + unit"
  ev_force_incompatible :: "nat \<Rightarrow> bool"
  ev_qualified :: bool
  ev_ser :: "EmbeddingProtocolResponse \<Rightarrow> string + bytes"
  ev_de :: "bytes \<Rightarrow> string + EmbeddingProtocolRequest"
  ev_digest :: "EmbeddingCompatibility \<Rightarrow> any_error + string"
  ev_parse_uuid :: "string \<Rightarrow> bool"
  ev_scale :: "f32_bits list \<Rightarrow> f32_bits option"
  ev_mul :: "f32_bits \<Rightarrow> f32_bits \<Rightarrow> f32_bits"
  ev_budgets :: EmbeddingClientBudgets
  ev_clock :: EmbeddingServerClockSnapshot
  ev_compatibility :: EmbeddingCompatibility
  ev_fuel :: nat

record handler_state =
  hn_world :: server_world
  hn_identity :: EmbeddingTransportIdentity
  hn_stream :: connection
  hn_events :: "read_event list"
  hn_read_timeout :: "nat option"
  hn_write_timeout :: "nat option"
  hn_tick :: nat
  hn_own :: handler_holds
  hn_sent :: "EmbeddingProtocolResponse list"

datatype 'a outcome = Returned 'a | Failed any_error | Running

type_synonym 'a handler_m = "handler_state \<Rightarrow> handler_state \<times> 'a outcome"

abbreviation hn_state :: "handler_state \<Rightarrow> PerUserEmbeddingServerState" where
  "hn_state h \<equiv> sw_state (hn_world h)"

definition ret :: "'a \<Rightarrow> 'a handler_m" where
  "ret x h = (h, Returned x)"

definition fail :: "any_error \<Rightarrow> 'a handler_m" where
  "fail e h = (h, Failed e)"

definition lift_h :: "any_error + 'a \<Rightarrow> 'a handler_m" where
  "lift_h r = (case r of Inl e \<Rightarrow> fail e | Inr x \<Rightarrow> ret x)"

definition bind_h :: "'a handler_m \<Rightarrow> ('a \<Rightarrow> 'b handler_m) \<Rightarrow> 'b handler_m" where
  "bind_h m f h =
     (case m h of (h1, Returned x) \<Rightarrow> f x h1 | (h1, Failed e) \<Rightarrow> (h1, Failed e) | (h1, Running) \<Rightarrow> (h1, Running))"

text \<open>The end of a scope: \<open>cleanup\<close> runs however the scope is left.\<close>

definition finally_h :: "'a handler_m \<Rightarrow> unit handler_m \<Rightarrow> 'a handler_m" where
  "finally_h m cleanup h =
     (case m h of (h1, Running) \<Rightarrow> (h1, Running) | (h1, r) \<Rightarrow> (fst (cleanup h1), r))"

section \<open>Primitive operations\<close>

definition others :: "handler_env \<Rightarrow> handler_state \<Rightarrow> handler_state" where
  "others ev h =
     h\<lparr>hn_world := ev_others ev (hn_tick h) (hn_own h) (hn_world h), hn_tick := hn_tick h + 1\<rparr>"

text \<open>An answer of the environment at this moment.\<close>

definition ask :: "handler_env \<Rightarrow> (nat \<Rightarrow> 'a) \<Rightarrow> 'a handler_m" where
  "ask ev answer h = (others ev h, Returned (answer (hn_tick h)))"

text \<open>One access to the shared server that takes and drops no guard.\<close>

definition access ::
  "handler_env \<Rightarrow> (PerUserEmbeddingServerState \<Rightarrow> PerUserEmbeddingServerState \<times> 'a) \<Rightarrow> 'a handler_m" where
  "access ev f h =
     (let h1 = others ev h
      in case f (hn_state h1) of (s, x) \<Rightarrow> (h1\<lparr>hn_world := (hn_world h1)\<lparr>sw_state := s\<rparr>\<rparr>, Returned x))"

definition observe_h :: "handler_env \<Rightarrow> (PerUserEmbeddingServerState \<Rightarrow> 'a) \<Rightarrow> 'a handler_m" where
  "observe_h ev f = access ev (\<lambda>s. (s, f s))"

subsection \<open>The stream\<close>

definition set_read_timeout :: "handler_env \<Rightarrow> string \<Rightarrow> nat \<Rightarrow> unit handler_m" where
  "set_read_timeout ev ctx timeout =
     bind_h (ask ev (ev_timeout ev)) (\<lambda>r h.
       case r of Some e \<Rightarrow> (h, Failed (io_context ctx e))
       | None \<Rightarrow> (h\<lparr>hn_read_timeout := Some timeout\<rparr>, Returned ()))"

definition set_write_timeout :: "handler_env \<Rightarrow> string \<Rightarrow> nat \<Rightarrow> unit handler_m" where
  "set_write_timeout ev ctx timeout =
     bind_h (ask ev (ev_timeout ev)) (\<lambda>r h.
       case r of Some e \<Rightarrow> (h, Failed (io_context ctx e))
       | None \<Rightarrow> (h\<lparr>hn_write_timeout := Some timeout\<rparr>, Returned ()))"

definition peer_is_alive :: "handler_env \<Rightarrow> string \<Rightarrow> bool handler_m" where
  "peer_is_alive ev ctx =
     bind_h (ask ev (ev_alive ev)) (\<lambda>r. case r of Inl e \<Rightarrow> fail (io_context ctx e) | Inr b \<Rightarrow> ret b)"

definition read_request :: "handler_env \<Rightarrow> (EmbeddingProtocolRequest \<times> bytes) handler_m" where
  "read_request ev h =
     (case read_frame (ev_de ev) (hn_stream h) of
        Inl e \<Rightarrow> (h, Failed e)
      | Inr (frame, c) \<Rightarrow> (h\<lparr>hn_stream := c\<rparr>, Returned frame))"

definition respond :: "handler_env \<Rightarrow> EmbeddingProtocolResponse \<Rightarrow> bytes \<Rightarrow> unit handler_m" where
  "respond ev response payload h =
     (case write_protocol_response (ev_ser ev) response payload (hn_stream h) of
        Inl e \<Rightarrow> (h, Failed e)
      | Inr c \<Rightarrow> (h\<lparr>hn_stream := c, hn_sent := hn_sent h @ [response]\<rparr>, Returned ()))"

definition poll_request ::
  "handler_env \<Rightarrow> IncrementalProtocolFrameReader \<Rightarrow>
     (EmbeddingProtocolRequest ProtocolFramePoll \<times> IncrementalProtocolFrameReader) handler_m" where
  "poll_request ev r h =
     (case frame_poll (ev_de ev) r (hn_events h) of
        (Inl e, _, evs) \<Rightarrow> (h\<lparr>hn_events := evs\<rparr>, Failed e)
      | (Inr p, r', evs) \<Rightarrow> (h\<lparr>hn_events := evs\<rparr>, Returned (p, r')))"

subsection \<open>Guards\<close>

definition begin_pre_request :: "handler_env \<Rightarrow> bool handler_m" where
  "begin_pre_request ev h =
     (let h1 = others ev h; w = hn_world h1
      in case try_begin_pre_request (sw_state w) of
           (s, True) \<Rightarrow>
             (h1\<lparr>hn_world := w\<lparr>sw_state := s, sw_pre_requests := sw_pre_requests w + 1\<rparr>,
                 hn_own := (hn_own h1)\<lparr>own_pre := True\<rparr>\<rparr>, Returned True)
         | (s, False) \<Rightarrow> (h1, Returned False))"

definition drop_pre_request :: "handler_env \<Rightarrow> unit handler_m" where
  "drop_pre_request ev h =
     (if own_pre (hn_own h) then
        let h1 = others ev h; w = hn_world h1
        in (h1\<lparr>hn_world := w\<lparr>sw_state := drop_pre_request_guard (sw_state w), sw_pre_requests := sw_pre_requests w - 1\<rparr>,
               hn_own := (hn_own h1)\<lparr>own_pre := False\<rparr>\<rparr>, Returned ())
      else (h, Returned ()))"

definition admit :: "handler_env \<Rightarrow> EmbeddingRequestClass \<Rightarrow> nat \<Rightarrow> (EmbeddingProtocolError + permit) handler_m" where
  "admit ev request_class retry_after_ms h =
     (let h1 = others ev h; w = hn_world h1
      in case try_admit_request request_class retry_after_ms (sw_state w) of
           (s, Inr p) \<Rightarrow>
             (h1\<lparr>hn_world := w\<lparr>sw_state := s, sw_permits := insert p (sw_permits w)\<rparr>,
                 hn_own := (hn_own h1)\<lparr>own_permit := Some p\<rparr>\<rparr>, Returned (Inr p))
         | (s, Inl e) \<Rightarrow> (h1\<lparr>hn_world := w\<lparr>sw_state := s\<rparr>\<rparr>, Returned (Inl e)))"

definition drop_permit :: "handler_env \<Rightarrow> unit handler_m" where
  "drop_permit ev h =
     (case own_permit (hn_own h) of
        None \<Rightarrow> (h, Returned ())
      | Some p \<Rightarrow>
          let h1 = others ev h; w = hn_world h1
          in (h1\<lparr>hn_world := w\<lparr>sw_state := release_permit p (sw_state w), sw_permits := sw_permits w - {p}\<rparr>,
                 hn_own := (hn_own h1)\<lparr>own_permit := None\<rparr>\<rparr>, Returned ()))"

text \<open>The registration takes the permit over, whether it succeeds or not.\<close>

definition register :: "handler_env \<Rightarrow> ServerRequestRegistration \<Rightarrow> (any_error + ServerRequestGuard) handler_m" where
  "register ev r h =
     (let h1 = others ev h; w = hn_world h1
      in case begin_request (ev_now ev (hn_tick h)) r (sw_state w) of
           (s, Inr g) \<Rightarrow>
             (h1\<lparr>hn_world := w\<lparr>sw_state := s, sw_permits := sw_permits w - {rg_admission r},
                    sw_guards := insert g (sw_guards w)\<rparr>,
                 hn_own := (hn_own h1)\<lparr>own_permit := None, own_guard := Some g\<rparr>\<rparr>, Returned (Inr g))
         | (s, Inl msg) \<Rightarrow>
             (h1\<lparr>hn_world := w\<lparr>sw_state := s, sw_permits := sw_permits w - {rg_admission r}\<rparr>,
                 hn_own := (hn_own h1)\<lparr>own_permit := None\<rparr>\<rparr>, Returned (Inl (bail msg))))"

definition drop_guard :: "handler_env \<Rightarrow> unit handler_m" where
  "drop_guard ev h =
     (case own_guard (hn_own h) of
        None \<Rightarrow> (h, Returned ())
      | Some g \<Rightarrow>
          let h1 = others ev h; w = hn_world h1
          in (h1\<lparr>hn_world := w\<lparr>sw_state := drop_request_guard (ev_now ev (hn_tick h)) g (sw_state w),
                    sw_guards := sw_guards w - {g}\<rparr>,
                 hn_own := (hn_own h1)\<lparr>own_guard := None\<rparr>\<rparr>, Returned ()))"

definition update_phase :: "handler_env \<Rightarrow> ServerRequestGuard \<Rightarrow> string \<Rightarrow> unit handler_m" where
  "update_phase ev g phase =
     (case gd_key g of None \<Rightarrow> ret ()
      | Some key \<Rightarrow> access ev (\<lambda>s. (update_request_phase key phase s, ())))"

subsection \<open>The engine\<close>

text \<open>
  A handler's clone of the engine shares its queues with the server's slot, which holds it until
  the server shuts down.
\<close>

definition shared_engine :: "EmbeddingEngine \<Rightarrow> PerUserEmbeddingServerState \<Rightarrow> EmbeddingEngine" where
  "shared_engine clone s = (case ss_engine s of Some e \<Rightarrow> e | None \<Rightarrow> clone)"

definition store_engine :: "engine_queues \<Rightarrow> PerUserEmbeddingServerState \<Rightarrow> PerUserEmbeddingServerState" where
  "store_engine q s = s\<lparr>ss_engine := map_option (\<lambda>e. e\<lparr>en_queues := q\<rparr>) (ss_engine s)\<rparr>"

definition open_engine :: "handler_env \<Rightarrow> (any_error + EmbeddingEngine) handler_m" where
  "open_engine ev =
     bind_h (ask ev (ev_initialize ev)) (\<lambda>i. access ev (server_engine i))"

definition engine_submit_h ::
  "handler_env \<Rightarrow> EmbeddingEngine \<Rightarrow> ctx_ref \<Rightarrow> string list \<Rightarrow> RequestPriority \<Rightarrow> (EngineError + bool) handler_m" where
  "engine_submit_h ev clone ref inputs p =
     access ev (\<lambda>s. case engine_submit (ss_contexts s) ref inputs p (en_queues (shared_engine clone s)) of
       (q, r) \<Rightarrow> (store_engine q s, r))"

text \<open>\<^verbatim>\<open>acquire_residency_lease\<close>: the worker's answer, then \<^verbatim>\<open>lease_acquired\<close> on the tracker.\<close>

definition acquire_residency_lease ::
  "handler_env \<Rightarrow> EmbeddingEngine \<Rightarrow> (EngineError + EngineLifecycleSnapshot) handler_m" where
  "acquire_residency_lease ev clone =
     bind_h (ask ev (ev_control ev)) (\<lambda>r.
       case r of
         Inl e \<Rightarrow> ret (Inl e)
       | Inr snapshot \<Rightarrow>
           bind_h (access ev (\<lambda>s.
             (let q = en_queues (shared_engine clone s)
              in (store_engine (q\<lparr>eq_tracker := tracker_lease_acquired (eq_tracker q)\<rparr>) s, ())))) (\<lambda>_ h.
             (h\<lparr>hn_own := (hn_own h)\<lparr>own_lease := True\<rparr>\<rparr>, Returned (Inr snapshot))))"

definition drop_lease :: "handler_env \<Rightarrow> unit handler_m" where
  "drop_lease ev h =
     (if own_lease (hn_own h) then
        let h1 = others ev h; w = hn_world h1
        in (h1\<lparr>hn_world := w\<lparr>sw_state := drop_lease_activity (ev_now ev (hn_tick h)) (sw_state w)\<rparr>,
               hn_own := (hn_own h1)\<lparr>own_lease := False\<rparr>\<rparr>, Returned ())
      else (h, Returned ()))"

definition new_context :: "handler_env \<Rightarrow> string \<Rightarrow> string \<Rightarrow> nat \<Rightarrow> ctx_ref handler_m" where
  "new_context ev request_id scope_id retry_after_ms =
     bind_h (ask ev (ev_ref ev)) (\<lambda>ref. access ev (\<lambda>s.
       (s\<lparr>ss_contexts := (ss_contexts s)(ref := context_new request_id scope_id retry_after_ms)\<rparr>, ref)))"

definition cancel_context :: "handler_env \<Rightarrow> ctx_ref \<Rightarrow> bool handler_m" where
  "cancel_context ev ref =
     access ev (\<lambda>s. case context_cancel (ss_contexts s ref) of
       (c, r) \<Rightarrow> (s\<lparr>ss_contexts := (ss_contexts s)(ref := c)\<rparr>, r))"

section \<open>A logic of holdings\<close>

text \<open>What a handler holds is really there: the shared server counts its guards.\<close>

definition holds_ok :: "handler_holds \<Rightarrow> server_world \<Rightarrow> bool" where
  "holds_ok own w \<longleftrightarrow>
     (own_pre own \<longrightarrow> 0 < sw_pre_requests w)
     \<and> (\<forall>p. own_permit own = Some p \<longrightarrow> p \<in> sw_permits w)
     \<and> (\<forall>g. own_guard own = Some g \<longrightarrow> g \<in> sw_guards w)"

text \<open>
  The contract of the threads beside a handler: between two of its accesses they take steps of
  the server, and they drop nothing it holds. \<open>runs own m Q\<close> says that \<open>m\<close>, started with the
  holdings \<open>own\<close>, only takes steps of the server and ends in holdings \<open>Q\<close> allows for its result.
\<close>

locale serving =
  fixes ev :: handler_env
  assumes others_reach: "holds_ok own w \<Longrightarrow> server_reaches w (ev_others ev k own w)"
    and others_keep: "holds_ok own w \<Longrightarrow> holds_ok own (ev_others ev k own w)"
begin

definition runs :: "handler_holds \<Rightarrow> 'a handler_m \<Rightarrow> ('a option \<Rightarrow> handler_holds \<Rightarrow> bool) \<Rightarrow> bool" where
  "runs own m Q \<longleftrightarrow>
     (\<forall>h. hn_own h = own \<longrightarrow> holds_ok own (hn_world h) \<longrightarrow>
        server_reaches (hn_world h) (hn_world (fst (m h)))
        \<and> holds_ok (hn_own (fst (m h))) (hn_world (fst (m h)))
        \<and> (case snd (m h) of Returned x \<Rightarrow> Q (Some x) (hn_own (fst (m h)))
           | Failed _ \<Rightarrow> Q None (hn_own (fst (m h))) | Running \<Rightarrow> True))"

definition keeps :: "handler_holds \<Rightarrow> 'a handler_m \<Rightarrow> bool" where
  "keeps own m \<longleftrightarrow> runs own m (\<lambda>_ own'. own' = own)"

lemma runsI:
  assumes "\<And>h h' r. hn_own h = own \<Longrightarrow> holds_ok own (hn_world h) \<Longrightarrow> m h = (h', r) \<Longrightarrow>
     server_reaches (hn_world h) (hn_world h') \<and> holds_ok (hn_own h') (hn_world h')
     \<and> (case r of Returned x \<Rightarrow> Q (Some x) (hn_own h') | Failed _ \<Rightarrow> Q None (hn_own h') | Running \<Rightarrow> True)"
  shows "runs own m Q"
  unfolding runs_def using assms by (metis prod.collapse)

lemma runsD:
  assumes "runs own m Q" and "m h = (h', r)" and "hn_own h = own" and "holds_ok own (hn_world h)"
  shows "server_reaches (hn_world h) (hn_world h')" "holds_ok (hn_own h') (hn_world h')"
    "r = Returned x \<Longrightarrow> Q (Some x) (hn_own h')" "r = Failed e \<Longrightarrow> Q None (hn_own h')"
  using assms unfolding runs_def by fastforce+

lemma server_reaches_trans: "server_reaches u v \<Longrightarrow> server_reaches v w \<Longrightarrow> server_reaches u w"
  unfolding server_reaches_def by (rule rtranclp_trans)

lemma server_reaches_step: "server_reaches u v \<Longrightarrow> server_step v w \<Longrightarrow> server_reaches u w"
  unfolding server_reaches_def by (rule rtranclp.rtrancl_into_rtrancl)

lemma runs_weaken: "runs own m Q \<Longrightarrow> (\<And>r own'. Q r own' \<Longrightarrow> R r own') \<Longrightarrow> runs own m R"
  unfolding runs_def by (auto split: outcome.splits)

lemma runs_bind:
  assumes m: "runs own m Q" and f: "\<And>x own'. Q (Some x) own' \<Longrightarrow> runs own' (f x) R"
    and none: "\<And>own'. Q None own' \<Longrightarrow> R None own'"
  shows "runs own (bind_h m f) R"
proof (rule runsI, goal_cases)
  case (1 h h' r)
  obtain h1 r1 where m1: "m h = (h1, r1)" by fastforce
  note m1D = runsD [OF m m1 1(1,2)]
  show ?case
  proof (cases r1)
    case (Returned x)
    with 1(3) m1 have "f x h1 = (h', r)" by (simp add: bind_h_def)
    from runsD [OF f [OF m1D(3) [OF Returned]] this refl m1D(2)] m1D(1) show ?thesis
      by (auto intro: server_reaches_trans split: outcome.split)
  next
    case (Failed e)
    with 1(3) m1 m1D none show ?thesis by (auto simp: bind_h_def)
  next
    case Running
    with 1(3) m1 m1D show ?thesis by (auto simp: bind_h_def)
  qed
qed

lemma runs_finally:
  assumes m: "runs own m Q" and c: "\<And>r own'. Q r own' \<Longrightarrow> runs own' c (\<lambda>_. R r)"
    and total: "\<And>h. snd (c h) \<noteq> Running"
  shows "runs own (finally_h m c) R"
proof (rule runsI, goal_cases)
  case (1 h h' r)
  obtain h1 r1 where m1: "m h = (h1, r1)" by fastforce
  obtain h2 r2 where c1: "c h1 = (h2, r2)" by fastforce
  note m1D = runsD [OF m m1 1(1,2)]
  have total: "r2 \<noteq> Running" using total [of h1] c1 by simp
  show ?case
  proof (cases r1)
    case (Returned x)
    note cD = runsD [OF c [OF m1D(3) [OF Returned]] c1 refl m1D(2)]
    show ?thesis using 1(3) m1 c1 Returned m1D(1) cD total
      by (cases r2) (auto simp: finally_h_def intro: server_reaches_trans)
  next
    case (Failed e)
    note cD = runsD [OF c [OF m1D(4) [OF Failed]] c1 refl m1D(2)]
    show ?thesis using 1(3) m1 c1 Failed m1D(1) cD total
      by (cases r2) (auto simp: finally_h_def intro: server_reaches_trans)
  next
    case Running
    with 1(3) m1 m1D show ?thesis by (auto simp: finally_h_def)
  qed
qed

lemma keeps_bind:
  assumes "keeps own m" and "\<And>x. keeps own (f x)"
  shows "keeps own (bind_h m f)"
  using assms unfolding keeps_def by (intro runs_bind) auto

lemma runs_of_keeps: "keeps own m \<Longrightarrow> (\<And>r. Q r own) \<Longrightarrow> runs own m Q"
  unfolding keeps_def by (erule runs_weaken) simp

text \<open>After an operation that keeps the holdings, the rest decides.\<close>

lemma runs_keeps_bind:
  assumes "keeps own m" and "\<And>x. runs own (f x) R" and "R None own"
  shows "runs own (bind_h m f) R"
  by (rule runs_bind [where Q = "\<lambda>_ own'. own' = own"]) (use assms in \<open>auto simp: keeps_def\<close>)

lemma keeps_ret: "keeps own (ret x)" and keeps_fail: "keeps own (fail e)"
  by (simp_all add: keeps_def runs_def ret_def fail_def server_reaches_def)

lemma keeps_lift: "keeps own (lift_h r)"
  by (cases r) (simp_all add: lift_h_def keeps_ret keeps_fail)

lemma keeps_running: "keeps own (\<lambda>h. (h, Running))"
  by (simp add: keeps_def runs_def server_reaches_def)

lemma keeps_ask: "keeps own (ask ev answer)"
  using others_reach others_keep by (simp add: keeps_def runs_def ask_def others_def)

lemma holds_ok_state [simp]: "holds_ok own (w\<lparr>sw_state := s\<rparr>) = holds_ok own w"
  by (simp add: holds_ok_def)

lemma keeps_access:
  assumes "\<And>w. server_reaches w (w\<lparr>sw_state := fst (f (sw_state w))\<rparr>)"
  shows "keeps own (access ev f)"
  using others_reach others_keep
  by (auto simp: keeps_def runs_def access_def others_def Let_def split_beta intro: server_reaches_trans [OF _ assms])

lemma keeps_observe: "keeps own (observe_h ev f)"
  unfolding observe_h_def by (rule keeps_access) (simp add: server_reaches_def)

lemma keeps_stream:
  assumes "\<And>h. hn_world (fst (m h)) = hn_world h" and "\<And>h. hn_own (fst (m h)) = hn_own h"
  shows "keeps own m"
  using assms by (simp add: keeps_def runs_def server_reaches_def split: outcome.split)

lemma keeps_reach: "server_step w (w\<lparr>sw_state := s\<rparr>) \<Longrightarrow> server_reaches w (w\<lparr>sw_state := s\<rparr>)"
  by (simp add: server_reaches_def)

lemma keeps_set_timeout:
  "keeps own (set_read_timeout ev ctx timeout)" "keeps own (set_write_timeout ev ctx timeout)"
  unfolding set_read_timeout_def set_write_timeout_def
  by (rule keeps_bind [OF keeps_ask], rule keeps_stream; simp split: option.split)+

lemma keeps_peer_is_alive: "keeps own (peer_is_alive ev ctx)"
  unfolding peer_is_alive_def
  by (rule keeps_bind [OF keeps_ask]) (simp add: keeps_ret keeps_fail split: sum.split)

lemma keeps_read_request: "keeps own (read_request ev)"
  by (rule keeps_stream) (auto simp: read_request_def split: sum.split prod.split)

lemma keeps_respond: "keeps own (respond ev response payload)"
  by (rule keeps_stream) (auto simp: respond_def split: sum.split)

lemma keeps_poll_request: "keeps own (poll_request ev reader)"
  by (rule keeps_stream) (auto simp: poll_request_def split: sum.split prod.split)

lemma keeps_update_phase: "keeps own (update_phase ev g phase)"
  unfolding update_phase_def
  by (auto intro!: keeps_ret keeps_access keeps_reach phase_updated split: option.split)

lemma keeps_open_engine: "keeps own (open_engine ev)"
  unfolding open_engine_def
  by (intro keeps_bind keeps_ask keeps_access keeps_reach engine_opened) (rule prod.collapse [symmetric])

lemma contexts_step: "server_step w (w\<lparr>sw_state := (sw_state w)\<lparr>ss_contexts := c\<rparr>\<rparr>)"
  using engine_moved [where w = w and contexts = c and engine = "ss_engine (sw_state w)"
      and held = "ss_engine_held (sw_state w)"] by simp

lemma queues_step: "server_step w (w\<lparr>sw_state := store_engine q (sw_state w)\<rparr>)"
  using engine_moved [where w = w and contexts = "ss_contexts (sw_state w)" and held = "ss_engine_held (sw_state w)"]
  by (simp add: store_engine_def)

lemma keeps_engine_submit: "keeps own (engine_submit_h ev clone ref inputs p)"
  unfolding engine_submit_h_def by (intro keeps_access) (simp add: keeps_reach queues_step split_beta)

lemma keeps_new_context: "keeps own (new_context ev request_id scope_id retry_after_ms)"
  unfolding new_context_def
  by (intro keeps_bind [OF keeps_ask] keeps_access) (simp add: keeps_reach contexts_step)

lemma keeps_cancel_context: "keeps own (cancel_context ev ref)"
  unfolding cancel_context_def by (intro keeps_access) (simp add: keeps_reach contexts_step split_beta)

lemma keeps_drain: "keeps own (access ev begin_draining_if_idle)"
  by (intro keeps_access keeps_reach drain_tried)

lemma keeps_cancel: "keeps own (access ev (server_cancel request_id token pid start_id))"
  by (intro keeps_access keeps_reach cancel_asked) (rule prod.collapse [symmetric])

text \<open>Taking and dropping a guard.\<close>

lemma runs_others:
  assumes m: "\<And>h. hn_own h = own \<Longrightarrow> m h = act (hn_tick h) (others ev h)"
    and act: "\<And>k h h' r. act k h = (h', r) \<Longrightarrow> hn_own h = own \<Longrightarrow> holds_ok own (hn_world h) \<Longrightarrow>
      (server_step (hn_world h) (hn_world h') \<or> hn_world h' = hn_world h) \<and> holds_ok (hn_own h') (hn_world h')
      \<and> (case r of Returned x \<Rightarrow> Q (Some x) (hn_own h') | Failed _ \<Rightarrow> Q None (hn_own h') | Running \<Rightarrow> True)"
  shows "runs own m Q"
proof (rule runsI, goal_cases)
  case (1 h h' r)
  have w: "server_reaches (hn_world h) (hn_world (others ev h))" "holds_ok own (hn_world (others ev h))"
    "hn_own (others ev h) = own"
    using 1(1,2) others_reach others_keep by (auto simp: others_def)
  from act [OF _ w(3,2)] 1(3) m [OF 1(1)] server_reaches_step [OF w(1)] w(1) show ?case by metis
qed

lemma runs_idle:
  assumes "\<And>h. hn_own h = own \<Longrightarrow> m h = (h, Returned x)" and "Q (Some x) own"
  shows "runs own m Q"
  using assms by (auto simp: runs_def server_reaches_def)

lemma runs_begin_pre_request:
  assumes "\<not> own_pre own"
  shows "runs own (begin_pre_request ev) (\<lambda>r own'. own' = own\<lparr>own_pre := (r = Some True)\<rparr>)"
proof (rule runs_others, unfold begin_pre_request_def Let_def, rule refl, goal_cases)
  case (1 k h h' r)
  then show ?case
    using assms pre_request_begun [of "hn_world h"] by (auto simp: holds_ok_def split: prod.splits bool.splits)
qed

lemma runs_drop_pre_request: "runs own (drop_pre_request ev) (\<lambda>r own'. own' = own\<lparr>own_pre := False\<rparr>)"
proof (cases "own_pre own")
  case True
  show ?thesis
  proof (rule runs_others, simp add: drop_pre_request_def True Let_def, goal_cases)
    case (1 k h h' r)
    then show ?case using True pre_request_ended [of "hn_world h"] by (auto simp: holds_ok_def others_def)
  qed
qed (rule runs_idle [where x = "()"]; simp add: drop_pre_request_def)

lemma runs_admit:
  assumes "own_permit own = None"
  shows "runs own (admit ev request_class retry_after_ms)
    (\<lambda>r own'. own' = own\<lparr>own_permit := (case r of Some (Inr p) \<Rightarrow> Some p | _ \<Rightarrow> None)\<rparr>)"
proof (rule runs_others, unfold admit_def Let_def, rule refl, goal_cases)
  case (1 k h h' r)
  then show ?case
    using assms admitted [of request_class retry_after_ms "hn_world h"] not_admitted [of request_class retry_after_ms "hn_world h"]
    by (auto simp: holds_ok_def split: prod.splits sum.splits)
qed

lemma runs_drop_permit: "runs own (drop_permit ev) (\<lambda>r own'. own' = own\<lparr>own_permit := None\<rparr>)"
proof (cases "own_permit own")
  case (Some p)
  show ?thesis
  proof (rule runs_others, simp add: drop_permit_def Some Let_def, goal_cases)
    case (1 k h h' r)
    then show ?case using Some permit_dropped [of p "hn_world h"] by (auto simp: holds_ok_def)
  qed
qed (rule runs_idle [where x = "()"]; simp add: drop_permit_def)

lemma runs_register:
  assumes "own_permit own = Some (rg_admission r)" and "own_guard own = None"
  shows "runs own (register ev r)
    (\<lambda>res own'. own' = own\<lparr>own_permit := None, own_guard := (case res of Some (Inr g) \<Rightarrow> Some g | _ \<Rightarrow> None)\<rparr>)"
proof (rule runs_others, unfold register_def Let_def, rule refl, goal_cases)
  case (1 k h h' res)
  then show ?case
    using assms registered [of r "hn_world h" "ev_now ev k"] not_registered [of r "hn_world h" "ev_now ev k"]
    by (auto simp: holds_ok_def split: prod.splits sum.splits)
qed

lemma runs_drop_guard: "runs own (drop_guard ev) (\<lambda>r own'. own' = own\<lparr>own_guard := None\<rparr>)"
proof (cases "own_guard own")
  case (Some g)
  show ?thesis
  proof (rule runs_others, simp add: drop_guard_def Some Let_def, goal_cases)
    case (1 k h h' r)
    then show ?case using Some guard_dropped [of g "hn_world h" "ev_now ev k"] by (auto simp: holds_ok_def)
  qed
qed (rule runs_idle [where x = "()"]; simp add: drop_guard_def)

lemma runs_acquire_lease:
  assumes "\<not> own_lease own"
  shows "runs own (acquire_residency_lease ev clone)
    (\<lambda>r own'. own' = own\<lparr>own_lease := (case r of Some (Inr _) \<Rightarrow> True | _ \<Rightarrow> False)\<rparr>)"
  unfolding acquire_residency_lease_def
proof (rule runs_keeps_bind [OF keeps_ask], goal_cases)
  case (1 r)
  have acc: "keeps own (access ev (\<lambda>s. let q = en_queues (shared_engine clone s)
      in (store_engine (q\<lparr>eq_tracker := tracker_lease_acquired (eq_tracker q)\<rparr>) s, ())))"
    by (intro keeps_access) (simp add: keeps_reach queues_step Let_def)
  show ?case
  proof (cases r)
    case (Inl e)
    with assms show ?thesis by (auto simp: ret_def intro!: runs_idle [where x = "Inl e"])
  next
    case (Inr snapshot)
    show ?thesis unfolding Inr sum.case
      by (rule runs_keeps_bind [OF acc]) (use assms in \<open>auto simp: runs_def server_reaches_def holds_ok_def\<close>)
  qed
qed (use assms in simp)

lemma runs_drop_lease: "runs own (drop_lease ev) (\<lambda>r own'. own' = own\<lparr>own_lease := False\<rparr>)"
proof (cases "own_lease own")
  case True
  show ?thesis
  proof (rule runs_others, simp add: drop_lease_def True Let_def, goal_cases)
    case (1 k h h' r)
    then show ?case using lease_dropped [of "hn_world h" "ev_now ev k"] by (auto simp: holds_ok_def)
  qed
qed (rule runs_idle [where x = "()"]; simp add: drop_lease_def)

end

lemma cleanup_returns [simp]:
  "snd (drop_pre_request ev h) = Returned ()" "snd (drop_permit ev h) = Returned ()"
  "snd (drop_guard ev h) = Returned ()" "snd (drop_lease ev h) = Returned ()"
  by (simp_all add: drop_pre_request_def drop_permit_def drop_guard_def drop_lease_def Let_def split: option.split)

text \<open>A handler served with no other thread beside it.\<close>

definition alone :: "handler_env \<Rightarrow> handler_env" where
  "alone ev = ev\<lparr>ev_others := \<lambda>_ _ w. w\<rparr>"

interpretation alone: serving "alone ev" for ev
  by unfold_locales (simp_all add: alone_def server_reaches_def)

end
