(* ===== verification/Connection_Handlers.thy ===== *)
theory Connection_Handlers
  imports Handler_Monad
begin

text \<open>
  The connection handlers of the per-user embedding server: the authenticated handshake and
  dispatch (\<^verbatim>\<open>server/connection.rs\<close>), embedding requests and residency leases
  (\<^verbatim>\<open>server/operation.rs\<close>), and the writers of \<^verbatim>\<open>server/response.rs\<close>. A scope that
  owns a guard is a \<open>finally_h\<close>, in the order the values are declared.
\<close>

section \<open>Responses\<close>

definition engine_identity :: "string \<Rightarrow> EngineLifecycleSnapshot \<Rightarrow> any_error + EmbeddingEngineIdentity" where
  "engine_identity server_instance_id snapshot =
     (let i = ls_identity snapshot;
          identity = (\<lambda>policy.
            \<lparr>ei_server_instance_id = server_instance_id, ei_load_generation = ls_load_generation snapshot,
             ei_model_load_count = ls_model_load_count snapshot, ei_residency = residency_as_str (ls_residency snapshot),
             ei_worker_alive = ls_worker_alive snapshot, ei_load_error = ls_load_error snapshot,
             ei_model_digest = ni_model_digest i, ei_ggml_build_identity = ni_ggml_build_identity i,
             ei_backend = ni_backend i, ei_adapter_name = ni_adapter_name i,
             ei_adapter_description = ni_adapter_description i, ei_policy = policy,
             ei_embedded_model = ni_embedded_model i, ei_materialized_model_sha256 = ni_model_digest i,
             ei_materialized_reused = ni_materialized_reused i,
             ei_initialization_ms = duration_ms (ni_initialization_duration i),
             ei_smoke_ms = duration_ms (ni_smoke_duration i),
             ei_adapter_memory_total = ni_adapter_memory_total i,
             ei_adapter_memory_used_by_load =
               sat_sub (ni_adapter_memory_free_before_load i) (ni_adapter_memory_free_after_load i),
             ei_execution_device_names = ni_execution_device_names i,
             ei_execution_backend_names = ni_execution_backend_names i,
             ei_execution_observation_source = ni_execution_observation_source i,
             ei_encode_count = ni_encode_count i, ei_execution_node_count = ni_execution_node_count i,
             ei_resident_accelerator_tensor_count = ni_resident_accelerator_tensor_count i,
             ei_resident_accelerator_tensor_bytes = ni_resident_accelerator_tensor_bytes i,
             ei_model_layer_count = ni_model_layer_count i, ei_offloaded_layer_count = ni_offloaded_layer_count i,
             ei_accelerator_execution_verified = ni_accelerator_execution_verified i\<rparr>)
      in case ni_selected_device_class i of
           DeviceCpu \<Rightarrow> Inr (identity ''cpu_explicit'')
         | DeviceAccelerator \<Rightarrow> Inr (identity ''accelerated'')
         | DeviceUnknown \<Rightarrow> Inl (bail ''embedding_backend_device_class_unknown''))"

definition configure_server_operation_timeout :: "handler_env \<Rightarrow> nat \<Rightarrow> unit handler_m" where
  "configure_server_operation_timeout ev deadline_ms =
     (let wire_timeout = deadline_ms * 1000000
      in if wire_timeout = 0 then fail (bail ''embedding_server_deadline_invalid'')
         else
           let timeout = min wire_timeout (cb_query_request (ev_budgets ev))
           in bind_h (set_read_timeout ev ''bound embedding server request read'' timeout) (\<lambda>_.
                set_write_timeout ev ''bound embedding server response write'' timeout))"

definition write_failure :: "handler_env \<Rightarrow> string \<Rightarrow> EmbeddingProtocolError \<Rightarrow> unit handler_m" where
  "write_failure ev request_id e = respond ev (failure_response request_id e) []"

definition write_success :: "handler_env \<Rightarrow> string \<Rightarrow> EmbeddingResult \<Rightarrow> unit handler_m" where
  "write_success ev request_id result = respond ev (success_response request_id result) []"

definition write_deadline_invalid :: "handler_env \<Rightarrow> string \<Rightarrow> unit handler_m" where
  "write_deadline_invalid ev request_id = respond ev (deadline_invalid_response request_id) []"

definition write_deadline_exceeded ::
  "handler_env \<Rightarrow> string \<Rightarrow> nat \<Rightarrow> EmbeddingRequestClass \<Rightarrow> EmbeddingEngine option \<Rightarrow> unit handler_m" where
  "write_deadline_exceeded ev request_id retry_after_ms request_class engine =
     bind_h (observe_h ev (\<lambda>s. map_option (\<lambda>c. engine_snapshot_of s (shared_engine c s)) engine)) (\<lambda>admission.
       respond ev (deadline_exceeded_response request_id retry_after_ms request_class admission) [])"

definition write_engine_failure :: "handler_env \<Rightarrow> string \<Rightarrow> EngineError \<Rightarrow> unit handler_m" where
  "write_engine_failure ev request_id e = respond ev (engine_failure_response request_id e) []"

definition write_anyhow_failure :: "handler_env \<Rightarrow> string \<Rightarrow> any_error \<Rightarrow> unit handler_m" where
  "write_anyhow_failure ev request_id err = respond ev (anyhow_failure_response request_id err) []"

definition snapshot_h :: "handler_env \<Rightarrow> EmbeddingServerSnapshot handler_m" where
  "snapshot_h ev = bind_h (ask ev (ev_now ev)) (\<lambda>now. observe_h ev (server_snapshot (ev_clock ev) now))"

definition instance_id_h :: "handler_env \<Rightarrow> string handler_m" where
  "instance_id_h ev = observe_h ev (\<lambda>s. pc_server_instance_id (ss_process s))"

section \<open>Embedding requests\<close>

record ServerEmbeddingRequest =
  sq_request_id :: string
  sq_scope_id :: string
  sq_request_class :: EmbeddingRequestClass
  sq_deadline_ms :: nat
  sq_retry_after_ms :: nat
  sq_cancel_token :: "string option"
  sq_client_pid :: nat
  sq_client_process_start_id :: string
  sq_inputs :: "string list"

record ServerRequestDeadline =
  dl_started_ns :: nat
  dl_timeout :: nat

definition deadline_start :: "handler_env \<Rightarrow> nat \<Rightarrow> ServerRequestDeadline handler_m" where
  "deadline_start ev deadline_ms =
     bind_h (ask ev (ev_now ev)) (\<lambda>now. ret \<lparr>dl_started_ns = now, dl_timeout = deadline_ms * 1000000\<rparr>)"

definition cancel_if_elapsed :: "handler_env \<Rightarrow> ServerRequestDeadline \<Rightarrow> ctx_ref \<Rightarrow> bool handler_m" where
  "cancel_if_elapsed ev d ref =
     bind_h (ask ev (ev_now ev)) (\<lambda>now.
       if elapsed_since now (dl_started_ns d) < dl_timeout d then ret False
       else bind_h (cancel_context ev ref) (\<lambda>_. ret True))"

definition cancel_if_peer_dead :: "handler_env \<Rightarrow> ctx_ref \<Rightarrow> bool handler_m" where
  "cancel_if_peer_dead ev ref =
     bind_h (peer_is_alive ev ''probe embedding client liveness'') (\<lambda>alive.
       if alive then ret False else bind_h (cancel_context ev ref) (\<lambda>_. ret True))"

text \<open>
  The qualification event of a completed request; the event file itself is the environment's.
\<close>

definition record_qualification_completed_tokens :: "handler_env \<Rightarrow> nat \<Rightarrow> nat \<Rightarrow> unit handler_m" where
  "record_qualification_completed_tokens ev completed_tokens native_completion_sequence =
     (if \<not> ev_qualified ev then ret ()
      else if completed_tokens = 0 then fail (bail ''embedding_qualification_completed_token_count_missing'')
      else if native_completion_sequence = 0
      then fail (bail ''embedding_qualification_native_completion_sequence_missing'')
      else bind_h (ask ev (ev_record_event ev)) lift_h)"

text \<open>The IEEE arithmetic of the norm and of the scaling is \<open>ev_scale\<close> and \<open>ev_mul\<close>.\<close>

definition f32_is_finite :: "f32_bits \<Rightarrow> bool" where
  "f32_is_finite x \<longleftrightarrow> take_bit 8 (drop_bit 23 x) \<noteq> mask 8"

definition normalize_and_validate_vector :: "handler_env \<Rightarrow> f32_bits list \<Rightarrow> any_error + f32_bits list" where
  "normalize_and_validate_vector ev v =
     (if length v \<noteq> RETRIEVAL_EMBEDDING_DIM
      then Inl (bail (''embedding_vector_dimension_mismatch: expected='' @ show_nat RETRIEVAL_EMBEDDING_DIM
             @ '' observed='' @ show_nat (length v)))
      else if list_ex (\<lambda>x. \<not> f32_is_finite x) v
      then Inl (bail ''embedding_vector_non_finite: native engine returned a non-finite value'')
      else case ev_scale ev v of
             None \<Rightarrow> Inl (bail ''embedding_vector_zero_norm: native engine returned an unusable vector'')
           | Some scale \<Rightarrow> Inr (map (\<lambda>x. ev_mul ev x scale) v))"

fun normalize_and_validate_vectors :: "handler_env \<Rightarrow> f32_bits list list \<Rightarrow> any_error + f32_bits list list" where
  "normalize_and_validate_vectors ev [] = Inr []"
| "normalize_and_validate_vectors ev (v # vs) =
     (case normalize_and_validate_vector ev v of
        Inl e \<Rightarrow> Inl e
      | Inr u \<Rightarrow> (case normalize_and_validate_vectors ev vs of Inl e \<Rightarrow> Inl e | Inr us \<Rightarrow> Inr (u # us)))"

definition deliver_vectors ::
  "handler_env \<Rightarrow> ServerEmbeddingRequest \<Rightarrow> ServerRequestDeadline \<Rightarrow> ctx_ref \<Rightarrow> ServerRequestGuard \<Rightarrow> EmbeddingEngine \<Rightarrow>
     EmbeddingRequestCompletion \<Rightarrow> unit handler_m" where
  "deliver_vectors ev q d ref g engine completion =
     bind_h (lift_h (normalize_and_validate_vectors ev (rc_vectors completion))) (\<lambda>vectors.
     bind_h (lift_h (encode_vectors vectors)) (\<lambda>payload.
     bind_h (ask ev (ev_lifecycle ev)) (\<lambda>snapshot.
     bind_h (lift_h (case snapshot of Inl e \<Rightarrow> Inl (engine_error e) | Inr sn \<Rightarrow> Inr sn)) (\<lambda>sn.
     bind_h (instance_id_h ev) (\<lambda>instance_id.
     bind_h (lift_h (engine_identity instance_id sn)) (\<lambda>identity.
     bind_h (cancel_if_elapsed ev d ref) (\<lambda>elapsed.
       if elapsed then
         bind_h (cancel_context ev ref) (\<lambda>_.
           write_deadline_exceeded ev (sq_request_id q) (sq_retry_after_ms q) (sq_request_class q) (Some engine))
       else
         bind_h (observe_h ev (\<lambda>s. cx_completed_tokens (ss_contexts s ref))) (\<lambda>tokens.
         bind_h (record_qualification_completed_tokens ev tokens (rc_completion_sequence completion)) (\<lambda>_.
         bind_h (update_phase ev g ''response'') (\<lambda>_.
           respond ev (success_response (sq_request_id q)
             (ResVectors (length vectors mod 2 ^ 32) RETRIEVAL_EMBEDDING_DIM ''f32_le'' identity)) payload))))))))))"

fun request_loop ::
  "nat \<Rightarrow> handler_env \<Rightarrow> ServerEmbeddingRequest \<Rightarrow> ServerRequestDeadline \<Rightarrow> ctx_ref \<Rightarrow> ServerRequestGuard \<Rightarrow>
     EmbeddingEngine \<Rightarrow> unit handler_m" where
  "request_loop 0 ev q d ref g engine = (\<lambda>h. (h, Running))"
| "request_loop (Suc n) ev q d ref g engine =
     bind_h (observe_h ev (\<lambda>s. context_phase (ss_contexts s ref))) (\<lambda>phase.
     bind_h (update_phase ev g phase) (\<lambda>_.
     bind_h (cancel_if_elapsed ev d ref) (\<lambda>elapsed.
       if elapsed then
         bind_h (cancel_context ev ref) (\<lambda>_.
           write_deadline_exceeded ev (sq_request_id q) (sq_retry_after_ms q) (sq_request_class q) (Some engine))
       else
         bind_h (cancel_if_peer_dead ev ref) (\<lambda>dead.
           if dead then bind_h (cancel_context ev ref) (\<lambda>_. ret ())
           else
             bind_h (ask ev (ev_recv ev)) (\<lambda>r.
               case r of
                 Inl e \<Rightarrow> write_engine_failure ev (sq_request_id q) e
               | Inr (Some (Inl e)) \<Rightarrow> write_engine_failure ev (sq_request_id q) e
               | Inr (Some (Inr completion)) \<Rightarrow> deliver_vectors ev q d ref g engine completion
               | Inr None \<Rightarrow>
                   bind_h (ask ev (\<lambda>_. ())) (\<lambda>_. request_loop n ev q d ref g engine))))))"

definition run_embedding_request ::
  "handler_env \<Rightarrow> ServerEmbeddingRequest \<Rightarrow> ServerRequestDeadline \<Rightarrow> ctx_ref \<Rightarrow> ServerRequestGuard \<Rightarrow> unit handler_m" where
  "run_embedding_request ev q d ref g =
     bind_h (open_engine ev) (\<lambda>engine.
     bind_h (cancel_if_elapsed ev d ref) (\<lambda>elapsed.
       if elapsed then
         write_deadline_exceeded ev (sq_request_id q) (sq_retry_after_ms q) (sq_request_class q)
           (case engine of Inl _ \<Rightarrow> None | Inr e \<Rightarrow> Some e)
       else case engine of
         Inl err \<Rightarrow> write_anyhow_failure ev (sq_request_id q) err
       | Inr e \<Rightarrow>
           bind_h (observe_h ev (\<lambda>s. context_is_cancelled (ss_contexts s ref))) (\<lambda>cancelled.
           bind_h (if cancelled then ret True else cancel_if_peer_dead ev ref) (\<lambda>stop.
             if stop then ret ()
             else
               bind_h (case sq_request_class q of
                         Query \<Rightarrow> engine_submit_h ev e ref [sq_inputs q ! 0] PriorityQuery
                       | Bulk \<Rightarrow> engine_submit_h ev e ref (sq_inputs q) PriorityBulk) (\<lambda>handle.
                 case handle of
                   Inl err \<Rightarrow> write_engine_failure ev (sq_request_id q) err
                 | Inr _ \<Rightarrow> request_loop (ev_fuel ev) ev q d ref g e)))))"

definition request_cancellation_auth ::
  "handler_env \<Rightarrow> ServerEmbeddingRequest \<Rightarrow> ServerCancellationAuth option option" where
  "request_cancellation_auth ev q =
     (case sq_cancel_token q of
        None \<Rightarrow> Some None
      | Some token \<Rightarrow>
          if ev_parse_uuid ev token
          then Some (Some \<lparr>ca_token = token, ca_client_pid = sq_client_pid q,
                 ca_client_process_start_id = sq_client_process_start_id q\<rparr>)
          else None)"

definition registered_embedding_request ::
  "handler_env \<Rightarrow> string \<Rightarrow> ServerEmbeddingRequest \<Rightarrow> ServerRequestDeadline \<Rightarrow> ctx_ref \<Rightarrow>
     ServerCancellationAuth option \<Rightarrow> permit \<Rightarrow> unit handler_m" where
  "registered_embedding_request ev connection_id q d ref auth p =
     finally_h
       (bind_h (register ev
          \<lparr>rg_connection_id = connection_id, rg_request_id = sq_request_id q, rg_scope_id = sq_scope_id q,
           rg_request_class = sq_request_class q, rg_phase = ''queued'', rg_context = ref, rg_admission = p,
           rg_cancellation_auth = auth\<rparr>) (\<lambda>guard.
        bind_h (cancel_if_elapsed ev d ref) (\<lambda>elapsed.
          if elapsed then
            write_deadline_exceeded ev (sq_request_id q) (sq_retry_after_ms q) (sq_request_class q) None
          else bind_h (lift_h guard) (run_embedding_request ev q d ref))))
       (drop_guard ev)"

definition admitted_embedding_request ::
  "handler_env \<Rightarrow> string \<Rightarrow> ServerEmbeddingRequest \<Rightarrow> ServerRequestDeadline \<Rightarrow> ctx_ref \<Rightarrow>
     ServerCancellationAuth option \<Rightarrow> unit handler_m" where
  "admitted_embedding_request ev connection_id q d ref auth =
     finally_h
       (bind_h (admit ev (sq_request_class q) (sq_retry_after_ms q)) (\<lambda>admission.
        bind_h (cancel_if_elapsed ev d ref) (\<lambda>elapsed.
          if elapsed then
            write_deadline_exceeded ev (sq_request_id q) (sq_retry_after_ms q) (sq_request_class q) None
          else case admission of
            Inl e \<Rightarrow> write_failure ev (sq_request_id q) e
          | Inr p \<Rightarrow> registered_embedding_request ev connection_id q d ref auth p)))
       (drop_permit ev)"

definition serve_embedding_request :: "handler_env \<Rightarrow> string \<Rightarrow> ServerEmbeddingRequest \<Rightarrow> unit handler_m" where
  "serve_embedding_request ev connection_id q =
     (if sq_deadline_ms q = 0 then write_deadline_invalid ev (sq_request_id q)
      else
        bind_h (deadline_start ev (sq_deadline_ms q)) (\<lambda>d.
        bind_h (new_context ev (sq_request_id q) (sq_scope_id q) (sq_retry_after_ms q)) (\<lambda>ref.
          case request_cancellation_auth ev q of
            None \<Rightarrow>
              write_failure ev (sq_request_id q)
                (protocol_error ''embedding_server_cancel_token_invalid''
                   ''embedding cancellation requires an unguessable token'')
          | Some auth \<Rightarrow>
              bind_h (configure_server_operation_timeout ev (sq_deadline_ms q)) (\<lambda>_.
                admitted_embedding_request ev connection_id q d ref auth))))"

section \<open>Residency leases\<close>

definition CONNECTION_POLL :: nat where
  "CONNECTION_POLL = 25 * 1000000"

record ServerLeaseRequest =
  lr_request :: EmbeddingProtocolRequest
  lr_scope_id :: string
  lr_deadline_ms :: nat
  lr_retry_after_ms :: nat
  lr_compatibility :: EmbeddingCompatibility

text \<open>A scope whose value is kept: only a scope left without it runs its cleanup.\<close>

definition unless_kept :: "'a option handler_m \<Rightarrow> unit handler_m \<Rightarrow> 'a option handler_m" where
  "unless_kept m cleanup h =
     (case m h of (h1, Running) \<Rightarrow> (h1, Running)
      | (h1, Returned (Some x)) \<Rightarrow> (h1, Returned (Some x))
      | (h1, r) \<Rightarrow> (fst (cleanup h1), r))"

definition then_none :: "unit handler_m \<Rightarrow> 'a option handler_m" where
  "then_none m = bind_h m (\<lambda>_. ret None)"

definition grant_lease ::
  "handler_env \<Rightarrow> ServerLeaseRequest \<Rightarrow> nat \<Rightarrow> ServerRequestGuard \<Rightarrow> EmbeddingEngine \<Rightarrow> EngineLifecycleSnapshot \<Rightarrow>
     EmbeddingEngineLeaseIdentity option handler_m" where
  "grant_lease ev lr started_ns g engine snapshot =
     bind_h (ask ev (ev_now ev)) (\<lambda>now.
       if lr_deadline_ms lr * 1000000 \<le> elapsed_since now started_ns then
         bind_h (drop_lease ev) (\<lambda>_. then_none
           (write_deadline_exceeded ev (rq_request_id (lr_request lr)) (lr_retry_after_ms lr) Bulk (Some engine)))
       else
         bind_h (peer_is_alive ev ''probe lease client liveness'') (\<lambda>alive.
           if \<not> alive then bind_h (drop_lease ev) (\<lambda>_. ret None)
           else
             bind_h (update_phase ev g ''response'') (\<lambda>_.
             bind_h (instance_id_h ev) (\<lambda>instance_id.
             bind_h (lift_h (engine_identity instance_id snapshot)) (\<lambda>identity.
             bind_h (ask ev (ev_uuid ev)) (\<lambda>token.
             bind_h (lift_h (ev_digest ev (lr_compatibility lr))) (\<lambda>digest.
               let lease = \<lparr>le_lease_token = token, le_server_instance_id = instance_id,
                            le_load_generation = ei_load_generation identity, le_compatibility_sha256 = digest\<rparr>
               in bind_h (write_success ev (rq_request_id (lr_request lr)) (ResLease lease identity)) (\<lambda>_.
                    ret (Some lease)))))))))"

definition open_lease ::
  "handler_env \<Rightarrow> ServerLeaseRequest \<Rightarrow> nat \<Rightarrow> ServerRequestGuard \<Rightarrow> EmbeddingEngineLeaseIdentity option handler_m" where
  "open_lease ev lr started_ns g =
     bind_h (open_engine ev) (\<lambda>engine.
       case engine of
         Inl err \<Rightarrow> then_none (write_anyhow_failure ev (rq_request_id (lr_request lr)) err)
       | Inr e \<Rightarrow>
           bind_h (acquire_residency_lease ev e) (\<lambda>lease.
             case lease of
               Inl err \<Rightarrow> then_none (write_engine_failure ev (rq_request_id (lr_request lr)) err)
             | Inr snapshot \<Rightarrow> unless_kept (grant_lease ev lr started_ns g e snapshot) (drop_lease ev)))"

definition lease_snapshot ::
  "handler_env \<Rightarrow> EmbeddingEngineLeaseIdentity \<Rightarrow> EmbeddingProtocolRequest \<Rightarrow> bool handler_m" where
  "lease_snapshot ev lease next =
     bind_h (ask ev (ev_lifecycle ev)) (\<lambda>snapshot.
     bind_h (lift_h (case snapshot of Inl e \<Rightarrow> Inl (engine_error e) | Inr sn \<Rightarrow> Inr sn)) (\<lambda>current.
     bind_h (instance_id_h ev) (\<lambda>instance_id.
     bind_h (lift_h (engine_identity instance_id current)) (\<lambda>identity.
       if ei_server_instance_id identity \<noteq> le_server_instance_id lease
          \<or> ei_load_generation identity \<noteq> le_load_generation lease
       then
         bind_h (write_failure ev (rq_request_id next)
           (protocol_error ''embedding_publication_lease_changed''
              ''embedding lease load identity changed before publication'')) (\<lambda>_. ret False)
       else
         bind_h (snapshot_h ev) (\<lambda>server.
         bind_h (write_success ev (rq_request_id next) (ResSnapshot server (Some lease) (Some identity))) (\<lambda>_.
           ret True))))))"

text \<open>What the server does with the next frame of a lease connection; \<open>True\<close> keeps the loop going.\<close>

definition lease_request ::
  "handler_env \<Rightarrow> EmbeddingCompatibility \<Rightarrow> EmbeddingEngineLeaseIdentity \<Rightarrow> EmbeddingProtocolRequest \<Rightarrow> bytes \<Rightarrow> bool handler_m" where
  "lease_request ev compatibility lease next payload =
     (if payload \<noteq> [] then ret False
      else
        bind_h (lift_h (validate_protocol_request next)) (\<lambda>_.
          if rq_compatibility next \<noteq> compatibility then ret False
          else
            let invalid = bind_h (write_failure ev (rq_request_id next)
                  (protocol_error ''embedding_publication_lease_operation_invalid''
                     ''only snapshot or release is valid on a lease connection'')) (\<lambda>_. ret False)
            in case rq_operation next of
                 OpSnapshot \<Rightarrow> lease_snapshot ev lease next
               | OpReleaseLease token \<Rightarrow>
                   if token = le_lease_token lease then
                     bind_h (drop_lease ev) (\<lambda>_.
                     bind_h (write_success ev (rq_request_id next) ResReleased) (\<lambda>_. ret False))
                   else invalid
               | _ \<Rightarrow> invalid))"

fun lease_loop ::
  "nat \<Rightarrow> handler_env \<Rightarrow> EmbeddingCompatibility \<Rightarrow> EmbeddingEngineLeaseIdentity \<Rightarrow> IncrementalProtocolFrameReader \<Rightarrow>
     unit handler_m" where
  "lease_loop 0 ev compatibility lease reader = (\<lambda>h. (h, Running))"
| "lease_loop (Suc n) ev compatibility lease reader =
     bind_h (poll_request ev reader) (\<lambda>(poll, reader').
       case poll of
         PollPending \<Rightarrow>
           bind_h (peer_is_alive ev ''probe held lease client liveness'') (\<lambda>alive.
             if alive then lease_loop n ev compatibility lease reader' else ret ())
       | PollClosed \<Rightarrow> ret ()
       | PollReady next payload \<Rightarrow>
           bind_h (lease_request ev compatibility lease next payload) (\<lambda>continue.
             if continue then lease_loop n ev compatibility lease reader' else ret ()))"

definition hold_lease ::
  "handler_env \<Rightarrow> EmbeddingCompatibility \<Rightarrow> EmbeddingEngineLeaseIdentity \<Rightarrow> unit handler_m" where
  "hold_lease ev compatibility lease =
     bind_h (set_read_timeout ev ''bound held embedding lease liveness poll'' CONNECTION_POLL) (\<lambda>_.
     bind_h (set_write_timeout ev ''bound held embedding lease response'' (cb_connect (ev_budgets ev))) (\<lambda>_.
       lease_loop (ev_fuel ev) ev compatibility lease \<lparr>fr_bytes = []\<rparr>))"

definition serve_lease_connection :: "handler_env \<Rightarrow> string \<Rightarrow> ServerLeaseRequest \<Rightarrow> unit handler_m" where
  "serve_lease_connection ev connection_id lr =
     (let request_id = rq_request_id (lr_request lr)
      in bind_h (ask ev (ev_now ev)) (\<lambda>started_ns.
         bind_h (new_context ev request_id (lr_scope_id lr) (lr_retry_after_ms lr)) (\<lambda>ref.
         bind_h (admit ev Bulk (lr_retry_after_ms lr)) (\<lambda>admission.
           case admission of
             Inl e \<Rightarrow> write_failure ev request_id e
           | Inr p \<Rightarrow>
               bind_h (finally_h
                 (bind_h (register ev
                    \<lparr>rg_connection_id = connection_id, rg_request_id = request_id, rg_scope_id = lr_scope_id lr,
                     rg_request_class = Bulk, rg_phase = ''acquire_lease'', rg_context = ref, rg_admission = p,
                     rg_cancellation_auth = None\<rparr>) (\<lambda>guard.
                  bind_h (lift_h guard) (open_lease ev lr started_ns)))
                 (drop_guard ev)) (\<lambda>held.
                 case held of
                   None \<Rightarrow> ret ()
                 | Some lease \<Rightarrow>
                     finally_h (hold_lease ev (lr_compatibility lr) lease) (drop_lease ev))))))"

section \<open>Connections\<close>

definition CODERANK_QUERY_PREFIX :: string where
  "CODERANK_QUERY_PREFIX = ''Represent this query for searching relevant code: ''"

definition CODERANK_DOCUMENT_PREFIX :: string where
  "CODERANK_DOCUMENT_PREFIX = []"

text \<open>What a connection that passed the handshake brings to the dispatch.\<close>

record dispatched =
  di_connection_id :: string
  di_peer_pid :: nat
  di_peer_process_start_id :: string
  di_request :: EmbeddingProtocolRequest

text \<open>The verified peer of the transport, before anything is read.\<close>

definition transport_peer :: "EmbeddingTransportIdentity \<Rightarrow> any_error + nat \<times> string" where
  "transport_peer t =
     (if \<not> ti_peer_verified t then Inl (bail ''embedding_server_peer_unverified'')
      else case ti_peer_pid t of
        None \<Rightarrow> Inl (bail ''embedding_server_peer_process_identity_missing'')
      | Some pid \<Rightarrow>
          if pid = 0 then Inl (bail ''embedding_server_peer_process_identity_missing'')
          else case ti_peer_process_start_id t of
                 None \<Rightarrow> Inl (bail ''embedding_server_peer_process_identity_missing'')
               | Some start_id \<Rightarrow>
                   if start_id = [] then Inl (bail ''embedding_server_peer_process_identity_missing'')
                   else Inr (pid, start_id))"

text \<open>The checks of a hello that end the connection without an answer: intent, digest and version.\<close>

definition check_hello ::
  "nat \<Rightarrow> string \<Rightarrow> EmbeddingProtocolRequest \<Rightarrow> bytes \<Rightarrow> any_error + string \<times> string \<times> string" where
  "check_hello peer_pid peer_start_id hello_request payload =
     (if payload \<noteq> [] then Inl (bail ''embedding_server_protocol_hello_required'')
      else case validate_protocol_request hello_request of
        Inl e \<Rightarrow> Inl e
      | Inr _ \<Rightarrow>
          (case rq_operation hello_request of
             OpHello intent pid start_id sha256 version \<Rightarrow>
               if pid \<noteq> peer_pid \<or> start_id \<noteq> peer_start_id then Inl (bail ''embedding_server_peer_identity_mismatch'')
               else if \<not> is_sha256 sha256 \<or> trim version = []
               then Inl (bail ''embedding_server_peer_executable_identity_invalid'')
               else Inr (intent, sha256, version)
           | _ \<Rightarrow> Inl (bail ''embedding_server_protocol_hello_required'')))"

definition incompatible_error :: "bool \<Rightarrow> EmbeddingProtocolError" where
  "incompatible_error idle =
     \<lparr>pe_code = (if idle then ''embedding_server_draining'' else ''embedding_server_incompatible_active_owner''),
      pe_message = ''the live per-user embedding server has an incompatible engine contract'',
      pe_retry_class = ''after_owner_idle'', pe_retry_after_ms = 0,
      pe_retry_condition = ''the incompatible server exits while fully idle'', pe_capacity = None\<rparr>"

text \<open>The checks of the one request that follows an accepted hello.\<close>

definition check_request ::
  "EmbeddingCompatibility \<Rightarrow> bool \<Rightarrow> EmbeddingProtocolRequest \<Rightarrow> bytes \<Rightarrow> EmbeddingProtocolError option" where
  "check_request expected observe_only request payload =
     (case validate_protocol_request request of
        Inl err \<Rightarrow> Some (protocol_error ''embedding_server_protocol_mismatch''
          (''embedding request protocol was rejected: '' @ error_message err))
      | Inr _ \<Rightarrow>
          if payload \<noteq> [] then Some (protocol_error ''embedding_server_request_payload_forbidden''
            ''request payload bytes are not accepted'')
          else if rq_compatibility request \<noteq> expected then Some (protocol_error ''embedding_server_compatibility_changed''
            ''request compatibility changed after hello'')
          else if observe_only \<and> rq_operation request \<noteq> OpSnapshot
          then Some (protocol_error ''embedding_server_observe_operation_forbidden''
            ''observe connections may only request a snapshot'')
          else None)"

definition handshake :: "handler_env \<Rightarrow> bool \<Rightarrow> bool \<Rightarrow> dispatched option handler_m" where
  "handshake ev handler_capacity_limited pre_request_guard =
     bind_h (\<lambda>h. lift_h (transport_peer (hn_identity h)) h) (\<lambda>(peer_pid, peer_start_id).
     bind_h (set_read_timeout ev ''bound embedding server handshake read'' (cb_connect (ev_budgets ev))) (\<lambda>_.
     bind_h (set_write_timeout ev ''bound embedding server handshake write'' (cb_connect (ev_budgets ev))) (\<lambda>_.
     bind_h (ask ev (ev_uuid ev)) (\<lambda>connection_id.
     bind_h (read_request ev) (\<lambda>(hello_request, hello_payload).
     bind_h (lift_h (check_hello peer_pid peer_start_id hello_request hello_payload)) (\<lambda>(intent, sha256, version).
     bind_h (observe_h ev ss_process) (\<lambda>process.
       let reject = (\<lambda>e. then_none (write_failure ev (rq_request_id hello_request) e));
           mismatch = sha256 \<noteq> pc_executable_sha256 process \<or> version \<noteq> pc_executable_version process;
           expected = ev_compatibility ev;
           observe_only = (intent = ''observe'')
       in
       if intent \<noteq> ''activate'' \<and> intent \<noteq> ''observe'' then
         reject (protocol_error ''embedding_server_intent_invalid'' ''hello intent must be activate or observe'')
       else if handler_capacity_limited then
         bind_h (observe_h ev ss_connections) (\<lambda>depth.
         bind_h (observe_h ev (connection_capacity_error (cb_retry_after (ev_budgets ev)) ''connection_handler_full''
                   SERVER_CONNECTION_HANDLER_CAPACITY depth)) reject)
       else if \<not> pre_request_guard then
         bind_h (observe_h ev (connection_capacity_error (cb_retry_after (ev_budgets ev)) ''pre_request_full''
                   SERVER_CONTROL_CONNECTION_RESERVE SERVER_CONTROL_CONNECTION_RESERVE)) reject
       else
         bind_h (ask ev (ev_force_incompatible ev)) (\<lambda>forced.
           if \<not> (rq_compatibility hello_request = expected \<and> \<not> mismatch \<and> \<not> forced) then
             bind_h (if observe_only then ret False else access ev begin_draining_if_idle) (\<lambda>idle.
               reject (incompatible_error idle))
           else
             bind_h (lift_h (ev_digest ev expected)) (\<lambda>digest.
             bind_h (snapshot_h ev) (\<lambda>snapshot.
             bind_h (write_success ev (rq_request_id hello_request) (ResHello digest snapshot)) (\<lambda>_.
             bind_h (read_request ev) (\<lambda>(request, payload).
               case check_request expected observe_only request payload of
                 Some e \<Rightarrow> then_none (write_failure ev (rq_request_id request) e)
               | None \<Rightarrow>
                   ret (Some \<lparr>di_connection_id = connection_id, di_peer_pid = peer_pid,
                     di_peer_process_start_id = peer_start_id, di_request = request\<rparr>)))))))))))))"

definition serve_snapshot :: "handler_env \<Rightarrow> string \<Rightarrow> unit handler_m" where
  "serve_snapshot ev request_id =
     bind_h (observe_h ev try_initialized_engine) (\<lambda>engine.
     bind_h (ask ev (ev_lifecycle ev)) (\<lambda>lifecycle.
     bind_h (instance_id_h ev) (\<lambda>instance_id.
     bind_h (snapshot_h ev) (\<lambda>snapshot.
       write_success ev request_id (ResSnapshot snapshot None
         (case (engine, lifecycle) of
            (Some _, Inr sn) \<Rightarrow> (case engine_identity instance_id sn of Inl _ \<Rightarrow> None | Inr i \<Rightarrow> Some i)
          | _ \<Rightarrow> None))))))"

definition ensure_resident_result :: "handler_env \<Rightarrow> (any_error + EmbeddingEngineIdentity) handler_m" where
  "ensure_resident_result ev =
     bind_h (open_engine ev) (\<lambda>engine.
       case engine of
         Inl err \<Rightarrow> ret (Inl err)
       | Inr _ \<Rightarrow>
           bind_h (ask ev (ev_control ev)) (\<lambda>r.
             case r of
               Inl e \<Rightarrow> ret (Inl (engine_error e))
             | Inr snapshot \<Rightarrow> bind_h (instance_id_h ev) (\<lambda>instance_id. ret (engine_identity instance_id snapshot))))"

definition serve_ensure_resident ::
  "handler_env \<Rightarrow> string \<Rightarrow> string \<Rightarrow> string \<Rightarrow> nat \<Rightarrow> nat \<Rightarrow> unit handler_m" where
  "serve_ensure_resident ev connection_id request_id scope_id deadline_ms retry_after_ms =
     (if deadline_ms = 0 then write_deadline_invalid ev request_id
      else
        bind_h (configure_server_operation_timeout ev deadline_ms) (\<lambda>_.
        bind_h (ask ev (ev_now ev)) (\<lambda>started_ns.
        bind_h (new_context ev request_id scope_id retry_after_ms) (\<lambda>ref.
        bind_h (admit ev Bulk retry_after_ms) (\<lambda>admission.
          case admission of
            Inl e \<Rightarrow> write_failure ev request_id e
          | Inr p \<Rightarrow>
              finally_h
                (bind_h (register ev
                   \<lparr>rg_connection_id = connection_id, rg_request_id = request_id, rg_scope_id = scope_id,
                    rg_request_class = Bulk, rg_phase = ''ensure_resident'', rg_context = ref, rg_admission = p,
                    rg_cancellation_auth = None\<rparr>) (\<lambda>guard.
                 bind_h (lift_h guard) (\<lambda>g.
                 bind_h (update_phase ev g ''native_execution'') (\<lambda>_.
                 bind_h (ensure_resident_result ev) (\<lambda>result.
                 bind_h (ask ev (ev_now ev)) (\<lambda>now.
                   if deadline_ms * 1000000 \<le> elapsed_since now started_ns then
                     bind_h (observe_h ev initialized_engine) (\<lambda>engine.
                       write_deadline_exceeded ev request_id retry_after_ms Bulk engine)
                   else
                     bind_h (update_phase ev g ''response'') (\<lambda>_.
                       case result of
                         Inr identity \<Rightarrow> write_success ev request_id (ResIdentity identity)
                       | Inl err \<Rightarrow> write_anyhow_failure ev request_id err)))))))
                (drop_guard ev))))))"

definition serve_cancel :: "handler_env \<Rightarrow> dispatched \<Rightarrow> string \<Rightarrow> string \<Rightarrow> unit handler_m" where
  "serve_cancel ev di target_request_id cancel_token =
     (if \<not> ev_parse_uuid ev cancel_token then
        write_failure ev (rq_request_id (di_request di))
          (protocol_error ''embedding_server_cancel_token_invalid''
             ''embedding cancellation requires an unguessable token'')
      else
        bind_h (access ev (server_cancel target_request_id cancel_token (di_peer_pid di) (di_peer_process_start_id di)))
          (\<lambda>cancelled. write_success ev (rq_request_id (di_request di)) (if cancelled then ResCancelled else ResReleased)))"

definition dispatch :: "handler_env \<Rightarrow> dispatched \<Rightarrow> unit handler_m" where
  "dispatch ev di =
     (let request = di_request di; request_id = rq_request_id request;
          rejected = (\<lambda>what err. write_failure ev request_id
            (protocol_error ''embedding_server_input_invalid'' (what @ error_message err)))
      in case rq_operation request of
           OpSnapshot \<Rightarrow> serve_snapshot ev request_id
         | OpEnsureResident scope_id deadline_ms retry_after_ms \<Rightarrow>
             serve_ensure_resident ev (di_connection_id di) request_id scope_id deadline_ms retry_after_ms
         | OpAcquireLease scope_id deadline_ms retry_after_ms \<Rightarrow>
             if deadline_ms = 0 then write_deadline_invalid ev request_id
             else
               bind_h (configure_server_operation_timeout ev deadline_ms) (\<lambda>_.
                 serve_lease_connection ev (di_connection_id di)
                   \<lparr>lr_request = request, lr_scope_id = scope_id, lr_deadline_ms = deadline_ms,
                    lr_retry_after_ms = retry_after_ms, lr_compatibility = ev_compatibility ev\<rparr>)
         | OpEmbedQuery scope_id deadline_ms retry_after_ms cancel_token input \<Rightarrow>
             (case validate_raw_inputs [input] of
                Inl err \<Rightarrow> rejected ''embedding query input was rejected: '' err
              | Inr _ \<Rightarrow>
                  serve_embedding_request ev (di_connection_id di)
                    \<lparr>sq_request_id = request_id, sq_scope_id = scope_id, sq_request_class = Query,
                     sq_deadline_ms = deadline_ms, sq_retry_after_ms = retry_after_ms, sq_cancel_token = cancel_token,
                     sq_client_pid = di_peer_pid di, sq_client_process_start_id = di_peer_process_start_id di,
                     sq_inputs = [CODERANK_QUERY_PREFIX @ input]\<rparr>)
         | OpEmbedDocuments scope_id deadline_ms retry_after_ms cancel_token inputs \<Rightarrow>
             (case validate_raw_inputs inputs of
                Inl err \<Rightarrow> rejected ''embedding document inputs were rejected: '' err
              | Inr _ \<Rightarrow>
                  serve_embedding_request ev (di_connection_id di)
                    \<lparr>sq_request_id = request_id, sq_scope_id = scope_id, sq_request_class = Bulk,
                     sq_deadline_ms = deadline_ms, sq_retry_after_ms = retry_after_ms, sq_cancel_token = cancel_token,
                     sq_client_pid = di_peer_pid di, sq_client_process_start_id = di_peer_process_start_id di,
                     sq_inputs = map ((@) CODERANK_DOCUMENT_PREFIX) inputs\<rparr>)
         | OpCancelRequest target_request_id cancel_token \<Rightarrow> serve_cancel ev di target_request_id cancel_token
         | _ \<Rightarrow>
             write_failure ev request_id
               (protocol_error ''embedding_server_operation_invalid''
                  ''operation is invalid outside its connection state''))"

definition serve_embedding_connection_inner :: "handler_env \<Rightarrow> bool \<Rightarrow> unit handler_m" where
  "serve_embedding_connection_inner ev handler_capacity_limited =
     bind_h (if handler_capacity_limited then ret False else begin_pre_request ev) (\<lambda>pre_request_guard.
     bind_h (finally_h (handshake ev handler_capacity_limited pre_request_guard) (drop_pre_request ev)) (\<lambda>next.
       case next of None \<Rightarrow> ret () | Some di \<Rightarrow> dispatch ev di))"

definition finish_embedding_response_delivery :: "handler_env \<Rightarrow> unit handler_m" where
  "finish_embedding_response_delivery ev =
     bind_h (set_read_timeout ev ''bound embedding final response delivery'' (cb_query_request (ev_budgets ev))) (\<lambda>_.
     bind_h (ask ev (ev_finish_delivery ev)) (\<lambda>r.
       case r of None \<Rightarrow> ret () | Some e \<Rightarrow> fail (io_context ''finish embedding final response delivery'' e)))"

definition serve_embedding_connection :: "handler_env \<Rightarrow> unit handler_m" where
  "serve_embedding_connection ev =
     bind_h (serve_embedding_connection_inner ev False) (\<lambda>_. finish_embedding_response_delivery ev)"

definition serve_embedding_connection_at_handler_capacity :: "handler_env \<Rightarrow> unit handler_m" where
  "serve_embedding_connection_at_handler_capacity ev =
     bind_h (serve_embedding_connection_inner ev True) (\<lambda>_. finish_embedding_response_delivery ev)"

section \<open>What handlers hold\<close>

context serving
begin

lemmas keeps_prims = keeps_ret keeps_fail keeps_lift keeps_running keeps_ask keeps_observe keeps_set_timeout
  keeps_peer_is_alive keeps_read_request keeps_respond keeps_poll_request keeps_update_phase keeps_open_engine
  keeps_engine_submit keeps_new_context keeps_cancel_context keeps_drain keeps_cancel

lemma keeps_writers:
  "keeps own (write_failure ev request_id e)" "keeps own (write_success ev request_id result)"
  "keeps own (write_deadline_invalid ev request_id)"
  "keeps own (write_deadline_exceeded ev request_id retry_after_ms request_class engine)"
  "keeps own (write_engine_failure ev request_id err)" "keeps own (write_anyhow_failure ev request_id any)"
  "keeps own (configure_server_operation_timeout ev deadline_ms)" "keeps own (snapshot_h ev)" "keeps own (instance_id_h ev)"
  unfolding write_failure_def write_success_def write_deadline_invalid_def write_deadline_exceeded_def
    write_engine_failure_def write_anyhow_failure_def configure_server_operation_timeout_def snapshot_h_def
    instance_id_h_def Let_def
  by (simp_all add: keeps_bind keeps_prims)

lemma keeps_deadlines:
  "keeps own (deadline_start ev deadline_ms)" "keeps own (cancel_if_elapsed ev d ref)"
  "keeps own (cancel_if_peer_dead ev ref)" "keeps own (record_qualification_completed_tokens ev tokens sequence)"
  unfolding deadline_start_def cancel_if_elapsed_def cancel_if_peer_dead_def record_qualification_completed_tokens_def
  by (simp_all add: keeps_bind keeps_prims)

lemmas keeps_ops = keeps_prims keeps_writers keeps_deadlines

lemma keeps_deliver_vectors: "keeps own (deliver_vectors ev q d ref g engine completion)"
  unfolding deliver_vectors_def by (simp add: keeps_bind keeps_ops)

lemma keeps_request_loop: "keeps own (request_loop n ev q d ref g engine)"
  by (induction n) (simp_all add: keeps_bind keeps_ops keeps_deliver_vectors split: sum.split option.split)

lemma keeps_run_embedding_request: "keeps own (run_embedding_request ev q d ref g)"
  unfolding run_embedding_request_def
  by (simp add: keeps_bind keeps_ops keeps_request_loop split: sum.split EmbeddingRequestClass.split)

text \<open>A registered request gives back its permit and its guard.\<close>

lemma runs_guarded:
  assumes "own_permit own = Some (rg_admission r)" and "own_guard own = None"
    and "\<And>res own'. own' = own\<lparr>own_permit := None, own_guard := (case res of Inl _ \<Rightarrow> None | Inr g \<Rightarrow> Some g)\<rparr> \<Longrightarrow>
      keeps own' (f res)"
  shows "runs own (finally_h (bind_h (register ev r) f) (drop_guard ev)) (\<lambda>_ own'. own' = own\<lparr>own_permit := None\<rparr>)"
proof (rule runs_finally [where Q = "\<lambda>_ own'. \<exists>g. own' = own\<lparr>own_permit := None, own_guard := g\<rparr>"])
  show "runs own (bind_h (register ev r) f) (\<lambda>_ own'. \<exists>g. own' = own\<lparr>own_permit := None, own_guard := g\<rparr>)"
    by (rule runs_bind [OF runs_register [OF assms(1,2)]])
      (auto intro!: runs_of_keeps assms(3) split: sum.split)
next
  fix res :: "'a option" and own'
  assume "\<exists>g. own' = own\<lparr>own_permit := None, own_guard := g\<rparr>"
  then show "runs own' (drop_guard ev) (\<lambda>_ own'. own' = own\<lparr>own_permit := None\<rparr>)"
    by (auto intro!: runs_weaken [OF runs_drop_guard] simp: assms(2))
qed simp

lemma keeps_admitted_embedding_request:
  assumes "own_permit own = None" and "own_guard own = None"
  shows "keeps own (admitted_embedding_request ev connection_id q d ref auth)"
proof -
  let ?Q = "\<lambda>_ own'. \<exists>p. own' = own\<lparr>own_permit := p\<rparr>"
  have registered: "runs (own\<lparr>own_permit := Some p\<rparr>) (registered_embedding_request ev connection_id q d ref auth p) ?Q" for p
    unfolding registered_embedding_request_def
    by (rule runs_weaken [OF runs_guarded])
      (auto simp: assms keeps_bind keeps_ops keeps_run_embedding_request)
  have "runs own (bind_h (admit ev (sq_request_class q) (sq_retry_after_ms q)) (\<lambda>admission.
      bind_h (cancel_if_elapsed ev d ref) (\<lambda>elapsed.
        if elapsed then write_deadline_exceeded ev (sq_request_id q) (sq_retry_after_ms q) (sq_request_class q) None
        else case admission of Inl e \<Rightarrow> write_failure ev (sq_request_id q) e
          | Inr p \<Rightarrow> registered_embedding_request ev connection_id q d ref auth p))) ?Q"
  proof (rule runs_bind [OF runs_admit [OF assms(1)]], goal_cases)
    case (1 admission own')
    show ?case
      by (rule runs_keeps_bind [OF keeps_deadlines(2)])
        (use 1 in \<open>auto intro!: runs_of_keeps keeps_ops registered split: sum.splits\<close>)
  qed auto
  then show ?thesis unfolding keeps_def admitted_embedding_request_def
    by (rule runs_finally) (auto intro!: runs_weaken [OF runs_drop_permit] simp: assms)
qed

lemma keeps_serve_embedding_request:
  assumes "own_permit own = None" and "own_guard own = None"
  shows "keeps own (serve_embedding_request ev connection_id q)"
  unfolding serve_embedding_request_def
  by (simp add: keeps_bind keeps_ops keeps_admitted_embedding_request [OF assms] split: option.split)

text \<open>A lease connection: the lease is held exactly while its connection is.\<close>

lemma runs_unless_kept:
  assumes m: "runs own m Q" and kept: "\<And>x own'. Q (Some (Some x)) own' \<Longrightarrow> R (Some (Some x)) own'"
    and c: "\<And>r own'. Q r own' \<Longrightarrow> (\<And>x. r \<noteq> Some (Some x)) \<Longrightarrow> runs own' c (\<lambda>_. R r)"
    and total: "\<And>h. snd (c h) = Returned ()"
  shows "runs own (unless_kept m c) R"
proof (rule runsI, goal_cases)
  case (1 h h' r)
  obtain h1 r1 where m1: "m h = (h1, r1)" by fastforce
  note m1D = runsD [OF m m1 1(1,2)]
  have c1: "c h1 = (fst (c h1), Returned ())" using total [of h1] by (metis prod.collapse)
  show ?case
  proof (cases r1)
    case (Returned x)
    then show ?thesis
    proof (cases x)
      case None
      note cD = runsD [OF c [OF m1D(3) [OF Returned]] c1 refl m1D(2)]
      show ?thesis using 1(3) m1 Returned None m1D(1) cD
        by (auto simp: unless_kept_def intro: server_reaches_trans)
    next
      case (Some y)
      with 1(3) m1 Returned m1D(1,2) kept m1D(3) [OF Returned] show ?thesis by (auto simp: unless_kept_def)
    qed
  next
    case (Failed e)
    note cD = runsD [OF c [OF m1D(4) [OF Failed]] c1 refl m1D(2)]
    show ?thesis using 1(3) m1 Failed m1D(1) cD
      by (auto simp: unless_kept_def intro: server_reaches_trans)
  next
    case Running
    with 1(3) m1 m1D show ?thesis by (auto simp: unless_kept_def)
  qed
qed

lemma keeps_then_none: "keeps own m \<Longrightarrow> keeps own (then_none m)"
  unfolding then_none_def by (simp add: keeps_bind keeps_ret)

lemma runs_grant_lease:
  assumes "own_lease own"
  shows "runs own (grant_lease ev lr started_ns g engine snapshot)
    (\<lambda>r own'. \<exists>b. own' = own\<lparr>own_lease := b\<rparr> \<and> (b \<or> (\<forall>x. r \<noteq> Some (Some x))))"
    (is "runs own _ ?Q")
proof -
  have own: "own\<lparr>own_lease := True\<rparr> = own" using assms by simp
  have Q: "\<And>r. ?Q r own" using own by (intro exI [of _ True]) simp
  have dropped: "runs own (bind_h (drop_lease ev) (\<lambda>_. m)) ?Q"
    if "\<And>own. runs own m (\<lambda>r own'. own' = own \<and> (\<forall>x. r \<noteq> Some (Some x)))" for m
    by (rule runs_bind [OF runs_drop_lease]) (auto intro!: runs_weaken [OF that] exI [of _ False])
  have none: "runs own (then_none m) (\<lambda>r own'. own' = own \<and> (\<forall>x. r \<noteq> Some (Some x)))" if "keeps own m" for own m
    unfolding then_none_def
    by (rule runs_keeps_bind [OF that]) (auto simp: runs_def ret_def server_reaches_def)
  have ret_none: "runs own (ret None) (\<lambda>r own'. own' = own \<and> (\<forall>x. r \<noteq> Some (Some x)))" for own
    by (auto simp: runs_def ret_def server_reaches_def)
  have granted: "keeps own (bind_h (update_phase ev g ''response'') (\<lambda>_.
      bind_h (instance_id_h ev) (\<lambda>instance_id.
      bind_h (lift_h (engine_identity instance_id snapshot)) (\<lambda>identity.
      bind_h (ask ev (ev_uuid ev)) (\<lambda>token.
      bind_h (lift_h (ev_digest ev (lr_compatibility lr))) (\<lambda>digest.
        let lease = \<lparr>le_lease_token = token, le_server_instance_id = instance_id,
                     le_load_generation = ei_load_generation identity, le_compatibility_sha256 = digest\<rparr>
        in bind_h (write_success ev (rq_request_id (lr_request lr)) (ResLease lease identity)) (\<lambda>_. ret (Some lease))))))))"
    by (simp add: keeps_bind keeps_ops Let_def)
  show ?thesis
    unfolding grant_lease_def
    by (auto intro!: runs_keeps_bind [OF keeps_ask] runs_keeps_bind [OF keeps_peer_is_alive] Q
        dropped none keeps_ops ret_none runs_of_keeps [OF granted])
qed

lemma runs_open_lease:
  assumes "\<not> own_lease own"
  shows "runs own (open_lease ev lr started_ns g)
    (\<lambda>r own'. own' = own\<lparr>own_lease := (case r of Some (Some _) \<Rightarrow> True | _ \<Rightarrow> False)\<rparr>)"
    (is "runs own _ ?R")
proof -
  have own: "own\<lparr>own_lease := False\<rparr> = own" using assms by simp
  have none: "runs own (then_none m) ?R" if "keeps own m" for m
    unfolding then_none_def
    by (rule runs_keeps_bind [OF that]) (auto simp: runs_def ret_def server_reaches_def own)
  have kept: "runs (own\<lparr>own_lease := True\<rparr>) (unless_kept (grant_lease ev lr started_ns g e snapshot) (drop_lease ev)) ?R"
    for e snapshot
    by (rule runs_unless_kept [OF runs_grant_lease])
      (auto intro!: runs_weaken [OF runs_drop_lease] split: option.split)
  have lease: "runs own (bind_h (acquire_residency_lease ev e) (\<lambda>lease.
      case lease of
        Inl err \<Rightarrow> then_none (write_engine_failure ev (rq_request_id (lr_request lr)) err)
      | Inr snapshot \<Rightarrow> unless_kept (grant_lease ev lr started_ns g e snapshot) (drop_lease ev))) ?R" for e
    by (rule runs_bind [OF runs_acquire_lease [OF assms]])
      (auto simp: own intro!: kept none keeps_writers split: sum.splits)
  show ?thesis
    unfolding open_lease_def
    by (rule runs_keeps_bind [OF keeps_open_engine]) (auto simp: own intro!: lease none keeps_writers split: sum.split)
qed

abbreviation lease_at_most :: "handler_holds \<Rightarrow> 'b option \<Rightarrow> handler_holds \<Rightarrow> bool" where
  "lease_at_most own r own' \<equiv> \<exists>b. own' = own\<lparr>own_lease := b\<rparr>"

lemma runs_lease_of_keeps: "keeps own m \<Longrightarrow> runs own m (lease_at_most own)"
  by (rule runs_of_keeps) (auto intro!: exI [of _ "own_lease own"])

lemma runs_lease_bind:
  assumes "runs own m (lease_at_most own)" and "\<And>x own'. runs own' (f x) (lease_at_most own')"
  shows "runs own (bind_h m f) (lease_at_most own)"
proof (rule runs_bind [OF assms(1)], goal_cases)
  case (1 x own')
  then obtain b where "own' = own\<lparr>own_lease := b\<rparr>" by blast
  then show ?case using runs_weaken [OF assms(2) [of own' x], of "lease_at_most own"] by auto
qed

lemma runs_lease_request: "runs own (lease_request ev compatibility lease next payload) (lease_at_most own)"
proof -
  have drop: "runs own (drop_lease ev) (lease_at_most own)" for own
    by (rule runs_weaken [OF runs_drop_lease]) auto
  have snapshot: "keeps own (lease_snapshot ev lease next)" for own
    unfolding lease_snapshot_def by (simp add: keeps_bind keeps_ops)
  have release: "runs own (bind_h (drop_lease ev) (\<lambda>_.
      bind_h (write_success ev (rq_request_id next) ResReleased) (\<lambda>_. ret False))) (lease_at_most own)"
    by (rule runs_lease_bind [OF drop], rule runs_lease_of_keeps) (simp add: keeps_bind keeps_ops)
  have invalid: "runs own (bind_h (write_failure ev (rq_request_id next) e) (\<lambda>_. ret False)) (lease_at_most own)" for own e
    by (rule runs_lease_of_keeps) (simp add: keeps_bind keeps_ops)
  have ends: "runs own (ret False) (lease_at_most own)" "runs own (lease_snapshot ev lease next) (lease_at_most own)"
    by (intro runs_lease_of_keeps keeps_ret snapshot)+
  show ?thesis
    unfolding lease_request_def Let_def
    by (cases "payload = []")
      (auto intro!: runs_keeps_bind [OF keeps_lift] release invalid ends exI [of _ "own_lease own"]
        split: EmbeddingOperation.split)
qed

lemma runs_lease_loop: "runs own (lease_loop n ev compatibility lease reader) (lease_at_most own)"
proof (induction n arbitrary: own reader)
  case (Suc n)
  then show ?case
    by (auto intro!: runs_lease_bind runs_lease_request runs_lease_of_keeps [OF keeps_poll_request]
        runs_lease_of_keeps [OF keeps_peer_is_alive] runs_lease_of_keeps [OF keeps_ret] split: ProtocolFramePoll.split)
qed (simp add: runs_lease_of_keeps keeps_running)

lemma runs_hold_lease: "runs own (hold_lease ev compatibility lease) (lease_at_most own)"
  unfolding hold_lease_def
  by (intro runs_lease_bind runs_lease_of_keeps keeps_set_timeout runs_lease_loop)

lemma keeps_serve_lease_connection:
  assumes "own_permit own = None" and "own_guard own = None" and "\<not> own_lease own"
  shows "keeps own (serve_lease_connection ev connection_id lr)"
proof -
  have own: "own\<lparr>own_lease := False\<rparr> = own" "own\<lparr>own_permit := None\<rparr> = own" using assms by simp_all
  have no_lease: "own\<lparr>own_guard := g, own_lease := False\<rparr> = own\<lparr>own_guard := g\<rparr>" for g
    using assms(3) by (cases own) simp
  let ?held = "\<lambda>r own'. own' = own\<lparr>own_lease := (case r of Some (Some _) \<Rightarrow> True | _ \<Rightarrow> False)\<rparr>"
  have hold: "runs (own\<lparr>own_lease := True\<rparr>)
      (finally_h (hold_lease ev (lr_compatibility lr) lease) (drop_lease ev)) (\<lambda>_ own'. own' = own)" for lease
    by (rule runs_finally [OF runs_hold_lease]) (auto intro!: runs_weaken [OF runs_drop_lease] simp: own)
  have opened: "runs (own\<lparr>own_permit := Some p\<rparr>)
      (finally_h (bind_h (register ev (r p)) (\<lambda>guard. bind_h (lift_h guard) (open_lease ev lr started_ns)))
         (drop_guard ev)) ?held" if r: "rg_admission (r p) = p" for r p started_ns
  proof (rule runs_finally [where Q = "\<lambda>r own'. \<exists>g. own' = own\<lparr>own_guard := g,
        own_lease := (case r of Some (Some _) \<Rightarrow> True | _ \<Rightarrow> False)\<rparr>"], goal_cases)
    case 1
    show ?case
    proof (rule runs_bind [OF runs_register], goal_cases)
      case (3 guard own')
      have "\<not> own_lease own'" using 3 assms(3) by simp
      then show ?case
        using 3 by (auto intro!: runs_bind [OF keeps_lift [unfolded keeps_def]] runs_weaken [OF runs_open_lease] simp: own assms no_lease)
    qed (use r in \<open>auto simp: own assms no_lease\<close>)
  next
    case (2 r own')
    then show ?case by (auto intro!: runs_weaken [OF runs_drop_guard] simp: assms)
  qed simp
  have admitted: "runs own (bind_h (admit ev Bulk (lr_retry_after_ms lr)) (\<lambda>admission.
      case admission of Inl e \<Rightarrow> write_failure ev (rq_request_id (lr_request lr)) e
      | Inr p \<Rightarrow> bind_h (finally_h (bind_h (register ev (r p)) (\<lambda>guard. bind_h (lift_h guard) (open_lease ev lr started_ns)))
            (drop_guard ev)) (\<lambda>held. case held of None \<Rightarrow> ret ()
              | Some lease \<Rightarrow> finally_h (hold_lease ev (lr_compatibility lr) lease) (drop_lease ev))))
      (\<lambda>_ own'. own' = own)" if r: "\<And>p. rg_admission (r p) = p" for r started_ns
  proof (rule runs_bind [OF runs_admit [OF assms(1)]], goal_cases)
    case (1 admission own')
    show ?case
    proof (cases admission)
      case (Inl e)
      with 1 own keeps_writers(1) show ?thesis by (simp add: keeps_def)
    next
      case (Inr p)
      then have own': "own' = own\<lparr>own_permit := Some p\<rparr>" using 1 by simp
      show ?thesis unfolding Inr own' sum.case
        by (rule runs_bind [OF opened [of r, OF r]])
          (auto intro!: hold runs_of_keeps keeps_ret simp: own split: option.splits)
    qed
  qed (simp add: own)
  show ?thesis
    unfolding serve_lease_connection_def Let_def
    by (auto intro!: keeps_bind keeps_ask keeps_new_context admitted [unfolded keeps_def [symmetric]])
qed

lemma keeps_serve_ensure_resident:
  assumes "own_permit own = None" and "own_guard own = None"
  shows "keeps own (serve_ensure_resident ev connection_id request_id scope_id deadline_ms retry_after_ms)"
proof -
  have own: "own\<lparr>own_permit := None\<rparr> = own" using assms by simp
  have resident: "keeps own (ensure_resident_result ev)" for own
    unfolding ensure_resident_result_def by (simp add: keeps_bind keeps_ops split: sum.split)
  have admitted: "keeps own (bind_h (admit ev Bulk retry_after_ms) (\<lambda>admission.
      case admission of Inl e \<Rightarrow> write_failure ev request_id e
      | Inr p \<Rightarrow> finally_h (bind_h (register ev (r p)) f) (drop_guard ev)))"
    if r: "\<And>p. rg_admission (r p) = p" and f: "\<And>res own. keeps own (f res)" for r and f :: "_ \<Rightarrow> unit handler_m"
    unfolding keeps_def
  proof (rule runs_bind [OF runs_admit [OF assms(1)]], goal_cases)
    case (1 admission own')
    have "runs (own\<lparr>own_permit := Some p\<rparr>) (finally_h (bind_h (register ev (r p)) f) (drop_guard ev)) (\<lambda>_ own'. own' = own)" for p
      by (rule runs_weaken [OF runs_guarded]) (auto simp: r own assms intro: f)
    with 1 show ?case
      by (auto simp: own intro!: runs_of_keeps keeps_writers split: sum.splits)
  qed (simp add: own)
  show ?thesis
    unfolding serve_ensure_resident_def
    by (simp add: keeps_bind keeps_ops resident admitted split: sum.split)
qed

lemma keeps_handshake: "keeps own (handshake ev limited guard)"
proof -
  have peer: "keeps own (\<lambda>h. lift_h (transport_peer (hn_identity h)) h)"
    by (rule keeps_stream) (simp_all add: lift_h_def ret_def fail_def split: sum.split)
  show ?thesis
    unfolding handshake_def Let_def
    by (simp add: keeps_bind peer keeps_ops keeps_then_none split_beta split: option.split)
qed

lemma keeps_dispatch:
  assumes "own_permit own = None" and "own_guard own = None" and "\<not> own_lease own"
  shows "keeps own (dispatch ev di)"
proof -
  have snapshot: "keeps own (serve_snapshot ev request_id)" for request_id
    unfolding serve_snapshot_def by (simp add: keeps_bind keeps_ops)
  have cancel: "keeps own (serve_cancel ev di target token)" for target token
    unfolding serve_cancel_def by (simp add: keeps_bind keeps_ops)
  note requests = keeps_serve_embedding_request [OF assms(1,2)] keeps_serve_lease_connection [OF assms]
    keeps_serve_ensure_resident [OF assms(1,2)]
  show ?thesis
    unfolding dispatch_def Let_def
    by (auto intro!: snapshot cancel requests keeps_ops keeps_bind [OF keeps_writers(7)]
        split: EmbeddingOperation.split sum.split)
qed

lemma keeps_connection:
  assumes "own = no_holds"
  shows "keeps own (serve_embedding_connection_inner ev limited)"
proof -
  have own: "own\<lparr>own_pre := b, own_pre := False\<rparr> = own" "own\<lparr>own_pre := False\<rparr> = own" for b
    using assms by (simp_all add: no_holds_def)
  have rest: "runs (own\<lparr>own_pre := b\<rparr>) (bind_h (finally_h (handshake ev limited guard) (drop_pre_request ev))
      (\<lambda>next. case next of None \<Rightarrow> ret () | Some di \<Rightarrow> dispatch ev di)) (\<lambda>_ own'. own' = own)" for b guard
  proof (rule runs_bind [where Q = "\<lambda>_ own'. own' = own"], goal_cases)
    case 1
    show ?case
      by (rule runs_finally [OF keeps_handshake [unfolded keeps_def]])
        (auto intro!: runs_weaken [OF runs_drop_pre_request] simp: own)
  next
    case (2 di own')
    then show ?case
      by (auto intro!: runs_of_keeps keeps_ret keeps_dispatch simp: assms no_holds_def split: option.split)
  qed simp
  have begun: "runs own (if limited then ret False else begin_pre_request ev) 
      (\<lambda>r own'. \<exists>b. own' = own\<lparr>own_pre := b\<rparr> \<and> (r = None \<longrightarrow> \<not> b))"
  proof (cases limited)
    case True
    with own(2) show ?thesis by (auto intro!: runs_of_keeps keeps_ret exI [of _ False])
  next
    case False
    have "\<not> own_pre own" by (simp add: assms no_holds_def)
    then show ?thesis using False
      by (auto intro!: runs_weaken [OF runs_begin_pre_request])
  qed
  show ?thesis
    unfolding serve_embedding_connection_inner_def keeps_def
    by (rule runs_bind [OF begun]) (use rest rest [of False] own in \<open>auto\<close>)
qed

end

end
