(* ===== verification/Connection_Safety.thy ===== *)
theory Connection_Safety
  imports Connection_Handlers
begin

text \<open>
  Properties of whole connections: a handler's run is a path of the server's transition system
  and gives back what it took; only an authenticated activation moves the server; an embedding
  request ends by its deadline; and a lease connection answers for the lease it granted.
\<close>

section \<open>Handlers leave the server unchanged until dispatch\<close>

text \<open>\<open>triple P m Q\<close>: from a handler in \<open>P\<close>, \<open>m\<close> ends with an outcome and a handler in \<open>Q\<close>.\<close>

definition triple :: "(handler_state \<Rightarrow> bool) \<Rightarrow> 'a handler_m \<Rightarrow> ('a outcome \<Rightarrow> handler_state \<Rightarrow> bool) \<Rightarrow> bool" where
  "triple P m Q \<longleftrightarrow> (\<forall>h. P h \<longrightarrow> Q (snd (m h)) (fst (m h)))"

lemma tripleI: "(\<And>h h' r. P h \<Longrightarrow> m h = (h', r) \<Longrightarrow> Q r h') \<Longrightarrow> triple P m Q"
  unfolding triple_def by (metis prod.collapse)

lemma tripleD: "triple P m Q \<Longrightarrow> P h \<Longrightarrow> m h = (h', r) \<Longrightarrow> Q r h'"
  unfolding triple_def by (metis fst_conv snd_conv)

lemma triple_bind:
  assumes "triple P m Q" and "\<And>x. triple (Q (Returned x)) (f x) R"
    and "\<And>e h. Q (Failed e) h \<Longrightarrow> R (Failed e) h" and "\<And>h. Q Running h \<Longrightarrow> R Running h"
  shows "triple P (bind_h m f) R"
proof (rule tripleI, goal_cases)
  case (1 h h' r)
  obtain h1 r1 where m: "m h = (h1, r1)" by fastforce
  note Q = tripleD [OF assms(1) 1(1) m]
  show ?case
    using 1(2) m Q assms(3,4) tripleD [OF assms(2)] by (cases r1) (auto simp: bind_h_def)
qed

text \<open>Everything a handler shares or was given.\<close>

definition fixed :: "server_world \<Rightarrow> handler_holds \<Rightarrow> EmbeddingTransportIdentity \<Rightarrow> connection \<Rightarrow> handler_state \<Rightarrow> bool" where
  "fixed w own t c h \<longleftrightarrow> hn_world h = w \<and> hn_own h = own \<and> hn_identity h = t \<and> hn_stream h = c"

definition silent :: "'a handler_m \<Rightarrow> bool" where
  "silent m \<longleftrightarrow> (\<forall>h. hn_world (fst (m h)) = hn_world h \<and> hn_own (fst (m h)) = hn_own h
     \<and> hn_identity (fst (m h)) = hn_identity h \<and> hn_stream (fst (m h)) = hn_stream h)"

definition still :: "'a handler_m \<Rightarrow> bool" where
  "still m \<longleftrightarrow> (\<forall>h. hn_world (fst (m h)) = hn_world h \<and> hn_own (fst (m h)) = hn_own h)"

lemma stillD:
  assumes "still m" and "m h = (h', r)"
  shows "hn_world h' = hn_world h" "hn_own h' = hn_own h"
  using assms unfolding still_def by (metis fst_conv)+

lemma silent_still: "silent m \<Longrightarrow> still m"
  by (simp add: silent_def still_def)

lemma silent_bind: "silent m \<Longrightarrow> (\<And>x. silent (f x)) \<Longrightarrow> silent (bind_h m f)"
  by (simp add: silent_def bind_h_def split: prod.split outcome.split) (metis fst_conv)

lemma still_bind: "still m \<Longrightarrow> (\<And>x. still (f x)) \<Longrightarrow> still (bind_h m f)"
  by (simp add: still_def bind_h_def split: prod.split outcome.split) (metis fst_conv)

lemma others_alone [simp]: "others (alone ev) h = h\<lparr>hn_tick := hn_tick h + 1\<rparr>"
  by (simp add: others_def alone_def)

lemma silent_prims:
  "silent (ret x)" "silent (fail e)" "silent (lift_h r)" "silent (ask (alone ev) answer)" "silent (observe_h (alone ev) f)"
  by (simp_all add: silent_def ret_def fail_def lift_h_def ask_def observe_h_def access_def split: sum.split)

lemma silent_set_timeout:
  "silent (set_read_timeout (alone ev) ctx t)" "silent (set_write_timeout (alone ev) ctx t)"
  unfolding set_read_timeout_def set_write_timeout_def
  by (rule silent_bind [OF silent_prims(4)]; simp add: silent_def split: option.split)+

lemma silent_snapshots:
  "silent (snapshot_h (alone ev))" "silent (instance_id_h (alone ev))"
  unfolding snapshot_h_def instance_id_h_def by (simp_all add: silent_bind silent_prims)

lemma still_respond: "still (respond ev response payload)"
  by (auto simp: still_def respond_def split: sum.split)

lemma still_writers:
  "still (write_failure ev request_id e)" "still (write_success ev request_id result)"
  "still (then_none (write_failure ev request_id e))"
  unfolding write_failure_def write_success_def then_none_def
  by (simp_all add: still_respond still_bind silent_still silent_prims)

lemma still_read_request: "still (read_request ev)"
  by (auto simp: still_def read_request_def split: sum.split prod.split)

lemma triple_silent:
  assumes "silent m" and "\<And>x. triple (fixed w own t c) (f x) R"
    and "\<And>e h. fixed w own t c h \<Longrightarrow> R (Failed e) h" and "\<And>h. fixed w own t c h \<Longrightarrow> R Running h"
  shows "triple (fixed w own t c) (bind_h m f) R"
  by (rule triple_bind [where Q = "\<lambda>_. fixed w own t c"])
    (use assms in \<open>auto simp: triple_def silent_def fixed_def\<close>)

text \<open>As long as a handler only waits, reads and writes, the server stays as it is.\<close>

lemma triple_still:
  assumes "still m" and "\<And>r h. hn_world h = w \<Longrightarrow> hn_own h = own \<Longrightarrow> R r h"
  shows "triple (fixed w own t c) m R"
  using assms by (simp add: triple_def still_def fixed_def)

section \<open>The handshake\<close>

definition authenticated_hello ::
  "handler_env \<Rightarrow> EmbeddingTransportIdentity \<Rightarrow> connection \<Rightarrow> EmbeddingProtocolRequest \<Rightarrow> string \<Rightarrow> string \<Rightarrow> string \<Rightarrow> bool" where
  "authenticated_hello ev t c hello_request intent sha256 version \<longleftrightarrow>
     ti_peer_verified t
     \<and> (\<exists>pid start_id c'. ti_peer_pid t = Some pid \<and> pid \<noteq> 0 \<and> ti_peer_process_start_id t = Some start_id \<and> start_id \<noteq> []
          \<and> read_frame (ev_de ev) c = Inr ((hello_request, []), c')
          \<and> rq_operation hello_request = OpHello intent pid start_id sha256 version)"

definition compatible_hello :: "handler_env \<Rightarrow> PerUserEmbeddingServerState \<Rightarrow> EmbeddingProtocolRequest \<Rightarrow> string \<Rightarrow> string \<Rightarrow> bool" where
  "compatible_hello ev s hello_request sha256 version \<longleftrightarrow>
     rq_compatibility hello_request = ev_compatibility ev
     \<and> sha256 = pc_executable_sha256 (ss_process s) \<and> version = pc_executable_version (ss_process s)"

lemma transport_peer_Inr:
  "transport_peer t = Inr (pid, start_id) \<longleftrightarrow>
     ti_peer_verified t \<and> ti_peer_pid t = Some pid \<and> pid \<noteq> 0 \<and> ti_peer_process_start_id t = Some start_id \<and> start_id \<noteq> []"
  by (auto simp: transport_peer_def split: option.split)

lemma check_hello_Inr:
  "check_hello pid start_id hello_request payload = Inr (intent, sha256, version) \<Longrightarrow>
     payload = [] \<and> rq_operation hello_request = OpHello intent pid start_id sha256 version"
  by (auto simp: check_hello_def split: if_splits sum.splits EmbeddingOperation.splits)

lemma check_request_observe:
  "check_request expected True request payload = None \<Longrightarrow> rq_operation request = OpSnapshot"
  by (auto simp: check_request_def split: sum.splits if_splits)

text \<open>The outcome of a handshake with no other thread beside it.\<close>

definition handshake_ends ::
  "handler_env \<Rightarrow> server_world \<Rightarrow> handler_holds \<Rightarrow> EmbeddingTransportIdentity \<Rightarrow> connection \<Rightarrow> bool \<Rightarrow>
     dispatched option outcome \<Rightarrow> handler_state \<Rightarrow> bool" where
  "handshake_ends ev w own t c limited r h \<longleftrightarrow>
     hn_own h = own \<and>
     (hn_world h = w
        \<and> (\<forall>di. r = Returned (Some di) \<longrightarrow> \<not> limited \<and> (\<exists>hello_request intent sha256 version.
             authenticated_hello ev t c hello_request intent sha256 version
             \<and> compatible_hello ev (sw_state w) hello_request sha256 version
             \<and> (intent = ''activate'' \<or> intent = ''observe'' \<and> rq_operation (di_request di) = OpSnapshot)))
      \<or> \<not> limited \<and> (\<forall>di. r \<noteq> Returned (Some di)) \<and> true_idle (sw_state w)
        \<and> (\<exists>hello_request sha256 version. authenticated_hello ev t c hello_request ''activate'' sha256 version)
        \<and> hn_world h = w\<lparr>sw_state := fst (begin_draining_if_idle (sw_state w))\<rparr>)"

lemma handshake_ends_still:
  "hn_world h = w \<Longrightarrow> hn_own h = own \<Longrightarrow> (\<And>di. r \<noteq> Returned (Some di)) \<Longrightarrow> handshake_ends ev w own t c limited r h"
  by (simp add: handshake_ends_def)

lemma begin_draining_busy: "\<not> true_idle s \<Longrightarrow> begin_draining_if_idle s = (s, False)"
  by (auto simp: begin_draining_if_idle_def)

lemma triple_rejected:
  "triple (fixed w own t c) (then_none (write_failure ev request_id e)) (handshake_ends ev' w own t c' limited)"
proof (rule tripleI, goal_cases)
  case (1 h h' r)
  then have "hn_world h' = w" "hn_own h' = own"
    using stillD [OF still_writers(3) 1(2)] by (simp_all add: fixed_def)
  moreover have "r \<noteq> Returned (Some di)" for di
    using 1(2) by (auto simp: then_none_def bind_h_def ret_def split: prod.splits outcome.splits)
  ultimately show ?case by (rule handshake_ends_still)
qed

lemma triple_drained:
  assumes "\<not> limited" and "authenticated_hello ev t c hello_request ''activate'' sha256 version"
  shows "triple (fixed w own t c')
    (bind_h (access (alone ev) begin_draining_if_idle) (\<lambda>idle. then_none (write_failure ev' request_id (err idle))))
    (handshake_ends ev w own t c limited)"
proof (rule tripleI, goal_cases)
  case (1 h h' r)
  let ?h = "h\<lparr>hn_tick := hn_tick h + 1, hn_world := w\<lparr>sw_state := fst (begin_draining_if_idle (sw_state w))\<rparr>\<rparr>"
  let ?m = "then_none (write_failure ev' request_id (err (snd (begin_draining_if_idle (sw_state w)))))"
  have m: "?m ?h = (h', r)"
    using 1 by (auto simp: bind_h_def access_def fixed_def split_beta)
  then have w: "hn_world h' = w\<lparr>sw_state := fst (begin_draining_if_idle (sw_state w))\<rparr>" "hn_own h' = own"
    using stillD [OF still_writers(3) m] 1(1) by (simp_all add: fixed_def)
  have r: "r \<noteq> Returned (Some di)" for di
    using m by (auto simp: then_none_def bind_h_def ret_def split: prod.splits outcome.splits)
  show ?case
    using w r assms begin_draining_busy [of "sw_state w"] by (cases "true_idle (sw_state w)") (auto simp: handshake_ends_def)
qed

lemma triple_lift:
  assumes "\<And>x. r = Inr x \<Longrightarrow> triple P (f x) R" and "\<And>e h. P h \<Longrightarrow> R (Failed e) h"
  shows "triple P (bind_h (lift_h r) f) R"
  using assms by (cases r) (auto simp: triple_def bind_h_def lift_h_def ret_def fail_def)

lemma triple_observe:
  assumes "triple (fixed w own t c) (f (g (sw_state w))) R"
  shows "triple (fixed w own t c) (bind_h (observe_h (alone ev) g) f) R"
proof (rule tripleI, goal_cases)
  case (1 h h' r)
  then have "f (g (sw_state w)) (h\<lparr>hn_tick := hn_tick h + 1\<rparr>) = (h', r)"
    by (auto simp: bind_h_def observe_h_def access_def fixed_def)
  with 1(1) show ?case by (intro tripleD [OF assms]) (auto simp: fixed_def)
qed

lemma triple_read_request:
  assumes "\<And>frame c'. read_frame (ev_de ev) c = Inr (frame, c') \<Longrightarrow> triple (fixed w own t c') (f frame) R"
    and "\<And>e h. fixed w own t c h \<Longrightarrow> R (Failed e) h"
  shows "triple (fixed w own t c) (bind_h (read_request ev) f) R"
proof (rule tripleI, goal_cases)
  case (1 h h' r)
  have c: "hn_stream h = c" using 1(1) by (simp add: fixed_def)
  show ?case
  proof (cases "read_frame (ev_de ev) c")
    case (Inl e)
    with 1 assms(2) c show ?thesis by (auto simp: bind_h_def read_request_def)
  next
    case (Inr fc)
    obtain frame c' where fc: "fc = (frame, c')" by fastforce
    have "f frame (h\<lparr>hn_stream := c'\<rparr>) = (h', r)" using 1(2) Inr c by (simp add: bind_h_def read_request_def fc)
    from tripleD [OF assms(1) _ this] 1(1) Inr fc show ?thesis by (simp add: fixed_def)
  qed
qed

lemma alone_de [simp]: "ev_de (alone ev) = ev_de ev" "ev_compatibility (alone ev) = ev_compatibility ev"
  by (simp_all add: alone_def)

lemmas still_prims = silent_prims [THEN silent_still] silent_set_timeout [THEN silent_still]
  silent_snapshots [THEN silent_still]

text \<open>What the result of a program can be.\<close>

definition yields :: "'a handler_m \<Rightarrow> ('a \<Rightarrow> bool) \<Rightarrow> bool" where
  "yields m S \<longleftrightarrow> (\<forall>h x. snd (m h) = Returned x \<longrightarrow> S x)"

lemma yieldsD: "yields m S \<Longrightarrow> m h = (h', Returned x) \<Longrightarrow> S x"
  unfolding yields_def by (metis snd_conv)

lemma yields_bind: "(\<And>x. yields (f x) S) \<Longrightarrow> yields (bind_h m f) S"
  by (auto simp: yields_def bind_h_def split: prod.splits outcome.splits)

lemma yields_ret: "S x \<Longrightarrow> yields (ret x) S"
  by (simp add: yields_def ret_def)

lemma yields_none: "S None \<Longrightarrow> yields (then_none m) S"
  unfolding then_none_def by (simp add: yields_bind yields_ret)

lemma triple_accepted:
  assumes "\<not> limited" and "authenticated_hello ev t c hello_request intent sha256 version"
    and "compatible_hello ev (sw_state w) hello_request sha256 version" and "intent = ''activate'' \<or> intent = ''observe''"
  shows "triple (fixed w own t c')
    (bind_h (lift_h (ev_digest (alone ev) expected)) (\<lambda>digest.
     bind_h (snapshot_h (alone ev)) (\<lambda>snapshot.
     bind_h (write_success (alone ev) request_id (ResHello digest snapshot)) (\<lambda>_.
     bind_h (read_request (alone ev)) (\<lambda>(request, payload).
       case check_request expected (intent = ''observe'') request payload of
         Some e \<Rightarrow> then_none (write_failure (alone ev) (rq_request_id request) e)
       | None \<Rightarrow> ret (Some \<lparr>di_connection_id = connection_id, di_peer_pid = peer_pid,
           di_peer_process_start_id = peer_start_id, di_request = request\<rparr>))))))
    (handshake_ends ev w own t c limited)" (is "triple _ ?m _")
proof (rule tripleI, goal_cases)
  case (1 h h' r)
  have "still ?m"
    by (auto intro!: still_bind still_prims still_writers still_read_request split: option.split)
  note w = stillD [OF this 1(2)]
  let ?S = "\<lambda>x. \<forall>di. x = Some di \<longrightarrow> intent = ''activate'' \<or> rq_operation (di_request di) = OpSnapshot"
  have tail: "yields (case check_request expected (intent = ''observe'') request payload of
      Some e \<Rightarrow> then_none (write_failure (alone ev) (rq_request_id request) e)
    | None \<Rightarrow> ret (Some \<lparr>di_connection_id = connection_id, di_peer_pid = peer_pid,
        di_peer_process_start_id = peer_start_id, di_request = request\<rparr>)) ?S" for request payload
  proof (cases "check_request expected (intent = ''observe'') request payload")
    case None
    then have "intent = ''activate'' \<or> rq_operation request = OpSnapshot"
      using assms(4) check_request_observe [of expected request payload] by auto
    with None show ?thesis by (simp add: yields_def ret_def)
  next
    case (Some e)
    then show ?thesis by (simp add: yields_none)
  qed
  have yields: "yields ?m ?S"
  proof (intro yields_bind, goal_cases)
    case (1 digest snapshot written frame)
    obtain request payload where frame: "frame = (request, payload)" by fastforce
    show ?case unfolding frame prod.case by (rule tail)
  qed
  have "intent = ''activate'' \<or> rq_operation (di_request di) = OpSnapshot" if "r = Returned (Some di)" for di
    using yieldsD [OF yields 1(2) [unfolded that]] by blast
  with assms(2-4) have "\<exists>hello_request intent sha256 version. authenticated_hello ev t c hello_request intent sha256 version
      \<and> compatible_hello ev (sw_state w) hello_request sha256 version
      \<and> (intent = ''activate'' \<or> intent = ''observe'' \<and> rq_operation (di_request di) = OpSnapshot)"
    if "r = Returned (Some di)" for di using that by blast
  then show ?case
    using w 1(1) assms(1) unfolding handshake_ends_def by (simp add: fixed_def)
qed

lemma triple_handshake:
  "triple (fixed w own t c) (handshake (alone ev) limited guard) (handshake_ends ev w own t c limited)"
proof -
  have failed: "fixed w own t c' h \<Longrightarrow> handshake_ends ev w own t c limited (Failed e) h"
    and running: "fixed w own t c' h \<Longrightarrow> handshake_ends ev w own t c limited Running h" for c' h e
    by (auto simp: fixed_def intro: handshake_ends_still)
  have peer: "triple (fixed w own t c) (bind_h (\<lambda>h. lift_h (transport_peer (hn_identity h)) h) f)
      (handshake_ends ev w own t c limited)"
    if "\<And>pid start_id. transport_peer t = Inr (pid, start_id) \<Longrightarrow>
        triple (fixed w own t c) (f (pid, start_id)) (handshake_ends ev w own t c limited)" for f
  proof (rule tripleI, goal_cases)
    case (1 h h' r)
    have "bind_h (lift_h (transport_peer t)) f h = (h', r)" using 1 by (simp add: bind_h_def fixed_def)
    moreover have "triple (fixed w own t c) (bind_h (lift_h (transport_peer t)) f) (handshake_ends ev w own t c limited)"
      by (rule triple_lift) (use that failed in \<open>auto\<close>)
    ultimately show ?case using 1(1) tripleD by blast
  qed
  show ?thesis
    unfolding handshake_def Let_def
  proof (rule peer, unfold prod.case, rule triple_silent [OF silent_set_timeout(1)],
      rule triple_silent [OF silent_set_timeout(2)], rule triple_silent [OF silent_prims(4)], rule triple_read_request,
      goal_cases)
    case (1 pid start_id u v connection_id frame c')
    then have read: "read_frame (ev_de ev) c = Inr (frame, c')" by simp
    obtain hello_request payload where frame: "frame = (hello_request, payload)" by fastforce
    show ?case unfolding frame prod.case
    proof (rule triple_lift, goal_cases)
      case (1 x)
      obtain intent sha256 version where x: "x = (intent, sha256, version)" by (cases x)
      from check_hello_Inr 1 x have "payload = []"
        and op: "rq_operation hello_request = OpHello intent pid start_id sha256 version" by blast+
      with \<open>transport_peer t = Inr (pid, start_id)\<close> read frame
      have auth: "authenticated_hello ev t c hello_request intent sha256 version"
        by (auto simp: authenticated_hello_def transport_peer_Inr)
      show ?case unfolding x prod.case
      proof (rule triple_observe, goal_cases)
        case 1
        let ?s = "sw_state w"
        have forced: "triple (fixed w own t c') (if \<not> (rq_compatibility hello_request = ev_compatibility (alone ev)
              \<and> \<not> (sha256 \<noteq> pc_executable_sha256 (ss_process ?s) \<or> version \<noteq> pc_executable_version (ss_process ?s)) \<and> \<not> forced)
            then bind_h (if intent = ''observe'' then ret False else access (alone ev) begin_draining_if_idle)
              (\<lambda>idle. then_none (write_failure (alone ev) (rq_request_id hello_request) (incompatible_error idle)))
            else bind_h (lift_h (ev_digest (alone ev) (ev_compatibility (alone ev)))) (\<lambda>digest.
              bind_h (snapshot_h (alone ev)) (\<lambda>snapshot.
              bind_h (write_success (alone ev) (rq_request_id hello_request) (ResHello digest snapshot)) (\<lambda>_.
              bind_h (read_request (alone ev)) (\<lambda>(request, payload).
                case check_request (ev_compatibility (alone ev)) (intent = ''observe'') request payload of
                  Some e \<Rightarrow> then_none (write_failure (alone ev) (rq_request_id request) e)
                | None \<Rightarrow> ret (Some \<lparr>di_connection_id = connection_id, di_peer_pid = pid,
                    di_peer_process_start_id = start_id, di_request = request\<rparr>))))))
            (handshake_ends ev w own t c limited)" if "\<not> limited" "intent = ''activate'' \<or> intent = ''observe''" for forced
        proof (cases "rq_compatibility hello_request = ev_compatibility (alone ev)
              \<and> \<not> (sha256 \<noteq> pc_executable_sha256 (ss_process ?s) \<or> version \<noteq> pc_executable_version (ss_process ?s)) \<and> \<not> forced")
          case True
          then have "compatible_hello ev ?s hello_request sha256 version" by (simp add: compatible_hello_def)
          from triple_accepted [OF that(1) auth this that(2)] True show ?thesis by (simp only: if_False simp_thms)
        next
          case False
          show ?thesis
          proof (cases "intent = ''observe''")
            case True
            show ?thesis unfolding if_P [OF False] if_P [OF True]
              by (rule triple_silent [OF silent_prims(1) triple_rejected failed running])
          next
            case observe: False
            with that(2) auth have "authenticated_hello ev t c hello_request ''activate'' sha256 version" by simp
            from triple_drained [OF that(1) this] show ?thesis unfolding if_P [OF False] if_not_P [OF observe] .
          qed
        qed
        have full: "triple (fixed w own t c') (bind_h (observe_h (alone ev) g)
            (\<lambda>e. then_none (write_failure (alone ev) request_id e))) (handshake_ends ev w own t c limited)" for g request_id
          by (rule triple_observe, rule triple_rejected)
        consider "intent \<noteq> ''activate'' \<and> intent \<noteq> ''observe''" | "intent = ''activate'' \<or> intent = ''observe''" limited
          | "intent = ''activate'' \<or> intent = ''observe''" "\<not> limited" "\<not> guard"
          | "intent = ''activate'' \<or> intent = ''observe''" "\<not> limited" guard by blast
        then show ?case
        proof cases
          case 1
          show ?thesis unfolding if_P [OF 1] by (rule triple_rejected)
        next
          case 2
          then have valid: "\<not> (intent \<noteq> ''activate'' \<and> intent \<noteq> ''observe'')" by blast
          show ?thesis unfolding if_not_P [OF valid] if_P [OF 2(2)] by (rule triple_observe, rule full)
        next
          case 3
          then have valid: "\<not> (intent \<noteq> ''activate'' \<and> intent \<noteq> ''observe'')" by blast
          show ?thesis unfolding if_not_P [OF valid] if_not_P [OF 3(2)] if_P [OF 3(3)] by (rule full)
        next
          case 4
          then have valid: "\<not> (intent \<noteq> ''activate'' \<and> intent \<noteq> ''observe'')" and guard: "\<not> \<not> guard" by blast+
          show ?thesis unfolding if_not_P [OF valid] if_not_P [OF 4(2)] if_not_P [OF guard]
            by (rule triple_silent [OF silent_prims(4)], rule forced [OF 4(2,1)]) (use failed running in auto)
        qed
      qed
    qed (rule failed)
  qed (use failed running in \<open>auto\<close>)
qed

section \<open>Programs without loops end\<close>

definition ends :: "'a handler_m \<Rightarrow> bool" where
  "ends m \<longleftrightarrow> (\<forall>h. snd (m h) \<noteq> Running)"

lemma endsD: "ends m \<Longrightarrow> m h = (h', r) \<Longrightarrow> r \<noteq> Running"
  unfolding ends_def by (metis snd_conv)

lemma ends_bind: "ends m \<Longrightarrow> (\<And>x. ends (f x)) \<Longrightarrow> ends (bind_h m f)"
proof (unfold ends_def, rule allI, goal_cases)
  case (1 h)
  have "snd (m h) \<noteq> Running" using 1(1) by blast
  with 1(2) show ?case by (cases "m h"; cases "snd (m h)") (auto simp: bind_h_def)
qed

lemma ends_prims:
  "ends (ret x)" "ends (fail e)" "ends (lift_h r)" "ends (ask ev answer)" "ends (access ev f)" "ends (observe_h ev g)"
  "ends (read_request ev)" "ends (respond ev response payload)" "ends (poll_request ev reader)"
  by (simp_all add: ends_def ret_def fail_def lift_h_def ask_def access_def observe_h_def read_request_def respond_def
      poll_request_def Let_def split: sum.split prod.split)

lemma ends_stream:
  "ends (set_read_timeout ev ctx t)" "ends (set_write_timeout ev ctx t)" "ends (peer_is_alive ev ctx)"
  unfolding set_read_timeout_def set_write_timeout_def peer_is_alive_def
  by (rule ends_bind [OF ends_prims(4)]; simp add: ends_def ret_def fail_def split: option.split sum.split)+

lemma ends_guards:
  "ends (begin_pre_request ev)" "ends (admit ev request_class retry_after_ms)" "ends (register ev r)"
  by (auto simp: ends_def begin_pre_request_def admit_def register_def Let_def split: prod.split sum.split bool.split)

lemma ends_engine:
  "ends (update_phase ev g phase)" "ends (open_engine ev)" "ends (engine_submit_h ev clone ref inputs p)"
  "ends (new_context ev request_id scope_id retry_after_ms)" "ends (cancel_context ev ref)"
  unfolding update_phase_def open_engine_def engine_submit_h_def new_context_def cancel_context_def
  by (simp_all add: ends_bind ends_prims split: option.split)

lemma ends_writers:
  "ends (write_failure ev request_id e)" "ends (write_success ev request_id result)" "ends (write_deadline_invalid ev request_id)"
  "ends (write_deadline_exceeded ev request_id retry_after_ms request_class engine)"
  "ends (write_engine_failure ev request_id err)" "ends (write_anyhow_failure ev request_id any)"
  "ends (then_none (write_failure ev request_id e))" "ends (configure_server_operation_timeout ev deadline_ms)"
  "ends (snapshot_h ev)" "ends (instance_id_h ev)" "ends (deadline_start ev deadline_ms)"
  "ends (cancel_if_elapsed ev d ref)" "ends (cancel_if_peer_dead ev ref)"
  "ends (record_qualification_completed_tokens ev tokens sequence)"
  unfolding write_failure_def write_success_def write_deadline_invalid_def write_deadline_exceeded_def then_none_def
    write_engine_failure_def write_anyhow_failure_def configure_server_operation_timeout_def snapshot_h_def instance_id_h_def
    deadline_start_def cancel_if_elapsed_def cancel_if_peer_dead_def record_qualification_completed_tokens_def Let_def
  by (simp_all add: ends_bind ends_prims ends_stream ends_engine)

lemmas ends_ops = ends_prims ends_stream ends_guards ends_engine ends_writers

lemma ends_finally: "ends m \<Longrightarrow> ends (finally_h m c)"
  by (simp add: ends_def finally_h_def split: prod.split outcome.split) (metis snd_conv)

lemma ends_handshake: "ends (handshake ev limited guard)"
proof -
  have "ends (\<lambda>h. lift_h (transport_peer (hn_identity h)) h)"
    by (simp add: ends_def lift_h_def ret_def fail_def split: sum.split)
  then show ?thesis
    unfolding handshake_def Let_def by (simp add: ends_bind ends_ops split_beta split: option.split)
qed

section \<open>Whole connections\<close>

lemma begin_pre_request_alone:
  assumes "begin_pre_request (alone ev) h = (h', r)" and "hn_own h = no_holds"
  shows "hn_identity h' = hn_identity h" "hn_stream h' = hn_stream h"
    "r = Returned True \<and> ss_pre_request_connections (hn_state h) < SERVER_CONTROL_CONNECTION_RESERVE
       \<and> hn_own h' = no_holds\<lparr>own_pre := True\<rparr>
       \<and> hn_world h' = (hn_world h)\<lparr>sw_state := (hn_state h)\<lparr>ss_pre_request_connections :=
           ss_pre_request_connections (hn_state h) + 1\<rparr>, sw_pre_requests := sw_pre_requests (hn_world h) + 1\<rparr>
     \<or> r = Returned False \<and> hn_own h' = no_holds \<and> hn_world h' = hn_world h"
  using assms by (auto simp: begin_pre_request_def try_begin_pre_request_def Let_def split: if_splits)

lemma drop_pre_request_restores:
  assumes "n < SERVER_CONTROL_CONNECTION_RESERVE" and "ss_pre_request_connections s = n"
  shows "drop_pre_request_guard (s\<lparr>ss_pre_request_connections := n + 1\<rparr>) = s"
proof -
  have "n + 1 \<le> u64_max" using assms(1) by (simp add: SERVER_CONTROL_CONNECTION_RESERVE_def u64_max_def)
  then show ?thesis using assms(2) by (simp add: drop_pre_request_guard_def wrap_sub64_exact)
qed

lemma true_idle_pre_request [simp]: "true_idle (s\<lparr>ss_pre_request_connections := n\<rparr>) = true_idle s"
  by (simp add: true_idle_def initialized_engine_def engine_snapshot_of_def split: option.split)

lemma still_serve_snapshot: "still (serve_snapshot (alone ev) request_id)"
  unfolding serve_snapshot_def by (intro still_bind still_prims still_writers)

lemma still_dispatch_snapshot: "rq_operation (di_request di) = OpSnapshot \<Longrightarrow> still (dispatch (alone ev) di)"
  by (simp add: dispatch_def still_serve_snapshot)

text \<open>The handshake with the pre-request guard around it.\<close>

definition guarded_handshake :: "handler_env \<Rightarrow> bool \<Rightarrow> dispatched option handler_m" where
  "guarded_handshake ev limited =
     bind_h (if limited then ret False else begin_pre_request ev) (\<lambda>pre_request_guard.
       finally_h (handshake ev limited pre_request_guard) (drop_pre_request ev))"

lemma bind_h_assoc: "bind_h (bind_h m f) g = bind_h m (\<lambda>x. bind_h (f x) g)"
  by (rule ext) (simp add: bind_h_def split: prod.split outcome.split)

lemma serve_embedding_connection_inner_split:
  "serve_embedding_connection_inner ev limited =
     bind_h (guarded_handshake ev limited) (\<lambda>next. case next of None \<Rightarrow> ret () | Some di \<Rightarrow> dispatch ev di)"
  by (simp add: serve_embedding_connection_inner_def guarded_handshake_def bind_h_assoc)

lemma drop_pre_request_alone:
  "hn_world (fst (drop_pre_request (alone ev) h)) =
     (if own_pre (hn_own h) then (hn_world h)\<lparr>sw_state := drop_pre_request_guard (hn_state h),
        sw_pre_requests := sw_pre_requests (hn_world h) - 1\<rparr> else hn_world h)"
  "hn_own (fst (drop_pre_request (alone ev) h)) = (hn_own h)\<lparr>own_pre := False\<rparr>"
  by (simp_all add: drop_pre_request_def Let_def)

lemma guarded_handshake_ends:
  assumes run: "guarded_handshake (alone ev) limited h = (h', r)" and own: "hn_own h = no_holds"
  shows "hn_world h' = hn_world h \<and> (\<forall>di. r = Returned (Some di) \<longrightarrow> \<not> limited \<and> (\<exists>hello_request intent sha256 version.
        authenticated_hello ev (hn_identity h) (hn_stream h) hello_request intent sha256 version
        \<and> compatible_hello ev (hn_state h) hello_request sha256 version
        \<and> (intent = ''activate'' \<or> intent = ''observe'' \<and> rq_operation (di_request di) = OpSnapshot)))
    \<or> \<not> limited \<and> (\<forall>di. r \<noteq> Returned (Some di)) \<and> true_idle (hn_state h)
      \<and> (\<exists>hello_request sha256 version.
           authenticated_hello ev (hn_identity h) (hn_stream h) hello_request ''activate'' sha256 version)"
proof -
  let ?w = "hn_world h" and ?n = "ss_pre_request_connections (hn_state h)"
  let ?took = "\<lambda>h1. hn_own h1 = no_holds\<lparr>own_pre := True\<rparr> \<and> ?n < SERVER_CONTROL_CONNECTION_RESERVE
      \<and> hn_world h1 = ?w\<lparr>sw_state := (hn_state h)\<lparr>ss_pre_request_connections := ?n + 1\<rparr>,
          sw_pre_requests := sw_pre_requests ?w + 1\<rparr>"
  let ?none = "\<lambda>h1. hn_own h1 = no_holds \<and> hn_world h1 = ?w"
  have "\<exists>h1 guard. (if limited then ret False else begin_pre_request (alone ev)) h = (h1, Returned guard)
      \<and> hn_identity h1 = hn_identity h \<and> hn_stream h1 = hn_stream h \<and> (?took h1 \<or> ?none h1)"
  proof (cases limited)
    case True
    with own show ?thesis by (intro exI [of _ h] exI [of _ False]) (simp add: ret_def)
  next
    case False
    obtain h1 r1 where h1: "begin_pre_request (alone ev) h = (h1, r1)" by fastforce
    from begin_pre_request_alone [OF h1 own] h1 False show ?thesis by auto
  qed
  then obtain h1 guard where begun: "(if limited then ret False else begin_pre_request (alone ev)) h = (h1, Returned guard)"
    and same: "hn_identity h1 = hn_identity h" "hn_stream h1 = hn_stream h" and held: "?took h1 \<or> ?none h1" by blast
  obtain h2 r2 where shaken: "handshake (alone ev) limited guard h1 = (h2, r2)" by fastforce
  have "fixed (hn_world h1) (hn_own h1) (hn_identity h) (hn_stream h) h1" by (simp add: fixed_def same)
  note over = tripleD [OF triple_handshake this shaken]
  have "r2 \<noteq> Running" using ends_handshake shaken by (rule endsD)
  then have h': "h' = fst (drop_pre_request (alone ev) h2)" "r = r2"
    using run begun shaken by (auto simp: guarded_handshake_def bind_h_def finally_h_def split: outcome.splits)
  have own2: "hn_own h2 = hn_own h1" using over by (simp add: handshake_ends_def)
  have facts: "true_idle (hn_state h1) = true_idle (hn_state h)" "ss_process (hn_state h1) = ss_process (hn_state h)"
    using held by auto
  have restored: "hn_world h' = ?w" if "hn_world h2 = hn_world h1"
    using held that own2 drop_pre_request_restores [of ?n "hn_state h"]
    by (auto simp: h' drop_pre_request_alone no_holds_def)
  from over show ?thesis
    unfolding handshake_ends_def h'(2) using restored facts by (auto simp: compatible_hello_def)
qed

context serving
begin

lemma connection_run:
  assumes "serve_embedding_connection ev h = (h', r) \<or> serve_embedding_connection_at_handler_capacity ev h = (h', r)"
    and "hn_own h = no_holds"
  shows "server_reaches (hn_world h) (hn_world h') \<and> holds_ok (hn_own h') (hn_world h') \<and> (r = Running \<or> hn_own h' = no_holds)"
proof -
  have deliver: "keeps no_holds (finish_embedding_response_delivery ev)"
    unfolding finish_embedding_response_delivery_def by (simp add: keeps_bind keeps_ops split: option.split)
  obtain limited where run: "bind_h (serve_embedding_connection_inner ev limited)
      (\<lambda>_. finish_embedding_response_delivery ev) h = (h', r)"
    using assms(1) by (auto simp: serve_embedding_connection_def serve_embedding_connection_at_handler_capacity_def)
  have "keeps no_holds (bind_h (serve_embedding_connection_inner ev limited) (\<lambda>_. finish_embedding_response_delivery ev))"
    by (intro keeps_bind keeps_connection deliver) simp
  then have "runs no_holds (bind_h (serve_embedding_connection_inner ev limited) (\<lambda>_. finish_embedding_response_delivery ev))
      (\<lambda>_ own. own = no_holds)" by (simp add: keeps_def)
  note runD = runsD [OF this run assms(2)]
  have "holds_ok no_holds (hn_world h)" by (simp add: holds_ok_def no_holds_def)
  with runD show ?thesis by (cases r) auto
qed

end

text \<open>C3: a connection handler takes steps of the server's transition system and nothing else: run
  beside any threads that keep to the contract of \<open>serving\<close>, from any reachable server, it stays
  on reachable states of the interleaving model, whose invariants therefore hold for the code of
  every handler; and a handler that has returned, by whatever path, holds no pre-request slot,
  permit, request guard or lease.\<close>

theorem handler_takes_server_steps:
  assumes "serving ev" and "server_reaches (world_start (server_start instance_id now authority config)) (hn_world h)"
    and "hn_own h = no_holds"
    and "serve_embedding_connection ev h = (h', r) \<or> serve_embedding_connection_at_handler_capacity ev h = (h', r)"
  shows "server_reaches (world_start (server_start instance_id now authority config)) (hn_world h')
    \<and> holds_ok (hn_own h') (hn_world h') \<and> (r = Running \<or> hn_own h' = no_holds)"
  using serving.connection_run [OF assms(1,4,3)] assms(2) serving.server_reaches_trans [OF assms(1)] by blast

text \<open>C4: only an authenticated activation moves the server: a connection served alone leaves the
  whole server as it found it, pre-request slot included, unless its peer is verified by the
  transport, its hello names that very process and asks to activate, and either its contract and
  executable are the server's own or the server was idle (and then drains). An observer, an
  unauthenticated or incompatible peer of a busy server, and every connection beyond the handler
  capacity are read-only.\<close>

theorem only_activation_moves_server:
  assumes "serve_embedding_connection_inner (alone ev) limited h = (h', r)" and "hn_own h = no_holds"
    and "hn_world h' \<noteq> hn_world h"
  shows "\<not> limited \<and> (\<exists>hello_request sha256 version.
     authenticated_hello ev (hn_identity h) (hn_stream h) hello_request ''activate'' sha256 version
     \<and> (compatible_hello ev (hn_state h) hello_request sha256 version \<or> true_idle (hn_state h)))"
proof -
  obtain h1 r1 where shaken: "guarded_handshake (alone ev) limited h = (h1, r1)" by fastforce
  note over = guarded_handshake_ends [OF shaken assms(2)]
  show ?thesis
  proof (cases "\<exists>di. r1 = Returned (Some di)")
    case True
    then obtain di where di: "r1 = Returned (Some di)" ..
    from over di obtain hello_request intent sha256 version where world: "hn_world h1 = hn_world h" and "\<not> limited"
      and hello: "authenticated_hello ev (hn_identity h) (hn_stream h) hello_request intent sha256 version"
        "compatible_hello ev (hn_state h) hello_request sha256 version"
      and intent: "intent = ''activate'' \<or> intent = ''observe'' \<and> rq_operation (di_request di) = OpSnapshot" by blast
    have run: "dispatch (alone ev) di h1 = (h', r)"
      using assms(1) shaken di by (simp add: serve_embedding_connection_inner_split bind_h_def)
    have "rq_operation (di_request di) \<noteq> OpSnapshot"
      using stillD(1) [OF still_dispatch_snapshot run] world assms(3) by auto
    with intent hello \<open>\<not> limited\<close> show ?thesis by blast
  next
    case False
    then have "hn_world h' = hn_world h1"
      using assms(1) shaken
      by (auto simp: serve_embedding_connection_inner_split bind_h_def ret_def split: outcome.splits option.splits)
    with over assms(3) show ?thesis by auto
  qed
qed

section \<open>Deadlines\<close>

text \<open>Every program moves the handler's tick forward; a pass of the polling loop moves it at all.\<close>

definition ticks :: "'a handler_m \<Rightarrow> bool" where
  "ticks m \<longleftrightarrow> (\<forall>h. hn_tick h \<le> hn_tick (fst (m h)))"

lemma ticksD: "ticks m \<Longrightarrow> m h = (h', r) \<Longrightarrow> hn_tick h \<le> hn_tick h'"
  unfolding ticks_def by (metis fst_conv)

lemma ticks_bind: "ticks m \<Longrightarrow> (\<And>x. ticks (f x)) \<Longrightarrow> ticks (bind_h m f)"
proof (unfold ticks_def, rule allI, goal_cases)
  case (1 h)
  obtain h1 r1 where m: "m h = (h1, r1)" by fastforce
  have "hn_tick h \<le> hn_tick h1" using 1(1) m by (metis fst_conv)
  then show ?case using 1(2) m by (cases r1) (auto simp: bind_h_def intro: order_trans)
qed

lemma ticks_prims:
  "ticks (ret x)" "ticks (fail e)" "ticks (ask ev answer)" "ticks (access ev f)" "ticks (observe_h ev g)"
  by (simp_all add: ticks_def ret_def fail_def ask_def access_def observe_h_def others_def Let_def split_beta)

lemma ticks_ops:
  "ticks (update_phase ev g phase)" "ticks (cancel_context ev ref)" "ticks (peer_is_alive ev ctx)"
  "ticks (cancel_if_elapsed ev d ref)" "ticks (cancel_if_peer_dead ev ref)"
proof -
  show c: "ticks (cancel_context ev ref)" by (simp add: cancel_context_def ticks_prims)
  show p: "ticks (peer_is_alive ev ctx)" for ctx
    unfolding peer_is_alive_def by (rule ticks_bind [OF ticks_prims(3)]) (simp add: ticks_prims split: sum.split)
  show "ticks (update_phase ev g phase)" by (simp add: update_phase_def ticks_prims split: option.split)
  show "ticks (cancel_if_elapsed ev d ref)" "ticks (cancel_if_peer_dead ev ref)"
    unfolding cancel_if_elapsed_def cancel_if_peer_dead_def by (auto intro!: ticks_bind ticks_prims c p)
qed

abbreviation past :: "nat \<Rightarrow> handler_state \<Rightarrow> bool" where
  "past T h \<equiv> T \<le> hn_tick h"

abbreviation not_running :: "'a outcome \<Rightarrow> handler_state \<Rightarrow> bool" where
  "not_running r h \<equiv> r \<noteq> Running"

lemma triple_ends: "ends m \<Longrightarrow> triple P m not_running"
  by (simp add: triple_def ends_def)

lemma triple_ticks:
  assumes "ticks m" and "ends m" and "\<And>x. triple (past T) (f x) not_running"
  shows "triple (past T) (bind_h m f) not_running"
  by (rule triple_bind [where Q = "\<lambda>r h. past T h \<and> r \<noteq> Running"])
    (use assms in \<open>auto simp: triple_def ticks_def ends_def intro: order_trans\<close>)

lemma triple_elapsed:
  assumes late: "\<forall>k \<ge> N. dl_timeout d \<le> elapsed_since (ev_now ev k) (dl_started_ns d)"
    and "triple (past T) (f True) not_running" and "T < N \<Longrightarrow> triple (past T) (f False) not_running"
  shows "triple (past T) (bind_h (cancel_if_elapsed ev d ref) f) not_running"
proof (rule tripleI, goal_cases)
  case (1 h h' r)
  obtain h1 r1 where m: "cancel_if_elapsed ev d ref h = (h1, r1)" by fastforce
  have ends: "r1 \<noteq> Running" using m by (rule endsD [OF ends_writers(12)])
  have tick: "past T h1" using 1(1) ticksD [OF ticks_ops(4) m] by simp
  have "T < N" if "r1 = Returned False"
  proof (rule ccontr)
    assume "\<not> T < N"
    then have "dl_timeout d \<le> elapsed_since (ev_now ev (hn_tick h)) (dl_started_ns d)" using late 1(1) by auto
    then show False
      using m that by (auto simp: cancel_if_elapsed_def bind_h_def ask_def cancel_context_def access_def ret_def Let_def
          split: prod.splits)
  qed
  then show ?case
    using 1(2) m ends tick tripleD [OF assms(2)] tripleD [OF assms(3)]
    by (cases r1) (auto simp: bind_h_def split: prod.splits, metis (full_types))
qed

lemma ends_deliver_vectors: "ends (deliver_vectors ev q d ref g engine completion)"
  unfolding deliver_vectors_def by (simp add: ends_bind ends_ops)

lemma bind_observe: "bind_h (observe_h ev g) f h = f (g (hn_state (others ev h))) (others ev h)"
  by (simp add: bind_h_def observe_h_def access_def Let_def)

text \<open>A loop that is allowed one pass beyond the moment from which the clock shows the deadline
  returns.\<close>

lemma request_loop_ends:
  assumes late: "\<forall>k \<ge> N. dl_timeout d \<le> elapsed_since (ev_now ev k) (dl_started_ns d)"
    and "0 < n" and "N < hn_tick h + n"
  shows "snd (request_loop n ev q d ref g engine h) \<noteq> Running"
  using assms(2,3)
proof (induction n arbitrary: h)
  case (Suc n)
  let ?T = "Suc (hn_tick h)"
  have rest: "triple (past ?T) (request_loop n ev q d ref g engine) not_running" if "?T < N"
    using Suc.IH Suc.prems(2) that by (auto simp: triple_def)
  let ?body = "\<lambda>phase. bind_h (update_phase ev g phase) (\<lambda>_.
     bind_h (cancel_if_elapsed ev d ref) (\<lambda>elapsed.
       if elapsed then
         bind_h (cancel_context ev ref) (\<lambda>_.
           write_deadline_exceeded ev (sq_request_id q) (sq_retry_after_ms q) (sq_request_class q) (Some engine))
       else
         bind_h (cancel_if_peer_dead ev ref) (\<lambda>dead.
           if dead then bind_h (cancel_context ev ref) (\<lambda>_. ret ())
           else
             bind_h (ask ev (ev_recv ev)) (\<lambda>r.
               case r of
                 Inl e \<Rightarrow> write_engine_failure ev (sq_request_id q) e
               | Inr (Some (Inl e)) \<Rightarrow> write_engine_failure ev (sq_request_id q) e
               | Inr (Some (Inr completion)) \<Rightarrow> deliver_vectors ev q d ref g engine completion
               | Inr None \<Rightarrow>
                   bind_h (ask ev (\<lambda>_. ())) (\<lambda>_. request_loop n ev q d ref g engine)))))"
  have received: "triple (past ?T) (case r of
      Inl e \<Rightarrow> write_engine_failure ev (sq_request_id q) e
    | Inr (Some (Inl e)) \<Rightarrow> write_engine_failure ev (sq_request_id q) e
    | Inr (Some (Inr completion)) \<Rightarrow> deliver_vectors ev q d ref g engine completion
    | Inr None \<Rightarrow> bind_h (ask ev (\<lambda>_. ())) (\<lambda>_. request_loop n ev q d ref g engine)) not_running" if "?T < N" for r
    using rest [OF that] triple_ticks [OF ticks_prims(3) ends_prims(4)]
    by (auto intro: triple_ends ends_writers ends_deliver_vectors split: sum.split option.split)
  have body: "triple (past ?T) (?body phase) not_running" for phase
  proof (rule triple_ticks [OF ticks_ops(1) ends_engine(1)], rule triple_elapsed [OF late], goal_cases)
    case 1
    show ?case unfolding if_True by (rule triple_ends) (simp add: ends_bind ends_ops)
  next
    case 2
    show ?case unfolding if_False
    proof (rule triple_ticks [OF ticks_ops(5) ends_writers(13)], goal_cases)
      case (1 dead)
      show ?case
      proof (cases dead)
        case True
        then show ?thesis by (simp add: triple_ends ends_bind ends_ops)
      next
        case False
        show ?thesis unfolding if_not_P [OF False]
          by (rule triple_ticks [OF ticks_prims(3) ends_prims(4)], rule received [OF 2])
      qed
    qed
  qed
  have "request_loop (Suc n) ev q d ref g engine h = ?body (context_phase (ss_contexts (hn_state (others ev h)) ref)) (others ev h)"
    by (simp only: request_loop.simps bind_observe)
  moreover have "past ?T (others ev h)" by (simp add: others_def)
  ultimately show ?case using body unfolding triple_def by metis
qed simp

lemma ends_serve_from:
  assumes late: "\<forall>k \<ge> N. dl_timeout d \<le> elapsed_since (ev_now ev k) (dl_started_ns d)" and "N < ev_fuel ev"
  shows "ends (run_embedding_request ev q d ref g)"
proof -
  have "ends (request_loop (ev_fuel ev) ev q d ref g engine)" for engine
    unfolding ends_def using request_loop_ends [OF late] assms(2) by auto
  then show ?thesis
    unfolding run_embedding_request_def
    by (simp add: ends_bind ends_ops split: sum.split EmbeddingRequestClass.split)
qed

text \<open>C22: an embedding request ends: whatever the engine answers, the other threads do and the
  stream fails with, once the clock stays past the deadline counted from the handler's own first
  reading, polling that moment's number of times and once more is enough for the handler to
  return, with its guard and permit dropped on the way.\<close>

theorem request_ends_by_deadline:
  assumes "\<forall>k \<ge> N. ev_now ev (hn_tick h) + sq_deadline_ms q * 1000000 \<le> ev_now ev k" and "N < ev_fuel ev"
  shows "snd (serve_embedding_request ev connection_id q h) \<noteq> Running"
proof (cases "sq_deadline_ms q = 0")
  case True
  then show ?thesis using ends_writers(3) by (simp add: serve_embedding_request_def ends_def)
next
  case False
  let ?d = "\<lparr>dl_started_ns = ev_now ev (hn_tick h), dl_timeout = sq_deadline_ms q * 1000000\<rparr>"
  have late: "\<forall>k \<ge> N. dl_timeout ?d \<le> elapsed_since (ev_now ev k) (dl_started_ns ?d)"
    using assms(1) by (auto simp: elapsed_since_def sat_sub_def)
  note run = ends_serve_from [OF late assms(2)]
  define rest where "rest = bind_h (new_context ev (sq_request_id q) (sq_scope_id q) (sq_retry_after_ms q)) (\<lambda>ref.
      case request_cancellation_auth ev q of
        None \<Rightarrow> write_failure ev (sq_request_id q) (protocol_error ''embedding_server_cancel_token_invalid''
          ''embedding cancellation requires an unguessable token'')
      | Some auth \<Rightarrow> bind_h (configure_server_operation_timeout ev (sq_deadline_ms q)) (\<lambda>_.
          admitted_embedding_request ev connection_id q ?d ref auth))"
  have "ends rest"
    unfolding rest_def admitted_embedding_request_def registered_embedding_request_def
    by (simp add: ends_finally ends_bind ends_ops run split: option.split sum.split)
  moreover have "serve_embedding_request ev connection_id q h = rest (others ev h)"
    using False by (simp add: serve_embedding_request_def rest_def deadline_start_def bind_h_def ask_def ret_def)
  ultimately show ?thesis by (simp add: ends_def)
qed

section \<open>Lease connections\<close>

definition pinned_reply :: "EmbeddingEngineLeaseIdentity \<Rightarrow> EmbeddingProtocolResponse \<Rightarrow> bool" where
  "pinned_reply lease response \<longleftrightarrow>
     (\<exists>request_id server identity. response = success_response request_id (ResSnapshot server (Some lease) (Some identity))
        \<and> ei_server_instance_id identity = le_server_instance_id lease
        \<and> ei_load_generation identity = le_load_generation lease)"

definition last_reply :: "EmbeddingProtocolResponse \<Rightarrow> bool" where
  "last_reply response \<longleftrightarrow> rp_error response \<noteq> None \<or> rp_result response = Some ResReleased"

definition mute :: "'a handler_m \<Rightarrow> bool" where
  "mute m \<longleftrightarrow> (\<forall>h. hn_sent (fst (m h)) = hn_sent h)"

abbreviation sent :: "EmbeddingProtocolResponse list \<Rightarrow> handler_state \<Rightarrow> bool" where
  "sent S h \<equiv> hn_sent h = S"

lemma mute_bind: "mute m \<Longrightarrow> (\<And>x. mute (f x)) \<Longrightarrow> mute (bind_h m f)"
  by (simp add: mute_def bind_h_def split: prod.split outcome.split) (metis fst_conv)

lemma mute_prims:
  "mute (ret x)" "mute (fail e)" "mute (lift_h r)" "mute (ask ev answer)" "mute (observe_h ev g)"
  "mute (poll_request ev reader)" "mute (drop_lease ev)"
  by (auto simp: mute_def ret_def fail_def lift_h_def ask_def observe_h_def access_def poll_request_def drop_lease_def others_def
      Let_def split: sum.split prod.split)

lemma mute_ops: "mute (peer_is_alive ev ctx)" "mute (snapshot_h ev)" "mute (instance_id_h ev)"
  unfolding peer_is_alive_def snapshot_h_def instance_id_h_def
  by (auto intro!: mute_bind mute_prims split: sum.split)

lemma triple_mute:
  assumes "mute m" and "ends m" and "\<And>x. triple (sent S) (f x) R" and "\<And>e h. sent S h \<Longrightarrow> R (Failed e) h"
  shows "triple (sent S) (bind_h m f) R"
  by (rule triple_bind [where Q = "\<lambda>r h. sent S h \<and> r \<noteq> Running"])
    (use assms in \<open>auto simp: triple_def mute_def ends_def\<close>)

lemma triple_respond:
  assumes "triple (sent (S @ [response])) f R" and "\<And>e h. sent S h \<Longrightarrow> R (Failed e) h"
  shows "triple (sent S) (bind_h (respond ev response payload) (\<lambda>_. f)) R"
  by (rule triple_bind [where Q = "\<lambda>r h. case r of Returned _ \<Rightarrow> sent (S @ [response]) h | Failed _ \<Rightarrow> sent S h | Running \<Rightarrow> False"])
    (use assms in \<open>auto simp: triple_def respond_def split: sum.split\<close>)

text \<open>One frame of a lease connection.\<close>

definition lease_step_ends ::
  "EmbeddingEngineLeaseIdentity \<Rightarrow> EmbeddingProtocolResponse list \<Rightarrow> bool outcome \<Rightarrow> handler_state \<Rightarrow> bool" where
  "lease_step_ends lease S r h \<longleftrightarrow>
     (r = Returned True \<and> (\<exists>response. pinned_reply lease response \<and> hn_sent h = S @ [response]))
     \<or> r \<noteq> Returned True \<and> r \<noteq> Running \<and> (hn_sent h = S \<or> (\<exists>response. last_reply response \<and> hn_sent h = S @ [response]))"

lemma lease_step_last:
  "last_reply response \<Longrightarrow> triple (sent S) (bind_h (respond ev response payload) (\<lambda>_. ret False)) (lease_step_ends lease S)"
  by (rule triple_respond) (auto simp: triple_def ret_def lease_step_ends_def)

lemma triple_lease_snapshot: "triple (sent S) (lease_snapshot ev lease next) (lease_step_ends lease S)"
proof -
  have failed: "lease_step_ends lease S (Failed e) h" if "sent S h" for e h
    using that by (simp add: lease_step_ends_def)
  have changed: "last_reply (failure_response request_id e)" for request_id e
    by (simp add: last_reply_def failure_response_def)
  have pinned: "triple (sent S) (bind_h (snapshot_h ev) (\<lambda>server.
      bind_h (write_success ev (rq_request_id next) (ResSnapshot server (Some lease) (Some identity))) (\<lambda>_. ret True)))
      (lease_step_ends lease S)"
    if "\<not> (ei_server_instance_id identity \<noteq> le_server_instance_id lease
          \<or> ei_load_generation identity \<noteq> le_load_generation lease)" for identity
    unfolding write_success_def
    by (rule triple_mute [OF mute_ops(2) ends_writers(9)], rule triple_respond)
      (use that failed in \<open>auto simp: triple_def ret_def lease_step_ends_def pinned_reply_def\<close>)
  show ?thesis
    unfolding lease_snapshot_def
    by (intro triple_mute mute_prims ends_prims mute_ops ends_writers(10) failed)
      (use pinned lease_step_last [OF changed] in \<open>auto simp: write_failure_def\<close>)
qed

lemma triple_lease_request: "triple (sent S) (lease_request ev compatibility lease next payload) (lease_step_ends lease S)"
proof -
  have failed: "lease_step_ends lease S (Failed e) h" if "sent S h" for e h
    using that by (simp add: lease_step_ends_def)
  have over: "triple (sent S) (ret False) (lease_step_ends lease S)"
    by (simp add: triple_def ret_def lease_step_ends_def)
  have invalid: "triple (sent S) (bind_h (write_failure ev request_id e) (\<lambda>_. ret False)) (lease_step_ends lease S)" for request_id e
    unfolding write_failure_def by (rule lease_step_last) (simp add: last_reply_def failure_response_def)
  have ends_drop: "ends (drop_lease ev)" by (simp add: ends_def)
  have release: "triple (sent S) (bind_h (drop_lease ev) (\<lambda>_.
      bind_h (write_success ev request_id ResReleased) (\<lambda>_. ret False))) (lease_step_ends lease S)" for request_id
    unfolding write_success_def
    by (rule triple_mute [OF mute_prims(7) ends_drop lease_step_last failed])
      (simp_all add: last_reply_def success_response_def)
  show ?thesis
    unfolding lease_request_def Let_def
  proof (cases "payload \<noteq> []", goal_cases)
    case 1
    then show ?case by (simp add: over)
  next
    case 2
    show ?case unfolding if_not_P [OF 2]
    proof (rule triple_mute [OF mute_prims(3) ends_prims(3)], goal_cases)
      case (1 x)
      show ?case using over invalid release triple_lease_snapshot by (auto split: EmbeddingOperation.split)
    qed (rule failed)
  qed
qed

text \<open>What a lease connection has sent since \<open>S\<close>: replies on its lease, then at most one last reply.\<close>

definition pinned_since :: "EmbeddingEngineLeaseIdentity \<Rightarrow> EmbeddingProtocolResponse list \<Rightarrow> handler_state \<Rightarrow> bool" where
  "pinned_since lease S h' \<longleftrightarrow> (\<exists>replies final. hn_sent h' = S @ replies @ final
     \<and> list_all (pinned_reply lease) replies \<and> list_all last_reply final \<and> length final \<le> 1)"

lemma pinned_since_same: "sent S h' \<Longrightarrow> pinned_since lease S h'"
  unfolding pinned_since_def by (intro exI [of _ "[]"]) simp

lemma pinned_since_more:
  assumes "pinned_since lease (S @ [response]) h'" and "pinned_reply lease response"
  shows "pinned_since lease S h'"
proof -
  from assms(1) obtain replies final where "hn_sent h' = (S @ [response]) @ replies @ final"
    "list_all (pinned_reply lease) replies" "list_all last_reply final" "length final \<le> 1"
    unfolding pinned_since_def by blast
  with assms(2) show ?thesis
    unfolding pinned_since_def by (intro exI [of _ "response # replies"] exI [of _ final]) simp
qed

lemma pinned_since_over:
  assumes "lease_step_ends lease S r h'" and "r \<noteq> Returned True"
  shows "pinned_since lease S h'"
proof -
  consider "hn_sent h' = S @ []" | response where "last_reply response" "hn_sent h' = S @ [response]"
    using assms unfolding lease_step_ends_def by auto
  then obtain final where "hn_sent h' = S @ final" "list_all last_reply final" "length final \<le> 1"
    by cases fastforce+
  then show ?thesis unfolding pinned_since_def by (intro exI [of _ "[]"] exI [of _ final]) simp
qed

lemma pinned_after_request:
  assumes rest: "\<And>S. triple (sent S) m (\<lambda>r. pinned_since lease S)"
  shows "triple (sent S) (bind_h (lease_request ev compatibility lease nx payload)
    (\<lambda>continue. if continue then m else ret ())) (\<lambda>r. pinned_since lease S)"
proof (rule triple_bind [OF triple_lease_request], goal_cases)
  case (1 continue)
  show ?case
  proof (cases continue)
    case True
    show ?thesis unfolding if_P [OF True]
    proof (rule tripleI, goal_cases)
      case (1 h h' r)
      with True obtain response where "pinned_reply lease response" "sent (S @ [response]) h"
        by (auto simp: lease_step_ends_def)
      with tripleD [OF rest _ 1(2)] show ?case by (blast intro: pinned_since_more)
    qed
  next
    case False
    show ?thesis unfolding if_not_P [OF False]
      by (rule tripleI) (use pinned_since_over [of lease S "Returned continue"] False in \<open>simp add: ret_def\<close>)
  qed
qed (use pinned_since_over in auto)

lemma lease_loop_pinned:
  "triple (sent S) (lease_loop n ev compatibility lease reader) (\<lambda>r. pinned_since lease S)"
proof (induction n arbitrary: S reader)
  case 0
  show ?case by (rule tripleI) (auto intro: pinned_since_same)
next
  case (Suc n)
  show ?case
    unfolding lease_loop.simps
  proof (rule triple_mute [OF mute_prims(6) ends_prims(9)], goal_cases)
    case (1 polled)
    have stop: "triple (sent S) (ret ()) (\<lambda>r. pinned_since lease S)"
      by (rule tripleI) (use pinned_since_same in \<open>auto simp: ret_def\<close>)
    have pending: "triple (sent S) (bind_h (peer_is_alive ev ctx) (\<lambda>alive.
        if alive then lease_loop n ev compatibility lease reader' else ret ())) (\<lambda>r. pinned_since lease S)" for ctx reader'
      by (rule triple_mute [OF mute_ops(1) ends_stream(3)]) (use Suc.IH stop pinned_since_same in auto)
    show ?case
      by (cases polled; cases "fst polled") (use pending pinned_after_request [OF Suc.IH] stop in auto)
  qed (rule pinned_since_same)
qed

text \<open>C23: a lease connection answers for the lease it granted: however the client polls, every reply
  but the last is a snapshot that carries that lease with the server instance and load generation
  it was granted on; the one other reply a connection can end with is the release or an error, so
  a lease whose engine was reloaded is never confirmed again.\<close>

theorem lease_replies_pinned:
  "\<exists>replies final. hn_sent (fst (lease_loop n ev compatibility lease reader h)) = hn_sent h @ replies @ final
    \<and> list_all (pinned_reply lease) replies \<and> list_all last_reply final \<and> length final \<le> 1"
  using lease_loop_pinned [of "hn_sent h" n ev compatibility lease reader]
  unfolding triple_def pinned_since_def by blast

section \<open>Witnesses\<close>

definition sample_digest :: string where
  "sample_digest = replicate 64 (CHR ''a'')"

text \<open>An activation by an executable the sample server was not built from.\<close>

definition sample_hello_request :: EmbeddingProtocolRequest where
  "sample_hello_request = protocol_request ''r'' sample_compatibility (OpHello ''activate'' 42 ''s'' sample_digest ''v'')"

definition sample_env :: handler_env where
  "sample_env =
     \<lparr>ev_now = (\<lambda>k. k * 1000000000), ev_others = (\<lambda>_ _ w. w), ev_timeout = (\<lambda>_. None), ev_alive = (\<lambda>_. Inr True),
      ev_finish_delivery = (\<lambda>_. None), ev_uuid = (\<lambda>_. ''u''), ev_ref = (\<lambda>k. k),
      ev_initialize = (\<lambda>_. Inl ModelNotEmbedded), ev_lifecycle = (\<lambda>_. Inl ModelNotEmbedded),
      ev_control = (\<lambda>_. Inl ModelNotEmbedded), ev_recv = (\<lambda>_. Inr None), ev_record_event = (\<lambda>_. Inr ()),
      ev_force_incompatible = (\<lambda>_. False), ev_qualified = False, ev_ser = (\<lambda>_. Inr [1]),
      ev_de = (\<lambda>_. Inr sample_hello_request), ev_digest = (\<lambda>_. Inr ''d''), ev_parse_uuid = (\<lambda>_. True),
      ev_scale = (\<lambda>_. None), ev_mul = (\<lambda>x _. x),
      ev_budgets = \<lparr>cb_connect = 1, cb_spawn = 1, cb_retry_after = 1, cb_query_request = 1, cb_bulk_request = 1\<rparr>,
      ev_clock = \<lparr>ck_domain = ''awake'', ck_api = ''clock'', ck_boot_id = ''b'', ck_resolution_ns = 1\<rparr>,
      ev_compatibility = sample_compatibility, ev_fuel = 10\<rparr>"

definition sample_handler :: handler_state where
  "sample_handler =
     \<lparr>hn_world = world_start sample_state, hn_identity = sample_transport,
      hn_stream = sample_connection (frame_bytes [1] []), hn_events = [], hn_read_timeout = None, hn_write_timeout = None,
      hn_tick = 0, hn_own = no_holds, hn_sent = []\<rparr>"

lemma sample_alone: "alone sample_env = sample_env"
  by (simp add: alone_def sample_env_def)

theorem handler_takes_server_steps_witness:
  "server_reaches (world_start sample_state) (hn_world (fst (serve_embedding_connection sample_env sample_handler)))
   \<and> (snd (serve_embedding_connection sample_env sample_handler) = Running
      \<or> hn_own (fst (serve_embedding_connection sample_env sample_handler)) = no_holds)"
proof -
  have "serving sample_env" using alone.serving_axioms [of sample_env] by (simp add: sample_alone)
  moreover have "server_reaches (world_start sample_state) (hn_world sample_handler)" "hn_own sample_handler = no_holds"
    by (simp_all add: sample_handler_def server_reaches_def)
  ultimately show ?thesis
    using handler_takes_server_steps [of sample_env "''i''" 0 _ sample_config sample_handler] unfolding sample_state_def
    by (metis prod.collapse)
qed

definition sample_request :: ServerEmbeddingRequest where
  "sample_request =
     \<lparr>sq_request_id = ''r'', sq_scope_id = ''p'', sq_request_class = Query, sq_deadline_ms = 5000, sq_retry_after_ms = 1,
      sq_cancel_token = None, sq_client_pid = 42, sq_client_process_start_id = ''s'', sq_inputs = [''q'']\<rparr>"

theorem request_ends_by_deadline_witness:
  "snd (serve_embedding_request sample_env ''c'' sample_request sample_handler) \<noteq> Running"
  by (rule request_ends_by_deadline [where N = 5])
    (simp_all add: sample_env_def sample_request_def sample_handler_def)

lemma sample_hello_read:
  "read_frame (ev_de sample_env) (sample_connection (frame_bytes [1] [])) = Inr ((sample_hello_request, []), sample_connection [])"
  by (subst read_frame_ok [where control = "[1]" and payload = "[]" and rest = "[]" and x = sample_hello_request])
    (simp_all add: sample_frame_ok sample_connection_def sample_env_def)

lemma sample_hello_checked: "check_hello 42 ''s'' sample_hello_request [] = Inr (''activate'', sample_digest, ''v'')"
proof -
  have "is_sha256 sample_digest"
    by (simp add: is_sha256_def sample_digest_def list_all_iff is_ascii_hexdigit_def is_lower_hex_def byte_def)
  moreover have "trim ''r'' = ''r''" by (simp add: trim_visible visible_def byte_def)
  ultimately show ?thesis
    by (simp add: check_hello_def sample_hello_request_def protocol_request_def validate_protocol_request_def sample_trims)
qed

text \<open>The handshake of the sample handler, up to the answer it writes.\<close>

lemma sample_ops:
  "bind_h (set_read_timeout sample_env ctx t) f h = f () (h\<lparr>hn_tick := hn_tick h + 1, hn_read_timeout := Some t\<rparr>)"
  "bind_h (set_write_timeout sample_env ctx t) f h = f () (h\<lparr>hn_tick := hn_tick h + 1, hn_write_timeout := Some t\<rparr>)"
  "bind_h (ask sample_env answer) k h = k (answer (hn_tick h)) (h\<lparr>hn_tick := hn_tick h + 1\<rparr>)"
  "bind_h (observe_h sample_env g) k' h = k' (g (hn_state h)) (h\<lparr>hn_tick := hn_tick h + 1\<rparr>)"
  "bind_h (access sample_env a) k'' h = k'' (snd (a (hn_state h)))
     (h\<lparr>hn_tick := hn_tick h + 1, hn_world := (hn_world h)\<lparr>sw_state := fst (a (hn_state h))\<rparr>\<rparr>)"
  by (simp_all add: bind_h_def set_read_timeout_def set_write_timeout_def ask_def observe_h_def access_def others_def
      sample_env_def split_beta)

lemma bind_lift_Inr: "bind_h (lift_h (Inr x)) f h = f x h"
  by (simp add: bind_h_def lift_h_def ret_def)

lemma rejected_world: "hn_world (fst (then_none (write_failure ev request_id e) h)) = hn_world h"
  using still_writers(3) unfolding still_def by blast

lemma sample_handshake:
  assumes "hn_identity h = sample_transport" "hn_stream h = sample_connection (frame_bytes [1] [])"
    and "ss_process (hn_state h) = ss_process sample_state"
  shows "hn_state (fst (handshake sample_env False True h)) = fst (begin_draining_if_idle (hn_state h))"
proof -
  have peer: "bind_h (\<lambda>h. lift_h (transport_peer (hn_identity h)) h) f h = f (42, ''s'') h" for f :: "_ \<Rightarrow> dispatched option handler_m"
    using assms(1) by (simp add: bind_h_def transport_peer_def sample_transport_def lift_h_def ret_def)
  have read: "bind_h (read_request sample_env) f g = f (sample_hello_request, []) (g\<lparr>hn_stream := sample_connection []\<rparr>)"
    if "hn_stream g = sample_connection (frame_bytes [1] [])" for f :: "_ \<Rightarrow> dispatched option handler_m" and g
    using that by (simp add: bind_h_def read_request_def sample_hello_read)
  have mismatch: "sample_digest \<noteq> pc_executable_sha256 (ss_process sample_state)"
  proof
    assume "sample_digest = pc_executable_sha256 (ss_process sample_state)"
    from arg_cong [OF this, of length] show False
      by (simp add: sample_state_def server_start_def sample_config_def sample_digest_def)
  qed
  show ?thesis
    unfolding handshake_def Let_def
    by (simp add: peer sample_ops read assms(2,3) bind_lift_Inr sample_hello_checked mismatch rejected_world)
qed

lemma sample_connection_drains:
  "ss_draining (hn_state (fst (serve_embedding_connection_inner (alone sample_env) False sample_handler)))"
proof -
  let ?s = "sample_state\<lparr>ss_pre_request_connections := 1\<rparr>"
  obtain h1 r1 where h1: "begin_pre_request (alone sample_env) sample_handler = (h1, r1)" by fastforce
  have own: "hn_own sample_handler = no_holds" by (simp add: sample_handler_def)
  have free: "try_begin_pre_request sample_state = (?s, True)"
    by (simp add: try_begin_pre_request_def sample_state_def server_start_def SERVER_CONTROL_CONNECTION_RESERVE_def)
  have begun: "hn_identity h1 = sample_transport" "hn_stream h1 = sample_connection (frame_bytes [1] [])"
      "r1 = Returned True" "hn_state h1 = ?s" "own_pre (hn_own h1)"
    using h1 free by (auto simp: begin_pre_request_def sample_handler_def world_start_def)
  obtain h2 r2 where h2: "handshake sample_env False True h1 = (h2, r2)" by fastforce
  have "hn_state h2 = fst (begin_draining_if_idle ?s)"
    using sample_handshake [OF begun(1,2)] h2 begun(4) by simp
  then have drains: "ss_draining (hn_state h2)"
    by (simp add: begin_draining_if_idle_def true_idle_def initialized_engine_def sample_state_def server_start_def
        admission_snapshot_def ServerRequestAdmission_default_def)
  have "fixed (hn_world h1) (hn_own h1) sample_transport (hn_stream h1) h1" by (simp add: fixed_def begun)
  from tripleD [OF triple_handshake [of _ _ _ _ sample_env, unfolded sample_alone] this h2] drains
  have "r2 \<noteq> Returned (Some di)" for di
    by (auto simp: handshake_ends_def begun(4) sample_state_def server_start_def)
  moreover have "r2 \<noteq> Running" by (rule endsD [OF ends_handshake h2])
  ultimately have "hn_world (fst (serve_embedding_connection_inner sample_env False sample_handler)) =
      hn_world (fst (drop_pre_request sample_env h2))"
    using h1 h2 begun(3)
    by (auto simp: serve_embedding_connection_inner_def bind_h_def finally_h_def sample_alone ret_def
        split: outcome.splits option.splits)
  then show ?thesis
    using drains by (simp add: sample_alone drop_pre_request_alone [of sample_env, unfolded sample_alone] drop_pre_request_guard_def)
qed

theorem only_activation_moves_server_witness:
  "\<exists>hello_request sha256 version.
     authenticated_hello sample_env sample_transport (sample_connection (frame_bytes [1] [])) hello_request ''activate'' sha256 version
     \<and> (compatible_hello sample_env sample_state hello_request sha256 version \<or> true_idle sample_state)"
proof -
  obtain h' r where run: "serve_embedding_connection_inner (alone sample_env) False sample_handler = (h', r)" by fastforce
  have "\<not> ss_draining (hn_state sample_handler)"
    by (simp add: sample_handler_def world_start_def sample_state_def server_start_def)
  then have "hn_world h' \<noteq> hn_world sample_handler" using sample_connection_drains run by auto
  from only_activation_moves_server [OF run _ this] show ?thesis
    by (simp add: sample_handler_def world_start_def)
qed

end
