(* ===== verification/Graph_Contracts.thy ===== *)
theory Graph_Contracts
  imports CS_Prelude
begin

text \<open>
  The source-graph contracts of \<^verbatim>\<open>codestory-contracts\<close>: the enums with their persisted
  integer discriminants and string labels, the mirrored API enums, nodes and edges with
  their effective endpoints, trail configuration and results, and the query AST.
  (\<^verbatim>\<open>src/graph.rs\<close>, \<^verbatim>\<open>src/graph/error.rs\<close>, \<^verbatim>\<open>src/api/types.rs\<close>, \<^verbatim>\<open>src/query.rs\<close>.)
  The codec facts at the end are interpretations of the prelude's \<open>codec\<close> interface.
\<close>

section \<open>Identifiers\<close>

datatype NodeId = NodeId (node_id_val: int)
datatype EdgeId = EdgeId (edge_id_val: int)

text \<open>\<^verbatim>\<open>derive(PartialOrd, Ord)\<close> on the newtypes: the order of the wrapped \<^verbatim>\<open>i64\<close>.\<close>

instantiation NodeId :: linorder
begin

definition less_eq_NodeId :: "NodeId \<Rightarrow> NodeId \<Rightarrow> bool" where
  "less_eq_NodeId a b \<longleftrightarrow> node_id_val a \<le> node_id_val b"

definition less_NodeId :: "NodeId \<Rightarrow> NodeId \<Rightarrow> bool" where
  "less_NodeId a b \<longleftrightarrow> node_id_val a < node_id_val b"

instance
  by standard (auto simp: less_eq_NodeId_def less_NodeId_def intro: NodeId.expand)

end

instantiation EdgeId :: linorder
begin

definition less_eq_EdgeId :: "EdgeId \<Rightarrow> EdgeId \<Rightarrow> bool" where
  "less_eq_EdgeId a b \<longleftrightarrow> edge_id_val a \<le> edge_id_val b"

definition less_EdgeId :: "EdgeId \<Rightarrow> EdgeId \<Rightarrow> bool" where
  "less_EdgeId a b \<longleftrightarrow> edge_id_val a < edge_id_val b"

instance
  by standard (auto simp: less_eq_EdgeId_def less_EdgeId_def intro: EdgeId.expand)

end

text \<open>\<^verbatim>\<open>Display\<close> of a node id.\<close>

definition node_id_display :: "NodeId \<Rightarrow> string" where
  "node_id_display i = show_int (node_id_val i)"

section \<open>Kinds and their discriminants\<close>

datatype NodeKind =
    NK_MODULE | NK_NAMESPACE | NK_PACKAGE | NK_FILE | NK_STRUCT
  | NK_CLASS | NK_INTERFACE | NK_ANNOTATION | NK_UNION | NK_ENUM
  | NK_TYPEDEF | NK_TYPE_PARAMETER | NK_BUILTIN_TYPE | NK_FUNCTION | NK_METHOD
  | NK_MACRO | NK_GLOBAL_VARIABLE | NK_FIELD | NK_VARIABLE | NK_CONSTANT
  | NK_ENUM_CONSTANT | NK_UNKNOWN

datatype EnumConversionError =
    InvalidNodeKind "32 word" | InvalidEdgeKind "32 word"
  | InvalidOccurrenceKind "32 word" | InvalidFileCoverageReason string

text \<open>
  \<^verbatim>\<open>usize::try_from\<close> fails on a negative \<^verbatim>\<open>i32\<close>, \<^verbatim>\<open>slice::get\<close> past the end.
\<close>

definition enum_from_i32 :: "32 word \<Rightarrow> 'a list \<Rightarrow> 'a option" where
  "enum_from_i32 v variants =
     (if sint v < 0 then None
      else let index = nat (sint v)
           in if index < length variants then Some (variants ! index) else None)"

text \<open>\<^verbatim>\<open>kind as i32\<close>: the declaration order of \<^verbatim>\<open>repr(i32)\<close>.\<close>

fun node_kind_as_i32 :: "NodeKind \<Rightarrow> 32 word" where
  "node_kind_as_i32 NK_MODULE = 0"
| "node_kind_as_i32 NK_NAMESPACE = 1"
| "node_kind_as_i32 NK_PACKAGE = 2"
| "node_kind_as_i32 NK_FILE = 3"
| "node_kind_as_i32 NK_STRUCT = 4"
| "node_kind_as_i32 NK_CLASS = 5"
| "node_kind_as_i32 NK_INTERFACE = 6"
| "node_kind_as_i32 NK_ANNOTATION = 7"
| "node_kind_as_i32 NK_UNION = 8"
| "node_kind_as_i32 NK_ENUM = 9"
| "node_kind_as_i32 NK_TYPEDEF = 10"
| "node_kind_as_i32 NK_TYPE_PARAMETER = 11"
| "node_kind_as_i32 NK_BUILTIN_TYPE = 12"
| "node_kind_as_i32 NK_FUNCTION = 13"
| "node_kind_as_i32 NK_METHOD = 14"
| "node_kind_as_i32 NK_MACRO = 15"
| "node_kind_as_i32 NK_GLOBAL_VARIABLE = 16"
| "node_kind_as_i32 NK_FIELD = 17"
| "node_kind_as_i32 NK_VARIABLE = 18"
| "node_kind_as_i32 NK_CONSTANT = 19"
| "node_kind_as_i32 NK_ENUM_CONSTANT = 20"
| "node_kind_as_i32 NK_UNKNOWN = 21"

definition NODE_KIND_BY_DISCRIMINANT :: "NodeKind list" where
  "NODE_KIND_BY_DISCRIMINANT =
    [NK_MODULE, NK_NAMESPACE, NK_PACKAGE, NK_FILE, NK_STRUCT,
     NK_CLASS, NK_INTERFACE, NK_ANNOTATION, NK_UNION, NK_ENUM,
     NK_TYPEDEF, NK_TYPE_PARAMETER, NK_BUILTIN_TYPE, NK_FUNCTION, NK_METHOD,
     NK_MACRO, NK_GLOBAL_VARIABLE, NK_FIELD, NK_VARIABLE, NK_CONSTANT,
     NK_ENUM_CONSTANT, NK_UNKNOWN]"

definition NodeKind_try_from :: "32 word \<Rightarrow> EnumConversionError + NodeKind" where
  "NodeKind_try_from v =
     (case enum_from_i32 v NODE_KIND_BY_DISCRIMINANT of
        Some k \<Rightarrow> Inr k | None \<Rightarrow> Inl (InvalidNodeKind v))"

datatype EdgeKind =
    EK_MEMBER | EK_TYPE_USAGE | EK_USAGE | EK_CALL | EK_INHERITANCE
  | EK_OVERRIDE | EK_TYPE_ARGUMENT | EK_TEMPLATE_SPECIALIZATION | EK_INCLUDE | EK_IMPORT
  | EK_MACRO_USAGE | EK_ANNOTATION_USAGE | EK_UNKNOWN

fun edge_kind_as_i32 :: "EdgeKind \<Rightarrow> 32 word" where
  "edge_kind_as_i32 EK_MEMBER = 0"
| "edge_kind_as_i32 EK_TYPE_USAGE = 1"
| "edge_kind_as_i32 EK_USAGE = 2"
| "edge_kind_as_i32 EK_CALL = 3"
| "edge_kind_as_i32 EK_INHERITANCE = 4"
| "edge_kind_as_i32 EK_OVERRIDE = 5"
| "edge_kind_as_i32 EK_TYPE_ARGUMENT = 6"
| "edge_kind_as_i32 EK_TEMPLATE_SPECIALIZATION = 7"
| "edge_kind_as_i32 EK_INCLUDE = 8"
| "edge_kind_as_i32 EK_IMPORT = 9"
| "edge_kind_as_i32 EK_MACRO_USAGE = 10"
| "edge_kind_as_i32 EK_ANNOTATION_USAGE = 11"
| "edge_kind_as_i32 EK_UNKNOWN = 12"

definition EDGE_KIND_BY_DISCRIMINANT :: "EdgeKind list" where
  "EDGE_KIND_BY_DISCRIMINANT =
    [EK_MEMBER, EK_TYPE_USAGE, EK_USAGE, EK_CALL, EK_INHERITANCE,
     EK_OVERRIDE, EK_TYPE_ARGUMENT, EK_TEMPLATE_SPECIALIZATION, EK_INCLUDE, EK_IMPORT,
     EK_MACRO_USAGE, EK_ANNOTATION_USAGE, EK_UNKNOWN]"

definition EdgeKind_try_from :: "32 word \<Rightarrow> EnumConversionError + EdgeKind" where
  "EdgeKind_try_from v =
     (case enum_from_i32 v EDGE_KIND_BY_DISCRIMINANT of
        Some k \<Rightarrow> Inr k | None \<Rightarrow> Inl (InvalidEdgeKind v))"

datatype OccurrenceKind =
    OK_DEFINITION | OK_REFERENCE | OK_DECLARATION | OK_MACRO_DEFINITION | OK_MACRO_REFERENCE
  | OK_UNKNOWN

fun occurrence_kind_as_i32 :: "OccurrenceKind \<Rightarrow> 32 word" where
  "occurrence_kind_as_i32 OK_DEFINITION = 0"
| "occurrence_kind_as_i32 OK_REFERENCE = 1"
| "occurrence_kind_as_i32 OK_DECLARATION = 2"
| "occurrence_kind_as_i32 OK_MACRO_DEFINITION = 3"
| "occurrence_kind_as_i32 OK_MACRO_REFERENCE = 4"
| "occurrence_kind_as_i32 OK_UNKNOWN = 5"

definition OCCURRENCE_KIND_BY_DISCRIMINANT :: "OccurrenceKind list" where
  "OCCURRENCE_KIND_BY_DISCRIMINANT =
    [OK_DEFINITION, OK_REFERENCE, OK_DECLARATION, OK_MACRO_DEFINITION, OK_MACRO_REFERENCE,
     OK_UNKNOWN]"

definition OccurrenceKind_try_from :: "32 word \<Rightarrow> EnumConversionError + OccurrenceKind" where
  "OccurrenceKind_try_from v =
     (case enum_from_i32 v OCCURRENCE_KIND_BY_DISCRIMINANT of
        Some k \<Rightarrow> Inr k | None \<Rightarrow> Inl (InvalidOccurrenceKind v))"

text \<open>\<^verbatim>\<open>derive(Debug)\<close> prints the variant's name.\<close>

fun node_kind_debug :: "NodeKind \<Rightarrow> string" where
  "node_kind_debug NK_MODULE = ''MODULE''"
| "node_kind_debug NK_NAMESPACE = ''NAMESPACE''"
| "node_kind_debug NK_PACKAGE = ''PACKAGE''"
| "node_kind_debug NK_FILE = ''FILE''"
| "node_kind_debug NK_STRUCT = ''STRUCT''"
| "node_kind_debug NK_CLASS = ''CLASS''"
| "node_kind_debug NK_INTERFACE = ''INTERFACE''"
| "node_kind_debug NK_ANNOTATION = ''ANNOTATION''"
| "node_kind_debug NK_UNION = ''UNION''"
| "node_kind_debug NK_ENUM = ''ENUM''"
| "node_kind_debug NK_TYPEDEF = ''TYPEDEF''"
| "node_kind_debug NK_TYPE_PARAMETER = ''TYPE_PARAMETER''"
| "node_kind_debug NK_BUILTIN_TYPE = ''BUILTIN_TYPE''"
| "node_kind_debug NK_FUNCTION = ''FUNCTION''"
| "node_kind_debug NK_METHOD = ''METHOD''"
| "node_kind_debug NK_MACRO = ''MACRO''"
| "node_kind_debug NK_GLOBAL_VARIABLE = ''GLOBAL_VARIABLE''"
| "node_kind_debug NK_FIELD = ''FIELD''"
| "node_kind_debug NK_VARIABLE = ''VARIABLE''"
| "node_kind_debug NK_CONSTANT = ''CONSTANT''"
| "node_kind_debug NK_ENUM_CONSTANT = ''ENUM_CONSTANT''"
| "node_kind_debug NK_UNKNOWN = ''UNKNOWN''"

fun edge_kind_debug :: "EdgeKind \<Rightarrow> string" where
  "edge_kind_debug EK_MEMBER = ''MEMBER''"
| "edge_kind_debug EK_TYPE_USAGE = ''TYPE_USAGE''"
| "edge_kind_debug EK_USAGE = ''USAGE''"
| "edge_kind_debug EK_CALL = ''CALL''"
| "edge_kind_debug EK_INHERITANCE = ''INHERITANCE''"
| "edge_kind_debug EK_OVERRIDE = ''OVERRIDE''"
| "edge_kind_debug EK_TYPE_ARGUMENT = ''TYPE_ARGUMENT''"
| "edge_kind_debug EK_TEMPLATE_SPECIALIZATION = ''TEMPLATE_SPECIALIZATION''"
| "edge_kind_debug EK_INCLUDE = ''INCLUDE''"
| "edge_kind_debug EK_IMPORT = ''IMPORT''"
| "edge_kind_debug EK_MACRO_USAGE = ''MACRO_USAGE''"
| "edge_kind_debug EK_ANNOTATION_USAGE = ''ANNOTATION_USAGE''"
| "edge_kind_debug EK_UNKNOWN = ''UNKNOWN''"

section \<open>Resolution certainty\<close>

text \<open>
  An \<^verbatim>\<open>f32\<close> is a dyadic rational, an infinity or NaN; a comparison with NaN is false.
  The two thresholds are the \<^verbatim>\<open>f32\<close> values nearest to 0.85 and 0.55, multiples of
  $2^{-24}$.
\<close>

datatype f32 = F32_NaN | F32_NegInf | F32_Fin rat | F32_PosInf

fun f32_ge :: "f32 \<Rightarrow> f32 \<Rightarrow> bool" where
  "f32_ge F32_NaN y = False"
| "f32_ge x F32_NaN = False"
| "f32_ge x F32_NegInf = True"
| "f32_ge F32_PosInf y = True"
| "f32_ge (F32_Fin a) (F32_Fin b) = (b \<le> a)"
| "f32_ge x y = False"

datatype ResolutionCertainty = Certain | Probable | Uncertain

definition CERTAIN_MIN :: f32 where
  "CERTAIN_MIN = F32_Fin (14260634 / 16777216)"

definition PROBABLE_MIN :: f32 where
  "PROBABLE_MIN = F32_Fin (9227469 / 16777216)"

definition from_confidence :: "f32 option \<Rightarrow> ResolutionCertainty option" where
  "from_confidence confidence =
     (case confidence of None \<Rightarrow> None
      | Some c \<Rightarrow> if f32_ge c CERTAIN_MIN then Some Certain
                 else if f32_ge c PROBABLE_MIN then Some Probable
                 else Some Uncertain)"

fun certainty_as_str :: "ResolutionCertainty \<Rightarrow> string" where
  "certainty_as_str Certain = ''certain''"
| "certainty_as_str Probable = ''probable''"
| "certainty_as_str Uncertain = ''uncertain''"

definition certainty_from_label :: "string \<Rightarrow> ResolutionCertainty option" where
  "certainty_from_label value =
     (if value = ''certain'' then Some Certain
      else if value = ''probable'' then Some Probable
      else if value = ''uncertain'' then Some Uncertain
      else None)"

definition certainty_from_str :: "string \<Rightarrow> unit + ResolutionCertainty" where
  "certainty_from_str value =
     (case certainty_from_label value of Some c \<Rightarrow> Inr c | None \<Rightarrow> Inl ())"

datatype FileCoverageReason =
    ParserPartial | SourceChanged | Unreadable | Malformed | Binary | Oversized
  | DiscoveryIncomplete | CollectorFailure

fun coverage_reason_as_str :: "FileCoverageReason \<Rightarrow> string" where
  "coverage_reason_as_str ParserPartial = ''parser_partial''"
| "coverage_reason_as_str SourceChanged = ''source_changed''"
| "coverage_reason_as_str Unreadable = ''unreadable''"
| "coverage_reason_as_str Malformed = ''malformed''"
| "coverage_reason_as_str Binary = ''binary''"
| "coverage_reason_as_str Oversized = ''oversized''"
| "coverage_reason_as_str DiscoveryIncomplete = ''discovery_incomplete''"
| "coverage_reason_as_str CollectorFailure = ''collector_failure''"

definition coverage_reason_try_from :: "string \<Rightarrow> EnumConversionError + FileCoverageReason" where
  "coverage_reason_try_from value =
     (if value = ''parser_partial'' then Inr ParserPartial
      else if value = ''source_changed'' then Inr SourceChanged
      else if value = ''unreadable'' then Inr Unreadable
      else if value = ''malformed'' then Inr Malformed
      else if value = ''binary'' then Inr Binary
      else if value = ''oversized'' then Inr Oversized
      else if value = ''discovery_incomplete'' then Inr DiscoveryIncomplete
      else if value = ''collector_failure'' then Inr CollectorFailure
      else Inl (InvalidFileCoverageReason value))"

section \<open>Nodes and edges\<close>

record Node =
  nd_id :: NodeId
  nd_kind :: NodeKind
  nd_serialized_name :: string
  nd_qualified_name :: "string option"
  nd_canonical_id :: "string option"
  nd_file_node_id :: "NodeId option"
  nd_start_line :: "32 word option"
  nd_start_col :: "32 word option"
  nd_end_line :: "32 word option"
  nd_end_col :: "32 word option"

record Edge =
  ed_id :: EdgeId
  ed_source :: NodeId
  ed_target :: NodeId
  ed_kind :: EdgeKind
  ed_file_node_id :: "NodeId option"
  ed_line :: "32 word option"
  ed_resolved_source :: "NodeId option"
  ed_resolved_target :: "NodeId option"
  ed_confidence :: "f32 option"
  ed_certainty :: "ResolutionCertainty option"
  ed_callsite_identity :: "string option"
  ed_candidate_targets :: "NodeId list"

definition effective_source :: "Edge \<Rightarrow> NodeId" where
  "effective_source e = (case ed_resolved_source e of Some s \<Rightarrow> s | None \<Rightarrow> ed_source e)"

definition effective_target :: "Edge \<Rightarrow> NodeId" where
  "effective_target e = (case ed_resolved_target e of Some t \<Rightarrow> t | None \<Rightarrow> ed_target e)"

definition effective_endpoints :: "Edge \<Rightarrow> NodeId \<times> NodeId" where
  "effective_endpoints e = (effective_source e, effective_target e)"

definition with_effective_endpoints :: "Edge \<Rightarrow> Edge" where
  "with_effective_endpoints e =
     e\<lparr>ed_source := effective_source e, ed_target := effective_target e\<rparr>"

definition Node_default :: Node where
  "Node_default =
     \<lparr>nd_id = NodeId 0, nd_kind = NK_UNKNOWN, nd_serialized_name = [], nd_qualified_name = None,
      nd_canonical_id = None, nd_file_node_id = None, nd_start_line = None, nd_start_col = None,
      nd_end_line = None, nd_end_col = None\<rparr>"

definition Edge_default :: Edge where
  "Edge_default =
     \<lparr>ed_id = EdgeId 0, ed_source = NodeId 0, ed_target = NodeId 0, ed_kind = EK_UNKNOWN,
      ed_file_node_id = None, ed_line = None, ed_resolved_source = None,
      ed_resolved_target = None, ed_confidence = None, ed_certainty = None,
      ed_callsite_identity = None, ed_candidate_targets = []\<rparr>"

record NameHierarchy =
  name_delimiter :: string
  name_elements :: "string list"

definition NameHierarchy_new :: "string \<Rightarrow> NameHierarchy" where
  "NameHierarchy_new delimiter = \<lparr>name_delimiter = delimiter, name_elements = []\<rparr>"

definition NameHierarchy_push :: "string \<Rightarrow> NameHierarchy \<Rightarrow> NameHierarchy" where
  "NameHierarchy_push element h = h\<lparr>name_elements := name_elements h @ [element]\<rparr>"

definition serialize_to_string :: "NameHierarchy \<Rightarrow> string" where
  "serialize_to_string h = join_str (name_delimiter h) (name_elements h)"

section \<open>Trails\<close>

datatype TrailMode = Neighborhood | AllReferenced | AllReferencing | ToTargetSymbol
datatype TrailDirection = Incoming | Outgoing | Both
datatype TrailCallerScope = ProductionOnly | IncludeTestsAndBenches

record TrailConfig =
  tc_root_id :: NodeId
  tc_mode :: TrailMode
  tc_target_id :: "NodeId option"
  tc_depth :: nat
  tc_direction :: TrailDirection
  tc_caller_scope :: TrailCallerScope
  tc_edge_filter :: "EdgeKind list"
  tc_show_utility_calls :: bool
  tc_node_filter :: "NodeKind list"
  tc_max_nodes :: nat

definition TrailConfig_default :: TrailConfig where
  "TrailConfig_default =
     \<lparr>tc_root_id = NodeId 0, tc_mode = Neighborhood, tc_target_id = None, tc_depth = 2,
      tc_direction = Both, tc_caller_scope = ProductionOnly, tc_edge_filter = [],
      tc_show_utility_calls = False, tc_node_filter = [], tc_max_nodes = 500\<rparr>"

record TrailResult =
  tr_nodes :: "Node list"
  tr_edges :: "Edge list"
  tr_depth_map :: "NodeId \<rightharpoonup> nat"
  tr_truncated :: bool
  tr_omitted_edge_count :: nat

definition TrailResult_default :: TrailResult where
  "TrailResult_default =
     \<lparr>tr_nodes = [], tr_edges = [], tr_depth_map = Map.empty, tr_truncated = False,
      tr_omitted_edge_count = 0\<rparr>"

section \<open>API mirrors\<close>

text \<open>
  \<^verbatim>\<open>impl_mirrored_enum_conversions!\<close> writes both conversions from one variant list.
\<close>

datatype ApiNodeKind =
    ANK_MODULE | ANK_NAMESPACE | ANK_PACKAGE | ANK_FILE | ANK_STRUCT
  | ANK_CLASS | ANK_INTERFACE | ANK_ANNOTATION | ANK_UNION | ANK_ENUM
  | ANK_TYPEDEF | ANK_TYPE_PARAMETER | ANK_BUILTIN_TYPE | ANK_FUNCTION | ANK_METHOD
  | ANK_MACRO | ANK_GLOBAL_VARIABLE | ANK_FIELD | ANK_VARIABLE | ANK_CONSTANT
  | ANK_ENUM_CONSTANT | ANK_UNKNOWN

fun api_node_kind_from_core :: "NodeKind \<Rightarrow> ApiNodeKind" where
  "api_node_kind_from_core NK_MODULE = ANK_MODULE"
| "api_node_kind_from_core NK_NAMESPACE = ANK_NAMESPACE"
| "api_node_kind_from_core NK_PACKAGE = ANK_PACKAGE"
| "api_node_kind_from_core NK_FILE = ANK_FILE"
| "api_node_kind_from_core NK_STRUCT = ANK_STRUCT"
| "api_node_kind_from_core NK_CLASS = ANK_CLASS"
| "api_node_kind_from_core NK_INTERFACE = ANK_INTERFACE"
| "api_node_kind_from_core NK_ANNOTATION = ANK_ANNOTATION"
| "api_node_kind_from_core NK_UNION = ANK_UNION"
| "api_node_kind_from_core NK_ENUM = ANK_ENUM"
| "api_node_kind_from_core NK_TYPEDEF = ANK_TYPEDEF"
| "api_node_kind_from_core NK_TYPE_PARAMETER = ANK_TYPE_PARAMETER"
| "api_node_kind_from_core NK_BUILTIN_TYPE = ANK_BUILTIN_TYPE"
| "api_node_kind_from_core NK_FUNCTION = ANK_FUNCTION"
| "api_node_kind_from_core NK_METHOD = ANK_METHOD"
| "api_node_kind_from_core NK_MACRO = ANK_MACRO"
| "api_node_kind_from_core NK_GLOBAL_VARIABLE = ANK_GLOBAL_VARIABLE"
| "api_node_kind_from_core NK_FIELD = ANK_FIELD"
| "api_node_kind_from_core NK_VARIABLE = ANK_VARIABLE"
| "api_node_kind_from_core NK_CONSTANT = ANK_CONSTANT"
| "api_node_kind_from_core NK_ENUM_CONSTANT = ANK_ENUM_CONSTANT"
| "api_node_kind_from_core NK_UNKNOWN = ANK_UNKNOWN"

fun core_node_kind_from_api :: "ApiNodeKind \<Rightarrow> NodeKind" where
  "core_node_kind_from_api ANK_MODULE = NK_MODULE"
| "core_node_kind_from_api ANK_NAMESPACE = NK_NAMESPACE"
| "core_node_kind_from_api ANK_PACKAGE = NK_PACKAGE"
| "core_node_kind_from_api ANK_FILE = NK_FILE"
| "core_node_kind_from_api ANK_STRUCT = NK_STRUCT"
| "core_node_kind_from_api ANK_CLASS = NK_CLASS"
| "core_node_kind_from_api ANK_INTERFACE = NK_INTERFACE"
| "core_node_kind_from_api ANK_ANNOTATION = NK_ANNOTATION"
| "core_node_kind_from_api ANK_UNION = NK_UNION"
| "core_node_kind_from_api ANK_ENUM = NK_ENUM"
| "core_node_kind_from_api ANK_TYPEDEF = NK_TYPEDEF"
| "core_node_kind_from_api ANK_TYPE_PARAMETER = NK_TYPE_PARAMETER"
| "core_node_kind_from_api ANK_BUILTIN_TYPE = NK_BUILTIN_TYPE"
| "core_node_kind_from_api ANK_FUNCTION = NK_FUNCTION"
| "core_node_kind_from_api ANK_METHOD = NK_METHOD"
| "core_node_kind_from_api ANK_MACRO = NK_MACRO"
| "core_node_kind_from_api ANK_GLOBAL_VARIABLE = NK_GLOBAL_VARIABLE"
| "core_node_kind_from_api ANK_FIELD = NK_FIELD"
| "core_node_kind_from_api ANK_VARIABLE = NK_VARIABLE"
| "core_node_kind_from_api ANK_CONSTANT = NK_CONSTANT"
| "core_node_kind_from_api ANK_ENUM_CONSTANT = NK_ENUM_CONSTANT"
| "core_node_kind_from_api ANK_UNKNOWN = NK_UNKNOWN"

datatype ApiEdgeKind =
    AEK_MEMBER | AEK_TYPE_USAGE | AEK_USAGE | AEK_CALL | AEK_INHERITANCE
  | AEK_OVERRIDE | AEK_TYPE_ARGUMENT | AEK_TEMPLATE_SPECIALIZATION | AEK_INCLUDE | AEK_IMPORT
  | AEK_MACRO_USAGE | AEK_ANNOTATION_USAGE | AEK_UNKNOWN

fun api_edge_kind_from_core :: "EdgeKind \<Rightarrow> ApiEdgeKind" where
  "api_edge_kind_from_core EK_MEMBER = AEK_MEMBER"
| "api_edge_kind_from_core EK_TYPE_USAGE = AEK_TYPE_USAGE"
| "api_edge_kind_from_core EK_USAGE = AEK_USAGE"
| "api_edge_kind_from_core EK_CALL = AEK_CALL"
| "api_edge_kind_from_core EK_INHERITANCE = AEK_INHERITANCE"
| "api_edge_kind_from_core EK_OVERRIDE = AEK_OVERRIDE"
| "api_edge_kind_from_core EK_TYPE_ARGUMENT = AEK_TYPE_ARGUMENT"
| "api_edge_kind_from_core EK_TEMPLATE_SPECIALIZATION = AEK_TEMPLATE_SPECIALIZATION"
| "api_edge_kind_from_core EK_INCLUDE = AEK_INCLUDE"
| "api_edge_kind_from_core EK_IMPORT = AEK_IMPORT"
| "api_edge_kind_from_core EK_MACRO_USAGE = AEK_MACRO_USAGE"
| "api_edge_kind_from_core EK_ANNOTATION_USAGE = AEK_ANNOTATION_USAGE"
| "api_edge_kind_from_core EK_UNKNOWN = AEK_UNKNOWN"

fun core_edge_kind_from_api :: "ApiEdgeKind \<Rightarrow> EdgeKind" where
  "core_edge_kind_from_api AEK_MEMBER = EK_MEMBER"
| "core_edge_kind_from_api AEK_TYPE_USAGE = EK_TYPE_USAGE"
| "core_edge_kind_from_api AEK_USAGE = EK_USAGE"
| "core_edge_kind_from_api AEK_CALL = EK_CALL"
| "core_edge_kind_from_api AEK_INHERITANCE = EK_INHERITANCE"
| "core_edge_kind_from_api AEK_OVERRIDE = EK_OVERRIDE"
| "core_edge_kind_from_api AEK_TYPE_ARGUMENT = EK_TYPE_ARGUMENT"
| "core_edge_kind_from_api AEK_TEMPLATE_SPECIALIZATION = EK_TEMPLATE_SPECIALIZATION"
| "core_edge_kind_from_api AEK_INCLUDE = EK_INCLUDE"
| "core_edge_kind_from_api AEK_IMPORT = EK_IMPORT"
| "core_edge_kind_from_api AEK_MACRO_USAGE = EK_MACRO_USAGE"
| "core_edge_kind_from_api AEK_ANNOTATION_USAGE = EK_ANNOTATION_USAGE"
| "core_edge_kind_from_api AEK_UNKNOWN = EK_UNKNOWN"

datatype ApiTrailDirection = ApiIncoming | ApiOutgoing | ApiBoth

fun api_direction_from_core :: "TrailDirection \<Rightarrow> ApiTrailDirection" where
  "api_direction_from_core Incoming = ApiIncoming"
| "api_direction_from_core Outgoing = ApiOutgoing"
| "api_direction_from_core Both = ApiBoth"

fun core_direction_from_api :: "ApiTrailDirection \<Rightarrow> TrailDirection" where
  "core_direction_from_api ApiIncoming = Incoming"
| "core_direction_from_api ApiOutgoing = Outgoing"
| "core_direction_from_api ApiBoth = Both"

section \<open>Graph-query AST\<close>

record TrailQuery =
  tq_symbol :: string
  tq_depth :: "nat option"
  tq_direction :: "ApiTrailDirection option"

record FilterQuery =
  fq_kind :: "ApiNodeKind option"
  fq_file :: "string option"
  fq_depth :: "nat option"

datatype GraphQueryOperation =
    Trail TrailQuery
  | Symbol string
  | Search string
  | Filter FilterQuery
  | Limit nat

type_synonym GraphQueryAst = "GraphQueryOperation list"

section \<open>Codec facts\<close>

lemma sint_of_nat_small: "n < 2147483648 \<Longrightarrow> sint (of_nat n :: 32 word) = int n"
  by (simp add: sint_uint uint_nat unat_of_nat signed_take_bit_int_eq_self)

lemma enum_from_i32_of_nat:
  "n < length vs \<Longrightarrow> length vs \<le> 1000 \<Longrightarrow> enum_from_i32 (of_nat n) vs = Some (vs ! n)"
  by (simp add: enum_from_i32_def Let_def sint_of_nat_small)

lemma enum_from_i32_SomeD:
  assumes "enum_from_i32 v vs = Some x"
  shows "\<exists>n < length vs. v = of_nat n \<and> x = vs ! n"
proof -
  from assms have pos: "0 \<le> sint v" and len: "nat (sint v) < length vs" and x: "x = vs ! nat (sint v)"
    by (auto simp: enum_from_i32_def Let_def split: if_splits)
  have "v = word_of_int (sint v)" by simp
  also from pos have "\<dots> = of_nat (nat (sint v))" by simp
  finally show ?thesis using len x by blast
qed

text \<open>A discriminant table that lists every variant at its own index is a codec.\<close>

lemma enum_codec:
  assumes "length vs \<le> 1000" and "\<And>x. \<exists>n < length vs. vs ! n = x"
    and "\<And>n. n < length vs \<Longrightarrow> enc (vs ! n) = of_nat n"
  shows "codec enc (\<lambda>v. enum_from_i32 v vs)"
proof
  fix x
  from assms(2) obtain n where "n < length vs" "vs ! n = x" by blast
  then show "enum_from_i32 (enc x) vs = Some x"
    using assms(1,3) enum_from_i32_of_nat by metis
next
  fix y x
  assume "enum_from_i32 y vs = Some x"
  then show "enc x = y"
    using assms(3) by (auto dest: enum_from_i32_SomeD)
qed

lemma node_kind_table:
  "n < length NODE_KIND_BY_DISCRIMINANT \<Longrightarrow>
     node_kind_as_i32 (NODE_KIND_BY_DISCRIMINANT ! n) = of_nat n"
  by (simp add: NODE_KIND_BY_DISCRIMINANT_def less_Suc_eq numeral_eq_Suc, elim disjE; simp)

lemma edge_kind_table:
  "n < length EDGE_KIND_BY_DISCRIMINANT \<Longrightarrow>
     edge_kind_as_i32 (EDGE_KIND_BY_DISCRIMINANT ! n) = of_nat n"
  by (simp add: EDGE_KIND_BY_DISCRIMINANT_def less_Suc_eq numeral_eq_Suc, elim disjE; simp)

lemma occurrence_kind_table:
  "n < length OCCURRENCE_KIND_BY_DISCRIMINANT \<Longrightarrow>
     occurrence_kind_as_i32 (OCCURRENCE_KIND_BY_DISCRIMINANT ! n) = of_nat n"
  by (simp add: OCCURRENCE_KIND_BY_DISCRIMINANT_def less_Suc_eq numeral_eq_Suc, elim disjE; simp)

lemma node_kind_listed: "\<exists>n < length NODE_KIND_BY_DISCRIMINANT. NODE_KIND_BY_DISCRIMINANT ! n = k"
  unfolding in_set_conv_nth [symmetric] by (cases k) (simp_all add: NODE_KIND_BY_DISCRIMINANT_def)

lemma edge_kind_listed: "\<exists>n < length EDGE_KIND_BY_DISCRIMINANT. EDGE_KIND_BY_DISCRIMINANT ! n = k"
  unfolding in_set_conv_nth [symmetric] by (cases k) (simp_all add: EDGE_KIND_BY_DISCRIMINANT_def)

lemma occurrence_kind_listed:
  "\<exists>n < length OCCURRENCE_KIND_BY_DISCRIMINANT. OCCURRENCE_KIND_BY_DISCRIMINANT ! n = k"
  unfolding in_set_conv_nth [symmetric]
  by (cases k) (simp_all add: OCCURRENCE_KIND_BY_DISCRIMINANT_def)

interpretation node_kind: codec node_kind_as_i32 "\<lambda>v. enum_from_i32 v NODE_KIND_BY_DISCRIMINANT"
  by (rule enum_codec [OF _ node_kind_listed node_kind_table])
    (simp add: NODE_KIND_BY_DISCRIMINANT_def)

interpretation edge_kind: codec edge_kind_as_i32 "\<lambda>v. enum_from_i32 v EDGE_KIND_BY_DISCRIMINANT"
  by (rule enum_codec [OF _ edge_kind_listed edge_kind_table])
    (simp add: EDGE_KIND_BY_DISCRIMINANT_def)

interpretation occurrence_kind: codec occurrence_kind_as_i32
  "\<lambda>v. enum_from_i32 v OCCURRENCE_KIND_BY_DISCRIMINANT"
  by (rule enum_codec [OF _ occurrence_kind_listed occurrence_kind_table])
    (simp add: OCCURRENCE_KIND_BY_DISCRIMINANT_def)

interpretation certainty: codec certainty_as_str certainty_from_label
proof
  show "certainty_from_label (certainty_as_str x) = Some x" for x
    by (cases x) (simp_all add: certainty_from_label_def)
  show "certainty_from_label y = Some x \<Longrightarrow> certainty_as_str x = y" for y x
    by (auto simp: certainty_from_label_def split: if_splits)
qed

interpretation coverage_reason: codec coverage_reason_as_str
  "\<lambda>v. case coverage_reason_try_from v of Inl _ \<Rightarrow> None | Inr r \<Rightarrow> Some r"
proof
  show "(case coverage_reason_try_from (coverage_reason_as_str x) of Inl _ \<Rightarrow> None | Inr r \<Rightarrow> Some r) = Some x" for x
    by (cases x) (simp_all add: coverage_reason_try_from_def)
  show "(case coverage_reason_try_from y of Inl _ \<Rightarrow> None | Inr r \<Rightarrow> Some r) = Some x \<Longrightarrow>
      coverage_reason_as_str x = y" for y x
    by (auto simp: coverage_reason_try_from_def split: if_splits sum.splits)
qed

interpretation api_node_kind: codec api_node_kind_from_core "Some \<circ> core_node_kind_from_api"
proof
  show "(Some \<circ> core_node_kind_from_api) (api_node_kind_from_core x) = Some x" for x
    by (cases x) simp_all
  show "(Some \<circ> core_node_kind_from_api) y = Some x \<Longrightarrow> api_node_kind_from_core x = y" for y x
    by (cases y) auto
qed

interpretation api_edge_kind: codec api_edge_kind_from_core "Some \<circ> core_edge_kind_from_api"
proof
  show "(Some \<circ> core_edge_kind_from_api) (api_edge_kind_from_core x) = Some x" for x
    by (cases x) simp_all
  show "(Some \<circ> core_edge_kind_from_api) y = Some x \<Longrightarrow> api_edge_kind_from_core x = y" for y x
    by (cases y) auto
qed

interpretation api_direction: codec api_direction_from_core "Some \<circ> core_direction_from_api"
proof
  show "(Some \<circ> core_direction_from_api) (api_direction_from_core x) = Some x" for x
    by (cases x) simp_all
  show "(Some \<circ> core_direction_from_api) y = Some x \<Longrightarrow> api_direction_from_core x = y" for y x
    by (cases y) auto
qed

lemma sum_case_option_Inr:
  "(case opt of Some k \<Rightarrow> Inr k | None \<Rightarrow> Inl e) = Inr x \<longleftrightarrow> opt = Some x"
  by (cases opt) auto

lemma sum_case_option_Inl:
  "(case opt of Some k \<Rightarrow> Inr k | None \<Rightarrow> Inl e) = Inl e' \<longleftrightarrow> opt = None \<and> e' = e"
  by (cases opt) auto

lemma effective_with_effective [simp]:
  "effective_source (with_effective_endpoints e) = effective_source e"
  "effective_target (with_effective_endpoints e) = effective_target e"
  by (simp_all add: with_effective_endpoints_def effective_source_def effective_target_def
      split: option.split)

lemma f32_ge_trans: "f32_ge a b \<Longrightarrow> f32_ge b c \<Longrightarrow> f32_ge a c"
  by (cases a; cases b; cases c) auto

fun certainty_level :: "ResolutionCertainty \<Rightarrow> nat" where
  "certainty_level Uncertain = 0"
| "certainty_level Probable = 1"
| "certainty_level Certain = 2"

section \<open>Properties\<close>

text \<open>What a persisted discriminant decodes to is exact: node, edge and occurrence kinds
  come back from the value they were stored as and from no other, and every other value is
  reported with the offending value.\<close>

theorem persisted_kinds_roundtrip:
  "(NodeKind_try_from v = Inr n \<longleftrightarrow> v = node_kind_as_i32 n)
   \<and> (EdgeKind_try_from v = Inr e \<longleftrightarrow> v = edge_kind_as_i32 e)
   \<and> (OccurrenceKind_try_from v = Inr k \<longleftrightarrow> v = occurrence_kind_as_i32 k)
   \<and> (NodeKind_try_from v = Inl err \<longleftrightarrow> err = InvalidNodeKind v \<and> v \<notin> range node_kind_as_i32)
   \<and> (EdgeKind_try_from v = Inl err \<longleftrightarrow> err = InvalidEdgeKind v \<and> v \<notin> range edge_kind_as_i32)"
  unfolding NodeKind_try_from_def EdgeKind_try_from_def OccurrenceKind_try_from_def
    sum_case_option_Inr sum_case_option_Inl node_kind.decode_iff edge_kind.decode_iff
    occurrence_kind.decode_iff node_kind.decode_None_iff edge_kind.decode_None_iff
  by blast

text \<open>The persisted labels of certainties and coverage reasons decode to the value that
  wrote them, and to nothing else.\<close>

theorem persisted_labels_roundtrip:
  "(certainty_from_label s = Some c \<longleftrightarrow> s = certainty_as_str c)
   \<and> (coverage_reason_try_from s = Inr r \<longleftrightarrow> s = coverage_reason_as_str r)"
proof -
  have "coverage_reason_try_from s = Inr r \<longleftrightarrow>
      (case coverage_reason_try_from s of Inl _ \<Rightarrow> None | Inr r \<Rightarrow> Some r) = Some r"
    by (simp split: sum.split)
  then show ?thesis by (simp add: certainty.decode_iff coverage_reason.decode_iff)
qed

text \<open>The API mirrors of node kinds, edge kinds and trail directions are bijections with the
  stored ones, in both directions.\<close>

theorem api_mirrors_bijective:
  "core_node_kind_from_api (api_node_kind_from_core n) = n \<and> api_node_kind_from_core (core_node_kind_from_api an) = an
   \<and> core_edge_kind_from_api (api_edge_kind_from_core e) = e \<and> api_edge_kind_from_core (core_edge_kind_from_api ae) = ae
   \<and> core_direction_from_api (api_direction_from_core d) = d \<and> api_direction_from_core (core_direction_from_api ad) = ad"
  using api_node_kind.decode_encode [of n] api_node_kind.decode_sound [of an]
    api_edge_kind.decode_encode [of e] api_edge_kind.decode_sound [of ae]
    api_direction.decode_encode [of d] api_direction.decode_sound [of ad] by simp

text \<open>A higher confidence never gives a lower certainty; not-a-number gives the lowest.\<close>

theorem from_confidence_monotone:
  assumes "f32_ge hi lo"
  shows "\<exists>c d. from_confidence (Some hi) = Some c \<and> from_confidence (Some lo) = Some d
     \<and> certainty_level d \<le> certainty_level c \<and> from_confidence (Some F32_NaN) = Some Uncertain"
  using f32_ge_trans [OF assms, of CERTAIN_MIN] f32_ge_trans [OF assms, of PROBABLE_MIN]
  by (simp add: from_confidence_def)

theorem from_confidence_monotone_witness:
  "\<exists>c d. from_confidence (Some (F32_Fin 1)) = Some c \<and> from_confidence (Some (F32_Fin 0)) = Some d
     \<and> certainty_level d \<le> certainty_level c"
  using from_confidence_monotone [of "F32_Fin 1" "F32_Fin 0"] by auto

end
