(* ===== verification/Graph_Analysis.thy ===== *)
theory Graph_Analysis
  imports Graph_Contracts
begin

text \<open>
  The repository report, \<^verbatim>\<open>codestory-runtime/src/graph_analysis.rs\<close>: degrees of the
  indexed graph, its hotspots, entry points and bridges, the follow-up queries and the export.

  The store's answers (statistics, nodes, edges), the paths as strings and the time of generation
  are parameters. A \<^verbatim>\<open>HashMap\<close> is a map; counters are natural numbers. The handoff of a
  report is always absent here and left out.
\<close>

section \<open>Report data\<close>

definition DEFAULT_REPORT_LIMIT :: nat where
  "DEFAULT_REPORT_LIMIT = 10"

definition api_node_id :: "NodeId \<Rightarrow> string" where
  "api_node_id n = show_int (node_id_val n)"

definition api_edge_id :: "EdgeId \<Rightarrow> string" where
  "api_edge_id e = show_int (edge_id_val e)"

record SourceLocation =
  sl_file :: "string option"
  sl_start_line :: "32 word option"
  sl_start_col :: "32 word option"
  sl_end_line :: "32 word option"
  sl_end_col :: "32 word option"

record ReportNodeSummary =
  rn_id :: string
  rn_name :: string
  rn_kind :: string
  rn_incoming_edges :: nat
  rn_outgoing_edges :: nat
  rn_total_edges :: nat
  rn_source_location :: "SourceLocation option"

record ReportFollowUpQuery =
  fq_query :: string
  fq_reason :: string
  fq_command :: string

record RepoReportSummary =
  rs_node_count :: int
  rs_edge_count :: int
  rs_file_count :: int
  rs_error_count :: int
  rs_exported_node_count :: nat
  rs_exported_edge_count :: nat
  rs_node_kinds :: "(string, nat) btree_map"
  rs_edge_kinds :: "(string, nat) btree_map"

record ReportGenerationMetadata =
  rm_format_version :: nat
  rm_artifact_role :: string
  rm_source :: string
  rm_project_root :: string
  rm_storage_path :: string
  rm_generated_at_epoch_ms :: nat
  rm_note :: string

record RepoReport =
  rr_metadata :: ReportGenerationMetadata
  rr_summary :: RepoReportSummary
  rr_hotspots :: "ReportNodeSummary list"
  rr_entry_points :: "ReportNodeSummary list"
  rr_bridge_nodes :: "ReportNodeSummary list"
  rr_follow_up_queries :: "ReportFollowUpQuery list"

record GraphExportNode =
  gn_id :: string
  gn_name :: string
  gn_kind :: string
  gn_qualified_name :: "string option"
  gn_canonical_id :: "string option"
  gn_file_node_id :: "string option"
  gn_source_location :: "SourceLocation option"

record GraphExportEdge =
  ge_id :: string
  ge_source :: string
  ge_target :: string
  ge_effective_source :: string
  ge_effective_target :: string
  ge_kind :: string
  ge_confidence :: "f32 option"
  ge_certainty :: "string option"
  ge_callsite_identity :: "string option"
  ge_candidate_targets :: "string list"
  ge_source_location :: "SourceLocation option"

record GraphExport =
  gx_nodes :: "GraphExportNode list"
  gx_edges :: "GraphExportEdge list"

record RepoReportExport =
  rx_report :: RepoReport
  rx_graph :: GraphExport

record StorageStats =
  st_node_count :: int
  st_edge_count :: int
  st_file_count :: int
  st_error_count :: int
  st_fatal_error_count :: int

record NodeDegree =
  dg_incoming :: nat
  dg_outgoing :: nat

definition degree_default :: NodeDegree where
  "degree_default = \<lparr>dg_incoming = 0, dg_outgoing = 0\<rparr>"

definition degree_total :: "NodeDegree \<Rightarrow> nat" where
  "degree_total d = dg_incoming d + dg_outgoing d"

definition bridge_score :: "NodeDegree \<Rightarrow> nat" where
  "bridge_score d = min (dg_incoming d) (dg_outgoing d)"

record ReportSource =
  rc_stats :: StorageStats
  rc_nodes :: "Node list"
  rc_edges :: "Edge list"
  rc_nodes_by_id :: "NodeId \<rightharpoonup> Node"
  rc_degrees :: "NodeId \<rightharpoonup> NodeDegree"

section \<open>Names, labels and locations\<close>

definition node_display_name :: "Node \<Rightarrow> string" where
  "node_display_name n = (case nd_qualified_name n of Some q \<Rightarrow> q | None \<Rightarrow> nd_serialized_name n)"

definition node_kind_label :: "NodeKind \<Rightarrow> string" where
  "node_kind_label k = to_ascii_lowercase (node_kind_debug k)"

definition edge_kind_label :: "EdgeKind \<Rightarrow> string" where
  "edge_kind_label k = to_ascii_lowercase (edge_kind_debug k)"

definition source_location ::
  "string option \<Rightarrow> 32 word option \<Rightarrow> 32 word option \<Rightarrow> 32 word option \<Rightarrow> 32 word option \<Rightarrow> SourceLocation option" where
  "source_location file start_line start_col end_line end_col =
     (if file \<noteq> None \<or> start_line \<noteq> None \<or> start_col \<noteq> None \<or> end_line \<noteq> None \<or> end_col \<noteq> None
      then Some \<lparr>sl_file = file, sl_start_line = start_line, sl_start_col = start_col,
             sl_end_line = end_line, sl_end_col = end_col\<rparr>
      else None)"

definition source_location_for_node :: "Node \<Rightarrow> (NodeId \<rightharpoonup> Node) \<Rightarrow> SourceLocation option" where
  "source_location_for_node n by_id =
     source_location
       (if nd_kind n = NK_FILE then Some (node_display_name n)
        else map_option node_display_name (Option.bind (nd_file_node_id n) by_id))
       (nd_start_line n) (nd_start_col n) (nd_end_line n) (nd_end_col n)"

definition source_location_for_edge :: "Edge \<Rightarrow> (NodeId \<rightharpoonup> Node) \<Rightarrow> SourceLocation option" where
  "source_location_for_edge e by_id =
     source_location (map_option node_display_name (Option.bind (ed_file_node_id e) by_id)) (ed_line e) None None None"

definition looks_like_entry_point :: "Node \<Rightarrow> bool" where
  "looks_like_entry_point n =
     (let name = to_ascii_lowercase (node_display_name n)
      in (nd_kind n = NK_FUNCTION \<or> nd_kind n = NK_METHOD \<or> nd_kind n = NK_MODULE)
         \<and> (name = ''main'' \<or> ends_with name ''::main'' \<or> ends_with name ''.main''
            \<or> contains_str name ''run'' \<or> contains_str name ''start'' \<or> contains_str name ''serve''
            \<or> contains_str name ''index''))"

definition shell_quote_path :: "string \<Rightarrow> string" where
  "shell_quote_path path =
     (let quote = char_of (39 :: nat); raw = replace_str [char_of (92 :: nat)] ''/'' path
      in quote # replace_str [quote] [quote, quote] raw @ [quote])"

section \<open>Degrees and counts\<close>

definition degree_of :: "(NodeId \<rightharpoonup> NodeDegree) \<Rightarrow> NodeId \<Rightarrow> NodeDegree" where
  "degree_of degrees n = (case degrees n of Some d \<Rightarrow> d | None \<Rightarrow> degree_default)"

definition count_edge :: "Edge \<Rightarrow> (NodeId \<rightharpoonup> NodeDegree) \<Rightarrow> (NodeId \<rightharpoonup> NodeDegree)" where
  "count_edge e degrees =
     (case effective_endpoints e of (source, target) \<Rightarrow>
        let d1 = degrees(source \<mapsto> (degree_of degrees source)\<lparr>dg_outgoing := dg_outgoing (degree_of degrees source) + 1\<rparr>)
        in d1(target \<mapsto> (degree_of d1 target)\<lparr>dg_incoming := dg_incoming (degree_of d1 target) + 1\<rparr>))"

definition degree_map :: "Edge list \<Rightarrow> NodeId \<rightharpoonup> NodeDegree" where
  "degree_map edges = fold count_edge edges Map.empty"

definition bump_count :: "string \<Rightarrow> (string, nat) btree_map \<Rightarrow> (string, nat) btree_map" where
  "bump_count label counts =
     bt_insert label ((case bt_get counts label of Some n \<Rightarrow> n | None \<Rightarrow> 0) + 1) counts"

definition node_kind_counts :: "Node list \<Rightarrow> (string, nat) btree_map" where
  "node_kind_counts nodes = fold (\<lambda>n. bump_count (node_kind_label (nd_kind n))) nodes []"

definition edge_kind_counts :: "Edge list \<Rightarrow> (string, nat) btree_map" where
  "edge_kind_counts edges = fold (\<lambda>e. bump_count (edge_kind_label (ed_kind e))) edges []"

section \<open>Rankings\<close>

definition report_node_summary :: "Node \<Rightarrow> (NodeId \<rightharpoonup> Node) \<Rightarrow> NodeDegree \<Rightarrow> ReportNodeSummary" where
  "report_node_summary n by_id d =
     \<lparr>rn_id = api_node_id (nd_id n), rn_name = node_display_name n, rn_kind = node_kind_label (nd_kind n),
      rn_incoming_edges = dg_incoming d, rn_outgoing_edges = dg_outgoing d, rn_total_edges = degree_total d,
      rn_source_location = source_location_for_node n by_id\<rparr>"

definition hotspot_cmp :: "ReportNodeSummary \<Rightarrow> ReportNodeSummary \<Rightarrow> ordering" where
  "hotspot_cmp left right =
     then_with (then_with (ord_cmp (rn_total_edges right) (rn_total_edges left))
       (ord_cmp (rn_outgoing_edges right) (rn_outgoing_edges left)))
       (ord_cmp (rn_name left) (rn_name right))"

definition hotspot_candidates ::
  "Node list \<Rightarrow> (NodeId \<rightharpoonup> Node) \<Rightarrow> (NodeId \<rightharpoonup> NodeDegree) \<Rightarrow> ReportNodeSummary list" where
  "hotspot_candidates nodes by_id degrees =
     List.map_filter (\<lambda>n. let d = degree_of degrees (nd_id n)
       in if degree_total d > 0 then Some (report_node_summary n by_id d) else None)
       (filter (\<lambda>n. nd_kind n \<noteq> NK_FILE) nodes)"

definition top_hotspots ::
  "Node list \<Rightarrow> (NodeId \<rightharpoonup> Node) \<Rightarrow> (NodeId \<rightharpoonup> NodeDegree) \<Rightarrow> nat \<Rightarrow> ReportNodeSummary list" where
  "top_hotspots nodes by_id degrees limit =
     take limit (sort_by hotspot_cmp (hotspot_candidates nodes by_id degrees))"

definition entry_cmp :: "ReportNodeSummary \<Rightarrow> ReportNodeSummary \<Rightarrow> ordering" where
  "entry_cmp left right =
     then_with (then_with (ord_cmp (rn_outgoing_edges right) (rn_outgoing_edges left))
       (ord_cmp (rn_incoming_edges left) (rn_incoming_edges right)))
       (ord_cmp (rn_name left) (rn_name right))"

definition entry_candidates ::
  "Node list \<Rightarrow> (NodeId \<rightharpoonup> Node) \<Rightarrow> (NodeId \<rightharpoonup> NodeDegree) \<Rightarrow> ReportNodeSummary list" where
  "entry_candidates nodes by_id degrees =
     List.map_filter (\<lambda>n. let d = degree_of degrees (nd_id n)
       in if dg_outgoing d > 0 \<and> (dg_incoming d = 0 \<or> looks_like_entry_point n)
          then Some (report_node_summary n by_id d) else None)
       (filter (\<lambda>n. nd_kind n \<noteq> NK_FILE) nodes)"

definition top_entry_points ::
  "Node list \<Rightarrow> (NodeId \<rightharpoonup> Node) \<Rightarrow> (NodeId \<rightharpoonup> NodeDegree) \<Rightarrow> nat \<Rightarrow> ReportNodeSummary list" where
  "top_entry_points nodes by_id degrees limit =
     (let candidates = take limit (sort_by entry_cmp (entry_candidates nodes by_id degrees))
      in if candidates = []
         then filter (\<lambda>s. rn_kind s = ''function'' \<or> rn_kind s = ''method'' \<or> rn_kind s = ''module'')
                (top_hotspots nodes by_id degrees limit)
         else candidates)"

definition bridge_cmp :: "NodeDegree \<times> ReportNodeSummary \<Rightarrow> NodeDegree \<times> ReportNodeSummary \<Rightarrow> ordering" where
  "bridge_cmp left right =
     then_with (then_with (ord_cmp (bridge_score (fst right)) (bridge_score (fst left)))
       (ord_cmp (rn_total_edges (snd right)) (rn_total_edges (snd left))))
       (ord_cmp (rn_name (snd left)) (rn_name (snd right)))"

definition bridge_candidates ::
  "Node list \<Rightarrow> (NodeId \<rightharpoonup> Node) \<Rightarrow> (NodeId \<rightharpoonup> NodeDegree) \<Rightarrow> (NodeDegree \<times> ReportNodeSummary) list" where
  "bridge_candidates nodes by_id degrees =
     List.map_filter (\<lambda>n. let d = degree_of degrees (nd_id n)
       in if dg_incoming d > 0 \<and> dg_outgoing d > 0 then Some (d, report_node_summary n by_id d) else None)
       (filter (\<lambda>n. nd_kind n \<noteq> NK_FILE) nodes)"

definition top_bridge_nodes ::
  "Node list \<Rightarrow> (NodeId \<rightharpoonup> Node) \<Rightarrow> (NodeId \<rightharpoonup> NodeDegree) \<Rightarrow> nat \<Rightarrow> ReportNodeSummary list" where
  "top_bridge_nodes nodes by_id degrees limit =
     take limit (map snd (sort_by bridge_cmp (bridge_candidates nodes by_id degrees)))"

section \<open>Follow-up queries\<close>

definition follow_up :: "string \<Rightarrow> string \<Rightarrow> ReportNodeSummary \<Rightarrow> ReportFollowUpQuery" where
  "follow_up project_root reason n =
     \<lparr>fq_query = rn_name n, fq_reason = reason,
      fq_command = ''codestory-cli trail --project '' @ shell_quote_path project_root @ '' --id '' @ rn_id n
        @ '' --story --hide-speculative''\<rparr>"

fun push_follow_ups ::
  "string \<Rightarrow> string \<Rightarrow> ReportNodeSummary list \<Rightarrow> nat \<Rightarrow> string set \<times> ReportFollowUpQuery list \<Rightarrow>
     string set \<times> ReportFollowUpQuery list" where
  "push_follow_ups project_root reason [] limit (seen, queries) = (seen, queries)"
| "push_follow_ups project_root reason (n # ns) limit (seen, queries) =
     push_follow_ups project_root reason ns limit
       (if length queries \<ge> limit then (seen, queries)
        else if rn_id n \<in> seen then (seen, queries)
        else (insert (rn_id n) seen, queries @ [follow_up project_root reason n]))"

definition follow_up_queries ::
  "string \<Rightarrow> ReportNodeSummary list \<Rightarrow> ReportNodeSummary list \<Rightarrow> ReportNodeSummary list \<Rightarrow> nat \<Rightarrow>
     ReportFollowUpQuery list" where
  "follow_up_queries project_root entry_points bridge_nodes hotspots limit =
     (let s1 = push_follow_ups project_root ''entry point candidate'' entry_points limit ({}, []);
          s2 = push_follow_ups project_root ''bridge or high-connectivity node'' bridge_nodes limit s1;
          s3 = push_follow_ups project_root ''hotspot with many indexed relationships'' hotspots limit s2
      in take (min limit DEFAULT_REPORT_LIMIT) (snd s3))"

section \<open>Reports\<close>

text \<open>The store's answers: opening it, statistics, nodes, edges; an error is its message.\<close>

record store_answers =
  sa_open :: "string + unit"
  sa_stats :: "string + StorageStats"
  sa_nodes :: "string + Node list"
  sa_edges :: "string + Edge list"

definition with_context :: "string \<Rightarrow> string + 'a \<Rightarrow> string list + 'a" where
  "with_context ctx r = (case r of Inl e \<Rightarrow> Inl [ctx, e] | Inr x \<Rightarrow> Inr x)"

definition index_nodes :: "Node list \<Rightarrow> NodeId \<rightharpoonup> Node" where
  "index_nodes nodes = fold (\<lambda>n m. m(nd_id n \<mapsto> n)) nodes Map.empty"

definition load_report_source :: "string \<Rightarrow> store_answers \<Rightarrow> string list + ReportSource" where
  "load_report_source storage_path a =
     (case with_context (''Failed to open CodeStory store at '' @ storage_path) (sa_open a) of Inl e \<Rightarrow> Inl e
      | Inr _ \<Rightarrow> (case with_context ''Failed to query CodeStory store stats'' (sa_stats a) of Inl e \<Rightarrow> Inl e
      | Inr stats \<Rightarrow> (case with_context ''Failed to query CodeStory graph nodes'' (sa_nodes a) of Inl e \<Rightarrow> Inl e
      | Inr nodes \<Rightarrow> (case with_context ''Failed to query CodeStory graph edges'' (sa_edges a) of Inl e \<Rightarrow> Inl e
      | Inr edges \<Rightarrow>
          Inr \<lparr>rc_stats = stats, rc_nodes = nodes, rc_edges = edges, rc_nodes_by_id = index_nodes nodes,
               rc_degrees = degree_map edges\<rparr>))))"

definition build_report_from_source :: "nat \<Rightarrow> string \<Rightarrow> string \<Rightarrow> ReportSource \<Rightarrow> nat \<Rightarrow> RepoReport" where
  "build_report_from_source generated_at project_root storage_path source limit0 =
     (let limit = max limit0 1;
          nodes = rc_nodes source; by_id = rc_nodes_by_id source; degrees = rc_degrees source;
          hotspots = top_hotspots nodes by_id degrees limit;
          entry_points = top_entry_points nodes by_id degrees limit;
          bridge_nodes = top_bridge_nodes nodes by_id degrees limit
      in \<lparr>rr_metadata =
            \<lparr>rm_format_version = 1, rm_artifact_role = ''derived_output'', rm_source = ''current_store'',
             rm_project_root = project_root, rm_storage_path = storage_path, rm_generated_at_epoch_ms = generated_at,
             rm_note = ''Report/export artifacts are generated from the current SQLite store and are not source-of-truth state.''\<rparr>,
          rr_summary =
            \<lparr>rs_node_count = st_node_count (rc_stats source), rs_edge_count = st_edge_count (rc_stats source),
             rs_file_count = st_file_count (rc_stats source), rs_error_count = st_error_count (rc_stats source),
             rs_exported_node_count = length nodes, rs_exported_edge_count = length (rc_edges source),
             rs_node_kinds = node_kind_counts nodes, rs_edge_kinds = edge_kind_counts (rc_edges source)\<rparr>,
          rr_hotspots = hotspots, rr_entry_points = entry_points, rr_bridge_nodes = bridge_nodes,
          rr_follow_up_queries = follow_up_queries project_root entry_points bridge_nodes hotspots limit\<rparr>)"

definition build_report :: "nat \<Rightarrow> string \<Rightarrow> string \<Rightarrow> store_answers \<Rightarrow> nat \<Rightarrow> string list + RepoReport" where
  "build_report generated_at project_root storage_path a limit =
     (case load_report_source storage_path a of
        Inl e \<Rightarrow> Inl e
      | Inr source \<Rightarrow> Inr (build_report_from_source generated_at project_root storage_path source limit))"

definition graph_export_node :: "Node \<Rightarrow> (NodeId \<rightharpoonup> Node) \<Rightarrow> GraphExportNode" where
  "graph_export_node n by_id =
     \<lparr>gn_id = api_node_id (nd_id n), gn_name = node_display_name n, gn_kind = node_kind_label (nd_kind n),
      gn_qualified_name = nd_qualified_name n, gn_canonical_id = nd_canonical_id n,
      gn_file_node_id = map_option api_node_id (nd_file_node_id n),
      gn_source_location = source_location_for_node n by_id\<rparr>"

definition graph_export_edge :: "Edge \<Rightarrow> (NodeId \<rightharpoonup> Node) \<Rightarrow> GraphExportEdge" where
  "graph_export_edge e by_id =
     \<lparr>ge_id = api_edge_id (ed_id e), ge_source = api_node_id (ed_source e), ge_target = api_node_id (ed_target e),
      ge_effective_source = api_node_id (effective_source e), ge_effective_target = api_node_id (effective_target e),
      ge_kind = edge_kind_label (ed_kind e), ge_confidence = ed_confidence e,
      ge_certainty = map_option certainty_as_str (ed_certainty e), ge_callsite_identity = ed_callsite_identity e,
      ge_candidate_targets = map api_node_id (ed_candidate_targets e),
      ge_source_location = source_location_for_edge e by_id\<rparr>"

definition build_report_export ::
  "nat \<Rightarrow> string \<Rightarrow> string \<Rightarrow> store_answers \<Rightarrow> nat \<Rightarrow> string list + RepoReportExport" where
  "build_report_export generated_at project_root storage_path a limit =
     (case load_report_source storage_path a of
        Inl e \<Rightarrow> Inl e
      | Inr source \<Rightarrow>
          Inr \<lparr>rx_report = build_report_from_source generated_at project_root storage_path source limit,
               rx_graph =
                 \<lparr>gx_nodes = map (\<lambda>n. graph_export_node n (rc_nodes_by_id source)) (rc_nodes source),
                  gx_edges = map (\<lambda>e. graph_export_edge e (rc_nodes_by_id source)) (rc_edges source)\<rparr>\<rparr>)"

section \<open>Properties\<close>

lemma degree_of_count_edge:
  "degree_of (count_edge e m) n =
     \<lparr>dg_incoming = dg_incoming (degree_of m n) + (if effective_target e = n then 1 else 0),
      dg_outgoing = dg_outgoing (degree_of m n) + (if effective_source e = n then 1 else 0)\<rparr>"
  by (simp add: count_edge_def effective_endpoints_def degree_of_def Let_def)

lemma dom_count_edge: "dom (count_edge e m) = insert (effective_source e) (insert (effective_target e) (dom m))"
  by (auto simp: count_edge_def effective_endpoints_def Let_def)

lemma degree_fold:
  "dg_outgoing (degree_of (fold count_edge es m) n) =
     dg_outgoing (degree_of m n) + length (filter (\<lambda>e. effective_source e = n) es)"
  "dg_incoming (degree_of (fold count_edge es m) n) =
     dg_incoming (degree_of m n) + length (filter (\<lambda>e. effective_target e = n) es)"
  "dom (fold count_edge es m) = dom m \<union> effective_source ` set es \<union> effective_target ` set es"
  by (induction es arbitrary: m) (auto simp: degree_of_count_edge dom_count_edge)

lemma sum_fibres:
  assumes "finite A" and "f ` set es \<subseteq> A"
  shows "(\<Sum>n \<in> A. length (filter (\<lambda>e. f e = n) es)) = length es"
  using assms(2)
proof (induction es)
  case (Cons e es)
  have "(\<Sum>n \<in> A. length (filter (\<lambda>x. f x = n) (e # es))) =
      (\<Sum>n \<in> A. (if f e = n then 1 else 0)) + (\<Sum>n \<in> A. length (filter (\<lambda>x. f x = n) es))"
    by (simp add: sum.distrib [symmetric] if_distrib cong: if_cong) (auto intro: sum.cong)
  with Cons assms(1) show ?case by (simp add: sum.delta')
qed simp

text \<open>The degrees of a report are exact: a node has an entry just when it is an effective end of
  an indexed edge, its counters are the numbers of edges leaving and entering it, self-edges
  counting on both sides, and over all entries each side adds up to the number of edges.\<close>

theorem degrees_exact:
  "dg_outgoing (degree_of (degree_map edges) n) = length (filter (\<lambda>e. effective_source e = n) edges)
   \<and> dg_incoming (degree_of (degree_map edges) n) = length (filter (\<lambda>e. effective_target e = n) edges)
   \<and> dom (degree_map edges) = effective_source ` set edges \<union> effective_target ` set edges
   \<and> (\<Sum>m \<in> dom (degree_map edges). dg_outgoing (degree_of (degree_map edges) m)) = length edges
   \<and> (\<Sum>m \<in> dom (degree_map edges). dg_incoming (degree_of (degree_map edges) m)) = length edges"
proof -
  have out: "dg_outgoing (degree_of (degree_map edges) m) = length (filter (\<lambda>e. effective_source e = m) edges)"
    and inc: "dg_incoming (degree_of (degree_map edges) m) = length (filter (\<lambda>e. effective_target e = m) edges)" for m
    using degree_fold(1,2) [of edges Map.empty m] by (simp_all add: degree_map_def degree_of_def degree_default_def)
  have dom: "dom (degree_map edges) = effective_source ` set edges \<union> effective_target ` set edges"
    by (simp add: degree_map_def degree_fold)
  show ?thesis
    by (simp add: out inc dom sum_fibres)
qed

text \<open>A ranking: sorted, as long as allowed, and nothing left out precedes anything listed.\<close>

definition ranked :: "('a \<Rightarrow> 'a \<Rightarrow> ordering) \<Rightarrow> 'a list \<Rightarrow> nat \<Rightarrow> 'a list \<Rightarrow> bool" where
  "ranked cmp candidates limit result \<longleftrightarrow>
     length result = min limit (length candidates) \<and> sorted_wrt (\<lambda>x y. cmp x y \<noteq> Greater) result
     \<and> (\<exists>rest. mset result + mset rest = mset candidates \<and> (\<forall>x \<in> set result. \<forall>y \<in> set rest. cmp x y \<noteq> Greater))"

context comparator
begin

lemma sort_by_ranked: "ranked cmp xs n (take n (sort_by cmp xs))"
proof -
  have "sorted_wrt (\<lambda>x y. cmp x y \<noteq> Greater) (take n (sort_by cmp xs))"
    using sorted_wrt_take [OF sorted_sort_by] by (simp add: le_def [abs_def])
  moreover have "mset (take n (sort_by cmp xs)) + mset (drop n (sort_by cmp xs)) = mset xs"
    by (metis append_take_drop_id mset_append mset_sort_by)
  ultimately show ?thesis
    using sort_by_take_best unfolding ranked_def le_def by (auto simp: min.commute)
qed

end

interpretation hotspots: comparator hotspot_cmp
  unfolding hotspot_cmp_def [abs_def] by (intro comparator_then comparator_key comparator_key_desc)

interpretation entries: comparator entry_cmp
  unfolding entry_cmp_def [abs_def] by (intro comparator_then comparator_key comparator_key_desc)

interpretation bridges: comparator bridge_cmp
  unfolding bridge_cmp_def [abs_def]
  by (intro comparator_then comparator_key comparator_key_desc
      comparator_key [of "\<lambda>x. rn_name (snd x)"] comparator_key_desc [of "\<lambda>x. rn_total_edges (snd x)"]
      comparator_key_desc [of "\<lambda>x. bridge_score (fst x)"])


text \<open>The first summary of each id, with the reason of the list it came from.\<close>

fun first_seen :: "string set \<Rightarrow> (string \<times> ReportNodeSummary) list \<Rightarrow> (string \<times> ReportNodeSummary) list" where
  "first_seen seen [] = []"
| "first_seen seen ((reason, n) # ns) =
     (if rn_id n \<in> seen then first_seen seen ns else (reason, n) # first_seen (insert (rn_id n) seen) ns)"

lemma push_follow_ups_full:
  "limit \<le> length queries \<Longrightarrow> push_follow_ups project_root reason ns limit (seen, queries) = (seen, queries)"
  by (induction ns) auto

text \<open>What a pass leaves for the passes after it.\<close>

lemma push_follow_ups_seen:
  assumes "length queries \<le> limit"
  shows "\<exists>seen' queries'. push_follow_ups project_root reason ns limit (seen, queries) = (seen', queries')
    \<and> length queries' \<le> limit
    \<and> take limit (queries @ map (case_prod (follow_up project_root)) (first_seen seen (map (Pair reason) ns @ rest)))
      = take limit (queries' @ map (case_prod (follow_up project_root)) (first_seen seen' rest))"
  using assms
proof (induction ns arbitrary: seen queries)
  case (Cons n ns)
  show ?case
  proof (cases "length queries = limit")
    case True
    then show ?thesis by (simp add: push_follow_ups_full)
  next
    case False
    with Cons.prems have less: "length queries < limit" by simp
    show ?thesis
    proof (cases "rn_id n \<in> seen")
      case True
      with Cons.IH [OF Cons.prems, of seen] less show ?thesis by simp
    next
      case new: False
      from less have "length (queries @ [follow_up project_root reason n]) \<le> limit" by simp
      from Cons.IH [OF this, of "insert (rn_id n) seen"] new less show ?thesis by simp
    qed
  qed
qed simp

text \<open>The follow-up queries are the first ten, or as many as the limit, of the distinct nodes in
  the order entry points, bridges, hotspots: each node once, under the reason of the first list
  that names it, and none is lost to a node already asked.\<close>

theorem follow_ups_first_seen:
  "follow_up_queries project_root entry_points bridge_nodes hotspots limit =
     take (min limit 10) (map (case_prod (follow_up project_root)) (first_seen {}
       (map (Pair ''entry point candidate'') entry_points
        @ map (Pair ''bridge or high-connectivity node'') bridge_nodes
        @ map (Pair ''hotspot with many indexed relationships'') hotspots)))"
proof -
  let ?f = "\<lambda>xs. map (case_prod (follow_up project_root)) xs"
  let ?e = "map (Pair ''entry point candidate'') entry_points"
  let ?b = "map (Pair ''bridge or high-connectivity node'') bridge_nodes"
  let ?h = "map (Pair ''hotspot with many indexed relationships'') hotspots"
  obtain s1 q1 where 1: "push_follow_ups project_root ''entry point candidate'' entry_points limit ({}, []) = (s1, q1)"
      "length q1 \<le> limit" "take limit (?f (first_seen {} (?e @ ?b @ ?h))) = take limit (q1 @ ?f (first_seen s1 (?b @ ?h)))"
    using push_follow_ups_seen [of "[]" limit project_root "''entry point candidate''" entry_points "{}" "?b @ ?h"] by auto
  obtain s2 q2 where 2: "push_follow_ups project_root ''bridge or high-connectivity node'' bridge_nodes limit (s1, q1) = (s2, q2)"
      "length q2 \<le> limit" "take limit (q1 @ ?f (first_seen s1 (?b @ ?h))) = take limit (q2 @ ?f (first_seen s2 ?h))"
    using push_follow_ups_seen [OF 1(2), of project_root "''bridge or high-connectivity node''" bridge_nodes s1 ?h] by auto
  obtain s3 q3 where 3: "push_follow_ups project_root ''hotspot with many indexed relationships'' hotspots limit (s2, q2) = (s3, q3)"
      "length q3 \<le> limit" "take limit (q2 @ ?f (first_seen s2 ?h)) = take limit q3"
    using push_follow_ups_seen [OF 2(2), of project_root "''hotspot with many indexed relationships''" hotspots s2 "[]"] by auto
  have "follow_up_queries project_root entry_points bridge_nodes hotspots limit = take (min limit 10) (take limit q3)"
    using 1(1) 2(1) 3(1,2) by (simp add: follow_up_queries_def DEFAULT_REPORT_LIMIT_def)
  also have "\<dots> = take (min limit 10) (take limit (?f (first_seen {} (?e @ ?b @ ?h))))"
    using 1(3) 2(3) 3(3) by simp
  finally show ?thesis by (simp add: min.commute)
qed

end
