(* ===== verification/Rust_Str.thy ===== *)
theory Rust_Str
  imports CS_Prelude
begin

text \<open>
  More of Rust's \<^verbatim>\<open>str\<close> on UTF-8 byte strings: splitting on characters, searching for a
  literal from either end, stripping and trimming affixes. The character sets and literals the
  program splits on are ASCII, which no byte of a longer UTF-8 sequence equals, so walking bytes
  and walking \<^verbatim>\<open>char\<close>s agree; a trimming predicate that holds of every non-ASCII character
  holds of every byte of one.
\<close>

section \<open>Operations\<close>

text \<open>\<^verbatim>\<open>str::split\<close> on the characters satisfying a predicate: never empty.\<close>

fun split_on :: "(char \<Rightarrow> bool) \<Rightarrow> string \<Rightarrow> string list" where
  "split_on p [] = [[]]"
| "split_on p (c # cs) =
     (if p c then [] # split_on p cs
      else case split_on p cs of [] \<Rightarrow> [[c]] | x # xs \<Rightarrow> (c # x) # xs)"

abbreviation split_char :: "char \<Rightarrow> string \<Rightarrow> string list" where
  "split_char c \<equiv> split_on (\<lambda>x. x = c)"

text \<open>\<^verbatim>\<open>str::find\<close> and \<^verbatim>\<open>str::rfind\<close> of a non-empty literal.\<close>

fun find_str :: "string \<Rightarrow> string \<Rightarrow> nat option" where
  "find_str pat [] = (if pat = [] then Some 0 else None)"
| "find_str pat (c # cs) =
     (if starts_with (c # cs) pat then Some 0 else map_option Suc (find_str pat cs))"

fun rfind_str :: "string \<Rightarrow> string \<Rightarrow> nat option" where
  "rfind_str pat [] = (if pat = [] then Some 0 else None)"
| "rfind_str pat (c # cs) =
     (case rfind_str pat cs of
        Some i \<Rightarrow> Some (Suc i)
      | None \<Rightarrow> if starts_with (c # cs) pat then Some 0 else None)"

definition split_once :: "string \<Rightarrow> string \<Rightarrow> (string \<times> string) option" where
  "split_once pat s = map_option (\<lambda>i. (take i s, drop (i + length pat) s)) (find_str pat s)"

definition rsplit_once :: "string \<Rightarrow> string \<Rightarrow> (string \<times> string) option" where
  "rsplit_once pat s = map_option (\<lambda>i. (take i s, drop (i + length pat) s)) (rfind_str pat s)"

text \<open>\<^verbatim>\<open>s.rsplit(pat).next()\<close>, which always yields a piece.\<close>

definition last_piece :: "string \<Rightarrow> string \<Rightarrow> string" where
  "last_piece pat s = (case rsplit_once pat s of Some (_, tail) \<Rightarrow> tail | None \<Rightarrow> s)"

definition strip_prefix :: "string \<Rightarrow> string \<Rightarrow> string option" where
  "strip_prefix pat s = (if starts_with s pat then Some (drop (length pat) s) else None)"

definition strip_suffix :: "string \<Rightarrow> string \<Rightarrow> string option" where
  "strip_suffix pat s = (if ends_with s pat then Some (take (length s - length pat) s) else None)"

definition trim_start_matches :: "(char \<Rightarrow> bool) \<Rightarrow> string \<Rightarrow> string" where
  "trim_start_matches p s = dropWhile p s"

definition trim_end_matches :: "(char \<Rightarrow> bool) \<Rightarrow> string \<Rightarrow> string" where
  "trim_end_matches p s = rev (dropWhile p (rev s))"

definition trim_matches :: "(char \<Rightarrow> bool) \<Rightarrow> string \<Rightarrow> string" where
  "trim_matches p s = trim_end_matches p (trim_start_matches p s)"

text \<open>\<^verbatim>\<open>trim_end_matches\<close> with a literal: strips it as long as it is there.\<close>

function trim_end_literal :: "string \<Rightarrow> string \<Rightarrow> string" where
  "trim_end_literal pat s =
     (if pat \<noteq> [] \<and> ends_with s pat \<and> s \<noteq> [] then trim_end_literal pat (take (length s - length pat) s) else s)"
  by pat_completeness auto
termination
  by (relation "measure (\<lambda>(pat, s). length s)") auto

declare trim_end_literal.simps [simp del]

definition replace_char :: "char \<Rightarrow> char \<Rightarrow> string \<Rightarrow> string" where
  "replace_char a b s = map (\<lambda>c. if c = a then b else c) s"

definition contains_any :: "(char \<Rightarrow> bool) \<Rightarrow> string \<Rightarrow> bool" where
  "contains_any p s \<longleftrightarrow> list_ex p s"

definition eq_ignore_ascii_case :: "string \<Rightarrow> string \<Rightarrow> bool" where
  "eq_ignore_ascii_case a b \<longleftrightarrow> to_ascii_lowercase a = to_ascii_lowercase b"

definition is_ascii_alphanumeric :: "char \<Rightarrow> bool" where
  "is_ascii_alphanumeric c \<longleftrightarrow>
     48 \<le> byte c \<and> byte c \<le> 57 \<or> 65 \<le> byte c \<and> byte c \<le> 90 \<or> 97 \<le> byte c \<and> byte c \<le> 122"

section \<open>Facts\<close>

lemma split_on_ne [simp]: "split_on p s \<noteq> []"
  by (induction s) (auto split: list.splits)

lemma split_on_pieces: "x \<in> set (split_on p s) \<Longrightarrow> c \<in> set x \<Longrightarrow> \<not> p c \<and> c \<in> set s"
proof (induction s arbitrary: x)
  case (Cons a s)
  obtain y ys where "split_on p s = y # ys"
    by (cases "split_on p s") auto
  with Cons show ?case by (auto split: if_splits) (metis list.set_intros(1))+
qed simp

lemma join_split_char: "join_str [c] (split_char c s) = s"
proof (induction s)
  case (Cons a s)
  obtain y ys where "split_char c s = y # ys"
    by (cases "split_char c s") auto
  with Cons show ?case by (cases ys) auto
qed simp

lemma split_on_none: "\<forall>c \<in> set s. \<not> p c \<Longrightarrow> split_on p s = [s]"
  by (induction s) auto

lemma split_char_append: "split_char c (s @ c # t) = split_char c s @ split_char c t"
  by (induction s) (auto split: list.splits simp: append_eq_Cons_conv)

lemma find_str_None: "pat \<noteq> [] \<Longrightarrow> find_str pat s = None \<longleftrightarrow> \<not> contains_str s pat"
  by (induction s) auto

lemma rfind_str_None: "pat \<noteq> [] \<Longrightarrow> rfind_str pat s = None \<longleftrightarrow> \<not> contains_str s pat"
  by (induction s) (auto split: option.splits)

lemma rfind_str_at: "rfind_str pat s = Some i \<Longrightarrow> i + length pat \<le> length s \<and> take (length pat) (drop i s) = pat"
proof (induction s arbitrary: i)
  case (Cons a s)
  show ?case
  proof (cases "rfind_str pat s")
    case None
    with Cons.prems have "prefix pat (a # s)" "i = 0"
      by (auto simp: starts_with_prefix simp del: starts_with.simps split: if_splits)
    then obtain zs where "a # s = pat @ zs" by (auto simp: prefix_def)
    with \<open>i = 0\<close> show ?thesis by (metis add.commute append_eq_conv_conj drop0 le_add1 length_append add_0)
  qed (use Cons in auto)
qed (auto split: if_splits)

lemma rsplit_once_join: "rsplit_once pat s = Some (a, b) \<Longrightarrow> s = a @ pat @ b"
  using rfind_str_at [of pat s]
  by (auto simp: rsplit_once_def) (metis append_take_drop_id drop_drop add.commute)

lemma strip_prefix_Some: "strip_prefix pat s = Some t \<longleftrightarrow> s = pat @ t"
  by (auto simp: strip_prefix_def starts_with_prefix prefix_def)

lemma strip_suffix_Some: "strip_suffix pat s = Some t \<longleftrightarrow> s = t @ pat"
  by (auto simp: strip_suffix_def ends_with_suffix suffix_def)

lemma set_trim_end_matches: "set (trim_end_matches p s) \<subseteq> set s"
  by (auto simp: trim_end_matches_def dest: set_dropWhileD)

lemma set_trim_start_matches: "set (trim_start_matches p s) \<subseteq> set s"
  by (auto simp: trim_start_matches_def dest: set_dropWhileD)

lemma set_trim: "set (trim s) \<subseteq> set s"
  using set_mono_prefix [OF trim_end_prefix [of "trim_start s"]] set_mono_suffix [OF trim_start_suffix [of s]]
  by (auto simp: trim_def)

lemma trim_end_matches_last: "trim_end_matches p s \<noteq> [] \<Longrightarrow> \<not> p (last (trim_end_matches p s))"
  by (simp add: trim_end_matches_def last_rev hd_dropWhile)

lemma trim_end_matches_same: "s = [] \<or> \<not> p (last s) \<Longrightarrow> trim_end_matches p s = s"
  by (cases s rule: rev_cases) (auto simp: trim_end_matches_def)

lemma set_replace_char: "c \<in> set (replace_char a b s) \<Longrightarrow> a \<noteq> b \<Longrightarrow> c \<noteq> a"
  by (auto simp: replace_char_def split: if_splits)

lemma ascii_lower_idem [simp]: "ascii_lower (ascii_lower c) = ascii_lower c"
  by (auto simp: ascii_lower_def byte_def)

lemma to_ascii_lowercase_idem [simp]: "to_ascii_lowercase (to_ascii_lowercase s) = to_ascii_lowercase s"
  by (simp add: to_ascii_lowercase_def)

lemma to_ascii_lowercase_append: "to_ascii_lowercase (a @ b) = to_ascii_lowercase a @ to_ascii_lowercase b"
  by (simp add: to_ascii_lowercase_def)

end
