(* ===== verification/Canonical_Layout.thy ===== *)
theory Canonical_Layout
  imports Graph_Contracts Rust_Str "HOL-Library.AList" "HOL-Library.Code_Target_Nat"
begin

text \<open>
  The canonical layout of a graph response, \<^verbatim>\<open>codestory-runtime/src/graph_canonical.rs\<close>: members
  are moved into their hosts, equal nodes and parallel edges are folded, and what remains is ranked
  by its signed depth from the centre.

  The code builds the layout from hash maps. A map that is only looked up is a map here. One that
  is iterated is an association list in the order of insertion, and the order of each iteration is
  an argument (\<open>hash_orders\<close>): the hasher is seeded at random, so nothing is known of it but that it
  permutes the entries. \<^verbatim>\<open>NodeId\<close> and \<^verbatim>\<open>EdgeId\<close> of the API are strings. Counters of nodes and edges
  stay below \<open>2 ^ 31\<close>.
\<close>

section \<open>Data\<close>

datatype MemberAccess = AccessPublic | AccessProtected | AccessPrivate | AccessDefault

record GraphNodeDto =
  gnd_id :: string
  gnd_label :: string
  gnd_kind :: ApiNodeKind
  gnd_depth :: nat
  gnd_label_policy :: "string option"
  gnd_badge_visible_members :: "nat option"
  gnd_badge_total_members :: "nat option"
  gnd_merged_symbol_examples :: "string list"
  gnd_file_path :: "string option"
  gnd_qualified_name :: "string option"
  gnd_member_access :: "MemberAccess option"

record GraphEdgeDto =
  ged_id :: string
  ged_source :: string
  ged_target :: string
  ged_kind :: ApiEdgeKind
  ged_confidence :: "f32 option"
  ged_certainty :: "string option"
  ged_callsite_identity :: "string option"
  ged_candidate_targets :: "string list"

datatype CanonicalNodeStyle = StyleCard | StylePill | StyleBundle

datatype CanonicalEdgeFamily = FamilyFlow | FamilyHierarchy

datatype CanonicalRouteKind = RouteDirect | RouteHierarchy

datatype CanonicalMemberVisibility =
  VisibilityPublic | VisibilityProtected | VisibilityPrivate | VisibilityDefault

record CanonicalMemberDto =
  cm_id :: string
  cm_label :: string
  cm_kind :: ApiNodeKind
  cm_visibility :: CanonicalMemberVisibility

record CanonicalNodeDto =
  cnd_id :: string
  cnd_kind :: ApiNodeKind
  cnd_label :: string
  cnd_center :: bool
  cnd_node_style :: CanonicalNodeStyle
  cnd_is_non_indexed :: bool
  cnd_duplicate_count :: nat
  cnd_merged_symbol_ids :: "string list"
  cnd_member_count :: nat
  cnd_badge_visible_members :: "nat option"
  cnd_badge_total_members :: "nat option"
  cnd_members :: "CanonicalMemberDto list"
  cnd_x_rank :: int
  cnd_y_rank :: nat
  cnd_width :: f32
  cnd_height :: f32
  cnd_is_virtual_bundle :: bool

record CanonicalEdgeDto =
  ced_id :: string
  ced_source_edge_ids :: "string list"
  ced_source :: string
  ced_target :: string
  ced_source_handle :: string
  ced_target_handle :: string
  ced_kind :: ApiEdgeKind
  ced_certainty :: "string option"
  ced_multiplicity :: nat
  ced_family :: CanonicalEdgeFamily
  ced_route_kind :: CanonicalRouteKind

record CanonicalLayoutDto =
  cl_schema_version :: nat
  cl_center_node_id :: string
  cl_nodes :: "CanonicalNodeDto list"
  cl_edges :: "CanonicalEdgeDto list"

record NodeLike =
  nl_id :: string
  nl_label :: string
  nl_kind :: ApiNodeKind
  nl_depth :: nat
  nl_badge_visible_members :: "nat option"
  nl_badge_total_members :: "nat option"
  nl_member_access :: "MemberAccess option"

definition node_like_from :: "GraphNodeDto \<Rightarrow> NodeLike" where
  "node_like_from value =
     \<lparr>nl_id = gnd_id value, nl_label = gnd_label value, nl_kind = gnd_kind value, nl_depth = gnd_depth value,
      nl_badge_visible_members = gnd_badge_visible_members value,
      nl_badge_total_members = gnd_badge_total_members value, nl_member_access = gnd_member_access value\<rparr>"

record FoldedEdge =
  fe_id :: string
  fe_source_edge_ids :: "string list"
  fe_source :: string
  fe_target :: string
  fe_kind :: ApiEdgeKind
  fe_certainty :: "string option"
  fe_multiplicity :: nat
  fe_source_handle :: string
  fe_target_handle :: string
  fe_family :: CanonicalEdgeFamily

record MemberExtraction =
  mx_member_host_by_id :: "string \<rightharpoonup> string"
  mx_members_by_host :: "string \<rightharpoonup> CanonicalMemberDto list"
  mx_synthetic_hosts :: "NodeLike list"

record FoldResult =
  fr_folded_edges :: "FoldedEdge list"
  fr_canonical_node_by_id :: "(string \<times> string) list"
  fr_duplicate_count_by_canonical :: "string \<rightharpoonup> nat"
  fr_merged_ids_by_canonical :: "string \<rightharpoonup> string list"

record hash_orders =
  ho_hosts :: "(string \<times> NodeLike) list \<Rightarrow> (string \<times> NodeLike) list"
  ho_canonical :: "(string \<times> string) list \<Rightarrow> (string \<times> string) list"
  ho_ids :: "string list \<Rightarrow> string list"
  ho_folded :: "(string \<times> FoldedEdge) list \<Rightarrow> (string \<times> FoldedEdge) list"

section \<open>Kinds\<close>

definition is_structural_kind :: "ApiNodeKind \<Rightarrow> bool" where
  "is_structural_kind kind \<longleftrightarrow>
     kind \<in> {ANK_CLASS, ANK_STRUCT, ANK_INTERFACE, ANK_UNION, ANK_ENUM, ANK_NAMESPACE, ANK_MODULE, ANK_PACKAGE}"

definition is_card_node_kind :: "ApiNodeKind \<Rightarrow> bool" where
  "is_card_node_kind kind \<longleftrightarrow> is_structural_kind kind \<or> kind = ANK_FILE"

definition is_private_member_kind :: "ApiNodeKind \<Rightarrow> bool" where
  "is_private_member_kind kind \<longleftrightarrow>
     kind \<in> {ANK_FIELD, ANK_VARIABLE, ANK_GLOBAL_VARIABLE, ANK_CONSTANT, ANK_ENUM_CONSTANT}"

definition is_public_member_kind :: "ApiNodeKind \<Rightarrow> bool" where
  "is_public_member_kind kind \<longleftrightarrow> kind \<in> {ANK_FUNCTION, ANK_METHOD, ANK_MACRO}"

definition edge_family_for_kind :: "ApiEdgeKind \<Rightarrow> CanonicalEdgeFamily" where
  "edge_family_for_kind kind =
     (if kind \<in> {AEK_INHERITANCE, AEK_OVERRIDE, AEK_TYPE_ARGUMENT, AEK_TEMPLATE_SPECIALIZATION}
      then FamilyHierarchy else FamilyFlow)"

fun edge_kind_name :: "ApiEdgeKind \<Rightarrow> string" where
  "edge_kind_name AEK_MEMBER = ''MEMBER''"
| "edge_kind_name AEK_TYPE_USAGE = ''TYPE_USAGE''"
| "edge_kind_name AEK_USAGE = ''USAGE''"
| "edge_kind_name AEK_CALL = ''CALL''"
| "edge_kind_name AEK_INHERITANCE = ''INHERITANCE''"
| "edge_kind_name AEK_OVERRIDE = ''OVERRIDE''"
| "edge_kind_name AEK_TYPE_ARGUMENT = ''TYPE_ARGUMENT''"
| "edge_kind_name AEK_TEMPLATE_SPECIALIZATION = ''TEMPLATE_SPECIALIZATION''"
| "edge_kind_name AEK_INCLUDE = ''INCLUDE''"
| "edge_kind_name AEK_IMPORT = ''IMPORT''"
| "edge_kind_name AEK_MACRO_USAGE = ''MACRO_USAGE''"
| "edge_kind_name AEK_ANNOTATION_USAGE = ''ANNOTATION_USAGE''"
| "edge_kind_name AEK_UNKNOWN = ''UNKNOWN''"

fun node_kind_name :: "ApiNodeKind \<Rightarrow> string" where
  "node_kind_name ANK_MODULE = ''MODULE''"
| "node_kind_name ANK_NAMESPACE = ''NAMESPACE''"
| "node_kind_name ANK_PACKAGE = ''PACKAGE''"
| "node_kind_name ANK_FILE = ''FILE''"
| "node_kind_name ANK_STRUCT = ''STRUCT''"
| "node_kind_name ANK_CLASS = ''CLASS''"
| "node_kind_name ANK_INTERFACE = ''INTERFACE''"
| "node_kind_name ANK_ANNOTATION = ''ANNOTATION''"
| "node_kind_name ANK_UNION = ''UNION''"
| "node_kind_name ANK_ENUM = ''ENUM''"
| "node_kind_name ANK_TYPEDEF = ''TYPEDEF''"
| "node_kind_name ANK_TYPE_PARAMETER = ''TYPE_PARAMETER''"
| "node_kind_name ANK_BUILTIN_TYPE = ''BUILTIN_TYPE''"
| "node_kind_name ANK_FUNCTION = ''FUNCTION''"
| "node_kind_name ANK_METHOD = ''METHOD''"
| "node_kind_name ANK_MACRO = ''MACRO''"
| "node_kind_name ANK_GLOBAL_VARIABLE = ''GLOBAL_VARIABLE''"
| "node_kind_name ANK_FIELD = ''FIELD''"
| "node_kind_name ANK_VARIABLE = ''VARIABLE''"
| "node_kind_name ANK_CONSTANT = ''CONSTANT''"
| "node_kind_name ANK_ENUM_CONSTANT = ''ENUM_CONSTANT''"
| "node_kind_name ANK_UNKNOWN = ''UNKNOWN''"

section \<open>Members and hosts\<close>

definition infer_member_visibility ::
  "ApiNodeKind \<Rightarrow> string \<Rightarrow> MemberAccess option \<Rightarrow> CanonicalMemberVisibility" where
  "infer_member_visibility kind label explicit_access =
     (case explicit_access of
        Some AccessPublic \<Rightarrow> VisibilityPublic
      | Some AccessProtected \<Rightarrow> VisibilityProtected
      | Some AccessPrivate \<Rightarrow> VisibilityPrivate
      | Some AccessDefault \<Rightarrow> VisibilityDefault
      | None \<Rightarrow>
          if is_private_member_kind kind then VisibilityPrivate
          else if is_public_member_kind kind then VisibilityPublic
          else if starts_with label ''_'' \<or> ends_with label ''_''
            \<or> (case strip_prefix ''m_'' label of
                 Some (c # _) \<Rightarrow> is_ascii_alphanumeric c | _ \<Rightarrow> False)
          then VisibilityPrivate
          else VisibilityPublic)"

text \<open>The loop of \<^verbatim>\<open>synthetic_host_id\<close> over the bytes of the trimmed label: the slug and \<^verbatim>\<open>last_dash\<close>.\<close>

fun slug_loop :: "string \<Rightarrow> string \<Rightarrow> bool \<Rightarrow> string" where
  "slug_loop [] slug last_dash = slug"
| "slug_loop (ch # chs) slug last_dash =
     (let lowered = ascii_lower ch
      in if is_ascii_alphanumeric lowered then slug_loop chs (slug @ [lowered]) False
         else if slug \<noteq> [] \<and> \<not> last_dash then slug_loop chs (slug @ ''-'') True
         else slug_loop chs slug last_dash)"

definition synthetic_host_id :: "string \<Rightarrow> string" where
  "synthetic_host_id host_label =
     (let slug = trim_end_matches (\<lambda>c. c = CHR ''-'') (slug_loop (trim host_label) [] False);
          slug = (if slug = [] then ''anonymous'' else slug)
      in ''__synthetic_host__'' @ slug)"

text \<open>\<^verbatim>\<open>collect\<close> into a hash map: a later entry replaces an earlier one.\<close>

definition collect_map :: "(NodeLike \<Rightarrow> 'v) \<Rightarrow> NodeLike list \<Rightarrow> (string \<rightharpoonup> 'v)" where
  "collect_map f nodes = map_of (rev (map (\<lambda>node. (nl_id node, f node)) nodes))"

definition push_member :: "string \<Rightarrow> CanonicalMemberDto \<Rightarrow> (string \<rightharpoonup> CanonicalMemberDto list) \<Rightarrow>
    (string \<rightharpoonup> CanonicalMemberDto list)" where
  "push_member host_id member m =
     (let host_members = (case m host_id of Some ms \<Rightarrow> ms | None \<Rightarrow> [])
      in m(host_id \<mapsto> (if list_ex (\<lambda>x. cm_id x = cm_id member) host_members
                       then host_members else host_members @ [member])))"

definition node_member :: "NodeLike \<Rightarrow> CanonicalMemberDto" where
  "node_member node =
     \<lparr>cm_id = nl_id node, cm_label = nl_label node, cm_kind = nl_kind node,
      cm_visibility = infer_member_visibility (nl_kind node) (nl_label node) (nl_member_access node)\<rparr>"

definition edge_member :: "(string \<rightharpoonup> NodeLike) \<Rightarrow> string \<Rightarrow> CanonicalMemberDto" where
  "edge_member node_by_id member_id =
     (let member_node = node_by_id member_id;
          member_label = (case member_node of Some node \<Rightarrow> nl_label node | None \<Rightarrow> member_id);
          member_kind = (case member_node of Some node \<Rightarrow> nl_kind node | None \<Rightarrow> ANK_UNKNOWN)
      in \<lparr>cm_id = member_id, cm_label = member_label, cm_kind = member_kind,
          cm_visibility = infer_member_visibility member_kind member_label
            (Option.bind member_node nl_member_access)\<rparr>)"

text \<open>The member and the host of a membership edge: exactly one end is structural.\<close>

definition member_and_host :: "(string \<rightharpoonup> NodeLike) \<Rightarrow> GraphEdgeDto \<Rightarrow> (string \<times> string) option" where
  "member_and_host node_by_id edge =
     (if ged_kind edge \<noteq> AEK_MEMBER then None
      else case (node_by_id (ged_source edge), node_by_id (ged_target edge)) of
        (Some source_node, Some target_node) \<Rightarrow>
          (let source_is_structural = is_structural_kind (nl_kind source_node);
               target_is_structural = is_structural_kind (nl_kind target_node)
           in if source_is_structural \<and> \<not> target_is_structural then Some (nl_id target_node, nl_id source_node)
              else if \<not> source_is_structural \<and> target_is_structural then Some (nl_id source_node, nl_id target_node)
              else None)
      | _ \<Rightarrow> None)"

definition extract_edge_member :: "(string \<rightharpoonup> NodeLike) \<Rightarrow> GraphEdgeDto \<Rightarrow>
    (string \<rightharpoonup> string) \<times> (string \<rightharpoonup> CanonicalMemberDto list) \<Rightarrow> (string \<rightharpoonup> string) \<times> (string \<rightharpoonup> CanonicalMemberDto list)" where
  "extract_edge_member node_by_id edge st =
     (case member_and_host node_by_id edge of
        None \<Rightarrow> st
      | Some (member_id, host_id) \<Rightarrow>
          ((fst st)(member_id \<mapsto> host_id), push_member host_id (edge_member node_by_id member_id) (snd st)))"

definition structural_labels :: "NodeLike list \<Rightarrow> (string \<rightharpoonup> string)" where
  "structural_labels nodes =
     fold (\<lambda>node m. if is_structural_kind (nl_kind node) then m(nl_label node \<mapsto> nl_id node) else m) nodes Map.empty"

text \<open>The state of the loop over detached qualified members.\<close>

record detached_state =
  dt_member_host_by_id :: "string \<rightharpoonup> string"
  dt_members_by_host :: "string \<rightharpoonup> CanonicalMemberDto list"
  dt_host_ids_by_label :: "string \<rightharpoonup> string"
  dt_synthetic_hosts_by_id :: "(string \<times> NodeLike) list"

definition synthetic_host :: "NodeLike \<Rightarrow> string \<Rightarrow> NodeLike" where
  "synthetic_host node host_label =
     \<lparr>nl_id = synthetic_host_id host_label, nl_label = host_label, nl_kind = ANK_CLASS,
      nl_depth = max 1 (sat_sub (nl_depth node) 1), nl_badge_visible_members = None,
      nl_badge_total_members = None, nl_member_access = None\<rparr>"

text \<open>The host of a qualified label, made up when no structural node has its name.\<close>

definition detached_host :: "NodeLike \<Rightarrow> string \<Rightarrow> detached_state \<Rightarrow> string \<times> detached_state" where
  "detached_host node host_label st =
     (case dt_host_ids_by_label st host_label of
        Some existing \<Rightarrow> (existing, st)
      | None \<Rightarrow>
          (let host_id = synthetic_host_id host_label
           in (host_id, st\<lparr>dt_host_ids_by_label := (dt_host_ids_by_label st)(host_label \<mapsto> host_id),
                 dt_synthetic_hosts_by_id :=
                   (if map_of (dt_synthetic_hosts_by_id st) host_id = None
                    then AList.update host_id (synthetic_host node host_label) (dt_synthetic_hosts_by_id st)
                    else dt_synthetic_hosts_by_id st)\<rparr>)))"

definition extract_detached :: "NodeLike \<Rightarrow> detached_state \<Rightarrow> detached_state" where
  "extract_detached node st =
     (if is_structural_kind (nl_kind node) \<or> dt_member_host_by_id st (nl_id node) \<noteq> None then st
      else case find_str ''::'' (nl_label node) of
        None \<Rightarrow> st
      | Some separator_idx \<Rightarrow>
          if separator_idx = 0 then st
          else (case detached_host node (take separator_idx (nl_label node)) st of (host_id, st) \<Rightarrow>
            st\<lparr>dt_member_host_by_id := (dt_member_host_by_id st)(nl_id node \<mapsto> host_id),
               dt_members_by_host := push_member host_id (node_member node) (dt_members_by_host st)\<rparr>))"

definition extract_state :: "NodeLike list \<Rightarrow> GraphEdgeDto list \<Rightarrow> detached_state" where
  "extract_state nodes edges =
     (let node_by_id = collect_map (\<lambda>node. node) nodes;
          (member_host_by_id, members_by_host) =
            fold (extract_edge_member node_by_id) edges (Map.empty, Map.empty)
      in fold extract_detached nodes
           \<lparr>dt_member_host_by_id = member_host_by_id, dt_members_by_host = members_by_host,
            dt_host_ids_by_label = structural_labels nodes, dt_synthetic_hosts_by_id = []\<rparr>)"

definition extract_members :: "hash_orders \<Rightarrow> NodeLike list \<Rightarrow> GraphEdgeDto list \<Rightarrow> MemberExtraction" where
  "extract_members ho nodes edges =
     (let st = extract_state nodes edges
      in \<lparr>mx_member_host_by_id = dt_member_host_by_id st, mx_members_by_host = dt_members_by_host st,
          mx_synthetic_hosts = map snd (ho_hosts ho (dt_synthetic_hosts_by_id st))\<rparr>)"

section \<open>Signed depths\<close>

text \<open>\<^verbatim>\<open>as i32\<close>, and subtraction of \<^verbatim>\<open>i32\<close> values without overflow checks.\<close>

definition wrap_i32 :: "int \<Rightarrow> int" where
  "wrap_i32 x = (x + 2147483648) mod 4294967296 - 2147483648"

definition bias_edge :: "string \<Rightarrow> GraphEdgeDto \<Rightarrow> (string \<Rightarrow> int) \<Rightarrow> (string \<Rightarrow> int)" where
  "bias_edge center edge bias =
     (if ged_kind edge = AEK_MEMBER then bias
      else let bias = (if ged_source edge = center \<and> ged_target edge \<noteq> center
                       then bias(ged_target edge := bias (ged_target edge) + 1) else bias)
           in if ged_target edge = center \<and> ged_source edge \<noteq> center
              then bias(ged_source edge := bias (ged_source edge) - 1) else bias)"

definition compute_signed_depth_by_node :: "NodeLike list \<Rightarrow> GraphEdgeDto list \<Rightarrow> string \<Rightarrow> (string \<rightharpoonup> int)" where
  "compute_signed_depth_by_node nodes edges center =
     (let bias = fold (bias_edge center) edges (\<lambda>_. 0)
      in collect_map (\<lambda>node. if nl_id node = center then 0
           else let base_depth = max 1 (wrap_i32 (int (nl_depth node)))
                in if bias (nl_id node) < 0 then - base_depth else base_depth) nodes)"

section \<open>Folding\<close>

definition certainty_rank :: "string option \<Rightarrow> int" where
  "certainty_rank certainty =
     (case map_option to_ascii_lowercase certainty of
        Some value \<Rightarrow> if value = ''uncertain'' then 2 else if value = ''probable'' then 1 else 0
      | None \<Rightarrow> 0)"

definition merge_certainty :: "string option \<Rightarrow> string option \<Rightarrow> string option" where
  "merge_certainty existing nxt = (if certainty_rank nxt > certainty_rank existing then nxt else existing)"

definition dedupe_key_for_node :: "ApiNodeKind \<Rightarrow> string \<Rightarrow> int \<Rightarrow> bool \<Rightarrow> string option" where
  "dedupe_key_for_node kind label depth is_center =
     (if is_center then None
      else if is_card_node_kind kind then Some (node_kind_name kind @ '':'' @ to_ascii_lowercase label)
      else Some (node_kind_name kind @ '':'' @ to_ascii_lowercase label @ '':'' @ show_int depth))"

record fold_nodes_state =
  fn_canonical_node_by_id :: "(string \<times> string) list"
  fn_canonical_node_by_key :: "string \<rightharpoonup> string"
  fn_duplicate_count :: "string \<rightharpoonup> nat"
  fn_merged_ids :: "string \<rightharpoonup> string list"

definition node_key :: "string \<Rightarrow> (string \<rightharpoonup> int) \<Rightarrow> NodeLike \<Rightarrow> string option" where
  "node_key center signed_depth_by_node node =
     (let depth = (case signed_depth_by_node (nl_id node) of
                     Some depth \<Rightarrow> depth | None \<Rightarrow> max 1 (wrap_i32 (int (nl_depth node))))
      in dedupe_key_for_node (nl_kind node) (nl_label node) depth (nl_id node = center))"

definition fold_node :: "string \<Rightarrow> (string \<rightharpoonup> string) \<Rightarrow> (string \<rightharpoonup> int) \<Rightarrow> NodeLike \<Rightarrow> fold_nodes_state \<Rightarrow> fold_nodes_state" where
  "fold_node center member_host_by_id signed_depth_by_node node st =
     (if member_host_by_id (nl_id node) \<noteq> None then st
      else let key = node_key center signed_depth_by_node node;
               canonical_id =
                 (case key of
                    Some key_value \<Rightarrow> (case fn_canonical_node_by_key st key_value of Some c \<Rightarrow> c | None \<Rightarrow> nl_id node)
                  | None \<Rightarrow> nl_id node);
               by_key =
                 (case key of
                    Some key_value \<Rightarrow>
                      if fn_canonical_node_by_key st key_value = None
                      then (fn_canonical_node_by_key st)(key_value \<mapsto> canonical_id) else fn_canonical_node_by_key st
                  | None \<Rightarrow> fn_canonical_node_by_key st);
               count = (case fn_duplicate_count st canonical_id of Some n \<Rightarrow> n | None \<Rightarrow> 0);
               merged = (case fn_merged_ids st canonical_id of Some ids \<Rightarrow> ids | None \<Rightarrow> [])
           in \<lparr>fn_canonical_node_by_id = AList.update (nl_id node) canonical_id (fn_canonical_node_by_id st),
               fn_canonical_node_by_key = by_key,
               fn_duplicate_count = (fn_duplicate_count st)(canonical_id \<mapsto> count + 1),
               fn_merged_ids = (fn_merged_ids st)(canonical_id \<mapsto> merged @ [nl_id node])\<rparr>)"

definition fold_nodes :: "string \<Rightarrow> (string \<rightharpoonup> string) \<Rightarrow> (string \<rightharpoonup> int) \<Rightarrow> NodeLike list \<Rightarrow> fold_nodes_state" where
  "fold_nodes center member_host_by_id signed_depth_by_node nodes =
     fold (fold_node center member_host_by_id signed_depth_by_node) nodes
       \<lparr>fn_canonical_node_by_id = [], fn_canonical_node_by_key = Map.empty,
        fn_duplicate_count = Map.empty, fn_merged_ids = Map.empty\<rparr>"

text \<open>Where an edge runs in the layout; none for a membership and for an edge inside one node.\<close>

record edge_route =
  er_source :: string
  er_target :: string
  er_kind :: ApiEdgeKind
  er_source_handle :: string
  er_target_handle :: string

definition value_or :: "'a \<Rightarrow> 'a option \<Rightarrow> 'a" where
  "value_or d x = (case x of Some y \<Rightarrow> y | None \<Rightarrow> d)"

definition route_of_edge :: "(string \<rightharpoonup> string) \<Rightarrow> (string \<rightharpoonup> string) \<Rightarrow> GraphEdgeDto \<Rightarrow> edge_route option" where
  "route_of_edge member_host_by_id canonical_node_by_id edge =
     (if ged_kind edge = AEK_MEMBER then None
      else let family = edge_family_for_kind (ged_kind edge);
               source_host = member_host_by_id (ged_source edge);
               target_host = member_host_by_id (ged_target edge);
               source_node_id = value_or (ged_source edge) source_host;
               target_node_id = value_or (ged_target edge) target_host;
               source = value_or source_node_id (canonical_node_by_id source_node_id);
               target = value_or target_node_id (canonical_node_by_id target_node_id)
           in if source = target then None
              else Some \<lparr>er_source = source, er_target = target, er_kind = ged_kind edge,
                er_source_handle =
                  (if source_host \<noteq> None then ''source-member-'' @ ged_source edge
                   else if family = FamilyHierarchy then ''source-node-top'' else ''source-node''),
                er_target_handle =
                  (if target_host \<noteq> None then ''target-member-'' @ ged_target edge
                   else if family = FamilyHierarchy then ''target-node-bottom'' else ''target-node'')\<rparr>)"

definition route_key :: "edge_route \<Rightarrow> string" where
  "route_key r = edge_kind_name (er_kind r) @ '':'' @ er_source r @ '':'' @ er_source_handle r
     @ '':'' @ er_target r @ '':'' @ er_target_handle r"

definition new_folded :: "edge_route \<Rightarrow> GraphEdgeDto \<Rightarrow> FoldedEdge" where
  "new_folded r edge =
     \<lparr>fe_id = route_key r, fe_source_edge_ids = [ged_id edge], fe_source = er_source r, fe_target = er_target r,
      fe_kind = er_kind r, fe_certainty = ged_certainty edge, fe_multiplicity = 1,
      fe_source_handle = er_source_handle r, fe_target_handle = er_target_handle r,
      fe_family = edge_family_for_kind (er_kind r)\<rparr>"

definition merge_folded :: "FoldedEdge \<Rightarrow> GraphEdgeDto \<Rightarrow> FoldedEdge" where
  "merge_folded existing edge =
     existing\<lparr>fe_multiplicity := sat_add32 (fe_multiplicity existing) 1,
       fe_source_edge_ids := fe_source_edge_ids existing @ [ged_id edge],
       fe_certainty := merge_certainty (fe_certainty existing) (ged_certainty edge)\<rparr>"

definition fold_edge :: "(string \<rightharpoonup> string) \<Rightarrow> (string \<rightharpoonup> string) \<Rightarrow> GraphEdgeDto \<Rightarrow>
    (string \<times> FoldedEdge) list \<Rightarrow> (string \<times> FoldedEdge) list" where
  "fold_edge member_host_by_id canonical_node_by_id edge folded =
     (case route_of_edge member_host_by_id canonical_node_by_id edge of
        None \<Rightarrow> folded
      | Some r \<Rightarrow>
          (case map_of folded (route_key r) of
             Some existing \<Rightarrow> AList.update (route_key r) (merge_folded existing edge) folded
           | None \<Rightarrow> AList.update (route_key r) (new_folded r edge) folded))"

definition fold_edges :: "hash_orders \<Rightarrow> NodeLike list \<Rightarrow> GraphEdgeDto list \<Rightarrow> string \<Rightarrow> (string \<rightharpoonup> string) \<Rightarrow>
    (string \<rightharpoonup> int) \<Rightarrow> FoldResult" where
  "fold_edges ho nodes edges center member_host_by_id signed_depth_by_node =
     (let st = fold_nodes center member_host_by_id signed_depth_by_node nodes;
          folded = fold (fold_edge member_host_by_id (map_of (fn_canonical_node_by_id st))) edges []
      in \<lparr>fr_folded_edges = sort_by (\<lambda>left right. ord_cmp (fe_id left) (fe_id right)) (map snd (ho_folded ho folded)),
          fr_canonical_node_by_id = fn_canonical_node_by_id st,
          fr_duplicate_count_by_canonical = fn_duplicate_count st,
          fr_merged_ids_by_canonical = fn_merged_ids st\<rparr>)"

section \<open>Sizes\<close>

text \<open>
  \<^verbatim>\<open>f32\<close> arithmetic on the sizes: sums and products below \<open>2 ^ 22\<close> in quarters are exact, and
  larger ones lie far beyond the upper clamp, rounded or not.
\<close>

definition CARD_WIDTH_MIN :: rat where "CARD_WIDTH_MIN = 228"
definition CARD_WIDTH_MAX :: rat where "CARD_WIDTH_MAX = 432"
definition CARD_CHROME_WIDTH :: rat where "CARD_CHROME_WIDTH = 112"
definition CARD_HEIGHT_MIN :: rat where "CARD_HEIGHT_MIN = 110"
definition CARD_HEIGHT_MAX :: rat where "CARD_HEIGHT_MAX = 560"
definition PILL_WIDTH_MIN :: rat where "PILL_WIDTH_MIN = 96"
definition PILL_WIDTH_MAX :: rat where "PILL_WIDTH_MAX = 560"
definition PILL_CHROME_WIDTH :: rat where "PILL_CHROME_WIDTH = 72"
definition PILL_HEIGHT :: rat where "PILL_HEIGHT = 34"
definition APPROX_CHAR_WIDTH :: rat where "APPROX_CHAR_WIDTH = 29 / 4"
definition CANONICAL_SCHEMA_VERSION :: nat where "CANONICAL_SCHEMA_VERSION = 1"
definition MAX_MERGED_SYMBOL_IDS :: nat where "MAX_MERGED_SYMBOL_IDS = 6"

text \<open>\<^verbatim>\<open>chars().count()\<close>: the bytes that do not continue a character.\<close>

definition char_count :: "string \<Rightarrow> nat" where
  "char_count s = length (filter (\<lambda>c. \<not> (128 \<le> byte c \<and> byte c < 192)) s)"

definition clamp :: "rat \<Rightarrow> rat \<Rightarrow> rat \<Rightarrow> rat" where
  "clamp value lo hi = min (max value lo) hi"

definition text_width :: "nat \<Rightarrow> rat" where
  "text_width chars = of_nat chars * APPROX_CHAR_WIDTH"

definition estimated_node_width :: "ApiNodeKind \<Rightarrow> string \<Rightarrow> CanonicalMemberDto list \<Rightarrow> f32" where
  "estimated_node_width kind label members =
     (if is_card_node_kind kind
      then let member_longest = foldr max (map (\<lambda>member. char_count (cm_label member)) members) 0;
               longest_label = max (char_count label) member_longest
           in F32_Fin (clamp (CARD_CHROME_WIDTH + text_width longest_label) CARD_WIDTH_MIN CARD_WIDTH_MAX)
      else F32_Fin (clamp (PILL_CHROME_WIDTH + text_width (char_count label)) PILL_WIDTH_MIN PILL_WIDTH_MAX))"

definition estimated_node_height :: "ApiNodeKind \<Rightarrow> CanonicalMemberDto list \<Rightarrow> f32" where
  "estimated_node_height kind members =
     (if \<not> is_card_node_kind kind then F32_Fin PILL_HEIGHT
      else let count = (\<lambda>v. length (filter (\<lambda>member. cm_visibility member = v) members));
               section_count = length (filter (\<lambda>n. n > 0)
                 [count VisibilityPublic, count VisibilityProtected, count VisibilityPrivate, count VisibilityDefault]);
               effective_sections = (if section_count = 0 then 1 else section_count)
           in F32_Fin (clamp (74 + of_nat effective_sections * 28 + of_nat (max 1 (length members)) * 21)
                CARD_HEIGHT_MIN CARD_HEIGHT_MAX))"

section \<open>The layout\<close>

definition merge_members :: "(string \<rightharpoonup> CanonicalMemberDto list) \<Rightarrow> string \<times> string \<Rightarrow>
    (string \<rightharpoonup> CanonicalMemberDto list) \<Rightarrow> (string \<rightharpoonup> CanonicalMemberDto list)" where
  "merge_members members_by_host entry m =
     (case members_by_host (fst entry) of
        None \<Rightarrow> m
      | Some members \<Rightarrow>
          if members = [] then m
          else m(snd entry \<mapsto>
            fold (\<lambda>member merged. if cm_id member \<in> cm_id ` set merged then merged else merged @ [member])
              members (value_or [] (m (snd entry)))))"

text \<open>
  \<^verbatim>\<open>js_round\<close> of the mean of the depths. The sum is exact in an \<^verbatim>\<open>f64\<close>, and below \<open>2 ^ 20\<close> nodes the
  rounding of the quotient stays clear of the next integer.
\<close>

definition mean_depth :: "int list \<Rightarrow> int" where
  "mean_depth depths =
     (if depths = [] then 0
      else \<lfloor>(of_int (sum_list depths) / of_nat (length depths) + 1 / 2 :: rat)\<rfloor>)"

definition member_cmp :: "CanonicalMemberDto \<Rightarrow> CanonicalMemberDto \<Rightarrow> ordering" where
  "member_cmp left right =
     then_with (ord_cmp (cm_label left) (cm_label right)) (ord_cmp (cm_id left) (cm_id right))"

definition canonical_cmp :: "(string \<rightharpoonup> int) \<Rightarrow> (string \<rightharpoonup> string) \<Rightarrow> string \<Rightarrow> string \<Rightarrow> ordering" where
  "canonical_cmp depth_by_canonical label_by_node left right =
     (let depth_diff = wrap_i32 (value_or 0 (depth_by_canonical left) - value_or 0 (depth_by_canonical right))
      in if depth_diff \<noteq> 0 then ord_cmp depth_diff 0
         else then_with (ord_cmp (value_or left (label_by_node left)) (value_or right (label_by_node right)))
                (ord_cmp left right))"

text \<open>What the rows of the layout are made from, once the graph is folded.\<close>

record layout_parts =
  lp_node_by_id :: "string \<rightharpoonup> NodeLike"
  lp_center :: string
  lp_members :: "string \<rightharpoonup> CanonicalMemberDto list"
  lp_depth :: "string \<rightharpoonup> int"
  lp_duplicates :: "string \<rightharpoonup> nat"
  lp_merged :: "string \<rightharpoonup> string list"

definition canonical_node :: "layout_parts \<Rightarrow> string \<Rightarrow> NodeLike \<Rightarrow> nat \<Rightarrow> CanonicalNodeDto" where
  "canonical_node lp node_id node row =
     (let members = sort_by member_cmp (value_or [] (lp_members lp node_id))
      in \<lparr>cnd_id = node_id, cnd_kind = nl_kind node, cnd_label = nl_label node,
          cnd_center = (node_id = lp_center lp),
          cnd_node_style = (if is_card_node_kind (nl_kind node) then StyleCard else StylePill),
          cnd_is_non_indexed = (nl_kind node = ANK_UNKNOWN \<or> nl_kind node = ANK_BUILTIN_TYPE),
          cnd_duplicate_count = value_or 1 (lp_duplicates lp node_id),
          cnd_merged_symbol_ids = take MAX_MERGED_SYMBOL_IDS (value_or [node_id] (lp_merged lp node_id)),
          cnd_member_count = value_or (min (length members) u32_max) (nl_badge_visible_members node),
          cnd_badge_visible_members = nl_badge_visible_members node,
          cnd_badge_total_members = nl_badge_total_members node, cnd_members = members,
          cnd_x_rank = value_or 0 (lp_depth lp node_id), cnd_y_rank = row,
          cnd_width = estimated_node_width (nl_kind node) (nl_label node) members,
          cnd_height = estimated_node_height (nl_kind node) members, cnd_is_virtual_bundle = False\<rparr>)"

fun canonical_rows :: "layout_parts \<Rightarrow> string list \<Rightarrow> (int \<Rightarrow> nat) \<Rightarrow> CanonicalNodeDto list" where
  "canonical_rows lp [] row_by_depth = []"
| "canonical_rows lp (node_id # node_ids) row_by_depth =
     (case lp_node_by_id lp node_id of
        None \<Rightarrow> canonical_rows lp node_ids row_by_depth
      | Some node \<Rightarrow>
          (let depth = value_or 0 (lp_depth lp node_id); row = row_by_depth depth
           in canonical_node lp node_id node row
                # canonical_rows lp node_ids (row_by_depth(depth := sat_add32 row 1))))"

definition canonical_edge :: "FoldedEdge \<Rightarrow> CanonicalEdgeDto" where
  "canonical_edge edge =
     \<lparr>ced_id = fe_id edge, ced_source_edge_ids = fe_source_edge_ids edge, ced_source = fe_source edge,
      ced_target = fe_target edge, ced_source_handle = fe_source_handle edge,
      ced_target_handle = fe_target_handle edge, ced_kind = fe_kind edge, ced_certainty = fe_certainty edge,
      ced_multiplicity = fe_multiplicity edge, ced_family = fe_family edge,
      ced_route_kind = (if fe_family edge = FamilyHierarchy then RouteHierarchy else RouteDirect)\<rparr>"

definition build_canonical_layout ::
  "hash_orders \<Rightarrow> string \<Rightarrow> GraphNodeDto list \<Rightarrow> GraphEdgeDto list \<Rightarrow> CanonicalLayoutDto" where
  "build_canonical_layout ho center_id nodes edges =
     (let base_nodes = map node_like_from nodes;
          mx = extract_members ho base_nodes edges;
          all_nodes = base_nodes @ mx_synthetic_hosts mx;
          node_by_id = collect_map (\<lambda>node. node) all_nodes;
          label_by_node = collect_map nl_label all_nodes;
          center_host_node_id = value_or center_id (mx_member_host_by_id mx center_id);
          signed_depth_by_node = compute_signed_depth_by_node all_nodes edges center_host_node_id;
          fr = fold_edges ho all_nodes edges center_host_node_id (mx_member_host_by_id mx) signed_depth_by_node;
          members_by_canonical =
            fold (merge_members (mx_members_by_host mx)) (ho_canonical ho (fr_canonical_node_by_id fr)) Map.empty;
          canonical_node_ids = sort_by ord_cmp (ho_ids ho (remdups (map snd (fr_canonical_node_by_id fr))));
          center_node_id = value_or center_host_node_id (map_of (fr_canonical_node_by_id fr) center_host_node_id);
          depth_by_canonical = map_of (map (\<lambda>canonical_id. (canonical_id,
            mean_depth (map (\<lambda>node_id. value_or 0 (signed_depth_by_node node_id))
              (value_or [canonical_id] (fr_merged_ids_by_canonical fr canonical_id))))) canonical_node_ids);
          lp = \<lparr>lp_node_by_id = node_by_id, lp_center = center_node_id, lp_members = members_by_canonical,
                lp_depth = depth_by_canonical, lp_duplicates = fr_duplicate_count_by_canonical fr,
                lp_merged = fr_merged_ids_by_canonical fr\<rparr>
      in \<lparr>cl_schema_version = CANONICAL_SCHEMA_VERSION, cl_center_node_id = center_node_id,
          cl_nodes = canonical_rows lp (sort_by (canonical_cmp depth_by_canonical label_by_node) canonical_node_ids) (\<lambda>_. 0),
          cl_edges = map canonical_edge (fr_folded_edges fr)\<rparr>)"

end
