(* ===== verification/Layout_Facts.thy ===== *)
theory Layout_Facts
  imports Canonical_Layout
begin

text \<open>
  What the canonical layout promises: it does not depend on the order in which hash maps are
  iterated, its edges fold the given edges route by route, and no node is lost. The folding of the
  nodes is described by the first node of each key (\<open>representative\<close>), that of the edges by the edges of
  each key (\<open>edge_group\<close>).
\<close>

section \<open>Folding the nodes\<close>

interpretation member_order: comparator member_cmp
  unfolding member_cmp_def [abs_def] by (intro comparator_then comparator_key)

interpretation id_order: comparator "\<lambda>x y. ord_cmp (f x) (f y :: string)" for f
  by (rule comparator_key)

text \<open>The node that stands for one: the first with its key, itself without a key.\<close>

definition representative :: "(NodeLike \<Rightarrow> string option) \<Rightarrow> NodeLike list \<Rightarrow> NodeLike \<Rightarrow> string" where
  "representative key N n =
     (case key n of
        None \<Rightarrow> nl_id n
      | Some k \<Rightarrow> (case find (\<lambda>m. key m = Some k) N of Some m \<Rightarrow> nl_id m | None \<Rightarrow> nl_id n))"

definition listed :: "'a list \<Rightarrow> 'a list option" where
  "listed xs = (if xs = [] then None else Some xs)"

lemma find_snoc: "find P (xs @ [x]) = (case find P xs of Some y \<Rightarrow> Some y | None \<Rightarrow> if P x then Some x else None)"
  by (induction xs) auto

lemma representative_snoc: "n \<in> set N \<Longrightarrow> representative key (N @ [x]) n = representative key N n"
  by (auto simp: representative_def find_snoc find_None_iff split: option.splits)

lemma update_fresh: "k \<notin> fst ` set al \<Longrightarrow> AList.update k v al = al @ [(k, v)]"
  by (induction al) auto

definition folded_state :: "(NodeLike \<Rightarrow> string option) \<Rightarrow> NodeLike list \<Rightarrow> fold_nodes_state" where
  "folded_state key N =
     \<lparr>fn_canonical_node_by_id = map (\<lambda>n. (nl_id n, representative key N n)) N,
      fn_canonical_node_by_key = (\<lambda>k. map_option nl_id (find (\<lambda>m. key m = Some k) N)),
      fn_duplicate_count = (\<lambda>c. map_option length (listed (filter (\<lambda>n. representative key N n = c) N))),
      fn_merged_ids = (\<lambda>c. map_option (map nl_id) (listed (filter (\<lambda>n. representative key N n = c) N)))\<rparr>"

lemma filter_representative_snoc:
  "filter (\<lambda>n. representative key (N @ [x]) n = c) N = filter (\<lambda>n. representative key N n = c) N"
  by (intro filter_cong) (auto simp: representative_snoc)

lemma fold_node_state:
  fixes key N x
  defines "st \<equiv> folded_state key N" and "c \<equiv> representative key (N @ [x]) x"
  assumes key: "key = node_key center depths" and free: "hosts (nl_id x) = None" and new: "nl_id x \<notin> nl_id ` set N"
  shows "fold_node center hosts depths x st = folded_state key (N @ [x])"
proof -
  have c: "c = (case key x of Some k \<Rightarrow> (case fn_canonical_node_by_key st k of Some c \<Rightarrow> c | None \<Rightarrow> nl_id x)
      | None \<Rightarrow> nl_id x)"
    by (auto simp: c_def st_def folded_state_def representative_def find_snoc split: option.splits)
  have ids: "AList.update (nl_id x) c (fn_canonical_node_by_id st) = fn_canonical_node_by_id (folded_state key (N @ [x]))"
  proof -
    have "map (\<lambda>n. (nl_id n, representative key (N @ [x]) n)) N = map (\<lambda>n. (nl_id n, representative key N n)) N"
      by (auto simp: representative_snoc)
    then show ?thesis using new by (subst update_fresh) (auto simp: st_def c_def folded_state_def)
  qed
  have by_key: "(case key x of
        Some k \<Rightarrow> if fn_canonical_node_by_key st k = None then (fn_canonical_node_by_key st)(k \<mapsto> c) else fn_canonical_node_by_key st
      | None \<Rightarrow> fn_canonical_node_by_key st) = fn_canonical_node_by_key (folded_state key (N @ [x]))"
    unfolding c by (rule ext) (auto simp: st_def folded_state_def find_snoc split: option.splits)
  have count: "(fn_duplicate_count st)(c \<mapsto> (case fn_duplicate_count st c of Some n \<Rightarrow> n | None \<Rightarrow> 0) + 1)
      = fn_duplicate_count (folded_state key (N @ [x]))"
    by (rule ext) (auto simp: st_def folded_state_def filter_representative_snoc c_def [symmetric] listed_def)
  have merged: "(fn_merged_ids st)(c \<mapsto> (case fn_merged_ids st c of Some ids \<Rightarrow> ids | None \<Rightarrow> []) @ [nl_id x])
      = fn_merged_ids (folded_state key (N @ [x]))"
    by (rule ext) (auto simp: st_def folded_state_def filter_representative_snoc c_def [symmetric] listed_def)
  show ?thesis
    unfolding fold_node_def Let_def key [symmetric] c [symmetric] ids by_key count merged
    using free by simp
qed

lemma fold_nodes_result:
  assumes "distinct (map nl_id ns)"
  shows "fold_nodes center hosts depths ns =
    folded_state (node_key center depths) (filter (\<lambda>n. hosts (nl_id n) = None) ns)"
  using assms
proof (induction ns rule: rev_induct)
  case Nil
  then show ?case by (simp add: fold_nodes_def folded_state_def listed_def)
next
  case (snoc x ns)
  let ?N = "filter (\<lambda>n. hosts (nl_id n) = None) ns"
  have "fold_nodes center hosts depths (ns @ [x]) = fold_node center hosts depths x (folded_state (node_key center depths) ?N)"
    using snoc by (simp add: fold_nodes_def)
  moreover have "nl_id x \<notin> nl_id ` set ?N" using snoc.prems by auto
  ultimately show ?case by (cases "hosts (nl_id x) = None") (auto simp: fold_node_state, simp add: fold_node_def)
qed

section \<open>Synthetic hosts\<close>

text \<open>The id made for a host label does not depend on its case.\<close>

lemma byte_ascii_lower:
  "byte (ascii_lower c) = byte c \<or> 65 \<le> byte c \<and> byte c \<le> 90 \<and> byte (ascii_lower c) = byte c + 32"
  by (auto simp: ascii_lower_def byte_def)

lemma is_ws3_lower: "is_ws3 (byte (ascii_lower a)) (byte (ascii_lower b)) (byte (ascii_lower c)) = is_ws3 (byte a) (byte b) (byte c)"
  using byte_ascii_lower [of a] byte_ascii_lower [of b] byte_ascii_lower [of c] unfolding is_ws3_def by (elim disjE) auto

lemma ws_byte_lower:
  "byte (ascii_lower c) = 32 \<or> 9 \<le> byte (ascii_lower c) \<and> byte (ascii_lower c) \<le> 13 \<longleftrightarrow> byte c = 32 \<or> 9 \<le> byte c \<and> byte c \<le> 13"
  "byte (ascii_lower a) = 194 \<and> (byte (ascii_lower c) = 133 \<or> byte (ascii_lower c) = 160) \<longleftrightarrow> byte a = 194 \<and> (byte c = 133 \<or> byte c = 160)"
  using byte_ascii_lower [of a] byte_ascii_lower [of c] by (elim disjE; auto)+

lemma ws_prefix_lower: "ws_prefix (map ascii_lower s) = ws_prefix s"
  by (cases s rule: ws_prefix.cases) (auto simp: ws_byte_lower is_ws3_lower split: list.splits)

lemma ws_suffix_lower: "ws_suffix_rev (map ascii_lower s) = ws_suffix_rev s"
  by (cases s rule: ws_suffix_rev.cases) (auto simp: ws_byte_lower is_ws3_lower split: list.splits)

lemma trim_start_lower: "trim_start (map ascii_lower s) = map ascii_lower (trim_start s)"
proof (induction s rule: trim_start.induct)
  case (1 s)
  then show ?case
    by (simp add: trim_start.simps [of s] trim_start.simps [of "map ascii_lower s"] ws_prefix_lower drop_map)
qed

lemma trim_rev_lower: "trim_rev (map ascii_lower s) = map ascii_lower (trim_rev s)"
proof (induction s rule: trim_rev.induct)
  case (1 s)
  then show ?case
    by (simp add: trim_rev.simps [of s] trim_rev.simps [of "map ascii_lower s"] ws_suffix_lower drop_map)
qed

lemma slug_loop_lower: "slug_loop (map ascii_lower s) slug last_dash = slug_loop s slug last_dash"
  by (induction s slug last_dash rule: slug_loop.induct) (auto simp: Let_def)

lemma synthetic_host_id_lower: "synthetic_host_id (to_ascii_lowercase l) = synthetic_host_id l"
  by (simp add: synthetic_host_id_def to_ascii_lowercase_def trim_def trim_end_def trim_start_lower
      rev_map trim_rev_lower slug_loop_lower)

lemma synthetic_host_id_cong: "to_ascii_lowercase a = to_ascii_lowercase b \<Longrightarrow> synthetic_host_id a = synthetic_host_id b"
  by (metis synthetic_host_id_lower)

lemma synthetic_host_id_prefix: "starts_with (synthetic_host_id l) ''__synthetic_host__''"
  by (simp add: synthetic_host_id_def Let_def)

section \<open>What the extraction finds\<close>

definition host_known :: "NodeLike list \<Rightarrow> (string \<times> NodeLike) list \<Rightarrow> string \<Rightarrow> bool" where
  "host_known B S h \<longleftrightarrow> h \<in> fst ` set S \<or> (\<exists>n \<in> set B. is_structural_kind (nl_kind n) \<and> nl_id n = h)"

text \<open>Hosts made up are classes under the id of their label, one for each id.\<close>

definition hosts_ok :: "(string \<times> NodeLike) list \<Rightarrow> bool" where
  "hosts_ok S \<longleftrightarrow> distinct (map fst S)
     \<and> (\<forall>(k, v) \<in> set S. nl_id v = k \<and> nl_kind v = ANK_CLASS \<and> k = synthetic_host_id (nl_label v))"

text \<open>Members are nodes that are not structural, listed by their hosts.\<close>

definition members_ok :: "NodeLike list \<Rightarrow> (string \<times> NodeLike) list \<Rightarrow> (string \<rightharpoonup> string) \<Rightarrow>
    (string \<rightharpoonup> CanonicalMemberDto list) \<Rightarrow> bool" where
  "members_ok B S mh mb \<longleftrightarrow>
     (\<forall>h ms. mb h = Some ms \<longrightarrow> distinct (map cm_id ms)
        \<and> (\<forall>m \<in> set ms. \<exists>n \<in> set B. \<not> is_structural_kind (nl_kind n) \<and> m = node_member n))
   \<and> (\<forall>m h. mh m = Some h \<longrightarrow> host_known B S h
        \<and> (\<exists>n \<in> set B. \<not> is_structural_kind (nl_kind n) \<and> nl_id n = m)
        \<and> (\<exists>ms. mb h = Some ms \<and> m \<in> cm_id ` set ms))"

definition extraction_ok :: "NodeLike list \<Rightarrow> detached_state \<Rightarrow> bool" where
  "extraction_ok B st \<longleftrightarrow> hosts_ok (dt_synthetic_hosts_by_id st)
     \<and> (\<forall>l h. dt_host_ids_by_label st l = Some h \<longrightarrow> host_known B (dt_synthetic_hosts_by_id st) h)
     \<and> members_ok B (dt_synthetic_hosts_by_id st) (dt_member_host_by_id st) (dt_members_by_host st)"

lemma collect_map_Some: "collect_map f ns k = Some v \<Longrightarrow> \<exists>n \<in> set ns. nl_id n = k \<and> v = f n"
  by (auto simp: collect_map_def dest!: map_of_SomeD)

lemma collect_map_same:
  assumes "distinct (map nl_id ns)" and "mset ns = mset ns'"
  shows "collect_map f ns = collect_map f ns'"
proof -
  have "distinct (map nl_id ns')" using assms by (metis mset_eq_imp_distinct_iff mset_map)
  with assms show ?thesis
    unfolding collect_map_def
    by (subst map_of_inject_set) (auto simp: rev_map [symmetric] comp_def dest: mset_eq_setD)
qed

lemma cm_id_node_member [simp]: "cm_id (node_member n) = nl_id n"
  by (simp add: node_member_def)

lemma push_member_apply:
  "push_member h member m x =
     (if x = h then Some (if cm_id member \<in> cm_id ` set (value_or [] (m h)) then value_or [] (m h)
                          else value_or [] (m h) @ [member])
      else m x)"
  by (auto simp: push_member_def Let_def value_or_def list_ex_iff image_iff)

lemma members_ok_push:
  assumes ok: "members_ok B S mh mb" and n: "n \<in> set B" "\<not> is_structural_kind (nl_kind n)" and h: "host_known B S h"
  shows "members_ok B S (mh(nl_id n \<mapsto> h)) (push_member h (node_member n) mb)"
proof -
  have lists: "distinct (map cm_id ms) \<and> (\<forall>m \<in> set ms. \<exists>n \<in> set B. \<not> is_structural_kind (nl_kind n) \<and> m = node_member n)"
    if "mb x = Some ms" for x ms
    using ok that unfolding members_ok_def by blast
  have hosts: "host_known B S x \<and> (\<exists>n \<in> set B. \<not> is_structural_kind (nl_kind n) \<and> nl_id n = m)
      \<and> (\<exists>ms. mb x = Some ms \<and> m \<in> cm_id ` set ms)" if "mh m = Some x" for m x
    using ok that unfolding members_ok_def by blast
  have old: "distinct (map cm_id (value_or [] (mb h)))
      \<and> (\<forall>m \<in> set (value_or [] (mb h)). \<exists>n \<in> set B. \<not> is_structural_kind (nl_kind n) \<and> m = node_member n)"
    using lists by (cases "mb h") (auto simp: value_or_def)
  have kept: "\<exists>ms. push_member h (node_member n) mb x = Some ms \<and> m \<in> cm_id ` set ms"
    if "mb x = Some ms" "m \<in> cm_id ` set ms" for x m ms
    using that by (cases "x = h") (auto simp: push_member_apply value_or_def)
  have added: "\<exists>ms. push_member h (node_member n) mb h = Some ms \<and> nl_id n \<in> cm_id ` set ms"
    by (auto simp: push_member_apply)
  show ?thesis unfolding members_ok_def
  proof (intro conjI allI impI, goal_cases)
    case (1 x ms)
    then show ?case using old lists by (auto simp: push_member_apply split: if_splits)
  next
    case (2 x ms)
    then show ?case using old lists n by (auto simp: push_member_apply split: if_splits)
  next
    case (3 m x)
    then show ?case using h hosts by (auto split: if_splits)
  next
    case (4 m x)
    then show ?case using n hosts by (auto split: if_splits)
  next
    case (5 m x)
    then show ?case using added hosts kept by (cases "m = nl_id n") fastforce+
  qed
qed

lemma members_ok_hosts: "members_ok B S mh mb \<Longrightarrow> fst ` set S \<subseteq> fst ` set S' \<Longrightarrow> members_ok B S' mh mb"
  unfolding members_ok_def host_known_def by blast

lemma edge_member_node: "node_by_id m = Some n \<Longrightarrow> nl_id n = m \<Longrightarrow> edge_member node_by_id m = node_member n"
  by (simp add: edge_member_def node_member_def Let_def)

lemma extract_edge_ok:
  assumes "members_ok B [] (fst st) (snd st)"
  shows "members_ok B [] (fst (extract_edge_member (collect_map (\<lambda>n. n) B) e st)) (snd (extract_edge_member (collect_map (\<lambda>n. n) B) e st))"
proof (cases "member_and_host (collect_map (\<lambda>n. n) B) e")
  case (Some p)
  let ?M = "collect_map (\<lambda>n. n) B"
  obtain m h where p: "p = (m, h)" by (cases p)
  obtain mn hn where "?M (nl_id mn) = Some mn" "m = nl_id mn" "h = nl_id hn" "mn \<in> set B" "hn \<in> set B"
    "\<not> is_structural_kind (nl_kind mn)" "is_structural_kind (nl_kind hn)"
    using Some p collect_map_Some [of "\<lambda>n. n" B "ged_source e"] collect_map_Some [of "\<lambda>n. n" B "ged_target e"]
    by (auto simp: member_and_host_def Let_def split: if_splits option.splits)
  with members_ok_push [OF assms, of mn h] Some p show ?thesis
    by (auto simp: extract_edge_member_def edge_member_node host_known_def)
qed (use assms in \<open>simp add: extract_edge_member_def\<close>)

lemma structural_labels_known: "structural_labels B l = Some h \<Longrightarrow> host_known B S h"
proof -
  have "fold (\<lambda>node m. if is_structural_kind (nl_kind node) then m(nl_label node \<mapsto> nl_id node) else m) ns m l = Some h \<Longrightarrow>
      m l = Some h \<or> (\<exists>n \<in> set ns. is_structural_kind (nl_kind n) \<and> nl_id n = h)" for ns m
    by (induction ns arbitrary: m) (fastforce split: if_splits)+
  then show "structural_labels B l = Some h \<Longrightarrow> host_known B S h"
    unfolding structural_labels_def host_known_def by fastforce
qed

lemma update_unmapped: "map_of al k = None \<Longrightarrow> AList.update k v al = al @ [(k, v)]"
  by (rule update_fresh) (simp add: map_of_eq_None_iff)

lemma detached_host_ok:
  assumes ok: "extraction_ok B st" and host: "detached_host node l st = (h, st')"
  shows "extraction_ok B st' \<and> host_known B (dt_synthetic_hosts_by_id st') h
    \<and> dt_member_host_by_id st' = dt_member_host_by_id st \<and> dt_members_by_host st' = dt_members_by_host st"
proof (cases "dt_host_ids_by_label st l")
  case (Some existing)
  with assms show ?thesis by (auto simp: detached_host_def extraction_ok_def)
next
  case None
  let ?S = "dt_synthetic_hosts_by_id st" and ?S' = "dt_synthetic_hosts_by_id st'"
  have parts: "hosts_ok ?S" "\<And>l h. dt_host_ids_by_label st l = Some h \<Longrightarrow> host_known B ?S h"
    "members_ok B ?S (dt_member_host_by_id st) (dt_members_by_host st)"
    using ok unfolding extraction_ok_def by blast+
  have h: "h = synthetic_host_id l" and labels: "dt_host_ids_by_label st' = (dt_host_ids_by_label st)(l \<mapsto> h)"
    and S': "?S' = (if map_of ?S h = None then ?S @ [(h, synthetic_host node l)] else ?S)"
    and same: "dt_member_host_by_id st' = dt_member_host_by_id st" "dt_members_by_host st' = dt_members_by_host st"
    using host None by (auto simp: detached_host_def Let_def update_unmapped)
  have grows: "fst ` set ?S \<subseteq> fst ` set ?S'" and mem: "h \<in> fst ` set ?S'"
    using S' by (auto simp: map_of_eq_None_iff image_iff)
  have "hosts_ok ?S'"
    using parts(1) S' h by (auto simp: hosts_ok_def synthetic_host_def map_of_eq_None_iff image_iff)
  moreover have "host_known B ?S' x" if "dt_host_ids_by_label st' k = Some x" for k x
    using that labels mem grows parts(2) [of k x] by (auto simp: host_known_def split: if_splits)
  moreover have "members_ok B ?S' (dt_member_host_by_id st') (dt_members_by_host st')"
    using members_ok_hosts [OF parts(3) grows] same by simp
  ultimately show ?thesis using mem same by (auto simp: extraction_ok_def host_known_def)
qed

lemma extract_detached_ok:
  assumes ok: "extraction_ok B st" and node: "node \<in> set B"
  shows "extraction_ok B (extract_detached node st)"
proof -
  have "extraction_ok B (st'\<lparr>dt_member_host_by_id := (dt_member_host_by_id st')(nl_id node \<mapsto> h),
      dt_members_by_host := push_member h (node_member node) (dt_members_by_host st')\<rparr>)"
    if "\<not> is_structural_kind (nl_kind node)" "detached_host node l st = (h, st')" for l h st'
    using detached_host_ok [OF ok that(2)] members_ok_push [OF _ node that(1)] by (auto simp: extraction_ok_def)
  with ok show ?thesis by (auto simp: extract_detached_def split: option.splits prod.splits)
qed

lemma extract_state_ok: "extraction_ok B (extract_state B edges)"
proof -
  let ?M = "collect_map (\<lambda>n. n) B"
  have edges: "members_ok B [] (fst (fold (extract_edge_member ?M) es st)) (snd (fold (extract_edge_member ?M) es st))"
    if "members_ok B [] (fst st) (snd st)" for es st
    using that by (induction es arbitrary: st) (simp_all add: extract_edge_ok)
  have detached: "extraction_ok B (fold extract_detached ns st)" if "extraction_ok B st" "set ns \<subseteq> set B" for ns st
    using that by (induction ns arbitrary: st) (simp_all add: extract_detached_ok)
  obtain mh mb where st: "fold (extract_edge_member ?M) edges (Map.empty, Map.empty) = (mh, mb)" by fastforce
  have "members_ok B [] Map.empty Map.empty" by (simp add: members_ok_def)
  with edges [of "(Map.empty, Map.empty)" edges] st have "members_ok B [] mh mb" by simp
  then have "extraction_ok B \<lparr>dt_member_host_by_id = mh, dt_members_by_host = mb,
      dt_host_ids_by_label = structural_labels B, dt_synthetic_hosts_by_id = []\<rparr>"
    by (auto simp: extraction_ok_def hosts_ok_def structural_labels_known)
  from detached [OF this] st show ?thesis by (simp add: extract_state_def Let_def)
qed

section \<open>The order of the synthetic hosts does not matter\<close>

lemma mset_all_same:
  assumes "\<And>x y. x \<in> set xs \<Longrightarrow> y \<in> set xs \<Longrightarrow> x = y" and "mset xs = mset ys"
  shows "xs = ys"
proof (cases xs)
  case (Cons a as)
  then have "xs = replicate (length xs) a" using assms(1) by (intro replicate_eqI) auto
  moreover have "ys = replicate (length ys) a"
    using assms Cons by (intro replicate_eqI) (metis list.set_intros(1) mset_eq_setD refl)+
  ultimately show ?thesis using mset_eq_length [OF assms(2)] by simp
qed (use assms(2) in simp)

lemma find_permuted:
  assumes "mset H = mset H'" and "\<And>x y. x \<in> set H \<Longrightarrow> y \<in> set H \<Longrightarrow> P x \<Longrightarrow> P y \<Longrightarrow> x = y"
  shows "find P (B @ H) = find P (B @ H')"
proof -
  have "filter P H = filter P H'"
    using assms by (intro mset_all_same) auto
  then have "filter P (B @ H) = filter P (B @ H')" by simp
  moreover have "find P xs = (case filter P xs of [] \<Rightarrow> None | x # _ \<Rightarrow> Some x)" for xs :: "'a list"
    by (induction xs) auto
  ultimately show ?thesis by metis
qed

lemma representative_node: "\<exists>m \<in> set (n # N). representative key N n = nl_id m \<and> key m = key n"
  by (auto simp: representative_def find_Some_iff split: option.splits)

lemma representative_inj:
  assumes "distinct (map nl_id N)" and "x \<in> set N" "y \<in> set N" and "representative key N x = representative key N y"
  shows "key x = key y"
  using assms representative_node [where N = N and n = x and key = key] representative_node [where N = N and n = y and key = key]
  by (metis distinct_map inj_onD set_ConsD)

text \<open>Nodes with their own keys may come in any order after the others.\<close>

lemma representative_permuted:
  assumes "mset H = mset H'" and "\<And>x y. x \<in> set H \<Longrightarrow> y \<in> set H \<Longrightarrow> key x = key y \<Longrightarrow> x = y"
  shows "representative key (B @ H) n = representative key (B @ H') n"
proof -
  have "find (\<lambda>m. key m = Some k) (B @ H) = find (\<lambda>m. key m = Some k) (B @ H')" for k
    by (rule find_permuted [OF assms(1)]) (use assms(2) in auto)
  then show ?thesis by (simp add: representative_def split: option.splits)
qed

lemma folded_state_permuted:
  assumes ids: "distinct (map nl_id (B @ H))" and perm: "mset H = mset H'"
    and keys: "\<And>x y. x \<in> set H \<Longrightarrow> y \<in> set H \<Longrightarrow> key x = key y \<Longrightarrow> x = y"
  shows "fn_duplicate_count (folded_state key (B @ H)) = fn_duplicate_count (folded_state key (B @ H'))"
    and "fn_merged_ids (folded_state key (B @ H)) = fn_merged_ids (folded_state key (B @ H'))"
    and "mset (fn_canonical_node_by_id (folded_state key (B @ H))) = mset (fn_canonical_node_by_id (folded_state key (B @ H')))"
proof -
  have same: "representative key (B @ H) n = representative key (B @ H') n" for n
    by (rule representative_permuted [OF perm]) (rule keys)
  have "filter (\<lambda>n. representative key (B @ H) n = c) H = filter (\<lambda>n. representative key (B @ H) n = c) H'" for c
  proof (rule mset_all_same)
    fix x y
    assume "x \<in> set (filter (\<lambda>n. representative key (B @ H) n = c) H)" "y \<in> set (filter (\<lambda>n. representative key (B @ H) n = c) H)"
    then show "x = y" using representative_inj [OF ids, of x y key] keys by auto
  qed (use perm in simp)
  then have filters: "filter (\<lambda>n. representative key (B @ H) n = c) (B @ H)
      = filter (\<lambda>n. representative key (B @ H') n = c) (B @ H')" for c
    by (simp add: same)
  show "fn_duplicate_count (folded_state key (B @ H)) = fn_duplicate_count (folded_state key (B @ H'))"
    and "fn_merged_ids (folded_state key (B @ H)) = fn_merged_ids (folded_state key (B @ H'))"
    unfolding folded_state_def fold_nodes_state.simps filters by (rule refl)+
  show "mset (fn_canonical_node_by_id (folded_state key (B @ H))) = mset (fn_canonical_node_by_id (folded_state key (B @ H')))"
    using perm by (simp add: folded_state_def same)
qed

section \<open>Members of a canonical node\<close>

text \<open>A member is determined by its id.\<close>

definition members_by_id :: "(string \<Rightarrow> CanonicalMemberDto) \<Rightarrow> CanonicalMemberDto list \<Rightarrow> bool" where
  "members_by_id D ms \<longleftrightarrow> (\<forall>m \<in> set ms. m = D (cm_id m))"

lemma merge_list:
  assumes "members_by_id D (merged @ members)" and "distinct merged"
  shows "distinct (fold (\<lambda>member merged. if cm_id member \<in> cm_id ` set merged then merged else merged @ [member]) members merged)
    \<and> set (fold (\<lambda>member merged. if cm_id member \<in> cm_id ` set merged then merged else merged @ [member]) members merged)
      = set merged \<union> set members"
  using assms
proof (induction members arbitrary: merged)
  case (Cons m members)
  then have "m \<in> set merged" if "cm_id m \<in> cm_id ` set merged"
    using that unfolding members_by_id_def by (metis (no_types, lifting) Un_iff image_iff list.set_intros(1) set_append)
  moreover have "members_by_id D (merged @ members)" "members_by_id D ((merged @ [m]) @ members)"
    using Cons.prems(1) by (auto simp: members_by_id_def)
  moreover have "distinct (merged @ [m])" if "cm_id m \<notin> cm_id ` set merged" using that Cons.prems(2) by auto
  ultimately show ?case
    using Cons.IH [of merged] Cons.IH [of "merged @ [m]"] Cons.prems(2)
    by (cases "cm_id m \<in> cm_id ` set merged") auto
qed simp

definition members_at :: "(string \<rightharpoonup> CanonicalMemberDto list) \<Rightarrow> (string \<times> string) list \<Rightarrow> string \<Rightarrow> CanonicalMemberDto set" where
  "members_at mb L c = {m. \<exists>n ms. (n, c) \<in> set L \<and> mb n = Some ms \<and> m \<in> set ms}"

lemma merge_members_at:
  fixes mb L m c
  defines "r \<equiv> fold (merge_members mb) L m"
  assumes "\<And>n ms. mb n = Some ms \<Longrightarrow> members_by_id D ms" and "\<And>c. members_by_id D (value_or [] (m c)) \<and> distinct (value_or [] (m c))"
  shows "distinct (value_or [] (r c)) \<and> set (value_or [] (r c)) = set (value_or [] (m c)) \<union> members_at mb L c"
  using assms(3) unfolding r_def
proof (induction L arbitrary: m)
  case Nil
  then show ?case by (simp add: members_at_def)
next
  case (Cons e L)
  obtain n c' where e: "e = (n, c')" by (cases e)
  let ?m = "merge_members mb e m"
  have m: "distinct (value_or [] (?m x)) \<and> set (value_or [] (?m x)) = set (value_or [] (m x)) \<union> members_at mb [e] x" for x
  proof (cases "mb n")
    case None
    then show ?thesis using Cons.prems [of x] by (auto simp: merge_members_def e members_at_def)
  next
    case (Some ms)
    show ?thesis
    proof (cases "ms \<noteq> [] \<and> x = c'")
      case True
      have "members_by_id D (value_or [] (m x) @ ms)" "distinct (value_or [] (m x))"
        using Cons.prems [of x] assms(2) [OF Some] by (auto simp: members_by_id_def)
      from merge_list [OF this] show ?thesis
        using True Some by (simp add: merge_members_def e members_at_def value_or_def [of "[]" "Some _"])
    next
      case False
      then show ?thesis using Some Cons.prems [of x] by (auto simp: merge_members_def e members_at_def)
    qed
  qed
  have "members_by_id D (value_or [] (?m x))" for x
    unfolding members_by_id_def m [THEN conjunct2]
    using Cons.prems [of x] assms(2) by (auto simp: members_at_def members_by_id_def)
  with Cons.IH [of ?m] m have "distinct (value_or [] (fold (merge_members mb) L ?m c))
      \<and> set (value_or [] (fold (merge_members mb) L ?m c)) = set (value_or [] (m c)) \<union> members_at mb [e] c \<union> members_at mb L c"
    by simp
  moreover have "members_at mb (e # L) c = members_at mb [e] c \<union> members_at mb L c"
    by (auto simp: members_at_def)
  ultimately show ?case by (simp add: Un_assoc)
qed

section \<open>Folding the edges\<close>

definition edge_group :: "(string \<rightharpoonup> string) \<Rightarrow> (string \<rightharpoonup> string) \<Rightarrow> GraphEdgeDto list \<Rightarrow> string \<Rightarrow> GraphEdgeDto list" where
  "edge_group hosts canonical edges k = filter (\<lambda>e. map_option route_key (route_of_edge hosts canonical e) = Some k) edges"

definition fold_group :: "edge_route \<Rightarrow> GraphEdgeDto list \<Rightarrow> FoldedEdge" where
  "fold_group r g = foldl merge_folded (new_folded r (hd g)) (tl g)"

text \<open>The entry of a key folds the edges with that key, in order.\<close>

lemma fold_edges_groups:
  fixes hosts canonical edges
  defines "F \<equiv> fold (fold_edge hosts canonical) edges []" and "grp \<equiv> edge_group hosts canonical edges"
  shows "distinct (map fst F) \<and> (\<forall>k. map_of F k =
    (if grp k = [] then None else Some (fold_group (the (route_of_edge hosts canonical (hd (grp k)))) (grp k))))"
  unfolding F_def grp_def
proof (induction edges rule: rev_induct)
  case Nil
  then show ?case by (simp add: edge_group_def)
next
  case (snoc e es)
  let ?F = "fold (fold_edge hosts canonical) es []"
  let ?g = "edge_group hosts canonical es"
  have IH: "distinct (map fst ?F)"
    "map_of ?F k = (if ?g k = [] then None else Some (fold_group (the (route_of_edge hosts canonical (hd (?g k)))) (?g k)))" for k
    using snoc by auto
  show ?case
  proof (cases "route_of_edge hosts canonical e")
    case None
    then have "edge_group hosts canonical (es @ [e]) k = ?g k" for k by (simp add: edge_group_def)
    moreover have "fold (fold_edge hosts canonical) (es @ [e]) [] = ?F" using None by (simp add: fold_edge_def [of _ _ e])
    ultimately show ?thesis using IH by simp
  next
    case (Some r)
    have g: "edge_group hosts canonical (es @ [e]) k = ?g k @ (if k = route_key r then [e] else [])" for k
      using Some by (simp add: edge_group_def)
    let ?v = "if ?g (route_key r) = [] then new_folded r e
      else merge_folded (fold_group (the (route_of_edge hosts canonical (hd (?g (route_key r))))) (?g (route_key r))) e"
    have F: "fold (fold_edge hosts canonical) (es @ [e]) [] = AList.update (route_key r) ?v ?F"
      using Some IH(2) [of "route_key r"] by (simp add: fold_edge_def [of _ _ e])
    have "?v = fold_group (the (route_of_edge hosts canonical (hd (?g (route_key r) @ [e])))) (?g (route_key r) @ [e])"
      using Some by (auto simp: fold_group_def)
    then show ?thesis
      unfolding F g using IH by (simp add: distinct_update update_conv')
  qed
qed

lemma fold_group_fields:
  assumes "g \<noteq> []"
  shows "fe_id (fold_group r g) = route_key r" "fe_source (fold_group r g) = er_source r"
    "fe_target (fold_group r g) = er_target r" "fe_kind (fold_group r g) = er_kind r"
    "fe_source_handle (fold_group r g) = er_source_handle r" "fe_target_handle (fold_group r g) = er_target_handle r"
    "fe_family (fold_group r g) = edge_family_for_kind (er_kind r)"
    "fe_source_edge_ids (fold_group r g) = map ged_id g"
    "fe_multiplicity (fold_group r g) = min (length g) u32_max"
proof -
  have "fe_id (foldl merge_folded f g) = fe_id f \<and> fe_source (foldl merge_folded f g) = fe_source f
    \<and> fe_target (foldl merge_folded f g) = fe_target f \<and> fe_kind (foldl merge_folded f g) = fe_kind f
    \<and> fe_source_handle (foldl merge_folded f g) = fe_source_handle f
    \<and> fe_target_handle (foldl merge_folded f g) = fe_target_handle f
    \<and> fe_family (foldl merge_folded f g) = fe_family f
    \<and> fe_source_edge_ids (foldl merge_folded f g) = fe_source_edge_ids f @ map ged_id g
    \<and> (fe_multiplicity f \<le> u32_max \<longrightarrow> fe_multiplicity (foldl merge_folded f g) = min (fe_multiplicity f + length g) u32_max)"
    for f g by (induction g arbitrary: f) (auto simp: merge_folded_def sat_add32_def)
  note fields = this [of "new_folded r (hd g)" "tl g"]
  obtain e g' where "g = e # g'" using assms by (cases g) auto
  with fields show "fe_id (fold_group r g) = route_key r" "fe_source (fold_group r g) = er_source r"
    "fe_target (fold_group r g) = er_target r" "fe_kind (fold_group r g) = er_kind r"
    "fe_source_handle (fold_group r g) = er_source_handle r" "fe_target_handle (fold_group r g) = er_target_handle r"
    "fe_family (fold_group r g) = edge_family_for_kind (er_kind r)"
    "fe_source_edge_ids (fold_group r g) = map ged_id g"
    "fe_multiplicity (fold_group r g) = min (length g) u32_max"
    by (simp_all add: fold_group_def new_folded_def u32_max_def)
qed

text \<open>A folded edge is as uncertain as the least certain edge in it.\<close>

lemma fold_group_certainty:
  assumes "g \<noteq> []"
  shows "fe_certainty (fold_group r g) \<in> ged_certainty ` set g
    \<and> (\<forall>e \<in> set g. certainty_rank (ged_certainty e) \<le> certainty_rank (fe_certainty (fold_group r g)))"
proof -
  have "fe_certainty (foldl merge_folded f g) \<in> insert (fe_certainty f) (ged_certainty ` set g)
    \<and> (\<forall>c \<in> insert (fe_certainty f) (ged_certainty ` set g). certainty_rank c \<le> certainty_rank (fe_certainty (foldl merge_folded f g)))"
    for f g
  proof (induction g arbitrary: f)
    case (Cons e g)
    show ?case using Cons [of "merge_folded f e"] by (auto simp: merge_folded_def merge_certainty_def split: if_splits)
  qed simp
  from this [of "new_folded r (hd g)" "tl g"] assms show ?thesis
    by (cases g) (auto simp: fold_group_def new_folded_def)
qed

section \<open>The layout does not depend on the order of its hash maps\<close>

definition hash_orders_ok :: "hash_orders \<Rightarrow> bool" where
  "hash_orders_ok ho \<longleftrightarrow> (\<forall>xs. mset (ho_hosts ho xs) = mset xs) \<and> (\<forall>xs. mset (ho_canonical ho xs) = mset xs)
     \<and> (\<forall>xs. mset (ho_ids ho xs) = mset xs) \<and> (\<forall>xs. mset (ho_folded ho xs) = mset xs)"

lemma hash_orders_okD:
  assumes "hash_orders_ok ho"
  shows "mset (ho_hosts ho xs) = mset xs" "mset (ho_canonical ho ys) = mset ys"
    "mset (ho_ids ho zs) = mset zs" "mset (ho_folded ho ws) = mset ws"
  using assms unfolding hash_orders_ok_def by blast+

text \<open>Ids of the nodes of a response: none twice, none that a made-up host could take.\<close>

definition own_ids :: "NodeLike list \<Rightarrow> bool" where
  "own_ids B \<longleftrightarrow> distinct (map nl_id B) \<and> (\<forall>n \<in> set B. \<not> starts_with (nl_id n) ''__synthetic_host__'')"

lemma hosts_ids:
  assumes "hosts_ok S" and "mset S' = mset S"
  shows "map nl_id (map snd S') = map fst S'" and "distinct (map fst S')"
proof -
  have "set S' = set S" by (rule mset_eq_setD [OF assms(2)])
  with assms(1) show "map nl_id (map snd S') = map fst S'" by (auto simp: hosts_ok_def)
  show "distinct (map fst S')" using assms unfolding hosts_ok_def by (metis mset_eq_imp_distinct_iff mset_map)
qed

lemma all_nodes_distinct:
  assumes "own_ids B" and "hosts_ok S" and "mset S' = mset S"
  shows "distinct (map nl_id (B @ map snd S'))"
proof -
  have "starts_with k ''__synthetic_host__''" if "k \<in> set (map fst S')" for k
    using that assms(2) mset_eq_setD [OF assms(3)] synthetic_host_id_prefix by (fastforce simp: hosts_ok_def)
  then show ?thesis
    using assms(1) hosts_ids [OF assms(2,3)] by (auto simp: own_ids_def distinct_append simp del: map_map)
qed

lemma class_key: "nl_kind n = ANK_CLASS \<Longrightarrow>
    node_key center depths n = (if nl_id n = center then None else Some (''CLASS:'' @ to_ascii_lowercase (nl_label n)))"
  by (simp add: node_key_def dedupe_key_for_node_def is_card_node_kind_def is_structural_kind_def)

lemma host_keys_differ:
  assumes ok: "hosts_ok S" and x: "x \<in> snd ` set S" and y: "y \<in> snd ` set S"
    and key: "node_key center depths x = node_key center depths y"
  shows "x = y"
proof -
  from x y obtain kx ky where in_S: "(kx, x) \<in> set S" "(ky, y) \<in> set S" by auto
  with ok have kinds: "nl_kind x = ANK_CLASS" "nl_kind y = ANK_CLASS"
    and ids: "nl_id x = kx" "nl_id y = ky" "kx = synthetic_host_id (nl_label x)" "ky = synthetic_host_id (nl_label y)"
    by (auto simp: hosts_ok_def)
  have "kx = ky"
  proof (cases "nl_id x = center")
    case True
    with key have "nl_id y = center" using kinds
      by (simp add: class_key split: if_splits)
    with True ids show ?thesis by simp
  next
    case False
    with key kinds have "to_ascii_lowercase (nl_label x) = to_ascii_lowercase (nl_label y)"
      by (simp add: class_key split: if_splits)
    from synthetic_host_id_cong [OF this] ids show ?thesis by (simp only:)
  qed
  moreover have "distinct (map fst S)" using ok unfolding hosts_ok_def by blast
  ultimately show ?thesis using in_S by (metis eq_key_imp_eq_value)
qed

lemma fold_nodes_permuted:
  fixes B S S' center hosts depths
  defines "st \<equiv> fold_nodes center hosts depths (B @ map snd S)" and "st' \<equiv> fold_nodes center hosts depths (B @ map snd S')"
  assumes own: "own_ids B" and S: "hosts_ok S" and perm: "mset S' = mset S"
  shows "fn_duplicate_count st = fn_duplicate_count st'" "fn_merged_ids st = fn_merged_ids st'"
    "mset (fn_canonical_node_by_id st) = mset (fn_canonical_node_by_id st')"
    "distinct (map fst (fn_canonical_node_by_id st))"
proof -
  let ?free = "filter (\<lambda>n. hosts (nl_id n) = None)"
  let ?key = "node_key center depths"
  have d: "distinct (map nl_id (B @ map snd S))" "distinct (map nl_id (B @ map snd S'))"
    using all_nodes_distinct [OF own S] perm by auto
  have st: "st = folded_state ?key (?free B @ ?free (map snd S))" "st' = folded_state ?key (?free B @ ?free (map snd S'))"
    unfolding st_def st'_def fold_nodes_result [OF d(1)] fold_nodes_result [OF d(2)] by simp_all
  have ids: "distinct (map nl_id (?free B @ ?free (map snd S)))"
    using distinct_map_filter [OF d(1), of "\<lambda>n. hosts (nl_id n) = None"] by simp
  have free: "mset (?free (map snd S)) = mset (?free (map snd S'))" using perm by simp
  have keys: "x = y" if "x \<in> set (?free (map snd S))" "y \<in> set (?free (map snd S))" "?key x = ?key y" for x y
    using that host_keys_differ [OF S] by auto
  show "fn_duplicate_count st = fn_duplicate_count st'" "fn_merged_ids st = fn_merged_ids st'"
    "mset (fn_canonical_node_by_id st) = mset (fn_canonical_node_by_id st')"
    unfolding st using folded_state_permuted [OF ids free keys] by blast+
  show "distinct (map fst (fn_canonical_node_by_id st))"
    unfolding st using ids by (simp add: folded_state_def comp_def)
qed

lemma collect_map_found: "distinct (map nl_id ns) \<Longrightarrow> n \<in> set ns \<Longrightarrow> collect_map f ns (nl_id n) = Some (f n)"
  by (auto simp: collect_map_def rev_map [symmetric] comp_def intro!: map_of_is_SomeI)

lemma members_have_ids:
  assumes "distinct (map nl_id B)" and "members_ok B S mh mb" and "mb n = Some ms"
  shows "members_by_id (\<lambda>k. node_member (the (collect_map (\<lambda>n. n) B k))) ms"
  using assms(2,3) unfolding members_ok_def members_by_id_def
  by (metis cm_id_node_member collect_map_found [OF assms(1)] option.sel)

lemma merged_members:
  assumes "distinct (map nl_id B)" and "members_ok B S mh mb"
  shows "distinct (value_or [] (fold (merge_members mb) K Map.empty c))
    \<and> set (value_or [] (fold (merge_members mb) K Map.empty c)) = members_at mb K c"
  using merge_members_at [where m = Map.empty and L = K and c = c, OF members_have_ids [OF assms]]
  by (simp add: value_or_def [of "[]" None] members_by_id_def)

lemma members_sorted_same:
  assumes own: "distinct (map nl_id B)" and ok: "members_ok B S mh mb" and perm: "mset L = mset L'"
  shows "sort_by member_cmp (value_or [] (fold (merge_members mb) L Map.empty c)) =
    sort_by member_cmp (value_or [] (fold (merge_members mb) L' Map.empty c))"
proof -
  note at = merged_members [OF own ok]
  have same: "members_at mb L c = members_at mb L' c" using mset_eq_setD [OF perm] by (simp add: members_at_def)
  have "mset (value_or [] (fold (merge_members mb) L Map.empty c)) = mset (value_or [] (fold (merge_members mb) L' Map.empty c))"
    using at [of L] at [of L'] same by (intro set_eq_iff_mset_eq_distinct [THEN iffD1]) auto
  then show ?thesis
  proof (rule member_order.sort_by_canonical)
    fix x y
    assume "x \<in> set (value_or [] (fold (merge_members mb) L Map.empty c))" "y \<in> set (value_or [] (fold (merge_members mb) L Map.empty c))"
      "member_cmp x y = Equal"
    then have "x \<in> members_at mb L c" "y \<in> members_at mb L c" "cm_id x = cm_id y"
      using at [of L] by (auto simp: member_cmp_def)
    moreover have "m = node_member (the (collect_map (\<lambda>n. n) B (cm_id m)))" if "m \<in> members_at mb L c" for m
      using that members_have_ids [OF own ok] unfolding members_at_def members_by_id_def by blast
    ultimately show "x = y" by metis
  qed
qed

lemma folded_sorted_same:
  fixes hosts canonical edges
  defines "F \<equiv> fold (fold_edge hosts canonical) edges []"
  assumes "mset L = mset F" and "mset L' = mset F"
  shows "sort_by (\<lambda>left right. ord_cmp (fe_id left) (fe_id right)) (map snd L) =
    sort_by (\<lambda>left right. ord_cmp (fe_id left) (fe_id right)) (map snd L')"
proof (rule id_order.sort_by_canonical)
  show "mset (map snd L) = mset (map snd L')" using assms(2,3) by simp
  fix x y
  assume x: "x \<in> set (map snd L)" and y: "y \<in> set (map snd L)" and eq: "ord_cmp (fe_id x) (fe_id y) = Equal"
  note groups = fold_edges_groups [of hosts canonical edges, folded F_def]
  have key: "fe_id v = k" if "(k, v) \<in> set F" for k v
  proof -
    have "map_of F k = Some v" using groups that by (intro map_of_is_SomeI) blast+
    then have "edge_group hosts canonical edges k \<noteq> []"
      "v = fold_group (the (route_of_edge hosts canonical (hd (edge_group hosts canonical edges k)))) (edge_group hosts canonical edges k)"
      using groups by (auto split: if_splits)
    moreover from this(1) have "hd (edge_group hosts canonical edges k) \<in> set (edge_group hosts canonical edges k)" by simp
    ultimately show ?thesis by (auto simp: fold_group_fields edge_group_def)
  qed
  from x y obtain kx ky where "(kx, x) \<in> set F" "(ky, y) \<in> set F" using mset_eq_setD [OF assms(2)] by auto
  with eq key groups show "x = y" by (auto dest: eq_key_imp_eq_value)
qed

lemma canonical_rows_members:
  assumes "\<And>c. sort_by member_cmp (value_or [] (lp_members lp c)) = sort_by member_cmp (value_or [] (m c))"
  shows "canonical_rows lp ids f = canonical_rows (lp\<lparr>lp_members := m\<rparr>) ids f"
  by (induction ids arbitrary: f) (auto simp: canonical_node_def assms Let_def split: option.splits)

lemma sort_ids_same: "mset xs = mset ys \<Longrightarrow> sort_by ord_cmp xs = sort_by ord_cmp (ys :: string list)"
  using comparator.sort_by_canonical [OF comparator_key [of "\<lambda>x :: string. x"], of xs ys] by simp

lemma layout_same:
  fixes nodes edges center_id
  defines "B \<equiv> map node_like_from nodes"
  defines "st \<equiv> extract_state B edges"
  assumes own: "own_ids B" and ho: "hash_orders_ok ho" and ho': "hash_orders_ok ho'"
  shows "build_canonical_layout ho center_id nodes edges = build_canonical_layout ho' center_id nodes edges"
proof -
  let ?S = "ho_hosts ho (dt_synthetic_hosts_by_id st)" and ?S' = "ho_hosts ho' (dt_synthetic_hosts_by_id st)"
  have ok: "hosts_ok (dt_synthetic_hosts_by_id st)"
    "members_ok B (dt_synthetic_hosts_by_id st) (dt_member_host_by_id st) (dt_members_by_host st)"
    using extract_state_ok [of B edges] unfolding st_def extraction_ok_def by blast+
  note orders = hash_orders_okD [OF ho] hash_orders_okD [OF ho']
  have S: "hosts_ok ?S" "mset ?S' = mset ?S"
    using ok(1) orders mset_eq_setD [OF orders(1)] hosts_ids(2) [OF ok(1)] by (simp_all add: hosts_ok_def)
  have nodes: "collect_map f (B @ map snd ?S) = collect_map f (B @ map snd ?S')" for f :: "NodeLike \<Rightarrow> 'v"
    using all_nodes_distinct [OF own S(1), of ?S] S(2) by (intro collect_map_same) auto
  define center where "center = value_or center_id (dt_member_host_by_id st center_id)"
  define depths where "depths = compute_signed_depth_by_node (B @ map snd ?S) edges center"
  have depths': "compute_signed_depth_by_node (B @ map snd ?S') edges center = depths"
    by (simp add: depths_def compute_signed_depth_by_node_def nodes)
  define fs where "fs = fold_nodes center (dt_member_host_by_id st) depths (B @ map snd ?S)"
  define fs' where "fs' = fold_nodes center (dt_member_host_by_id st) depths (B @ map snd ?S')"
  note same = fold_nodes_permuted [OF own S, of center "dt_member_host_by_id st" depths, folded fs_def fs'_def]
  let ?C = "fn_canonical_node_by_id fs" and ?C' = "fn_canonical_node_by_id fs'"
  have C: "map_of ?C = map_of ?C'" "set ?C = set ?C'"
    using same(3,4) by (metis map_of_inject_set mset_eq_imp_distinct_iff mset_eq_setD mset_map)+
  have ids: "sort_by ord_cmp (ho_ids ho (remdups (map snd ?C))) = sort_by ord_cmp (ho_ids ho' (remdups (map snd ?C')))"
    using C(2) orders by (intro sort_ids_same) (simp_all add: set_eq_iff_mset_remdups_eq [symmetric])
  have members: "sort_by member_cmp (value_or [] (fold (merge_members (dt_members_by_host st)) (ho_canonical ho ?C) Map.empty c)) =
      sort_by member_cmp (value_or [] (fold (merge_members (dt_members_by_host st)) (ho_canonical ho' ?C') Map.empty c))" for c
    using own orders same(3) by (intro members_sorted_same [OF _ ok(2)]) (auto simp: own_ids_def)
  have folded: "sort_by (\<lambda>left right. ord_cmp (fe_id left) (fe_id right))
        (map snd (ho_folded ho (fold (fold_edge (dt_member_host_by_id st) (map_of ?C)) edges []))) =
      sort_by (\<lambda>left right. ord_cmp (fe_id left) (fe_id right))
        (map snd (ho_folded ho' (fold (fold_edge (dt_member_host_by_id st) (map_of ?C)) edges [])))"
    by (rule folded_sorted_same) (rule orders)+
  show ?thesis
    unfolding build_canonical_layout_def extract_members_def fold_edges_def Let_def B_def [symmetric] st_def [symmetric]
      MemberExtraction.simps FoldResult.simps center_def [symmetric] depths_def [symmetric] depths'
      fs_def [symmetric] fs'_def [symmetric] nodes same(1,2) C(1) [symmetric] ids folded
    by (subst canonical_rows_members [OF _]) (simp_all add: members)
qed

section \<open>Routes are told apart by their keys\<close>

definition plain :: "string \<Rightarrow> bool" where
  "plain s \<longleftrightarrow> CHR '':'' \<notin> set s"

lemma colon_split: "plain a \<Longrightarrow> plain a' \<Longrightarrow> a @ CHR '':'' # b = a' @ CHR '':'' # b' \<Longrightarrow> a = a' \<and> b = b'"
  unfolding plain_def
proof (induction a arbitrary: a')
  case Nil
  then show ?case by (cases a') auto
next
  case (Cons x a)
  then show ?case by (cases a') auto
qed

lemma plain_edge_kind_name: "plain (edge_kind_name k)"
  by (cases k) (simp_all add: plain_def)

lemma edge_kind_name_inj: "edge_kind_name k = edge_kind_name k' \<Longrightarrow> k = k'"
  by (cases k; cases k') simp_all

definition plain_route :: "edge_route \<Rightarrow> bool" where
  "plain_route r \<longleftrightarrow> plain (er_source r) \<and> plain (er_source_handle r) \<and> plain (er_target r)"

lemma route_key_inj:
  assumes "plain_route r" "plain_route r'" "route_key r = route_key r'"
  shows "r = r'"
proof -
  have "edge_kind_name (er_kind r) = edge_kind_name (er_kind r') \<and> er_source r = er_source r'
      \<and> er_source_handle r = er_source_handle r' \<and> er_target r = er_target r' \<and> er_target_handle r = er_target_handle r'"
    using assms unfolding route_key_def plain_route_def append.simps by (metis colon_split plain_edge_kind_name)
  then show ?thesis using edge_kind_name_inj by simp
qed

lemma slug_loop_chars: "set (slug_loop s slug d) \<subseteq> set slug \<union> {c. is_ascii_alphanumeric c} \<union> {CHR ''-''}"
  by (induction s slug d rule: slug_loop.induct) (auto simp: Let_def split: if_splits)

lemma plain_synthetic: "plain (synthetic_host_id l)"
proof -
  have "CHR '':'' \<notin> set (slug_loop s [] False)" for s
    using slug_loop_chars [of s "[]" False] by (auto simp: is_ascii_alphanumeric_def byte_def)
  then show ?thesis
    using set_trim_end_matches by (fastforce simp: synthetic_host_id_def Let_def plain_def)
qed

section \<open>The pieces of a layout\<close>

definition layout_state :: "GraphNodeDto list \<Rightarrow> GraphEdgeDto list \<Rightarrow> detached_state" where
  "layout_state nodes edges = extract_state (map node_like_from nodes) edges"

definition layout_all_nodes :: "hash_orders \<Rightarrow> GraphNodeDto list \<Rightarrow> GraphEdgeDto list \<Rightarrow> NodeLike list" where
  "layout_all_nodes ho nodes edges =
     map node_like_from nodes @ map snd (ho_hosts ho (dt_synthetic_hosts_by_id (layout_state nodes edges)))"

definition layout_key :: "hash_orders \<Rightarrow> string \<Rightarrow> GraphNodeDto list \<Rightarrow> GraphEdgeDto list \<Rightarrow> NodeLike \<Rightarrow> string option" where
  "layout_key ho center_id nodes edges =
     (let center = value_or center_id (dt_member_host_by_id (layout_state nodes edges) center_id)
      in node_key center (compute_signed_depth_by_node (layout_all_nodes ho nodes edges) edges center))"

text \<open>The nodes that stay nodes, and the canonical node of each.\<close>

definition layout_free :: "hash_orders \<Rightarrow> GraphNodeDto list \<Rightarrow> GraphEdgeDto list \<Rightarrow> NodeLike list" where
  "layout_free ho nodes edges =
     filter (\<lambda>n. dt_member_host_by_id (layout_state nodes edges) (nl_id n) = None) (layout_all_nodes ho nodes edges)"

definition layout_canonical :: "hash_orders \<Rightarrow> string \<Rightarrow> GraphNodeDto list \<Rightarrow> GraphEdgeDto list \<Rightarrow> (string \<times> string) list" where
  "layout_canonical ho center_id nodes edges =
     map (\<lambda>n. (nl_id n, representative (layout_key ho center_id nodes edges) (layout_free ho nodes edges) n))
       (layout_free ho nodes edges)"

definition layout_route :: "hash_orders \<Rightarrow> string \<Rightarrow> GraphNodeDto list \<Rightarrow> GraphEdgeDto list \<Rightarrow> GraphEdgeDto \<Rightarrow> edge_route option" where
  "layout_route ho center_id nodes edges =
     route_of_edge (dt_member_host_by_id (layout_state nodes edges)) (map_of (layout_canonical ho center_id nodes edges))"

lemma layout_state_ok: "extraction_ok (map node_like_from nodes) (layout_state nodes edges)"
  by (simp add: layout_state_def extract_state_ok)

lemma layout_ids:
  assumes "own_ids (map node_like_from nodes)" and "hash_orders_ok ho"
  shows "distinct (map nl_id (layout_all_nodes ho nodes edges))"
  using all_nodes_distinct [OF assms(1)] layout_state_ok [of nodes edges] hash_orders_okD(1) [OF assms(2)]
  unfolding layout_all_nodes_def extraction_ok_def by blast

lemma layout_folds:
  assumes "own_ids (map node_like_from nodes)" and "hash_orders_ok ho"
  shows "fold_nodes (value_or center_id (dt_member_host_by_id (layout_state nodes edges) center_id))
      (dt_member_host_by_id (layout_state nodes edges))
      (compute_signed_depth_by_node (layout_all_nodes ho nodes edges) edges
        (value_or center_id (dt_member_host_by_id (layout_state nodes edges) center_id)))
      (layout_all_nodes ho nodes edges)
    = folded_state (layout_key ho center_id nodes edges) (layout_free ho nodes edges)"
  unfolding fold_nodes_result [OF layout_ids [OF assms]] layout_key_def layout_free_def Let_def ..

lemma layout_edges:
  assumes "own_ids (map node_like_from nodes)" and "hash_orders_ok ho"
  shows "cl_edges (build_canonical_layout ho center_id nodes edges) =
    map canonical_edge (sort_by (\<lambda>left right. ord_cmp (fe_id left) (fe_id right)) (map snd (ho_folded ho
      (fold (fold_edge (dt_member_host_by_id (layout_state nodes edges)) (map_of (layout_canonical ho center_id nodes edges))) edges []))))"
  unfolding build_canonical_layout_def extract_members_def fold_edges_def Let_def CanonicalLayoutDto.simps
    MemberExtraction.simps FoldResult.simps layout_state_def [symmetric] layout_all_nodes_def [symmetric]
    layout_folds [OF assms]
  by (simp add: folded_state_def layout_canonical_def)

lemma representative_in: "n \<in> set N \<Longrightarrow> representative key N n \<in> nl_id ` set N"
  using representative_node [of n N key] by auto

lemma layout_canonical_Some:
  "map_of (layout_canonical ho center_id nodes edges) x = Some c \<Longrightarrow> c \<in> nl_id ` set (layout_free ho nodes edges)"
  by (drule map_of_SomeD) (auto simp: layout_canonical_def representative_in)

lemma layout_plain:
  assumes plain: "list_all (\<lambda>n. plain (gnd_id n)) nodes" and ho: "hash_orders_ok ho"
  shows "n \<in> set (layout_all_nodes ho nodes edges) \<Longrightarrow> plain (nl_id n)"
    and "dt_member_host_by_id (layout_state nodes edges) m = Some h \<Longrightarrow> plain h"
proof -
  let ?S = "dt_synthetic_hosts_by_id (layout_state nodes edges)"
  have hosts: "plain k \<and> nl_id v = k" if "(k, v) \<in> set ?S" for k v
  proof -
    have "hosts_ok ?S" using layout_state_ok [of nodes edges] unfolding extraction_ok_def by blast
    with that have "nl_id v = k" "k = synthetic_host_id (nl_label v)" unfolding hosts_ok_def by auto
    then show ?thesis using plain_synthetic by metis
  qed
  have base: "plain (nl_id n)" if "n \<in> set (map node_like_from nodes)" for n
    using that plain by (auto simp: list_all_iff node_like_from_def)
  show "plain (nl_id n)" if "n \<in> set (layout_all_nodes ho nodes edges)" for n
    using that base hosts mset_eq_setD [OF hash_orders_okD(1) [OF ho, of ?S]] by (auto simp: layout_all_nodes_def)
  show "plain h" if "dt_member_host_by_id (layout_state nodes edges) m = Some h" for m h
  proof -
    have "host_known (map node_like_from nodes) ?S h"
      using that layout_state_ok [of nodes edges] unfolding extraction_ok_def members_ok_def by blast
    then show ?thesis using base hosts unfolding host_known_def by auto
  qed
qed

lemma layout_route_plain:
  assumes plain: "list_all (\<lambda>n. plain (gnd_id n)) nodes" and ho: "hash_orders_ok ho"
    and ends: "plain (ged_source e)" "plain (ged_target e)" and r: "layout_route ho center_id nodes edges e = Some r"
  shows "plain_route r"
proof -
  let ?hosts = "dt_member_host_by_id (layout_state nodes edges)"
  let ?canonical = "map_of (layout_canonical ho center_id nodes edges)"
  have canonical: "plain c" if "?canonical x = Some c" for x c
    using layout_canonical_Some [OF that] layout_plain(1) [OF plain ho] by (auto simp: layout_free_def)
  have host: "plain (value_or x (?hosts x))" if "plain x" for x
    using that layout_plain(2) [OF plain ho] by (auto simp: value_or_def split: option.split)
  have node: "plain (value_or x (?canonical x))" if "plain x" for x
    using that canonical by (auto simp: value_or_def split: option.split)
  from r show ?thesis
    using node [OF host [OF ends(1)]] node [OF host [OF ends(2)]] ends
    by (auto simp: layout_route_def route_of_edge_def Let_def plain_route_def plain_def split: if_splits)
qed

section \<open>Canonical edges\<close>

definition ced_route :: "CanonicalEdgeDto \<Rightarrow> edge_route" where
  "ced_route c = \<lparr>er_source = ced_source c, er_target = ced_target c, er_kind = ced_kind c,
     er_source_handle = ced_source_handle c, er_target_handle = ced_target_handle c\<rparr>"

text \<open>A canonical edge folds the given edges: their ids, their number, the least certainty among them.\<close>

definition folds_edges :: "GraphEdgeDto list \<Rightarrow> CanonicalEdgeDto \<Rightarrow> bool" where
  "folds_edges g c \<longleftrightarrow> ced_source_edge_ids c = map ged_id g \<and> ced_multiplicity c = min (length g) u32_max
     \<and> ced_certainty c \<in> ged_certainty ` set g
     \<and> (\<forall>e \<in> set g. certainty_rank (ged_certainty e) \<le> certainty_rank (ced_certainty c))"

lemma fold_group_route:
  assumes "g \<noteq> []"
  shows "ced_route (canonical_edge (fold_group r g)) = r" and "folds_edges g (canonical_edge (fold_group r g))"
  using fold_group_fields [OF assms, of r] fold_group_certainty [OF assms, of r]
  by (simp_all add: ced_route_def canonical_edge_def folds_edges_def)

lemma folded_entries:
  fixes hosts canonical edges
  defines "F \<equiv> fold (fold_edge hosts canonical) edges []" and "route \<equiv> route_of_edge hosts canonical"
  assumes plain: "\<And>e r. e \<in> set edges \<Longrightarrow> route e = Some r \<Longrightarrow> plain_route r"
  shows "(k, v) \<in> set F \<longleftrightarrow> (\<exists>r. route_key r = k \<and> filter (\<lambda>e. route e = Some r) edges \<noteq> []
    \<and> v = fold_group r (filter (\<lambda>e. route e = Some r) edges))"
proof -
  note groups = fold_edges_groups [of hosts canonical edges, folded F_def route_def]
  have grp: "edge_group hosts canonical edges (route_key r) = filter (\<lambda>e. route e = Some r) edges"
    if "e \<in> set edges" "route e = Some r" for e r
    unfolding edge_group_def route_def [symmetric]
    by (intro filter_cong) (use that plain route_key_inj in auto)
  have head: "route (hd (filter (\<lambda>e. route e = Some r) edges)) = Some r" if "filter (\<lambda>e. route e = Some r) edges \<noteq> []" for r
    using hd_in_set [OF that] by simp
  show ?thesis
  proof
    assume "(k, v) \<in> set F"
    then have "map_of F k = Some v" using groups by (intro map_of_is_SomeI) blast+
    then have g: "edge_group hosts canonical edges k \<noteq> []"
      "v = fold_group (the (route (hd (edge_group hosts canonical edges k)))) (edge_group hosts canonical edges k)"
      using groups by (auto split: if_splits)
    then obtain r where e: "hd (edge_group hosts canonical edges k) \<in> set edges"
      "route (hd (edge_group hosts canonical edges k)) = Some r" "route_key r = k"
      using hd_in_set [OF g(1)] by (auto simp: edge_group_def route_def)
    with g grp [OF e(1,2)] show "\<exists>r. route_key r = k \<and> filter (\<lambda>e. route e = Some r) edges \<noteq> []
      \<and> v = fold_group r (filter (\<lambda>e. route e = Some r) edges)" by auto
  next
    assume "\<exists>r. route_key r = k \<and> filter (\<lambda>e. route e = Some r) edges \<noteq> []
      \<and> v = fold_group r (filter (\<lambda>e. route e = Some r) edges)"
    then obtain r where r: "route_key r = k" "filter (\<lambda>e. route e = Some r) edges \<noteq> []"
      "v = fold_group r (filter (\<lambda>e. route e = Some r) edges)" by blast
    have "hd (filter (\<lambda>e. route e = Some r) edges) \<in> set edges" using hd_in_set [OF r(2)] by simp
    from grp [OF this head [OF r(2)]] r head [OF r(2)] groups have "map_of F k = Some v" by auto
    then show "(k, v) \<in> set F" by (rule map_of_SomeD)
  qed
qed

lemma cl_edges_mset:
  assumes "own_ids (map node_like_from nodes)" and "hash_orders_ok ho"
  shows "mset (cl_edges (build_canonical_layout ho center_id nodes edges)) = mset (map (canonical_edge \<circ> snd)
    (fold (fold_edge (dt_member_host_by_id (layout_state nodes edges)) (map_of (layout_canonical ho center_id nodes edges))) edges []))"
  unfolding layout_edges [OF assms] mset_map mset_sort_by hash_orders_okD(4) [OF assms(2)] by (simp add: multiset.map_comp)

lemma folded_routes:
  fixes hosts canonical edges
  defines "route \<equiv> route_of_edge hosts canonical"
  assumes plain: "\<And>e r. e \<in> set edges \<Longrightarrow> route e = Some r \<Longrightarrow> plain_route r"
    and E: "mset E = mset (map (canonical_edge \<circ> snd) (fold (fold_edge hosts canonical) edges []))"
  shows "distinct (map ced_route E)" "set (map ced_route E) = {r. \<exists>e \<in> set edges. route e = Some r}"
    "list_all (\<lambda>c. folds_edges (filter (\<lambda>e. route e = Some (ced_route c)) edges) c) E"
proof -
  let ?g = "\<lambda>r. filter (\<lambda>e. route e = Some r) edges"
  let ?F = "fold (fold_edge hosts canonical) edges []"
  have F: "(k, v) \<in> set ?F \<longleftrightarrow> (\<exists>r. route_key r = k \<and> ?g r \<noteq> [] \<and> v = fold_group r (?g r))" for k v
    unfolding route_def by (rule folded_entries) (use plain in \<open>simp add: route_def\<close>)
  have E_set: "set E = (\<lambda>(k, v). canonical_edge v) ` set ?F" using mset_eq_setD [OF E] by (simp add: split_def comp_def)
  have edges: "c \<in> set E \<longleftrightarrow> (\<exists>r. ?g r \<noteq> [] \<and> c = canonical_edge (fold_group r (?g r)))" for c
    unfolding E_set using F by (auto simp: image_iff split_def) (metis fst_conv snd_conv)
  have key: "route_key (ced_route (canonical_edge (snd x))) = fst x" if "x \<in> set ?F" for x
    using that F [of "fst x" "snd x"] fold_group_route(1) by auto
  have "map (route_key \<circ> ced_route) (map (canonical_edge \<circ> snd) ?F) = map fst ?F"
    unfolding map_map by (rule map_cong [OF refl]) (simp add: key)
  then have "distinct (map (route_key \<circ> ced_route) (map (canonical_edge \<circ> snd) ?F))"
    using fold_edges_groups [of hosts canonical edges, THEN conjunct1] by (simp only:)
  then have "distinct (map (route_key \<circ> ced_route) E)"
    using E by (metis mset_eq_imp_distinct_iff mset_map)
  then show "distinct (map ced_route E)" by (metis distinct_map map_map)
  show "set (map ced_route E) = {r. \<exists>e \<in> set edges. route e = Some r}"
  proof -
    have "r \<in> ced_route ` set E \<longleftrightarrow> ?g r \<noteq> []" for r
      unfolding image_iff Bex_def edges using fold_group_route(1) by metis
    then show ?thesis by (auto simp: filter_empty_conv)
  qed
  show "list_all (\<lambda>c. folds_edges (?g (ced_route c)) c) E"
    unfolding list_all_iff using edges fold_group_route by metis
qed

lemma own_ids_nodes:
  assumes "distinct (map gnd_id nodes)" and "list_all (\<lambda>n. \<not> starts_with (gnd_id n) ''__synthetic_host__'') nodes"
  shows "own_ids (map node_like_from nodes)"
  using assms by (auto simp: own_ids_def node_like_from_def comp_def list_all_iff)

text \<open>C17: the edges of a canonical layout are the routes its given edges run along, each route once.
  Each folds exactly the edges of its route: their ids in order, their number up to the width of the
  counter, and the least certain of their certainties. The ids must hold no colon, which separates
  them in the key of a route.\<close>

theorem canonical_edges_fold:
  assumes "distinct (map gnd_id nodes)" and "list_all (\<lambda>n. \<not> starts_with (gnd_id n) ''__synthetic_host__'') nodes"
    and "list_all (\<lambda>n. plain (gnd_id n)) nodes" and "list_all (\<lambda>e. plain (ged_source e) \<and> plain (ged_target e)) edges"
    and "hash_orders_ok ho"
  shows "distinct (map ced_route (cl_edges (build_canonical_layout ho center_id nodes edges)))
    \<and> set (map ced_route (cl_edges (build_canonical_layout ho center_id nodes edges)))
      = {r. \<exists>e \<in> set edges. layout_route ho center_id nodes edges e = Some r}
    \<and> list_all (\<lambda>c. folds_edges (filter (\<lambda>e. layout_route ho center_id nodes edges e = Some (ced_route c)) edges) c)
        (cl_edges (build_canonical_layout ho center_id nodes edges))"
proof -
  have "plain_route r" if "e \<in> set edges" "layout_route ho center_id nodes edges e = Some r" for e r
    using layout_route_plain [OF assms(3,5) _ _ that(2)] that(1) assms(4) by (simp add: list_all_iff)
  then show ?thesis
    using folded_routes [OF _ cl_edges_mset [OF own_ids_nodes [OF assms(1,2)] assms(5)]]
    unfolding layout_route_def by blast
qed

text \<open>C16: the canonical layout of a response is determined by the response: the random iteration order of
  the hash maps it is built from does not show, as long as no two nodes share an id and none has an id
  reserved for made-up hosts.\<close>

theorem canonical_layout_stable:
  assumes "distinct (map gnd_id nodes)" and "list_all (\<lambda>n. \<not> starts_with (gnd_id n) ''__synthetic_host__'') nodes"
    and "hash_orders_ok ho" and "hash_orders_ok ho'"
  shows "build_canonical_layout ho center_id nodes edges = build_canonical_layout ho' center_id nodes edges"
  by (rule layout_same [OF own_ids_nodes [OF assms(1,2)] assms(3,4)])

section \<open>Nothing is lost\<close>

lemma plain_node_kind_name: "plain (node_kind_name k)"
  by (cases k) (simp_all add: plain_def)

lemma node_kind_name_inj: "node_kind_name k = node_kind_name k' \<Longrightarrow> k = k'"
  by (cases k; cases k') simp_all

lemma plain_show_int: "plain (show_int d)"
proof -
  have "CHR '':'' \<notin> set (show_nat n)" for n
  proof
    assume "CHR '':'' \<in> set (show_nat n)"
    from show_nat_digits [OF this] show False by (simp add: byte_def)
  qed
  then show ?thesis by (simp add: show_int_def plain_def)
qed

lemma last_colon_split: "plain b \<Longrightarrow> plain b' \<Longrightarrow> a @ CHR '':'' # b = a' @ CHR '':'' # b' \<Longrightarrow> a = a' \<and> b = b'"
  using colon_split [of "rev b" "rev b'" "rev a" "rev a'"]
  by (metis append.assoc append_Cons append_Nil plain_def rev.simps(2) rev_append rev_rev_ident set_rev)

text \<open>Nodes with one key have the same kind and, up to case, the same label.\<close>

definition key_tail :: "ApiNodeKind \<Rightarrow> string \<Rightarrow> int \<Rightarrow> string" where
  "key_tail k l d = (if is_card_node_kind k then to_ascii_lowercase l else to_ascii_lowercase l @ CHR '':'' # show_int d)"

lemma dedupe_key_tail: "dedupe_key_for_node k l d c = Some key \<Longrightarrow> key = node_kind_name k @ CHR '':'' # key_tail k l d"
  unfolding dedupe_key_for_node_def key_tail_def by (cases c; cases "is_card_node_kind k") auto

lemma dedupe_key_like:
  assumes "dedupe_key_for_node k l d c = Some key" and "dedupe_key_for_node k' l' d' c' = Some key"
  shows "k = k' \<and> to_ascii_lowercase l = to_ascii_lowercase l'"
proof -
  have "node_kind_name k @ CHR '':'' # key_tail k l d = node_kind_name k' @ CHR '':'' # key_tail k' l' d'"
    using dedupe_key_tail [OF assms(1)] dedupe_key_tail [OF assms(2)] by (rule subst)
  from colon_split [OF plain_node_kind_name plain_node_kind_name this]
  have k: "k = k'" and t: "key_tail k l d = key_tail k' l' d'" using node_kind_name_inj by blast+
  show ?thesis
  proof (cases "is_card_node_kind k")
    case True
    with k t show ?thesis by (simp add: key_tail_def)
  next
    case False
    with k t have "to_ascii_lowercase l @ CHR '':'' # show_int d = to_ascii_lowercase l' @ CHR '':'' # show_int d'"
      by (simp add: key_tail_def)
    from last_colon_split [OF plain_show_int plain_show_int this] k show ?thesis by blast
  qed
qed

lemma representative_like:
  assumes "n \<in> set N" and key: "key = node_key center depths"
  shows "\<exists>m \<in> set N. representative key N n = nl_id m \<and> nl_kind m = nl_kind n
    \<and> to_ascii_lowercase (nl_label m) = to_ascii_lowercase (nl_label n)"
proof (cases "key n")
  case None
  with assms(1) show ?thesis by (auto simp: representative_def)
next
  case (Some k)
  with assms(1) obtain m where m: "find (\<lambda>m. key m = Some k) N = Some m"
    by (cases "find (\<lambda>m. key m = Some k) N") (auto simp: find_None_iff)
  then have "m \<in> set N" "key m = Some k" by (auto simp: find_Some_iff)
  moreover from this(2) Some have "nl_kind m = nl_kind n \<and> to_ascii_lowercase (nl_label m) = to_ascii_lowercase (nl_label n)"
    unfolding key node_key_def Let_def by (rule dedupe_key_like)
  ultimately show ?thesis using m Some by (auto simp: representative_def)
qed

lemma canonical_rows_ids: "map cnd_id (canonical_rows lp ids f) = filter (\<lambda>i. lp_node_by_id lp i \<noteq> None) ids"
  by (induction ids arbitrary: f) (auto simp: Let_def canonical_node_def split: option.splits)

lemma canonical_rows_node:
  "i \<in> set ids \<Longrightarrow> lp_node_by_id lp i = Some n \<Longrightarrow> \<exists>row. canonical_node lp i n row \<in> set (canonical_rows lp ids f)"
  by (induction ids arbitrary: f) (auto simp: Let_def split: option.splits)

text \<open>The rows of a layout, in its pieces.\<close>

lemma layout_nodes:
  assumes "own_ids (map node_like_from nodes)" and "hash_orders_ok ho"
  shows "\<exists>lp ids. cl_nodes (build_canonical_layout ho center_id nodes edges) = canonical_rows lp ids (\<lambda>_. 0)
    \<and> mset ids = mset (remdups (map snd (layout_canonical ho center_id nodes edges)))
    \<and> lp_node_by_id lp = collect_map (\<lambda>n. n) (layout_all_nodes ho nodes edges)
    \<and> lp_members lp = fold (merge_members (dt_members_by_host (layout_state nodes edges)))
        (ho_canonical ho (layout_canonical ho center_id nodes edges)) Map.empty"
proof -
  have C: "fn_canonical_node_by_id (folded_state (layout_key ho center_id nodes edges) (layout_free ho nodes edges))
      = layout_canonical ho center_id nodes edges"
    by (simp add: folded_state_def layout_canonical_def)
  show ?thesis
    unfolding build_canonical_layout_def extract_members_def fold_edges_def Let_def CanonicalLayoutDto.simps
      MemberExtraction.simps FoldResult.simps layout_state_def [symmetric] layout_all_nodes_def [symmetric]
      layout_folds [OF assms] C
    by (intro exI conjI, rule refl) (simp_all add: hash_orders_okD [OF assms(2)])
qed

lemma layout_row:
  assumes own: "own_ids (map node_like_from nodes)" and ho: "hash_orders_ok ho" and n: "n \<in> set (layout_free ho nodes edges)"
  shows "\<exists>c \<in> set (cl_nodes (build_canonical_layout ho center_id nodes edges)).
    cnd_id c = representative (layout_key ho center_id nodes edges) (layout_free ho nodes edges) n
    \<and> cnd_kind c = nl_kind n \<and> to_ascii_lowercase (cnd_label c) = to_ascii_lowercase (nl_label n)
    \<and> set (cnd_members c) = members_at (dt_members_by_host (layout_state nodes edges)) (layout_canonical ho center_id nodes edges) (cnd_id c)"
proof -
  let ?N = "layout_free ho nodes edges" and ?key = "layout_key ho center_id nodes edges"
  let ?C = "layout_canonical ho center_id nodes edges" and ?mb = "dt_members_by_host (layout_state nodes edges)"
  obtain lp ids where lp: "cl_nodes (build_canonical_layout ho center_id nodes edges) = canonical_rows lp ids (\<lambda>_. 0)"
    "mset ids = mset (remdups (map snd ?C))" "lp_node_by_id lp = collect_map (\<lambda>n. n) (layout_all_nodes ho nodes edges)"
    "lp_members lp = fold (merge_members ?mb) (ho_canonical ho ?C) Map.empty"
    using layout_nodes [OF own ho, of center_id edges] by blast
  obtain m where m: "m \<in> set ?N" "representative ?key ?N n = nl_id m" "nl_kind m = nl_kind n"
    "to_ascii_lowercase (nl_label m) = to_ascii_lowercase (nl_label n)"
    using representative_like [OF n] unfolding layout_key_def Let_def by blast
  have "representative ?key ?N n \<in> snd ` set ?C" using n by (auto simp: layout_canonical_def image_iff)
  then have "nl_id m \<in> set ids" using mset_eq_setD [OF lp(2)] m(2) by simp
  moreover have "lp_node_by_id lp (nl_id m) = Some m"
    using m(1) collect_map_found [OF layout_ids [OF own ho]] lp(3) by (auto simp: layout_free_def)
  ultimately obtain row where row: "canonical_node lp (nl_id m) m row \<in> set (cl_nodes (build_canonical_layout ho center_id nodes edges))"
    using canonical_rows_node unfolding lp(1) by blast
  have "members_ok (map node_like_from nodes) (dt_synthetic_hosts_by_id (layout_state nodes edges))
      (dt_member_host_by_id (layout_state nodes edges)) ?mb"
    using layout_state_ok [of nodes edges] unfolding extraction_ok_def by blast
  from merged_members [OF _ this, of "ho_canonical ho ?C" "nl_id m"] own
  have "set (value_or [] (lp_members lp (nl_id m))) = members_at ?mb ?C (nl_id m)"
    using mset_eq_setD [OF hash_orders_okD(2) [OF ho, of ?C]] lp(4) by (simp add: own_ids_def members_at_def)
  then show ?thesis using row m by (intro bexI [OF _ row]) (simp add: canonical_node_def Let_def)
qed

text \<open>The host of a member stays a node.\<close>

lemma layout_host:
  assumes own: "own_ids (map node_like_from nodes)" and ho: "hash_orders_ok ho"
    and h: "dt_member_host_by_id (layout_state nodes edges) m = Some h"
  shows "\<exists>n \<in> set (layout_free ho nodes edges). nl_id n = h"
proof -
  let ?B = "map node_like_from nodes" and ?S = "dt_synthetic_hosts_by_id (layout_state nodes edges)"
  let ?mh = "dt_member_host_by_id (layout_state nodes edges)"
  have ok: "hosts_ok ?S" "members_ok ?B ?S ?mh (dt_members_by_host (layout_state nodes edges))"
    using layout_state_ok [of nodes edges] unfolding extraction_ok_def by blast+
  have member: "\<exists>n \<in> set ?B. \<not> is_structural_kind (nl_kind n) \<and> nl_id n = x" if "?mh x = Some y" for x y
    using ok(2) that unfolding members_ok_def by blast
  have "host_known ?B ?S h" using ok(2) h unfolding members_ok_def by blast
  then obtain n where n: "n \<in> set (layout_all_nodes ho nodes edges)" "nl_id n = h" "is_structural_kind (nl_kind n)"
    using ok(1) mset_eq_setD [OF hash_orders_okD(1) [OF ho, of ?S]]
    by (fastforce simp: host_known_def layout_all_nodes_def hosts_ok_def is_structural_kind_def)
  have "?mh h = None"
  proof (rule ccontr)
    assume "?mh h \<noteq> None"
    then obtain n' where n': "n' \<in> set ?B" "\<not> is_structural_kind (nl_kind n')" "nl_id n' = h" using member by blast
    then have "n' \<in> set (layout_all_nodes ho nodes edges)" by (simp add: layout_all_nodes_def)
    with n n' layout_ids [OF own ho, of edges] show False by (auto simp: distinct_map dest: inj_onD)
  qed
  with n show ?thesis by (auto simp: layout_free_def)
qed

lemma layout_end:
  assumes own: "own_ids (map node_like_from nodes)" and ho: "hash_orders_ok ho" and x: "x \<in> gnd_id ` set nodes"
  shows "\<exists>n \<in> set (layout_free ho nodes edges). nl_id n = value_or x (dt_member_host_by_id (layout_state nodes edges) x)"
proof (cases "dt_member_host_by_id (layout_state nodes edges) x")
  case None
  from x obtain n where "n \<in> set nodes" "gnd_id n = x" by blast
  with None show ?thesis
    by (intro bexI [of _ "node_like_from n"]) (auto simp: value_or_def layout_free_def layout_all_nodes_def node_like_from_def)
next
  case (Some h)
  from layout_host [OF own ho this] Some show ?thesis by (simp add: value_or_def)
qed

lemma layout_end_row:
  assumes own: "own_ids (map node_like_from nodes)" and ho: "hash_orders_ok ho" and n: "n \<in> set (layout_free ho nodes edges)"
  shows "value_or (nl_id n) (map_of (layout_canonical ho center_id nodes edges) (nl_id n))
    \<in> cnd_id ` set (cl_nodes (build_canonical_layout ho center_id nodes edges))"
proof -
  have "distinct (map nl_id (layout_free ho nodes edges))"
    unfolding layout_free_def by (rule distinct_map_filter [OF layout_ids [OF own ho]])
  with n have "map_of (layout_canonical ho center_id nodes edges) (nl_id n)
      = Some (representative (layout_key ho center_id nodes edges) (layout_free ho nodes edges) n)"
    unfolding layout_canonical_def by (intro map_of_is_SomeI) (auto simp: comp_def)
  then show ?thesis using layout_row [OF own ho n, of center_id] by (simp add: value_or_def) (metis imageI)
qed

lemma layout_edge_route:
  assumes "own_ids (map node_like_from nodes)" and "hash_orders_ok ho"
    and c: "c \<in> set (cl_edges (build_canonical_layout ho center_id nodes edges))"
  shows "\<exists>e \<in> set edges. layout_route ho center_id nodes edges e = Some (ced_route c)"
proof -
  let ?hosts = "dt_member_host_by_id (layout_state nodes edges)" and ?canonical = "map_of (layout_canonical ho center_id nodes edges)"
  note groups = fold_edges_groups [of ?hosts ?canonical edges]
  from c obtain k v where kv: "(k, v) \<in> set (fold (fold_edge ?hosts ?canonical) edges [])" "c = canonical_edge v"
    using mset_eq_setD [OF cl_edges_mset [OF assms(1,2), of center_id edges]] by auto
  from kv(1) have "map_of (fold (fold_edge ?hosts ?canonical) edges []) k = Some v"
    using groups by (intro map_of_is_SomeI) blast+
  then have g: "edge_group ?hosts ?canonical edges k \<noteq> []"
    "v = fold_group (the (route_of_edge ?hosts ?canonical (hd (edge_group ?hosts ?canonical edges k)))) (edge_group ?hosts ?canonical edges k)"
    using groups by (auto split: if_splits)
  show ?thesis
    using hd_in_set [OF g(1)] fold_group_route(1) [OF g(1)] unfolding kv(2) g(2) layout_route_def
    by (intro bexI [of _ "hd (edge_group ?hosts ?canonical edges k)"]) (auto simp: edge_group_def)
qed

lemma layout_rows_distinct:
  assumes "own_ids (map node_like_from nodes)" and "hash_orders_ok ho"
  shows "distinct (map cnd_id (cl_nodes (build_canonical_layout ho center_id nodes edges)))"
proof -
  obtain lp ids where lp: "cl_nodes (build_canonical_layout ho center_id nodes edges) = canonical_rows lp ids (\<lambda>_. 0)"
    "mset ids = mset (remdups (map snd (layout_canonical ho center_id nodes edges)))"
    using layout_nodes [OF assms, of center_id edges] by blast
  from mset_eq_imp_distinct_iff [OF lp(2)] have "distinct ids" by simp
  then show ?thesis unfolding lp(1) canonical_rows_ids by simp
qed

lemma layout_covers_node:
  assumes own: "own_ids (map node_like_from nodes)" and ho: "hash_orders_ok ho" and n: "n \<in> set nodes"
  shows "\<exists>c \<in> set (cl_nodes (build_canonical_layout ho center_id nodes edges)). gnd_id n \<in> cm_id ` set (cnd_members c)
      \<or> cnd_kind c = gnd_kind n \<and> to_ascii_lowercase (cnd_label c) = to_ascii_lowercase (gnd_label n)"
proof (cases "dt_member_host_by_id (layout_state nodes edges) (gnd_id n)")
  case None
  with n have "node_like_from n \<in> set (layout_free ho nodes edges)"
    by (auto simp: layout_free_def layout_all_nodes_def node_like_from_def)
  from layout_row [OF own ho this, of center_id] show ?thesis by (auto simp: node_like_from_def)
next
  case (Some h)
  from layout_host [OF own ho this] obtain hn where hn: "hn \<in> set (layout_free ho nodes edges)" "nl_id hn = h" by blast
  obtain ms where ms: "dt_members_by_host (layout_state nodes edges) h = Some ms" "gnd_id n \<in> cm_id ` set ms"
    using layout_state_ok [of nodes edges] Some unfolding extraction_ok_def members_ok_def by blast
  from layout_row [OF own ho hn(1), of center_id] obtain c where c: "c \<in> set (cl_nodes (build_canonical_layout ho center_id nodes edges))"
    "(h, cnd_id c) \<in> set (layout_canonical ho center_id nodes edges)"
    "set (cnd_members c) = members_at (dt_members_by_host (layout_state nodes edges)) (layout_canonical ho center_id nodes edges) (cnd_id c)"
    using hn by (auto simp: layout_canonical_def image_iff)
  with ms have "set ms \<subseteq> set (cnd_members c)" by (auto simp: members_at_def)
  with ms(2) c(1) show ?thesis by blast
qed

lemma layout_edge_ends:
  assumes own: "own_ids (map node_like_from nodes)" and ho: "hash_orders_ok ho"
    and inside: "list_all (\<lambda>e. ged_source e \<in> gnd_id ` set nodes \<and> ged_target e \<in> gnd_id ` set nodes) edges"
    and c: "c \<in> set (cl_edges (build_canonical_layout ho center_id nodes edges))"
  shows "ced_source c \<noteq> ced_target c
    \<and> {ced_source c, ced_target c} \<subseteq> cnd_id ` set (cl_nodes (build_canonical_layout ho center_id nodes edges))"
proof -
  from layout_edge_route [OF own ho c] obtain e where e: "e \<in> set edges" "layout_route ho center_id nodes edges e = Some (ced_route c)" by blast
  with inside have ends: "ged_source e \<in> gnd_id ` set nodes" "ged_target e \<in> gnd_id ` set nodes" by (auto simp: list_all_iff)
  have at: "value_or (value_or x (dt_member_host_by_id (layout_state nodes edges) x)) (map_of (layout_canonical ho center_id nodes edges) (value_or x (dt_member_host_by_id (layout_state nodes edges) x))) \<in> cnd_id ` set (cl_nodes (build_canonical_layout ho center_id nodes edges))"
    if "x \<in> gnd_id ` set nodes" for x
    using layout_end [OF own ho that, of edges] layout_end_row [OF own ho] by metis
  from e(2) at [OF ends(1)] at [OF ends(2)] show ?thesis
    by (auto simp: layout_route_def route_of_edge_def ced_route_def Let_def split: if_splits)
qed


section \<open>Samples\<close>

definition sample_graph_node :: "string \<Rightarrow> string \<Rightarrow> ApiNodeKind \<Rightarrow> nat \<Rightarrow> GraphNodeDto" where
  "sample_graph_node i l k d =
     \<lparr>gnd_id = i, gnd_label = l, gnd_kind = k, gnd_depth = d, gnd_label_policy = None,
      gnd_badge_visible_members = None, gnd_badge_total_members = None, gnd_merged_symbol_examples = [],
      gnd_file_path = None, gnd_qualified_name = None, gnd_member_access = None\<rparr>"

definition sample_graph_edge :: "string \<Rightarrow> string \<Rightarrow> string \<Rightarrow> ApiEdgeKind \<Rightarrow> string option \<Rightarrow> GraphEdgeDto" where
  "sample_graph_edge i s t k c =
     \<lparr>ged_id = i, ged_source = s, ged_target = t, ged_kind = k, ged_confidence = None, ged_certainty = c,
      ged_callsite_identity = None, ged_candidate_targets = []\<rparr>"

definition sample_graph_nodes :: "GraphNodeDto list" where
  "sample_graph_nodes =
     [sample_graph_node ''1'' ''Service'' ANK_CLASS 0, sample_graph_node ''2'' ''Service::run'' ANK_METHOD 0,
      sample_graph_node ''3'' ''Helper::assist'' ANK_METHOD 1, sample_graph_node ''4'' ''Worker::execute'' ANK_METHOD 1]"

definition sample_graph_edges :: "GraphEdgeDto list" where
  "sample_graph_edges =
     [sample_graph_edge ''m'' ''1'' ''2'' AEK_MEMBER None, sample_graph_edge ''a'' ''2'' ''3'' AEK_CALL (Some ''probable''),
      sample_graph_edge ''b'' ''2'' ''4'' AEK_CALL None, sample_graph_edge ''c'' ''2'' ''3'' AEK_CALL (Some ''uncertain'')]"

definition orders_forward :: hash_orders where
  "orders_forward = \<lparr>ho_hosts = (\<lambda>xs. xs), ho_canonical = (\<lambda>xs. xs), ho_ids = (\<lambda>xs. xs), ho_folded = (\<lambda>xs. xs)\<rparr>"

definition orders_backward :: hash_orders where
  "orders_backward = \<lparr>ho_hosts = rev, ho_canonical = rev, ho_ids = rev, ho_folded = rev\<rparr>"

lemma sample_orders_ok: "hash_orders_ok orders_forward" "hash_orders_ok orders_backward"
  by (simp_all add: hash_orders_ok_def orders_forward_def orders_backward_def)

lemma sample_ids: "distinct (map gnd_id sample_graph_nodes)"
  "list_all (\<lambda>n. \<not> starts_with (gnd_id n) ''__synthetic_host__'') sample_graph_nodes"
  "list_all (\<lambda>n. plain (gnd_id n)) sample_graph_nodes"
  "list_all (\<lambda>e. plain (ged_source e) \<and> plain (ged_target e)) sample_graph_edges"
  by (simp_all add: sample_graph_nodes_def sample_graph_edges_def sample_graph_node_def sample_graph_edge_def plain_def)

lemma sample_ends: "list_all (\<lambda>e. ged_source e \<in> gnd_id ` set sample_graph_nodes \<and> ged_target e \<in> gnd_id ` set sample_graph_nodes) sample_graph_edges"
  by (simp add: sample_graph_nodes_def sample_graph_edges_def sample_graph_node_def sample_graph_edge_def)

lemma sample_layout_edges:
  "map (\<lambda>c. (ced_source_edge_ids c, ced_multiplicity c))
     (cl_edges (build_canonical_layout orders_backward ''2'' sample_graph_nodes sample_graph_edges)) = [([''a'', ''c''], 2), ([''b''], 1)]"
  by code_simp

lemma sample_layout_nodes:
  "map (\<lambda>c. (cnd_id c, cnd_center c, map cm_id (cnd_members c)))
     (cl_nodes (build_canonical_layout orders_backward ''2'' sample_graph_nodes sample_graph_edges))
   = [(''1'', True, [''2'']), (''__synthetic_host__helper'', False, [''3'']), (''__synthetic_host__worker'', False, [''4''])]"
  by code_simp

theorem canonical_layout_stable_witness:
  "build_canonical_layout orders_forward ''2'' sample_graph_nodes sample_graph_edges
     = build_canonical_layout orders_backward ''2'' sample_graph_nodes sample_graph_edges
   \<and> length (cl_nodes (build_canonical_layout orders_backward ''2'' sample_graph_nodes sample_graph_edges)) = 3"
  using canonical_layout_stable [OF sample_ids(1,2) sample_orders_ok] arg_cong [OF sample_layout_nodes, of length] by simp

theorem canonical_edges_fold_witness:
  "distinct (map ced_route (cl_edges (build_canonical_layout orders_backward ''2'' sample_graph_nodes sample_graph_edges)))
   \<and> length (cl_edges (build_canonical_layout orders_backward ''2'' sample_graph_nodes sample_graph_edges)) = 2
   \<and> list_all (\<lambda>c. folds_edges (filter (\<lambda>e. layout_route orders_backward ''2'' sample_graph_nodes sample_graph_edges e
         = Some (ced_route c)) sample_graph_edges) c)
       (cl_edges (build_canonical_layout orders_backward ''2'' sample_graph_nodes sample_graph_edges))"
  using canonical_edges_fold [OF sample_ids sample_orders_ok(2), of "''2''"] arg_cong [OF sample_layout_edges, of length] by simp


end
