(* ===== verification/Query_Language.thy ===== *)
theory Query_Language
  imports Graph_Contracts
begin

text \<open>
  The graph query language, \<^verbatim>\<open>codestory-runtime/src/query_language.rs\<close>: a pipeline of
  operations with keyword or positional arguments, errors located in the source.

  A source is its UTF-8 bytes. The scanners look only for ASCII characters, which never occur
  inside a longer encoding, so scanning bytes and scanning characters stop at the same places;
  offsets are byte offsets, as in the code. The nesting depth is an integer: a source with
  \<^verbatim>\<open>2^31\<close> open parentheses is out of scope.
\<close>

section \<open>Definitions\<close>

record GraphQueryParseError =
  er_message :: string
  er_offset :: nat
  er_source :: string

definition parse_error :: "string \<Rightarrow> nat \<Rightarrow> string \<Rightarrow> GraphQueryParseError" where
  "parse_error source offset message = \<lparr>er_message = message, er_offset = offset, er_source = source\<rparr>"

text \<open>\<^verbatim>\<open>Display\<close>: the message, the source, a caret under the offset.\<close>

definition display_parse_error :: "GraphQueryParseError \<Rightarrow> string" where
  "display_parse_error e =
     er_message e @ [CHR 0x0A] @ er_source e @ [CHR 0x0A]
     @ replicate (min (er_offset e) (length (er_source e))) (CHR 0x20) @ ''^'' @ [CHR 0x0A]"

definition leading_ws :: "string \<Rightarrow> nat" where
  "leading_ws value = length value - length (trim_start value)"

abbreviation squote :: char where "squote \<equiv> CHR 0x27"
abbreviation dquote :: char where "dquote \<equiv> CHR 0x22"
abbreviation backslash :: char where "backslash \<equiv> CHR 0x5C"
abbreviation backtick :: char where "backtick \<equiv> CHR 0x60"

definition ticked :: "string \<Rightarrow> string" where
  "ticked s = [backtick] @ s @ [backtick]"

text \<open>
  The loop of \<^verbatim>\<open>split_pipeline\<close>: position, start of the current segment, depth, active
  quote, escape flag, remaining characters, segments so far.
\<close>

fun split_pipeline_loop ::
  "string \<Rightarrow> nat \<Rightarrow> nat \<Rightarrow> int \<Rightarrow> char option \<Rightarrow> bool \<Rightarrow> string \<Rightarrow> (string \<times> nat) list \<Rightarrow>
     GraphQueryParseError + (string \<times> nat) list" where
  "split_pipeline_loop source idx start depth quote escaped [] segments =
     (if quote \<noteq> None then Inl (parse_error source (length source) ''Unterminated string literal'')
      else if depth > 0 then Inl (parse_error source (length source) (''Unclosed '' @ ticked ''(''))
      else Inr (segments @ [(drop start source, start)]))"
| "split_pipeline_loop source idx start depth quote escaped (ch # rest) segments =
     (case quote of
        Some active \<Rightarrow>
          if escaped then split_pipeline_loop source (idx + 1) start depth quote False rest segments
          else if ch = backslash then split_pipeline_loop source (idx + 1) start depth quote True rest segments
          else if ch = active then split_pipeline_loop source (idx + 1) start depth None escaped rest segments
          else split_pipeline_loop source (idx + 1) start depth quote escaped rest segments
      | None \<Rightarrow>
          if ch = squote \<or> ch = dquote
            then split_pipeline_loop source (idx + 1) start depth (Some ch) escaped rest segments
          else if ch = CHR ''('' then split_pipeline_loop source (idx + 1) start (depth + 1) quote escaped rest segments
          else if ch = CHR '')'' then
            (if depth - 1 < 0 then Inl (parse_error source idx (''Unexpected '' @ ticked '')''))
             else split_pipeline_loop source (idx + 1) start (depth - 1) quote escaped rest segments)
          else if ch = CHR ''|'' \<and> depth = 0 then
            split_pipeline_loop source (idx + 1) (idx + 1) depth quote escaped rest
              (segments @ [(take (idx - start) (drop start source), start)])
          else split_pipeline_loop source (idx + 1) start depth quote escaped rest segments)"

definition split_pipeline :: "string \<Rightarrow> GraphQueryParseError + (string \<times> nat) list" where
  "split_pipeline source = split_pipeline_loop source 0 0 0 None False source []"

fun split_args_loop ::
  "string \<Rightarrow> string \<Rightarrow> nat \<Rightarrow> nat \<Rightarrow> nat \<Rightarrow> char option \<Rightarrow> bool \<Rightarrow> string \<Rightarrow> (string \<times> nat) list \<Rightarrow>
     GraphQueryParseError + (string \<times> nat) list" where
  "split_args_loop source args_source args_offset idx start quote escaped [] args =
     (if quote \<noteq> None
      then Inl (parse_error source (args_offset + length args_source) ''Unterminated string literal'')
      else Inr (args @ [(drop start args_source, args_offset + start)]))"
| "split_args_loop source args_source args_offset idx start quote escaped (ch # rest) args =
     (case quote of
        Some active \<Rightarrow>
          if escaped then split_args_loop source args_source args_offset (idx + 1) start quote False rest args
          else if ch = backslash then split_args_loop source args_source args_offset (idx + 1) start quote True rest args
          else if ch = active then split_args_loop source args_source args_offset (idx + 1) start None escaped rest args
          else split_args_loop source args_source args_offset (idx + 1) start quote escaped rest args
      | None \<Rightarrow>
          if ch = squote \<or> ch = dquote
            then split_args_loop source args_source args_offset (idx + 1) start (Some ch) escaped rest args
          else if ch = CHR '','' then
            split_args_loop source args_source args_offset (idx + 1) (idx + 1) quote escaped rest
              (args @ [(take (idx - start) (drop start args_source), args_offset + start)])
          else split_args_loop source args_source args_offset (idx + 1) start quote escaped rest args)"

definition split_args :: "string \<Rightarrow> string \<Rightarrow> nat \<Rightarrow> GraphQueryParseError + (string \<times> nat) list" where
  "split_args source args_source args_offset =
     split_args_loop source args_source args_offset 0 0 None False args_source []"

fun find_colon_loop :: "nat \<Rightarrow> char option \<Rightarrow> bool \<Rightarrow> string \<Rightarrow> nat option" where
  "find_colon_loop idx quote escaped [] = None"
| "find_colon_loop idx quote escaped (ch # rest) =
     (case quote of
        Some active \<Rightarrow>
          if escaped then find_colon_loop (idx + 1) quote False rest
          else if ch = backslash then find_colon_loop (idx + 1) quote True rest
          else if ch = active then find_colon_loop (idx + 1) None escaped rest
          else find_colon_loop (idx + 1) quote escaped rest
      | None \<Rightarrow>
          if ch = squote \<or> ch = dquote then find_colon_loop (idx + 1) (Some ch) escaped rest
          else if ch = CHR '':'' then Some idx
          else find_colon_loop (idx + 1) quote escaped rest)"

definition find_top_level_colon :: "string \<Rightarrow> nat option" where
  "find_top_level_colon value = find_colon_loop 0 None False value"

definition unquote :: "string \<Rightarrow> string" where
  "unquote s =
     replace_str [backslash, backslash] [backslash]
       (replace_str [backslash, dquote] [dquote] (replace_str [backslash, squote] [squote] s))"

definition parse_value :: "string \<Rightarrow> string \<Rightarrow> nat \<Rightarrow> GraphQueryParseError + string" where
  "parse_value source raw0 offset =
     (let raw = trim raw0
      in if length raw \<ge> 2 then
           let first = hd raw; end_char = last raw
           in if (first = squote \<and> end_char = squote) \<or> (first = dquote \<and> end_char = dquote)
              then Inr (unquote (take (length raw - 2) (drop 1 raw)))
              else if first = squote \<or> first = dquote
              then Inl (parse_error source offset ''Unterminated string literal'')
              else Inr raw
         else Inr raw)"

record ParsedArg =
  pa_key :: "string option"
  pa_value :: string
  pa_offset :: nat

fun parse_parts :: "string \<Rightarrow> (string \<times> nat) list \<Rightarrow> ParsedArg list \<Rightarrow> GraphQueryParseError + ParsedArg list" where
  "parse_parts source [] args = Inr args"
| "parse_parts source ((part, offset) # parts) args =
     (let trimmed = trim part
      in if trimmed = [] then parse_parts source parts args
         else
           let item_offset = offset + leading_ws part
           in case find_top_level_colon trimmed of
                Some colon \<Rightarrow>
                  let key = trim (take colon trimmed)
                  in if key = [] then Inl (parse_error source item_offset ''Expected argument name'')
                     else
                       let value = trim (drop (colon + 1) trimmed)
                       in if value = [] then Inl (parse_error source (item_offset + colon + 1) ''Expected argument value'')
                          else case parse_value source value
                                 (item_offset + colon + 1 + leading_ws (drop (colon + 1) trimmed)) of
                                 Inl e \<Rightarrow> Inl e
                               | Inr v \<Rightarrow> parse_parts source parts
                                   (args @ [\<lparr>pa_key = Some (to_ascii_lowercase key), pa_value = v, pa_offset = item_offset\<rparr>])
              | None \<Rightarrow>
                  (case parse_value source trimmed item_offset of
                     Inl e \<Rightarrow> Inl e
                   | Inr v \<Rightarrow> parse_parts source parts
                       (args @ [\<lparr>pa_key = None, pa_value = v, pa_offset = item_offset\<rparr>])))"

definition parse_args :: "string \<Rightarrow> string \<Rightarrow> nat \<Rightarrow> GraphQueryParseError + ParsedArg list" where
  "parse_args source args_source args_offset =
     (case split_args source args_source args_offset of
        Inl e \<Rightarrow> Inl e | Inr parts \<Rightarrow> parse_parts source parts [])"

definition optional_string_arg :: "ParsedArg list \<Rightarrow> string \<Rightarrow> string option" where
  "optional_string_arg args key = map_option pa_value (List.find (\<lambda>arg. pa_key arg = Some key) args)"

definition positional_arg :: "ParsedArg list \<Rightarrow> nat \<Rightarrow> string option" where
  "positional_arg args index =
     (let positional = filter (\<lambda>arg. pa_key arg = None) args
      in if index < length positional then Some (pa_value (positional ! index)) else None)"

definition arg_offset :: "ParsedArg list \<Rightarrow> string \<Rightarrow> nat option" where
  "arg_offset args key = map_option pa_offset (List.find (\<lambda>arg. pa_key arg = Some key) args)"

definition option_or :: "'a option \<Rightarrow> 'a option \<Rightarrow> 'a option" where
  "option_or a b = (case a of Some x \<Rightarrow> Some x | None \<Rightarrow> b)"

definition unwrap_or :: "'a option \<Rightarrow> 'a \<Rightarrow> 'a" where
  "unwrap_or a d = (case a of Some x \<Rightarrow> x | None \<Rightarrow> d)"

definition required_string_arg ::
  "string \<Rightarrow> ParsedArg list \<Rightarrow> string \<Rightarrow> nat \<Rightarrow> nat \<Rightarrow> GraphQueryParseError + string" where
  "required_string_arg source args key positional_index fallback_offset =
     (case option_or (optional_string_arg args key) (positional_arg args positional_index) of
        Some value \<Rightarrow>
          if trim value \<noteq> [] then Inr value
          else Inl (parse_error source fallback_offset (''Missing '' @ ticked key @ '' argument''))
      | None \<Rightarrow> Inl (parse_error source fallback_offset (''Missing '' @ ticked key @ '' argument'')))"

definition required_u32_arg ::
  "string \<Rightarrow> ParsedArg list \<Rightarrow> string \<Rightarrow> nat \<Rightarrow> nat \<Rightarrow> GraphQueryParseError + nat" where
  "required_u32_arg source args key positional_index fallback_offset =
     (case option_or (optional_string_arg args key) (positional_arg args positional_index) of
        None \<Rightarrow> Inl (parse_error source fallback_offset ''Missing numeric argument'')
      | Some raw \<Rightarrow>
          (case parse_u32 raw of
             Some n \<Rightarrow> Inr n
           | None \<Rightarrow> Inl (parse_error source (unwrap_or (arg_offset args key) fallback_offset)
               (''Expected '' @ ticked raw @ '' to be an integer''))))"

definition optional_u32_arg ::
  "string \<Rightarrow> ParsedArg list \<Rightarrow> string \<Rightarrow> GraphQueryParseError + nat option" where
  "optional_u32_arg source args key =
     (case optional_string_arg args key of
        None \<Rightarrow> Inr None
      | Some raw \<Rightarrow>
          (case parse_u32 raw of
             Some n \<Rightarrow> Inr (Some n)
           | None \<Rightarrow> Inl (parse_error source (unwrap_or (arg_offset args key) 0)
               (''Expected '' @ ticked raw @ '' to be an integer''))))"

definition optional_direction_arg ::
  "string \<Rightarrow> ParsedArg list \<Rightarrow> string \<Rightarrow> GraphQueryParseError + ApiTrailDirection option" where
  "optional_direction_arg source args key =
     (case optional_string_arg args key of
        None \<Rightarrow> Inr None
      | Some raw \<Rightarrow>
          (let d = to_ascii_lowercase (trim raw)
           in if d = ''incoming'' \<or> d = ''in'' then Inr (Some ApiIncoming)
              else if d = ''outgoing'' \<or> d = ''out'' then Inr (Some ApiOutgoing)
              else if d = ''both'' then Inr (Some ApiBoth)
              else Inl (parse_error source (unwrap_or (arg_offset args key) 0) (''Unknown direction '' @ ticked raw))))"

definition NODE_KIND_WORDS :: "(string \<times> ApiNodeKind) list" where
  "NODE_KIND_WORDS =
     [(''MODULE'', ANK_MODULE), (''NAMESPACE'', ANK_NAMESPACE), (''PACKAGE'', ANK_PACKAGE),
      (''FILE'', ANK_FILE), (''STRUCT'', ANK_STRUCT), (''CLASS'', ANK_CLASS),
      (''INTERFACE'', ANK_INTERFACE), (''ANNOTATION'', ANK_ANNOTATION), (''UNION'', ANK_UNION),
      (''ENUM'', ANK_ENUM), (''TYPEDEF'', ANK_TYPEDEF), (''TYPE_PARAMETER'', ANK_TYPE_PARAMETER),
      (''BUILTIN_TYPE'', ANK_BUILTIN_TYPE), (''FUNCTION'', ANK_FUNCTION), (''METHOD'', ANK_METHOD),
      (''MACRO'', ANK_MACRO), (''GLOBAL_VARIABLE'', ANK_GLOBAL_VARIABLE), (''FIELD'', ANK_FIELD),
      (''VARIABLE'', ANK_VARIABLE), (''CONSTANT'', ANK_CONSTANT),
      (''ENUM_CONSTANT'', ANK_ENUM_CONSTANT), (''UNKNOWN'', ANK_UNKNOWN)]"

definition parse_node_kind :: "string \<Rightarrow> ApiNodeKind option" where
  "parse_node_kind raw = map_of NODE_KIND_WORDS (to_ascii_uppercase (replace_str ''-'' ''_'' (trim raw)))"

definition optional_kind_arg ::
  "string \<Rightarrow> ParsedArg list \<Rightarrow> string \<Rightarrow> GraphQueryParseError + ApiNodeKind option" where
  "optional_kind_arg source args key =
     (case optional_string_arg args key of
        None \<Rightarrow> Inr None
      | Some raw \<Rightarrow>
          (case parse_node_kind raw of
             Some k \<Rightarrow> Inr (Some k)
           | None \<Rightarrow> Inl (parse_error source (unwrap_or (arg_offset args key) 0) (''Unknown node kind '' @ ticked raw))))"

fun reject_unknown_args :: "string \<Rightarrow> ParsedArg list \<Rightarrow> string list \<Rightarrow> GraphQueryParseError + unit" where
  "reject_unknown_args source [] allowed = Inr ()"
| "reject_unknown_args source (arg # args) allowed =
     (case pa_key arg of
        None \<Rightarrow> reject_unknown_args source args allowed
      | Some key \<Rightarrow>
          if \<not> List.member allowed key
          then Inl (parse_error source (pa_offset arg) (''Unknown '' @ ticked key @ '' argument''))
          else reject_unknown_args source args allowed)"

text \<open>The question-mark operator.\<close>

definition try_bind :: "('e + 'a) \<Rightarrow> ('a \<Rightarrow> 'e + 'b) \<Rightarrow> 'e + 'b" where
  "try_bind r f = (case r of Inl e \<Rightarrow> Inl e | Inr x \<Rightarrow> f x)"

definition build_operation ::
  "string \<Rightarrow> nat \<Rightarrow> string \<Rightarrow> ParsedArg list \<Rightarrow> nat \<Rightarrow> GraphQueryParseError + GraphQueryOperation" where
  "build_operation source segment_offset name args args_offset =
     (if name = ''trail'' then
        try_bind (reject_unknown_args source args [''symbol'', ''depth'', ''direction'']) (\<lambda>_.
        try_bind (required_string_arg source args ''symbol'' 0 args_offset) (\<lambda>symbol.
        try_bind (optional_u32_arg source args ''depth'') (\<lambda>depth.
        try_bind (optional_direction_arg source args ''direction'') (\<lambda>direction.
        Inr (Trail \<lparr>tq_symbol = symbol, tq_depth = depth, tq_direction = direction\<rparr>)))))
      else if name = ''symbol'' then
        try_bind (reject_unknown_args source args [''query'']) (\<lambda>_.
        try_bind (required_string_arg source args ''query'' 0 args_offset) (\<lambda>query. Inr (Symbol query)))
      else if name = ''search'' then
        try_bind (reject_unknown_args source args [''query'']) (\<lambda>_.
        try_bind (required_string_arg source args ''query'' 0 args_offset) (\<lambda>query. Inr (Search query)))
      else if name = ''filter'' then
        try_bind (reject_unknown_args source args [''kind'', ''file'', ''depth'']) (\<lambda>_.
        try_bind (optional_kind_arg source args ''kind'') (\<lambda>kind.
        try_bind (optional_u32_arg source args ''depth'') (\<lambda>depth.
        Inr (Filter \<lparr>fq_kind = kind, fq_file = optional_string_arg args ''file'', fq_depth = depth\<rparr>))))
      else if name = ''limit'' then
        try_bind (reject_unknown_args source args [''n'']) (\<lambda>_.
        try_bind (required_u32_arg source args ''n'' 0 args_offset) (\<lambda>count. Inr (Limit count)))
      else Inl (parse_error source segment_offset (''Unknown query operation '' @ ticked name)))"

definition parse_operation ::
  "string \<Rightarrow> string \<Rightarrow> nat \<Rightarrow> GraphQueryParseError + GraphQueryOperation" where
  "parse_operation source segment segment_offset =
     (case find_char (CHR ''('') segment of
        None \<Rightarrow> Inl (parse_error source (segment_offset + length segment)
            (''Expected '' @ ticked ''('' @ '' after operation name''))
      | Some opening \<Rightarrow>
          (case rfind_char (CHR '')'') segment of
             None \<Rightarrow> Inl (parse_error source (segment_offset + length segment) (''Expected closing '' @ ticked '')''))
           | Some closing \<Rightarrow>
               if closing < opening \<or> trim (drop (closing + 1) segment) \<noteq> []
               then Inl (parse_error source (segment_offset + closing + 1) ''Unexpected text after operation'')
               else
                 let name = to_ascii_lowercase (trim (take opening segment));
                     args_source = take (closing - (opening + 1)) (drop (opening + 1) segment);
                     args_offset = segment_offset + opening + 1
                 in try_bind (parse_args source args_source args_offset)
                      (\<lambda>args. build_operation source segment_offset name args args_offset)))"

fun parse_segments ::
  "string \<Rightarrow> (string \<times> nat) list \<Rightarrow> GraphQueryOperation list \<Rightarrow> GraphQueryParseError + GraphQueryOperation list" where
  "parse_segments source [] operations = Inr operations"
| "parse_segments source ((segment, offset) # segments) operations =
     (let trimmed = trim segment
      in if trimmed = []
         then Inl (parse_error source offset (''Expected query operation after '' @ ticked ''|''))
         else try_bind (parse_operation source trimmed (offset + leading_ws segment))
                (\<lambda>op. parse_segments source segments (operations @ [op])))"

definition parse_graph_query :: "string \<Rightarrow> GraphQueryParseError + GraphQueryAst" where
  "parse_graph_query source =
     try_bind (split_pipeline source) (\<lambda>segments.
     try_bind (parse_segments source segments []) (\<lambda>operations.
     if operations = [] then Inl (parse_error source 0 ''Expected at least one query operation'')
     else Inr operations))"

section \<open>Unquoting\<close>

text \<open>
  What the three successive replacements are meant to do: one pass that drops the backslash of
  an escaped quote or backslash and leaves any other backslash alone.
\<close>

fun unescape :: "string \<Rightarrow> string" where
  "unescape (c # d # cs) =
     (if c = backslash \<and> (d = squote \<or> d = dquote \<or> d = backslash) then d # unescape cs
      else c # unescape (d # cs))"
| "unescape [c] = [c]"
| "unescape [] = []"

text \<open>Every string is runs of backslashes, each ended by another character or by the end.\<close>

lemma backslash_runs:
  assumes ends: "\<And>n. P (replicate n backslash)"
    and run: "\<And>n c cs. c \<noteq> backslash \<Longrightarrow> P cs \<Longrightarrow> P (replicate n backslash @ c # cs)"
  shows "P s"
proof (induction "length s" arbitrary: s rule: less_induct)
  case less
  let ?r = "dropWhile (\<lambda>x. x = backslash) s"
  have "takeWhile (\<lambda>x. x = backslash) s = replicate (length (takeWhile (\<lambda>x. x = backslash) s)) backslash"
    by (rule replicate_length_same [symmetric]) (auto dest: set_takeWhileD)
  with takeWhile_dropWhile_id [of "\<lambda>x. x = backslash" s]
  obtain n r where s: "s = replicate n backslash @ r" and r: "r = ?r" by metis
  show ?case
  proof (cases r)
    case Nil
    with s ends [of n] show ?thesis by simp
  next
    case (Cons c cs)
    then have "c \<noteq> backslash" using hd_dropWhile [of "\<lambda>x. x = backslash" s, folded r] by simp
    then show ?thesis using run [of c cs n] less [of cs] s Cons by simp
  qed
qed

lemma starts_with_two: "starts_with s [a, b] \<longleftrightarrow> (\<exists>r. s = a # b # r)"
  by (auto simp: starts_with_prefix prefix_def)

lemma replace_two:
  "replace_str [a, b] r (c # d # cs) = (if c = a \<and> d = b then r @ replace_str [a, b] r cs
     else c # replace_str [a, b] r (d # cs))"
  "replace_str [a, b] r [c] = [c]"
  by (simp_all add: starts_with_two)

lemma replace_quote_ends: "replace_str [backslash, q] [q] (replicate n backslash) = replicate n backslash"
  if "q \<noteq> backslash" for q
proof (induction n)
  case (Suc n)
  with that show ?case by (cases n) (simp_all add: replace_two del: replace_str.simps(2))
qed simp

lemma replace_quote_run:
  assumes "q \<noteq> backslash" "c \<noteq> backslash"
  shows "replace_str [backslash, q] [q] (replicate n backslash @ c # cs) =
     replicate (if c = q then n - 1 else n) backslash @ c # replace_str [backslash, q] [q] cs"
proof (induction n)
  case 0
  from assms(2) show ?case by (cases cs) (simp_all add: replace_two del: replace_str.simps(2))
next
  case (Suc n)
  with assms show ?case by (cases n) (auto simp: replace_two simp del: replace_str.simps(2))
qed

lemma replace_pair_ends:
  "replace_str [backslash, backslash] [backslash] (replicate n backslash) = replicate ((n + 1) div 2) backslash"
proof (induction n rule: less_induct)
  case (less n)
  consider "n = 0" | "n = 1" | m where "n = Suc (Suc m)" by (metis One_nat_def nat.exhaust)
  then show ?case
  proof cases
    case 3
    with less [of m] show ?thesis by (simp add: replace_two del: replace_str.simps(2))
  qed (simp_all add: replace_two del: replace_str.simps(2))
qed

lemma replace_pair_run:
  assumes "c \<noteq> backslash"
  shows "replace_str [backslash, backslash] [backslash] (replicate n backslash @ c # cs) =
     replicate ((n + 1) div 2) backslash @ c # replace_str [backslash, backslash] [backslash] cs"
proof (induction n rule: less_induct)
  case (less n)
  consider "n = 0" | "n = 1" | m where "n = Suc (Suc m)" by (metis One_nat_def nat.exhaust)
  then show ?case
  proof cases
    case 1
    with assms show ?thesis by (cases cs) (simp_all add: replace_two del: replace_str.simps(2))
  next
    case 2
    with assms show ?thesis by (cases cs) (simp_all add: replace_two del: replace_str.simps(2))
  next
    case 3
    with less [of m] show ?thesis by (simp add: replace_two del: replace_str.simps(2))
  qed
qed

lemma unescape_ends: "unescape (replicate n backslash) = replicate ((n + 1) div 2) backslash"
proof (induction n rule: less_induct)
  case (less n)
  consider "n = 0" | "n = 1" | m where "n = Suc (Suc m)" by (metis One_nat_def nat.exhaust)
  then show ?case by cases (use less in simp_all)
qed

lemma unescape_plain: "c \<noteq> backslash \<Longrightarrow> unescape (c # cs) = c # unescape cs"
  by (cases cs) simp_all

lemma unescape_run:
  assumes "c \<noteq> backslash"
  shows "unescape (replicate n backslash @ c # cs) =
     replicate ((if c = squote \<or> c = dquote then n else n + 1) div 2) backslash @ c # unescape cs"
proof (induction n rule: less_induct)
  case (less n)
  consider "n = 0" | "n = 1" | m where "n = Suc (Suc m)" by (metis One_nat_def nat.exhaust)
  then show ?case
  proof cases
    case 3
    with less [of m] show ?thesis by auto
  qed (use assms in \<open>auto simp: unescape_plain\<close>)
qed

lemma char_neq: "squote \<noteq> backslash" "dquote \<noteq> backslash"
  by simp_all

lemma unquote_eq_unescape: "unquote s = unescape s"
proof (induction s rule: backslash_runs)
  case (1 n)
  show ?case by (simp add: unquote_def replace_quote_ends replace_pair_ends unescape_ends)
next
  case (2 n c cs)
  define n1 where "n1 = (if c = squote then n - 1 else n)"
  define n2 where "n2 = (if c = dquote then n1 - 1 else n1)"
  have "unquote (replicate n backslash @ c # cs) = replicate ((n2 + 1) div 2) backslash @ c # unquote cs"
    unfolding unquote_def replace_quote_run [OF char_neq(1) 2(1)] n1_def [symmetric]
      replace_quote_run [OF char_neq(2) 2(1)] n2_def [symmetric] replace_pair_run [OF 2(1)] ..
  moreover have "(n2 + 1) div 2 = (if c = squote \<or> c = dquote then n else n + 1) div 2"
    by (auto simp: n1_def n2_def)
  ultimately show ?case unfolding unescape_run [OF 2(1)] 2(2) by simp
qed

text \<open>The literal a value is written as, and its inverse.\<close>

fun escape :: "string \<Rightarrow> string" where
  "escape [] = []"
| "escape (c # cs) =
     (if c = squote \<or> c = dquote \<or> c = backslash then backslash # c # escape cs else c # escape cs)"

lemma unescape_escape: "unescape (escape s) = s"
  by (induction s) (auto simp: unescape_plain)

definition quoted :: "string \<Rightarrow> string" where
  "quoted s = squote # escape s @ [squote]"

section \<open>Rendering\<close>

text \<open>
  The canonical text of a query: keyword arguments only, strings as single-quoted literals,
  everything else bare.
\<close>

datatype arg_text = Bare string | Lit string

fun arg_text_source :: "arg_text \<Rightarrow> string" where
  "arg_text_source (Bare s) = s"
| "arg_text_source (Lit s) = quoted s"

fun arg_text_value :: "arg_text \<Rightarrow> string" where
  "arg_text_value (Bare s) = s"
| "arg_text_value (Lit s) = s"

definition arg_source :: "string \<times> arg_text \<Rightarrow> string" where
  "arg_source a = fst a @ '':'' @ arg_text_source (snd a)"

definition args_text :: "(string \<times> arg_text) list \<Rightarrow> string" where
  "args_text args = join_str '','' (map arg_source args)"

definition call_text :: "string \<Rightarrow> (string \<times> arg_text) list \<Rightarrow> string" where
  "call_text name args = name @ ''('' @ args_text args @ '')''"

definition option_arg :: "string \<Rightarrow> ('a \<Rightarrow> arg_text) \<Rightarrow> 'a option \<Rightarrow> (string \<times> arg_text) list" where
  "option_arg key f v = (case v of None \<Rightarrow> [] | Some x \<Rightarrow> [(key, f x)])"

fun direction_word :: "ApiTrailDirection \<Rightarrow> string" where
  "direction_word ApiIncoming = ''incoming''"
| "direction_word ApiOutgoing = ''outgoing''"
| "direction_word ApiBoth = ''both''"

definition kind_word :: "ApiNodeKind \<Rightarrow> string" where
  "kind_word k = fst (hd (filter (\<lambda>p. snd p = k) NODE_KIND_WORDS))"

fun operation_name :: "GraphQueryOperation \<Rightarrow> string" where
  "operation_name (Trail q) = ''trail''"
| "operation_name (Symbol s) = ''symbol''"
| "operation_name (Search s) = ''search''"
| "operation_name (Filter q) = ''filter''"
| "operation_name (Limit n) = ''limit''"

fun operation_args :: "GraphQueryOperation \<Rightarrow> (string \<times> arg_text) list" where
  "operation_args (Trail q) =
     (''symbol'', Lit (tq_symbol q)) # option_arg ''depth'' (Bare \<circ> show_nat) (tq_depth q)
       @ option_arg ''direction'' (Bare \<circ> direction_word) (tq_direction q)"
| "operation_args (Symbol s) = [(''query'', Lit s)]"
| "operation_args (Search s) = [(''query'', Lit s)]"
| "operation_args (Filter q) =
     option_arg ''kind'' (Bare \<circ> kind_word) (fq_kind q) @ option_arg ''file'' Lit (fq_file q)
       @ option_arg ''depth'' (Bare \<circ> show_nat) (fq_depth q)"
| "operation_args (Limit n) = [(''n'', Bare (show_nat n))]"

definition operation_text :: "GraphQueryOperation \<Rightarrow> string" where
  "operation_text op = call_text (operation_name op) (operation_args op)"

definition query_text :: "GraphQueryAst \<Rightarrow> string" where
  "query_text ast = join_str ''|'' (map operation_text ast)"

text \<open>What the parser can return: no blank required string, numbers that fit.\<close>

fun operation_ok :: "GraphQueryOperation \<Rightarrow> bool" where
  "operation_ok (Trail q) = (trim (tq_symbol q) \<noteq> [] \<and> pred_option (\<lambda>n. n \<le> u32_max) (tq_depth q))"
| "operation_ok (Symbol s) = (trim s \<noteq> [])"
| "operation_ok (Search s) = (trim s \<noteq> [])"
| "operation_ok (Filter q) = pred_option (\<lambda>n. n \<le> u32_max) (fq_depth q)"
| "operation_ok (Limit n) = (n \<le> u32_max)"

definition word_char :: "char \<Rightarrow> bool" where
  "word_char c \<longleftrightarrow> visible c \<and> c \<notin> {squote, dquote, CHR ''('', CHR '')'', CHR ''|'', CHR '','', CHR '':''}"

definition word :: "string \<Rightarrow> bool" where
  "word s \<longleftrightarrow> s \<noteq> [] \<and> list_all word_char s"

fun arg_text_ok :: "arg_text \<Rightarrow> bool" where
  "arg_text_ok (Bare s) = word s"
| "arg_text_ok (Lit s) = True"

definition arg_ok :: "string \<times> arg_text \<Rightarrow> bool" where
  "arg_ok a \<longleftrightarrow> word (fst a) \<and> to_ascii_lowercase (fst a) = fst a \<and> arg_text_ok (snd a)"

section \<open>The scanners pass over what is rendered\<close>

lemma pipeline_word:
  "list_all word_char w \<Longrightarrow> split_pipeline_loop src idx start d None False (w @ rest) acc =
     split_pipeline_loop src (idx + length w) start d None False rest acc"
  by (induction w arbitrary: idx) (auto simp: word_char_def)

lemma pipeline_literal:
  "split_pipeline_loop src idx start d (Some squote) False (escape s @ squote # rest) acc =
     split_pipeline_loop src (Suc (idx + length (escape s))) start d None False rest acc"
  by (induction s arbitrary: idx) auto

lemma args_word:
  "list_all word_char w \<Longrightarrow> split_args_loop src a off idx start None False (w @ rest) acc =
     split_args_loop src a off (idx + length w) start None False rest acc"
  by (induction w arbitrary: idx) (auto simp: word_char_def)

lemma args_literal:
  "split_args_loop src a off idx start (Some squote) False (escape s @ squote # rest) acc =
     split_args_loop src a off (Suc (idx + length (escape s))) start None False rest acc"
  by (induction s arbitrary: idx) auto

lemma colon_word:
  "list_all word_char w \<Longrightarrow> find_colon_loop idx None False (w @ rest) = find_colon_loop (idx + length w) None False rest"
  by (induction w arbitrary: idx) (auto simp: word_char_def)

lemma pipeline_arg:
  assumes "arg_ok a"
  shows "split_pipeline_loop src idx start d None False (arg_source a @ rest) acc =
     split_pipeline_loop src (idx + length (arg_source a)) start d None False rest acc"
proof (cases "snd a")
  case (Bare s)
  with assms show ?thesis
    by (simp add: arg_source_def arg_ok_def word_def pipeline_word add.assoc)
next
  case (Lit s)
  with assms show ?thesis
    by (simp add: arg_source_def arg_ok_def word_def pipeline_word quoted_def pipeline_literal add.assoc)
qed

lemma args_arg:
  assumes "arg_ok a"
  shows "split_args_loop src b off idx start None False (arg_source a @ rest) acc =
     split_args_loop src b off (idx + length (arg_source a)) start None False rest acc"
proof (cases "snd a")
  case (Bare s)
  with assms show ?thesis
    by (simp add: arg_source_def arg_ok_def word_def args_word add.assoc)
next
  case (Lit s)
  with assms show ?thesis
    by (simp add: arg_source_def arg_ok_def word_def args_word quoted_def args_literal add.assoc)
qed

lemma pipeline_args:
  "list_all arg_ok as \<Longrightarrow> split_pipeline_loop src idx start d None False (args_text as @ rest) acc =
     split_pipeline_loop src (idx + length (args_text as)) start d None False rest acc"
  unfolding args_text_def
  by (induction as arbitrary: idx rule: induct_list012) (simp_all add: pipeline_arg add.assoc)

lemma pipeline_operation:
  assumes "word name" "list_all arg_ok as"
  shows "split_pipeline_loop src idx start 0 None False (call_text name as @ rest) acc =
     split_pipeline_loop src (idx + length (call_text name as)) start 0 None False rest acc"
  using assms by (simp add: call_text_def word_def pipeline_word pipeline_args add.assoc)

section \<open>Splitting what is rendered\<close>

text \<open>
  The contract the two splitting loops share, outside quotes (and at depth 0): a separator
  closes a piece, the end closes the last one. The client fact: joined pieces come back.
\<close>

locale splitter =
  fixes body :: string and off :: nat and sep :: char
    and loop :: "nat \<Rightarrow> nat \<Rightarrow> string \<Rightarrow> (string \<times> nat) list \<Rightarrow> GraphQueryParseError + (string \<times> nat) list"
  assumes loop_sep: "loop idx start (sep # rest) acc =
      loop (Suc idx) (Suc idx) rest (acc @ [(take (idx - start) (drop start body), off + start)])"
    and loop_end: "loop idx start [] acc = Inr (acc @ [(drop start body, off + start)])"
begin

definition passes :: "string \<Rightarrow> bool" where
  "passes t \<longleftrightarrow> (\<forall>idx start rest acc. loop idx start (t @ rest) acc = loop (idx + length t) start rest acc)"

lemma loop_join:
  "ts \<noteq> [] \<Longrightarrow> body = pre @ join_str [sep] ts \<Longrightarrow> \<forall>t \<in> set ts. passes t \<Longrightarrow>
   \<exists>ss. loop (length pre) (length pre) (join_str [sep] ts) acc = Inr (acc @ ss) \<and> map fst ss = ts"
proof (induction ts arbitrary: pre acc rule: induct_list012)
  case (2 t)
  then have "loop (length pre) (length pre) (t @ []) acc = loop (length pre + length t) (length pre) [] acc"
    unfolding passes_def by (metis list.set_intros(1))
  with 2 show ?case by (simp add: loop_end)
next
  case (3 t u us)
  let ?rest = "join_str [sep] (u # us)"
  let ?acc = "acc @ [(t, off + length pre)]"
  have "loop (length pre) (length pre) (t @ sep # ?rest) acc =
      loop (length pre + length t) (length pre) (sep # ?rest) acc"
    using "3.prems"(3) by (simp add: passes_def)
  also have "\<dots> = loop (length (pre @ t @ [sep])) (length (pre @ t @ [sep])) ?rest ?acc"
    by (simp add: loop_sep "3.prems"(2))
  finally have step: "loop (length pre) (length pre) (join_str [sep] (t # u # us)) acc =
      loop (length (pre @ t @ [sep])) (length (pre @ t @ [sep])) ?rest ?acc" by simp
  have "body = (pre @ t @ [sep]) @ ?rest" using "3.prems"(2) by simp
  moreover have "\<forall>t \<in> set (u # us). passes t" using "3.prems"(3) by simp
  ultimately have "\<exists>ss. loop (length (pre @ t @ [sep])) (length (pre @ t @ [sep])) ?rest ?acc = Inr (?acc @ ss)
      \<and> map fst ss = u # us"
    by (rule 3(2) [OF list.distinct(2)])
  then obtain ss where "loop (length (pre @ t @ [sep])) (length (pre @ t @ [sep])) ?rest ?acc = Inr (?acc @ ss)"
    and ss: "map fst ss = u # us" by (elim exE conjE)
  with step have "loop (length pre) (length pre) (join_str [sep] (t # u # us)) acc
      = Inr (acc @ (t, off + length pre) # ss)" by (simp only: append_assoc append_Cons append_Nil)
  with ss show ?case by (intro exI [of _ "(t, off + length pre) # ss"]) (simp del: join_str.simps)
qed simp

end

interpretation pipeline: splitter source 0 "CHR ''|''"
  "\<lambda>idx start rest acc. split_pipeline_loop source idx start 0 None False rest acc" for source
  by unfold_locales simp_all

interpretation arguments: splitter args_source args_offset "CHR '',''"
  "\<lambda>idx start rest acc. split_args_loop source args_source args_offset idx start None False rest acc"
  for source args_source args_offset
  by unfold_locales simp_all

lemma word_visible: "word w \<Longrightarrow> w \<noteq> [] \<and> visible (hd w) \<and> visible (last w)"
  unfolding word_def list_all_iff by (auto simp: word_char_def)

lemma trim_word: "word w \<Longrightarrow> trim w = w"
  using word_visible trim_visible by blast

lemma visible_quote [simp]: "visible squote" "visible (CHR '')'')"
  by (simp_all add: visible_def byte_def)

lemma arg_text_visible: "arg_text_ok v \<Longrightarrow> arg_text_source v \<noteq> [] \<and> visible (hd (arg_text_source v)) \<and> visible (last (arg_text_source v))"
  by (cases v) (auto simp: quoted_def dest: word_visible)

lemma trim_arg_text: "arg_text_ok v \<Longrightarrow> trim (arg_text_source v) = arg_text_source v"
  using arg_text_visible trim_visible by blast

lemma trim_arg_source: "arg_ok a \<Longrightarrow> trim (arg_source a) = arg_source a"
  unfolding arg_ok_def arg_source_def
  using word_visible [of "fst a"] arg_text_visible [of "snd a"]
  by (intro trim_visible) (auto simp: hd_append)

lemma find_colon_arg: "arg_ok a \<Longrightarrow> find_top_level_colon (arg_source a) = Some (length (fst a))"
  by (simp add: find_top_level_colon_def arg_source_def arg_ok_def word_def colon_word)

lemma parse_value_text:
  assumes "arg_text_ok v"
  shows "parse_value src (arg_text_source v) off = Inr (arg_text_value v)"
proof (cases v)
  case (Bare w)
  with assms have "hd w \<noteq> squote" "hd w \<noteq> dquote" by (cases w; auto simp: word_def word_char_def)+
  with Bare trim_arg_text [OF assms] show ?thesis by (simp add: parse_value_def Let_def)
next
  case (Lit s)
  then have "parse_value src (arg_text_source v) off = Inr (unquote (escape s))"
    using trim_arg_text [OF assms] by (simp add: parse_value_def Let_def) (simp add: quoted_def)
  with Lit show ?thesis by (simp add: unquote_eq_unescape unescape_escape)
qed

definition arg_pairs :: "ParsedArg list \<Rightarrow> (string option \<times> string) list" where
  "arg_pairs args = map (\<lambda>a. (pa_key a, pa_value a)) args"

definition text_pairs :: "(string \<times> arg_text) list \<Rightarrow> (string option \<times> string) list" where
  "text_pairs as = map (\<lambda>a. (Some (fst a), arg_text_value (snd a))) as"

lemma parse_parts_args:
  assumes "list_all arg_ok as" "map fst parts = map arg_source as"
  shows "\<exists>args. parse_parts src parts acc = Inr (acc @ args) \<and> arg_pairs args = text_pairs as"
  using assms
proof (induction as arbitrary: parts acc)
  case Nil
  then show ?case by (simp add: arg_pairs_def text_pairs_def)
next
  case (Cons a as)
  then obtain off parts' where parts: "parts = (arg_source a, off) # parts'"
    "map fst parts' = map arg_source as" by (cases parts) auto
  from Cons.prems have a: "arg_ok a" and as: "list_all arg_ok as" by simp_all
  then have ne: "arg_source a \<noteq> []" "word (fst a)" "arg_text_source (snd a) \<noteq> []" and v: "arg_text_ok (snd a)"
    and key: "to_ascii_lowercase (fst a) = fst a"
    using arg_text_visible [of "snd a"] by (simp_all add: arg_source_def arg_ok_def)
  have pieces: "take (length (fst a)) (arg_source a) = fst a"
    "drop (Suc (length (fst a))) (arg_source a) = arg_text_source (snd a)"
    by (simp_all add: arg_source_def)
  let ?arg = "\<lparr>pa_key = Some (fst a), pa_value = arg_text_value (snd a), pa_offset = off + leading_ws (arg_source a)\<rparr>"
  have "parse_parts src parts acc = parse_parts src parts' (acc @ [?arg])"
    using ne word_visible [OF ne(2)] unfolding parts
    by (simp add: Let_def trim_arg_source [OF a] find_colon_arg [OF a] pieces trim_word trim_arg_text [OF v]
        parse_value_text [OF v] key)
  with Cons.IH [OF as parts(2), of "acc @ [?arg]"] obtain args where
    "parse_parts src parts acc = Inr (acc @ ?arg # args)" "arg_pairs args = text_pairs as" by auto
  then show ?case by (intro exI [of _ "?arg # args"]) (simp add: arg_pairs_def text_pairs_def)
qed

lemma parse_args_text:
  assumes "list_all arg_ok as"
  shows "\<exists>args. parse_args src (args_text as) off = Inr args \<and> arg_pairs args = text_pairs as"
proof (cases "as = []")
  case True
  then show ?thesis
    by (simp add: args_text_def parse_args_def split_args_def arg_pairs_def text_pairs_def Let_def)
next
  case False
  have "\<forall>t \<in> set (map arg_source as). arguments.passes src (args_text as) off t"
    using assms by (auto simp: arguments.passes_def list_all_iff args_arg)
  with arguments.loop_join [of "map arg_source as" "args_text as" "[]" src off "[]"] False
  obtain parts where "split_args src (args_text as) off = Inr parts" "map fst parts = map arg_source as"
    by (auto simp: split_args_def args_text_def)
  with parse_parts_args [OF assms, of parts src "[]"] show ?thesis by (simp add: parse_args_def)
qed

section \<open>Parsing what is rendered\<close>

lemma find_char_append: "c \<notin> set w \<Longrightarrow> find_char c (w @ c # rest) = Some (length w)"
  by (induction w) auto

lemma rfind_char_snoc: "rfind_char c (w @ [c]) = Some (length w)"
  by (induction w) auto

lemma word_no_paren: "word w \<Longrightarrow> CHR ''('' \<notin> set w"
  by (auto simp: word_def word_char_def list_all_iff)

lemma parse_operation_text:
  assumes "word name" "to_ascii_lowercase name = name" "list_all arg_ok as"
  shows "\<exists>args. arg_pairs args = text_pairs as
     \<and> parse_operation src (call_text name as) off = build_operation src off name args (off + length name + 1)"
proof -
  obtain args where args: "parse_args src (args_text as) (off + length name + 1) = Inr args" "arg_pairs args = text_pairs as"
    using parse_args_text [OF assms(3)] by blast
  have lparen: "find_char (CHR ''('') (call_text name as) = Some (length name)"
    using find_char_append [OF word_no_paren [OF assms(1)]] by (simp add: call_text_def)
  have rparen: "rfind_char (CHR '')'') (call_text name as) = Some (length (name @ ''('' @ args_text as))"
    using rfind_char_snoc [of "CHR '')''" "name @ ''('' @ args_text as"] by (simp add: call_text_def)
  have pieces: "take (length name) (call_text name as) = name"
    "take (length (args_text as)) (drop (Suc (length name)) (call_text name as)) = args_text as"
    "drop (Suc (Suc (length name + length (args_text as)))) (call_text name as) = []"
    by (simp_all add: call_text_def)
  show ?thesis
    using args assms(2)
    by (intro exI [of _ args])
      (simp add: parse_operation_def lparen rparen pieces trim_word [OF assms(1)] Let_def try_bind_def)
qed

lemma optional_string_arg_pairs: "optional_string_arg args key = map_of (arg_pairs args) (Some key)"
  by (induction args) (auto simp: optional_string_arg_def arg_pairs_def)

lemma reject_unknown_args_pairs:
  "\<forall>k. Some k \<in> fst ` set (arg_pairs args) \<longrightarrow> k \<in> set allowed \<Longrightarrow> reject_unknown_args src args allowed = Inr ()"
  by (induction args) (auto simp: arg_pairs_def split: option.split)

lemma direction_word_parse: "to_ascii_lowercase (trim (direction_word d)) = direction_word d"
  by (cases d) (simp_all add: trim_visible visible_def byte_def to_ascii_lowercase_def ascii_lower_def)

lemma kind_word_parse: "parse_node_kind (kind_word k) = Some k"
  by (cases k) (simp_all add: kind_word_def NODE_KIND_WORDS_def parse_node_kind_def trim_visible visible_def byte_def
      to_ascii_uppercase_def ascii_upper_def)

lemmas build_simps = build_operation_def try_bind_def required_string_arg_def required_u32_arg_def
  optional_u32_arg_def optional_kind_arg_def optional_string_arg_pairs
  option_or_def text_pairs_def option_arg_def

lemma optional_direction_pairs:
  assumes "map_of (arg_pairs args) (Some key) = map_option direction_word d"
  shows "optional_direction_arg src args key = Inr d"
proof (cases d)
  case (Some x)
  with assms show ?thesis
    by (cases x)
      (simp_all add: optional_direction_arg_def optional_string_arg_pairs direction_word_parse [of ApiIncoming, simplified]
        direction_word_parse [of ApiOutgoing, simplified] direction_word_parse [of ApiBoth, simplified])
qed (use assms in \<open>simp add: optional_direction_arg_def optional_string_arg_pairs\<close>)

lemma build_operation_text:
  assumes "operation_ok op" and "arg_pairs args = text_pairs (operation_args op)"
  shows "build_operation src off (operation_name op) args aoff = Inr op"
proof (cases op)
  case (Trail q)
  have "reject_unknown_args src args [''symbol'', ''depth'', ''direction''] = Inr ()"
    by (rule reject_unknown_args_pairs) (auto simp: assms(2) Trail text_pairs_def option_arg_def split: option.splits)
  moreover have "optional_direction_arg src args ''direction'' = Inr (tq_direction q)"
    by (rule optional_direction_pairs)
      (use assms Trail in \<open>cases "tq_depth q"; cases "tq_direction q"; simp add: text_pairs_def option_arg_def\<close>)
  ultimately show ?thesis
    using assms Trail
    by (cases q; cases "tq_depth q"; cases "tq_direction q") (simp_all add: build_simps parse_u32_show_nat)
next
  case (Symbol s)
  have "reject_unknown_args src args [''query''] = Inr ()"
    by (rule reject_unknown_args_pairs) (auto simp: assms(2) Symbol text_pairs_def)
  with assms Symbol show ?thesis by (simp add: build_simps)
next
  case (Search s)
  have "reject_unknown_args src args [''query''] = Inr ()"
    by (rule reject_unknown_args_pairs) (auto simp: assms(2) Search text_pairs_def)
  with assms Search show ?thesis by (simp add: build_simps)
next
  case (Filter q)
  have "reject_unknown_args src args [''kind'', ''file'', ''depth''] = Inr ()"
    by (rule reject_unknown_args_pairs) (auto simp: assms(2) Filter text_pairs_def option_arg_def split: option.splits)
  with assms Filter show ?thesis
    by (cases q; cases "fq_kind q"; cases "fq_file q"; cases "fq_depth q")
      (auto simp: build_simps parse_u32_show_nat kind_word_parse)
next
  case (Limit n)
  have "reject_unknown_args src args [''n''] = Inr ()"
    by (rule reject_unknown_args_pairs) (auto simp: assms(2) Limit text_pairs_def)
  with assms Limit show ?thesis by (simp add: build_simps parse_u32_show_nat)
qed

lemma word_literal:
  "word ''symbol'' \<and> word ''depth'' \<and> word ''direction'' \<and> word ''query'' \<and> word ''kind'' \<and> word ''file''
   \<and> word ''n'' \<and> word ''trail'' \<and> word ''search'' \<and> word ''filter'' \<and> word ''limit''"
  by (simp add: word_def word_char_def visible_def byte_def)

lemma word_show_nat: "word (show_nat n)"
proof -
  have "word_char c" if "c \<in> set (show_nat n)" for c
    using show_nat_digits [OF that] by (auto simp: word_char_def visible_def byte_def)
  then show ?thesis by (simp add: word_def list_all_iff)
qed

lemma word_direction: "word (direction_word d)"
  by (cases d) (simp_all add: word_def word_char_def visible_def byte_def)

lemma word_kind: "word (kind_word k)"
  by (cases k) (simp_all add: kind_word_def NODE_KIND_WORDS_def word_def word_char_def visible_def byte_def)

lemma lower_literal:
  "to_ascii_lowercase ''symbol'' = ''symbol''" "to_ascii_lowercase ''depth'' = ''depth''"
  "to_ascii_lowercase ''direction'' = ''direction''" "to_ascii_lowercase ''query'' = ''query''"
  "to_ascii_lowercase ''kind'' = ''kind''" "to_ascii_lowercase ''file'' = ''file''"
  "to_ascii_lowercase ''n'' = ''n''" "to_ascii_lowercase ''trail'' = ''trail''"
  "to_ascii_lowercase ''search'' = ''search''" "to_ascii_lowercase ''filter'' = ''filter''"
  "to_ascii_lowercase ''limit'' = ''limit''"
  by (simp_all add: to_ascii_lowercase_def ascii_lower_def byte_def)

lemma operation_args_ok: "list_all arg_ok (operation_args op)"
  by (cases op) (simp_all add: arg_ok_def option_arg_def word_literal lower_literal word_show_nat word_direction word_kind split: option.split)

lemma operation_name_ok: "word (operation_name op)" "to_ascii_lowercase (operation_name op) = operation_name op"
  by (cases op; simp add: word_literal lower_literal)+

lemma parse_operation_rendered: "operation_ok op \<Longrightarrow> parse_operation src (operation_text op) off = Inr op"
  using parse_operation_text [OF operation_name_ok(1) [of op] operation_name_ok(2) operation_args_ok [of op], of src off]
    build_operation_text [of op]
  unfolding operation_text_def by metis

lemma trim_operation_text: "trim (operation_text op) = operation_text op \<and> operation_text op \<noteq> []"
  using word_visible [OF operation_name_ok(1) [of op]]
  by (auto simp: operation_text_def call_text_def hd_append intro!: trim_visible)

lemma parse_segments_rendered:
  "list_all operation_ok ops \<Longrightarrow> map fst segments = map operation_text ops \<Longrightarrow>
   parse_segments src segments acc = Inr (acc @ ops)"
proof (induction ops arbitrary: segments acc)
  case (Cons op ops)
  then obtain off segments' where "segments = (operation_text op, off) # segments'"
    "map fst segments' = map operation_text ops" by (cases segments) auto
  with Cons show ?case
    using trim_operation_text [of op] by (simp add: Let_def parse_operation_rendered try_bind_def)
qed simp

lemma parse_query_text:
  assumes "ops \<noteq> []" and "list_all operation_ok ops"
  shows "parse_graph_query (query_text ops) = Inr ops"
proof -
  have "\<forall>t \<in> set (map operation_text ops). pipeline.passes (query_text ops) t"
    by (auto simp: pipeline.passes_def operation_text_def pipeline_operation [OF operation_name_ok(1) operation_args_ok])
  with pipeline.loop_join [of "map operation_text ops" "query_text ops" "[]" "[]"] assms(1)
  obtain segments where "split_pipeline (query_text ops) = Inr segments" "map fst segments = map operation_text ops"
    by (auto simp: split_pipeline_def query_text_def)
  with assms parse_segments_rendered [of ops segments] show ?thesis
    by (simp add: parse_graph_query_def try_bind_def)
qed

section \<open>Pieces and offsets\<close>

text \<open>A piece of the source at the offset it is reported with.\<close>

definition placed :: "string \<Rightarrow> string \<times> nat \<Rightarrow> bool" where
  "placed source p \<longleftrightarrow> snd p + length (fst p) \<le> length source \<and> take (length (fst p)) (drop (snd p) source) = fst p"

definition glued :: "string \<Rightarrow> (string \<times> nat) list \<Rightarrow> string" where
  "glued sep acc = concat (map (\<lambda>p. fst p @ sep) acc)"

lemma join_str_snoc: "join_str d (map fst xs @ [y]) = glued d xs @ y"
  by (induction xs rule: induct_list012) (simp_all add: glued_def)

lemma split_pipeline_loop_pieces:
  assumes "split_pipeline_loop source idx start depth quote escaped rest acc = Inr ss"
    and "source = pre @ rest" and "idx = length pre" and "start \<le> length pre"
    and "glued ''|'' acc = take start pre" and "list_all (placed source) acc"
  shows "join_str ''|'' (map fst ss) = source \<and> list_all (placed source) ss \<and> ss \<noteq> []"
  using assms
proof (induction rest arbitrary: idx start depth quote escaped acc pre)
  case Nil
  then show ?case by (auto simp: join_str_snoc placed_def split: if_splits)
next
  case (Cons ch rest)
  let ?pre = "pre @ [ch]"
  have pre: "source = ?pre @ rest" "Suc idx = length ?pre" "start \<le> length ?pre" "glued ''|'' acc = take start ?pre"
    using Cons.prems(2-5) by simp_all
  show ?case
  proof (cases "quote = None \<and> ch = CHR ''|'' \<and> depth = 0")
    case True
    let ?piece = "take (idx - start) (drop start source)"
    have piece: "?piece = drop start pre" using Cons.prems(2-4) by simp
    have "glued ''|'' (acc @ [(?piece, start)]) = take (Suc idx) ?pre"
      using Cons.prems(3-5) True unfolding piece by (simp add: glued_def)
    moreover have "list_all (placed source) (acc @ [(?piece, start)])"
      using Cons.prems(6) unfolding list_all_append piece
      by (simp add: placed_def [of _ "(_, _)"] Cons.prems(2-4))
    moreover have "split_pipeline_loop source (Suc idx) (Suc idx) 0 None escaped rest (acc @ [(?piece, start)]) = Inr ss"
      using Cons.prems(1) True by simp
    moreover have "Suc idx \<le> length ?pre" using pre(2) by simp
    ultimately show ?thesis by (intro Cons.IH [OF _ pre(1,2)])
  next
    case False
    then obtain start' depth' quote' escaped' where
      "split_pipeline_loop source (Suc idx) start depth' quote' escaped' rest acc = Inr ss"
      using Cons.prems(1) by (auto split: option.splits if_splits)
    then show ?thesis by (rule Cons.IH [OF _ pre Cons.prems(6)])
  qed
qed

text \<open>A result whose error, if it is one, points into the source.\<close>

fun located :: "string \<Rightarrow> GraphQueryParseError + 'a \<Rightarrow> bool" where
  "located source (Inl e) = (er_source e = source \<and> er_offset e \<le> length source)"
| "located source (Inr x) = True"

lemma parse_error_fields [simp]:
  "er_source (parse_error source offset msg) = source" "er_offset (parse_error source offset msg) = offset"
  by (simp_all add: parse_error_def)

lemma located_bind:
  "located source r \<Longrightarrow> (\<And>x. r = Inr x \<Longrightarrow> located source (f x)) \<Longrightarrow> located source (try_bind r f)"
  by (cases r) (simp_all add: try_bind_def)

lemma located_split_pipeline:
  "idx + length rest = length source \<Longrightarrow>
   located source (split_pipeline_loop source idx start depth quote escaped rest acc)"
  by (induction rest arbitrary: idx start depth quote escaped acc) (auto split: option.split)

lemma split_args_loop_pieces:
  assumes "split_args_loop source a off idx start quote escaped rest acc = Inr ss"
    and "idx + length rest = length a" and "start \<le> idx"
    and "list_all (\<lambda>p. snd p + length (fst p) \<le> off + length a) acc"
  shows "list_all (\<lambda>p. snd p + length (fst p) \<le> off + length a) ss"
  using assms
proof (induction rest arbitrary: idx start quote escaped acc)
  case Nil
  then show ?case by (auto split: if_splits)
next
  case (Cons ch rest)
  show ?case
  proof (cases "quote = None \<and> ch = CHR '','' ")
    case True
    then have "split_args_loop source a off (Suc idx) (Suc idx) None escaped rest
        (acc @ [(take (idx - start) (drop start a), off + start)]) = Inr ss"
      using Cons.prems(1) by simp
    then show ?thesis by (rule Cons.IH) (use Cons.prems(2-4) in auto)
  next
    case False
    then obtain quote' escaped' where "split_args_loop source a off (Suc idx) start quote' escaped' rest acc = Inr ss"
      using Cons.prems(1) by (auto split: option.splits if_splits)
    then show ?thesis by (rule Cons.IH) (use Cons.prems(2-4) in auto)
  qed
qed

lemma located_split_args:
  "off + length a \<le> length source \<Longrightarrow> located source (split_args_loop source a off idx start quote escaped rest acc)"
  by (induction rest arbitrary: idx start quote escaped acc) (auto split: option.split)

lemma find_colon_bound: "find_colon_loop idx quote escaped s = Some i \<Longrightarrow> idx \<le> i \<and> i < idx + length s"
proof (induction s arbitrary: idx quote escaped)
  case (Cons c s)
  then show ?case by (cases quote) (fastforce split: if_splits)+
qed simp

lemma leading_ws_trim: "leading_ws s + length (trim s) \<le> length s"
  using length_trim_le_start [of s] length_trim_start [of s] by (simp add: leading_ws_def)

lemma located_parse_value: "off \<le> length source \<Longrightarrow> located source (parse_value source raw off)"
  by (simp add: parse_value_def Let_def)

lemma parse_parts_located:
  assumes "list_all (\<lambda>p. snd p + length (fst p) \<le> length source) parts"
    and "list_all (\<lambda>a. pa_offset a \<le> length source) acc"
  shows "located source (parse_parts source parts acc) \<and>
     (\<forall>args. parse_parts source parts acc = Inr args \<longrightarrow> list_all (\<lambda>a. pa_offset a \<le> length source) args)"
  using assms
proof (induction source parts acc rule: parse_parts.induct)
  case (1 source args)
  then show ?case by simp
next
  case (2 source part offset parts acc)
  let ?t = "trim part" and ?off = "offset + leading_ws part"
  have off: "?off + length ?t \<le> length source" using "2.prems"(1) leading_ws_trim [of part] by simp
  show ?case
  proof (cases "?t = []")
    case True
    with 2 show ?thesis by simp
  next
    case ne: False
    show ?thesis
    proof (cases "find_top_level_colon ?t")
      case None
      show ?thesis
      proof (cases "parse_value source ?t ?off")
        case (Inl e)
        with located_parse_value [of ?off source ?t] off ne None show ?thesis by simp
      next
        case (Inr v)
        with 2 ne None off show ?thesis by (auto simp: Let_def)
      qed
    next
      case (Some colon)
      have c: "colon < length ?t" using find_colon_bound Some by (force simp: find_top_level_colon_def)
      let ?voff = "?off + colon + 1 + leading_ws (drop (colon + 1) ?t)"
      have voff: "?voff \<le> length source" using off c leading_ws_trim [of "drop (colon + 1) ?t"] by simp
      show ?thesis
      proof (cases "trim (take colon ?t) = [] \<or> trim (drop (colon + 1) ?t) = []")
        case True
        with off c ne Some show ?thesis by (auto simp: Let_def)
      next
        case kv: False
        show ?thesis
        proof (cases "parse_value source (trim (drop (colon + 1) ?t)) ?voff")
          case (Inl e)
          with located_parse_value [OF voff, of "trim (drop (colon + 1) ?t)"] ne Some kv show ?thesis
            by (simp add: Let_def)
        next
          case (Inr v)
          with 2 ne Some kv off show ?thesis by (auto simp: Let_def)
        qed
      qed
    qed
  qed
qed

lemma find_offset: "list_all (\<lambda>a. pa_offset a \<le> n) args \<Longrightarrow> d \<le> n \<Longrightarrow> unwrap_or (arg_offset args key) d \<le> n"
  by (auto simp: unwrap_or_def arg_offset_def list_all_iff split: option.split dest!: find_Some_iff [THEN iffD1])

lemma located_reject:
  "list_all (\<lambda>a. pa_offset a \<le> length source) args \<Longrightarrow> located source (reject_unknown_args source args allowed)"
  by (induction args) (auto split: option.split)

lemma located_args:
  assumes "list_all (\<lambda>a. pa_offset a \<le> length source) args"
  shows "fallback \<le> length source \<Longrightarrow> located source (required_string_arg source args key i fallback)"
    "fallback \<le> length source \<Longrightarrow> located source (required_u32_arg source args key i fallback)"
    "located source (optional_u32_arg source args key)"
    "located source (optional_direction_arg source args key)"
    "located source (optional_kind_arg source args key)"
  using find_offset [OF assms]
  by (simp_all add: required_string_arg_def required_u32_arg_def optional_u32_arg_def optional_direction_arg_def
      optional_kind_arg_def Let_def split: option.split)

lemma located_if: "located source a \<Longrightarrow> located source b \<Longrightarrow> located source (if P then a else b)"
  by simp

lemma located_build:
  assumes "list_all (\<lambda>a. pa_offset a \<le> length source) args" "off \<le> length source" "aoff \<le> length source"
  shows "located source (build_operation source off name args aoff)"
  unfolding build_operation_def
  by (intro located_if located_bind located_reject located_args assms) (simp_all add: assms)

lemma parse_args_located:
  assumes "off + length a \<le> length source"
  shows "located source (parse_args source a off) \<and>
     (\<forall>args. parse_args source a off = Inr args \<longrightarrow> list_all (\<lambda>a. pa_offset a \<le> length source) args)"
proof (cases "split_args source a off")
  case (Inl e)
  with located_split_args [OF assms, of 0 0 None False a "[]"] show ?thesis
    by (simp add: parse_args_def split_args_def)
next
  case (Inr parts)
  then have "list_all (\<lambda>p. snd p + length (fst p) \<le> off + length a) parts"
    by (rule split_args_loop_pieces [of source a off 0 0 None False a "[]", folded split_args_def]) simp_all
  then have "list_all (\<lambda>p. snd p + length (fst p) \<le> length source) parts"
    using assms by (auto simp: list_all_iff)
  with Inr parse_parts_located [of source parts "[]"] show ?thesis by (simp add: parse_args_def)
qed

lemma located_parse_operation:
  assumes "off + length segment \<le> length source"
  shows "located source (parse_operation source segment off)"
proof (cases "find_char (CHR ''('') segment")
  case None
  with assms show ?thesis by (simp add: parse_operation_def)
next
  case o: (Some lp)
  show ?thesis
  proof (cases "rfind_char (CHR '')'') segment")
    case None
    with assms o show ?thesis by (simp add: parse_operation_def)
  next
    case c: (Some rp)
    note lp = find_char_less [OF o] and rp = rfind_char_less [OF c]
    show ?thesis
    proof (cases "rp < lp \<or> trim (drop (rp + 1) segment) \<noteq> []")
      case True
      with assms o c rp show ?thesis by (auto simp: parse_operation_def)
    next
      case False
      let ?a = "take (rp - (lp + 1)) (drop (lp + 1) segment)"
      from lp rp have "lp \<noteq> rp" by auto
      with False have "lp < rp" by simp
      moreover have "length ?a \<le> rp - (lp + 1)" by simp
      ultimately have a: "off + lp + 1 + length ?a \<le> length source" using assms rp by linarith
      have "located source (try_bind (parse_args source ?a (off + lp + 1))
          (\<lambda>args. build_operation source off (to_ascii_lowercase (trim (take lp segment))) args (off + lp + 1)))"
        using parse_args_located [OF a] assms a by (intro located_bind located_build) auto
      with False o c show ?thesis by (simp add: parse_operation_def Let_def)
    qed
  qed
qed

lemma located_parse_segments:
  "list_all (placed source) segments \<Longrightarrow> located source (parse_segments source segments acc)"
proof (induction source segments acc rule: parse_segments.induct)
  case (2 source segment offset segments acc)
  then have "offset + leading_ws segment + length (trim segment) \<le> length source"
    using leading_ws_trim [of segment] by (simp add: placed_def)
  then show ?case
    using 2 by (auto simp: Let_def placed_def intro!: located_bind located_parse_operation)
qed simp

lemma split_pipeline_pieces:
  "split_pipeline source = Inr ss \<Longrightarrow> join_str ''|'' (map fst ss) = source \<and> list_all (placed source) ss \<and> ss \<noteq> []"
  using split_pipeline_loop_pieces [of source 0 0 0 None False source "[]" ss "[]"]
  by (simp add: split_pipeline_def glued_def)

lemma parse_segments_length:
  "parse_segments source segments acc = Inr ops \<Longrightarrow> length ops = length acc + length segments"
proof (induction source segments acc rule: parse_segments.induct)
  case (2 source segment offset segments acc)
  then show ?case
    by (cases "parse_operation source (trim segment) (offset + leading_ws segment)")
      (auto simp: Let_def try_bind_def split: if_splits)
qed simp

lemma parse_u32_fits: "pred_option (\<lambda>n. n \<le> u32_max) (parse_u32 s)"
  using parse_u32_bound [of s] by (cases "parse_u32 s") simp_all

lemma build_operation_ok: "build_operation source off name args aoff = Inr op \<Longrightarrow> operation_ok op"
  by (auto simp: build_operation_def try_bind_def required_string_arg_def required_u32_arg_def optional_u32_arg_def
      parse_u32_fits dest: parse_u32_bound split: if_splits sum.splits option.splits)

lemma parse_operation_ok: "parse_operation source segment off = Inr op \<Longrightarrow> operation_ok op"
  by (auto simp: parse_operation_def Let_def try_bind_def split: option.splits if_splits sum.splits
      dest: build_operation_ok)

lemma parse_segments_ok:
  "parse_segments source segments acc = Inr ops \<Longrightarrow> list_all operation_ok acc \<Longrightarrow> list_all operation_ok ops"
proof (induction source segments acc rule: parse_segments.induct)
  case (2 source segment offset segments acc)
  then show ?case
    by (cases "parse_operation source (trim segment) (offset + leading_ws segment)")
      (auto simp: Let_def try_bind_def dest: parse_operation_ok split: if_splits)
qed simp

section \<open>Properties\<close>

text \<open>C10: printing a query and parsing it gives the query back, for every pipeline the parser can
  produce: quotes, backslashes, parentheses, commas, colons and bars inside strings included.\<close>

theorem query_roundtrip:
  assumes "ops \<noteq> []" and "list_all operation_ok ops"
  shows "parse_graph_query (query_text ops) = Inr ops"
  by (rule parse_query_text [OF assms])

theorem query_roundtrip_witness:
  "parse_graph_query (query_text [Symbol ''a|(b''])
     = Inr [Symbol ''a|(b'']"
proof (rule query_roundtrip)
  have "trim ''a|(b'' = ''a|(b''" by (rule trim_visible) (simp_all add: visible_def byte_def)
  then show "list_all operation_ok [Symbol ''a|(b'']" by simp
qed simp

text \<open>Whatever the source, a successful parse gives at least one operation, one per piece
  between top-level bars, and each is one the printer round-trips: no blank required string, every
  number within 32 bits.\<close>

theorem parsed_query_ok:
  assumes "parse_graph_query source = Inr ops"
  shows "ops \<noteq> [] \<and> list_all operation_ok ops \<and>
     (\<exists>segments. split_pipeline source = Inr segments \<and> length segments = length ops
        \<and> join_str ''|'' (map fst segments) = source)"
proof -
  from assms obtain segments where s: "split_pipeline source = Inr segments" "parse_segments source segments [] = Inr ops"
    and "ops \<noteq> []"
    by (auto simp: parse_graph_query_def try_bind_def split: sum.splits if_splits)
  with parse_segments_ok [OF s(2)] parse_segments_length [OF s(2)] split_pipeline_pieces [OF s(1)]
  show ?thesis by simp
qed

theorem parsed_query_ok_witness:
  "list_all operation_ok [Limit 5]"
  using parsed_query_ok [OF parse_query_text [of "[Limit 5]"]] by (simp add: u32_max_def)

text \<open>C39: every error of the parser points into the source it reports, so the caret line it
  prints is never longer than the source line.\<close>

theorem query_error_located:
  assumes "parse_graph_query source = Inl e"
  shows "er_source e = source \<and> er_offset e \<le> length source"
proof -
  have "located source (parse_graph_query source)"
    unfolding parse_graph_query_def
    using split_pipeline_pieces [of source] located_split_pipeline [of 0 source source]
    by (intro located_bind located_parse_segments) (auto simp: split_pipeline_def)
  with assms show ?thesis by simp
qed

theorem query_error_located_witness:
  "\<exists>e. parse_graph_query ''limit(5'' = Inl e \<and> er_offset e \<le> 7"
proof -
  let ?e = "parse_error ''limit(5'' 7 (''Unclosed '' @ ticked ''('')"
  have "parse_graph_query ''limit(5'' = Inl ?e"
    by (simp add: parse_graph_query_def split_pipeline_def try_bind_def eval_nat_numeral)
  with query_error_located [OF this] show ?thesis by simp
qed

text \<open>The three successive replacements that unquote a string literal equal one left-to-right
  pass over its escapes, and so undo the escaping of any string.\<close>

theorem unquote_is_single_pass:
  "unquote s = unescape s \<and> unquote (escape v) = v \<and> parse_value source (quoted v) off = Inr v"
  using parse_value_text [of "Lit v" source off] by (simp add: unquote_eq_unescape unescape_escape)

end
