(* ===== verification/Resolution_Names.thy ===== *)
theory Resolution_Names
  imports Rust_Str Graph_Contracts
begin

text \<open>
  The names the resolution pass works with (\<^verbatim>\<open>codestory-indexer/src/resolution\<close>): callsite
  identities with their syntax markers and receivers, owner and member parts of symbol names,
  normalized paths, the files an import may denote and the symbol names it may bind. The language
  of a path comes from the registry in \<^verbatim>\<open>codestory-contracts/src/language_support.rs\<close>.
\<close>

section \<open>Confidences\<close>

text \<open>
  The \<^verbatim>\<open>f32\<close> literals of the pass lie in $[0.25, 1]$, so each is a multiple of $2^{-25}$.
  Comparisons with NaN are false.
\<close>

definition f32_lit :: "nat \<Rightarrow> f32" where
  "f32_lit k = F32_Fin (of_nat k / 33554432)"

definition f32_gt :: "f32 \<Rightarrow> f32 \<Rightarrow> bool" where
  "f32_gt x y \<longleftrightarrow> f32_ge x y \<and> \<not> f32_ge y x"

definition f32_eq :: "f32 \<Rightarrow> f32 \<Rightarrow> bool" where
  "f32_eq x y \<longleftrightarrow> f32_ge x y \<and> f32_ge y x"

section \<open>Languages of paths\<close>

datatype LanguageSupportMode = ParserBackedGraph | StructuralCollector

record LanguageSupportProfile =
  lp_language_name :: string
  lp_extensions :: "string list"
  lp_support_mode :: LanguageSupportMode

definition parser_profile :: "string \<Rightarrow> string list \<Rightarrow> LanguageSupportProfile" where
  "parser_profile n es = \<lparr>lp_language_name = n, lp_extensions = es, lp_support_mode = ParserBackedGraph\<rparr>"

definition structural_profile :: "string \<Rightarrow> string list \<Rightarrow> LanguageSupportProfile" where
  "structural_profile n es = \<lparr>lp_language_name = n, lp_extensions = es, lp_support_mode = StructuralCollector\<rparr>"

definition LANGUAGE_SUPPORT_PROFILES :: "LanguageSupportProfile list" where
  "LANGUAGE_SUPPORT_PROFILES =
    [parser_profile ''python'' [''py'', ''pyi''],
     parser_profile ''java'' [''java''],
     parser_profile ''rust'' [''rs''],
     parser_profile ''javascript'' [''js'', ''jsx'', ''mjs'', ''cjs''],
     parser_profile ''typescript'' [''ts'', ''tsx'', ''mts'', ''cts''],
     parser_profile ''cpp'' [''cpp'', ''cc'', ''cxx'', ''hpp'', ''hh'', ''hxx''],
     parser_profile ''c'' [''c'', ''h''],
     parser_profile ''go'' [''go''],
     parser_profile ''ruby'' [''rb''],
     parser_profile ''php'' [''php''],
     parser_profile ''csharp'' [''cs''],
     parser_profile ''kotlin'' [''kt'', ''kts''],
     parser_profile ''swift'' [''swift''],
     parser_profile ''dart'' [''dart''],
     parser_profile ''bash'' [''sh'', ''bash''],
     structural_profile ''html'' [''html'', ''htm''],
     structural_profile ''css'' [''css''],
     structural_profile ''sql'' [''sql''],
     structural_profile ''markdown'' [''md'', ''markdown'', ''mdx''],
     structural_profile ''yaml'' [''yml'', ''yaml''],
     structural_profile ''toml'' [''toml''],
     structural_profile ''json'' [''json''],
     structural_profile ''shell'' [''zsh'', ''ksh'', ''command''],
     structural_profile ''powershell'' [''ps1'', ''psm1''],
     structural_profile ''docker_compose'' [],
     structural_profile ''cargo_manifest'' []]"

definition language_support_profile_for_ext :: "string \<Rightarrow> LanguageSupportProfile option" where
  "language_support_profile_for_ext ext =
     (let ext = trim_start_matches (\<lambda>c. c = CHR ''.'') (trim ext)
      in find (\<lambda>profile. list_ex (\<lambda>candidate. eq_ignore_ascii_case candidate ext) (lp_extensions profile))
           LANGUAGE_SUPPORT_PROFILES)"

definition language_support_profile_for_language_name :: "string \<Rightarrow> LanguageSupportProfile option" where
  "language_support_profile_for_language_name name =
     find (\<lambda>profile. eq_ignore_ascii_case (lp_language_name profile) (trim name)) LANGUAGE_SUPPORT_PROFILES"

definition language_support_profile_for_path :: "string option \<Rightarrow> LanguageSupportProfile option" where
  "language_support_profile_for_path path =
     (case path of None \<Rightarrow> None
      | Some path \<Rightarrow>
          language_support_profile_for_ext (trim_start_matches (\<lambda>c. c = CHR ''.'') (last_piece ''.'' path)))"

definition language_name_for_path :: "string option \<Rightarrow> string option" where
  "language_name_for_path path = map_option lp_language_name (language_support_profile_for_path path)"

definition parser_backed_language_name_for_path :: "string option \<Rightarrow> string option" where
  "parser_backed_language_name_for_path path =
     (case language_support_profile_for_path path of
        None \<Rightarrow> None
      | Some profile \<Rightarrow> if lp_support_mode profile = ParserBackedGraph then Some (lp_language_name profile) else None)"

definition is_structural_language_name :: "string \<Rightarrow> bool" where
  "is_structural_language_name name =
     (case language_support_profile_for_language_name name of
        None \<Rightarrow> False | Some profile \<Rightarrow> lp_support_mode profile = StructuralCollector)"

text \<open>
  \<^verbatim>\<open>Path::extension\<close> on Unix: what follows the last dot of the file name, unless that dot
  leads it. The file name is the last component, empty and \<^verbatim>\<open>.\<close> components aside, and there
  is none when it is \<^verbatim>\<open>..\<close>.
\<close>

definition path_file_name :: "string \<Rightarrow> string option" where
  "path_file_name path =
     (case rev (filter (\<lambda>s. s \<noteq> [] \<and> s \<noteq> ''.'') (split_char (CHR ''/'') path)) of
        [] \<Rightarrow> None
      | s # _ \<Rightarrow> if s = ''..'' then None else Some s)"

definition path_extension :: "string \<Rightarrow> string option" where
  "path_extension path =
     (case path_file_name path of
        None \<Rightarrow> None
      | Some name \<Rightarrow>
          (case rsplit_once ''.'' name of
             None \<Rightarrow> None
           | Some (stem, ext) \<Rightarrow> if stem = [] then None else Some ext))"

definition template_surface_language :: "string \<Rightarrow> string option" where
  "template_surface_language path =
     (let ext = to_ascii_lowercase (case path_extension path of Some e \<Rightarrow> e | None \<Rightarrow> [])
      in if ext = ''vue'' then Some ''vue''
         else if ext = ''svelte'' then Some ''svelte''
         else if ext = ''astro'' then Some ''astro'' else None)"

definition detect_language :: "string option \<Rightarrow> string option" where
  "detect_language path =
     (case path of None \<Rightarrow> None
      | Some p \<Rightarrow>
          (case template_surface_language p of Some l \<Rightarrow> Some l | None \<Rightarrow> language_name_for_path (Some p)))"

definition detect_resolver_language :: "string option \<Rightarrow> string option" where
  "detect_resolver_language path =
     (case path of None \<Rightarrow> None
      | Some p \<Rightarrow>
          (case parser_backed_language_name_for_path (Some p) of
             Some l \<Rightarrow> Some l | None \<Rightarrow> template_surface_language p))"

section \<open>Callsite identities\<close>

definition has_callsite_marker :: "string \<Rightarrow> EdgeKind \<Rightarrow> string option \<Rightarrow> bool" where
  "has_callsite_marker marker kind callsite \<longleftrightarrow>
     (if kind \<noteq> EK_CALL then False
      else case callsite of None \<Rightarrow> False
        | Some identity \<Rightarrow> list_ex (\<lambda>part. part = marker) (split_char (CHR ''|'') identity))"

definition is_python_dotted_call_placeholder :: "EdgeKind \<Rightarrow> string option \<Rightarrow> bool" where
  "is_python_dotted_call_placeholder = has_callsite_marker ''syntax:python-attribute-call''"

definition is_cpp_member_call_placeholder :: "EdgeKind \<Rightarrow> string option \<Rightarrow> bool" where
  "is_cpp_member_call_placeholder = has_callsite_marker ''syntax:cpp-member-call''"

definition is_js_member_call_placeholder :: "EdgeKind \<Rightarrow> string option \<Rightarrow> bool" where
  "is_js_member_call_placeholder = has_callsite_marker ''syntax:js-member-call''"

definition is_ts_member_call_placeholder :: "EdgeKind \<Rightarrow> string option \<Rightarrow> bool" where
  "is_ts_member_call_placeholder = has_callsite_marker ''syntax:ts-member-call''"

definition is_kotlin_member_call_placeholder :: "EdgeKind \<Rightarrow> string option \<Rightarrow> bool" where
  "is_kotlin_member_call_placeholder = has_callsite_marker ''syntax:kotlin-member-call''"

definition is_dart_member_call_placeholder :: "EdgeKind \<Rightarrow> string option \<Rightarrow> bool" where
  "is_dart_member_call_placeholder = has_callsite_marker ''syntax:dart-member-call''"

definition is_swift_member_call_placeholder :: "EdgeKind \<Rightarrow> string option \<Rightarrow> bool" where
  "is_swift_member_call_placeholder = has_callsite_marker ''syntax:swift-member-call''"

definition is_go_selector_call_placeholder :: "EdgeKind \<Rightarrow> string option \<Rightarrow> bool" where
  "is_go_selector_call_placeholder = has_callsite_marker ''syntax:go-selector-call''"

definition is_java_member_call_placeholder :: "EdgeKind \<Rightarrow> string option \<Rightarrow> bool" where
  "is_java_member_call_placeholder = has_callsite_marker ''syntax:java-member-call''"

definition is_csharp_member_call_placeholder :: "EdgeKind \<Rightarrow> string option \<Rightarrow> bool" where
  "is_csharp_member_call_placeholder = has_callsite_marker ''syntax:csharp-member-call''"

definition is_ruby_member_call_placeholder :: "EdgeKind \<Rightarrow> string option \<Rightarrow> bool" where
  "is_ruby_member_call_placeholder = has_callsite_marker ''syntax:ruby-member-call''"

definition is_php_member_call_placeholder :: "EdgeKind \<Rightarrow> string option \<Rightarrow> bool" where
  "is_php_member_call_placeholder = has_callsite_marker ''syntax:php-member-call''"

definition receiver_from_callsite :: "string \<Rightarrow> string option \<Rightarrow> string option" where
  "receiver_from_callsite label callsite =
     (case callsite of None \<Rightarrow> None
      | Some identity \<Rightarrow>
          (case List.map_filter (\<lambda>part. case strip_prefix label part of
                  Some rest \<Rightarrow> if rest = [] then None else Some rest | None \<Rightarrow> None)
                (split_char (CHR ''|'') identity) of
             [] \<Rightarrow> None | rest # _ \<Rightarrow> Some rest))"

definition receiver_owner_from_callsite :: "string option \<Rightarrow> string option" where
  "receiver_owner_from_callsite = receiver_from_callsite ''receiver-owner:''"

definition receiver_module_from_callsite :: "string option \<Rightarrow> string option" where
  "receiver_module_from_callsite = receiver_from_callsite ''receiver-module:''"

definition is_imported_receiver_call_placeholder :: "EdgeKind \<Rightarrow> string option \<Rightarrow> bool" where
  "is_imported_receiver_call_placeholder kind callsite \<longleftrightarrow>
     kind = EK_CALL \<and> receiver_owner_from_callsite callsite \<noteq> None
     \<and> receiver_module_from_callsite callsite \<noteq> None"

section \<open>Owners and members\<close>

definition split_owner_member_name :: "string \<Rightarrow> (string \<times> string) option" where
  "split_owner_member_name name =
     (case (case rsplit_once ''::'' name of Some p \<Rightarrow> Some p | None \<Rightarrow> rsplit_once ''.'' name) of
        Some (owner, member) \<Rightarrow> if owner \<noteq> [] \<and> member \<noteq> [] then Some (owner, member) else None
      | None \<Rightarrow> None)"

text \<open>\<^verbatim>\<open>s.rsplit(set).find(non-empty)\<close>, or the whole string.\<close>

definition last_nonempty_piece :: "(char \<Rightarrow> bool) \<Rightarrow> string \<Rightarrow> string" where
  "last_nonempty_piece p s =
     (case filter (\<lambda>x. x \<noteq> []) (rev (split_on p s)) of x # _ \<Rightarrow> x | [] \<Rightarrow> s)"

definition owner_alias_token :: "string \<Rightarrow> string" where
  "owner_alias_token owner =
     trim_matches (\<lambda>c. \<not> is_ascii_alphanumeric c \<and> c \<noteq> CHR ''_'')
       (last_nonempty_piece (\<lambda>c. c = CHR '':'' \<or> c = CHR ''.'' \<or> c = CHR ''<'' \<or> c = CHR '' '' \<or> c = CHR ''&'') owner)"

definition owner_token_manifest_alias :: "string \<Rightarrow> string \<Rightarrow> bool" where
  "owner_token_manifest_alias shorter longer \<longleftrightarrow> strip_prefix shorter longer = Some ''Manifest''"

definition owner_token_store_alias :: "string \<Rightarrow> string \<Rightarrow> bool" where
  "owner_token_store_alias l r \<longleftrightarrow>
     (to_ascii_lowercase l = ''store'' \<and> to_ascii_lowercase r = ''storage'')
     \<or> (to_ascii_lowercase l = ''storage'' \<and> to_ascii_lowercase r = ''store'')"

definition owner_alias_compatible :: "string \<Rightarrow> string \<Rightarrow> bool" where
  "owner_alias_compatible requested_owner candidate_owner =
     (if requested_owner = candidate_owner then False
      else let requested = owner_alias_token requested_owner; candidate = owner_alias_token candidate_owner
           in if requested = [] \<or> candidate = [] then False
              else if requested = candidate then True
              else owner_token_manifest_alias requested candidate \<or> owner_token_manifest_alias candidate requested
                   \<or> owner_token_store_alias requested candidate)"

definition tail_component :: "string \<Rightarrow> string option" where
  "tail_component name =
     (let tail_from = (\<lambda>start. let tail = drop start name in if tail = [] then None else Some tail)
      in case (rfind_char (CHR ''.'') name, rfind_str ''::'' name) of
           (Some dot, Some colon) \<Rightarrow> tail_from (if dot > colon then dot + 1 else colon + 2)
         | (Some dot, None) \<Rightarrow> tail_from (dot + 1)
         | (None, Some colon) \<Rightarrow> tail_from (colon + 2)
         | (None, None) \<Rightarrow> None)"

definition owner_name_from_member_name :: "string \<Rightarrow> string option" where
  "owner_name_from_member_name name =
     (case (rfind_str ''::'' name, rfind_char (CHR ''.'') name) of
        (Some colon, Some dot) \<Rightarrow> Some (take (if colon + 1 > dot then colon else dot) name)
      | (Some colon, None) \<Rightarrow> Some (take colon name)
      | (None, Some dot) \<Rightarrow> Some (take dot name)
      | (None, None) \<Rightarrow> None)"

definition short_member_name :: "string \<Rightarrow> string" where
  "short_member_name name =
     (let colon = (case rfind_str ''::'' name of Some i \<Rightarrow> i + 2 | None \<Rightarrow> 0);
          dot = (case rfind_char (CHR ''.'') name of Some i \<Rightarrow> i + 1 | None \<Rightarrow> 0)
      in drop (max colon dot) name)"

definition module_prefix :: "string \<Rightarrow> (string \<times> string) option" where
  "module_prefix qualified =
     (case rfind_str ''::'' qualified of
        Some i \<Rightarrow> Some (take i qualified, ''::'')
      | None \<Rightarrow>
          (case rfind_char (CHR ''.'') qualified of
             Some i \<Rightarrow> Some (take i qualified, ''.'') | None \<Rightarrow> None))"

definition import_alias_mismatch :: "string \<Rightarrow> string \<Rightarrow> bool" where
  "import_alias_mismatch source_name target_name =
     (let source = trim source_name; target = trim target_name
      in if source = [] \<or> target = [] then False
         else let segment = last_piece ''::'' target;
                  target_tail = trim (case rsplit_once ''.'' segment of Some (_, tail) \<Rightarrow> tail | None \<Rightarrow> segment)
              in source \<noteq> target \<and> source \<noteq> target_tail \<and> (contains_str target ''::'' \<or> contains_str target ''.''))"

definition common_unqualified_call_names :: "string list" where
  "common_unqualified_call_names =
     [''add'', ''any'', ''clear'', ''clone'', ''commit'', ''collect'', ''copied'', ''dedup'', ''default'',
      ''execute'', ''extend'', ''from'', ''is_empty'', ''insert'', ''iter'', ''len'', ''map'', ''map_err'',
      ''once'', ''ok'', ''pop'', ''push'', ''remove'', ''sort'', ''sort_by'', ''sort_by_key'', ''truncate'']"

definition is_common_unqualified_call :: "string \<Rightarrow> bool" where
  "is_common_unqualified_call name =
     (if contains_str name ''::'' \<or> contains_str name ''.'' then False
      else List.member common_unqualified_call_names (to_ascii_lowercase name))"

definition should_keep_common_call_resolution :: "string \<Rightarrow> f32 \<Rightarrow> string option \<Rightarrow> bool" where
  "should_keep_common_call_resolution target_name confidence callsite =
     (if \<not> is_common_unqualified_call target_name then True
      else from_confidence (Some confidence) = Some Certain \<and> callsite \<noteq> None)"

definition is_owner_qualified_call_name :: "string \<Rightarrow> bool" where
  "is_owner_qualified_call_name name \<longleftrightarrow> contains_str name ''::'' \<or> contains_str name ''.''"

section \<open>Paths\<close>

definition is_quote :: "char \<Rightarrow> bool" where
  "is_quote c \<longleftrightarrow> c = CHR 0x22 \<or> c = CHR 0x27 \<or> c = CHR 0x60"

definition normalize_import_module_name :: "string \<Rightarrow> string option" where
  "normalize_import_module_name module_name =
     (let unquoted = trim_matches is_quote (trim module_name)
      in if unquoted = [] then None
         else Some (to_ascii_lowercase (replace_char (CHR 0x5C) (CHR ''/'') unquoted)))"

fun normalize_segments :: "bool \<Rightarrow> string list \<Rightarrow> string list \<Rightarrow> string list" where
  "normalize_segments keep_parents parts [] = parts"
| "normalize_segments keep_parents parts (s # ss) =
     (if s = [] \<or> s = ''.'' then normalize_segments keep_parents parts ss
      else if s = ''..'' then
        (if parts \<noteq> [] \<and> last parts \<noteq> ''..'' then normalize_segments keep_parents (butlast parts) ss
         else if keep_parents then normalize_segments keep_parents (parts @ [s]) ss
         else normalize_segments keep_parents parts ss)
      else normalize_segments keep_parents (parts @ [s]) ss)"

definition normalize_resolution_path :: "string \<Rightarrow> string option" where
  "normalize_resolution_path path =
     (let value = trim path
      in if value = [] then None
         else
           let value = (case strip_prefix [CHR 0x5C, CHR 0x5C, CHR ''?'', CHR 0x5C] value of
                          Some v \<Rightarrow> v | None \<Rightarrow> value);
               normalized = replace_char (CHR 0x5C) (CHR ''/'') value;
               absolute = starts_with normalized ''/'';
               has_drive = (length normalized \<ge> 2 \<and> normalized ! 1 = CHR '':'');
               drive = (if has_drive then take 2 normalized else []);
               normalized = (if has_drive then trim_start_matches (\<lambda>c. c = CHR ''/'') (drop 2 normalized)
                             else if absolute then trim_start_matches (\<lambda>c. c = CHR ''/'') normalized
                             else normalized);
               parts = normalize_segments (drive = [] \<and> \<not> absolute) [] (split_char (CHR ''/'') normalized);
               root = (if drive \<noteq> [] then drive @ ''/'' else if absolute then ''/'' else []);
               out = to_ascii_lowercase (trim_end_matches (\<lambda>c. c = CHR ''/'') (root @ join_str ''/'' parts))
           in if out = [] then None else Some out)"

definition path_has_extension :: "string \<Rightarrow> bool" where
  "path_has_extension path =
     (case rsplit_once ''.'' (last_piece ''/'' path) of
        Some (stem, extension) \<Rightarrow> stem \<noteq> [] \<and> extension \<noteq> [] | None \<Rightarrow> False)"

definition push_unique_name :: "string \<Rightarrow> string list \<Rightarrow> string list" where
  "push_unique_name value values =
     (let value = trim value
      in if value = [] then values else if List.member values value then values else values @ [value])"

definition parent_of :: "string \<Rightarrow> string option" where
  "parent_of path = map_option fst (rsplit_once ''/'' path)"

definition is_relative_module :: "string \<Rightarrow> bool" where
  "is_relative_module m \<longleftrightarrow> starts_with m ''./'' \<or> starts_with m ''../''"

definition relative_import_path_candidates :: "string \<Rightarrow> string \<Rightarrow> string list" where
  "relative_import_path_candidates caller_file_path module_name =
     (case normalize_import_module_name module_name of None \<Rightarrow> []
      | Some m \<Rightarrow>
          if \<not> is_relative_module m then []
          else case normalize_resolution_path caller_file_path of None \<Rightarrow> []
            | Some caller_path \<Rightarrow>
                (case parent_of caller_path of None \<Rightarrow> []
                 | Some parent \<Rightarrow>
                     (case normalize_resolution_path (parent @ ''/'' @ m) of None \<Rightarrow> []
                      | Some base \<Rightarrow>
                          let candidates = push_unique_name base []
                          in if path_has_extension base then candidates
                             else let candidates = fold (\<lambda>extension. push_unique_name (base @ extension))
                                        [''.js'', ''.jsx'', ''.ts'', ''.tsx'', ''.mjs'', ''.cjs'', ''.mts'', ''.cts''] candidates
                                  in fold (\<lambda>index_file. push_unique_name (base @ ''/'' @ index_file))
                                       [''index.js'', ''index.jsx'', ''index.ts'', ''index.tsx'', ''index.mjs'', ''index.cjs'']
                                       candidates)))"

definition typescript_source_extensions :: "string \<Rightarrow> string list option" where
  "typescript_source_extensions extension =
     (if extension = ''js'' then Some [''ts'', ''tsx'']
      else if extension = ''jsx'' then Some [''tsx'']
      else if extension = ''mjs'' then Some [''mts'']
      else if extension = ''cjs'' then Some [''cts''] else None)"

definition typescript_relative_import_path_candidates :: "string \<Rightarrow> string \<Rightarrow> string list" where
  "typescript_relative_import_path_candidates caller_file_path module_name =
     (let candidates = relative_import_path_candidates caller_file_path module_name
      in case normalize_import_module_name module_name of None \<Rightarrow> candidates
         | Some m \<Rightarrow>
             (case rsplit_once ''.'' m of None \<Rightarrow> candidates
              | Some (stem, extension) \<Rightarrow>
                  (case typescript_source_extensions extension of None \<Rightarrow> candidates
                   | Some source_extensions \<Rightarrow>
                       (case normalize_resolution_path caller_file_path of None \<Rightarrow> candidates
                        | Some caller_path \<Rightarrow>
                            (case parent_of caller_path of None \<Rightarrow> candidates
                             | Some parent \<Rightarrow>
                                 fold (\<lambda>source_extension candidates.
                                     case normalize_resolution_path (parent @ ''/'' @ stem @ ''.'' @ source_extension) of
                                       Some candidate \<Rightarrow> push_unique_name candidate candidates
                                     | None \<Rightarrow> candidates)
                                   source_extensions candidates)))))"

definition ruby_require_relative_path_candidates :: "string \<Rightarrow> string \<Rightarrow> string list" where
  "ruby_require_relative_path_candidates caller_file_path module_name =
     (case normalize_import_module_name module_name of None \<Rightarrow> []
      | Some m \<Rightarrow>
          let m = (if is_relative_module m then m else ''./'' @ m)
          in case normalize_resolution_path caller_file_path of None \<Rightarrow> []
             | Some caller_path \<Rightarrow>
                 (case parent_of caller_path of None \<Rightarrow> []
                  | Some parent \<Rightarrow>
                      (case normalize_resolution_path (parent @ ''/'' @ m) of None \<Rightarrow> []
                       | Some base \<Rightarrow>
                           let candidates = push_unique_name base []
                           in if path_has_extension base then candidates
                              else push_unique_name (base @ ''.rb'') candidates)))"

definition push_python_module_file_candidates :: "string \<Rightarrow> string list \<Rightarrow> string list" where
  "push_python_module_file_candidates base candidates =
     (let base = trim_matches (\<lambda>c. c = CHR ''/'') base
      in if base = [] then candidates
         else if path_has_extension base then push_unique_name base candidates
         else push_unique_name (base @ ''/__init__.py'') (push_unique_name (base @ ''.py'') candidates))"

definition python_import_path_candidates :: "string \<Rightarrow> string \<Rightarrow> string list" where
  "python_import_path_candidates caller_file_path module_name =
     (case normalize_import_module_name module_name of None \<Rightarrow> []
      | Some m \<Rightarrow>
          if starts_with m ''.'' then
            (case normalize_resolution_path caller_file_path of None \<Rightarrow> []
             | Some caller_path \<Rightarrow>
                 (case parent_of caller_path of None \<Rightarrow> []
                  | Some parent \<Rightarrow>
                      let leading_dots = length (takeWhile (\<lambda>c. c = CHR ''.'') m);
                          rest = trim_matches (\<lambda>c. c = CHR ''.'') (drop leading_dots m);
                          up = (if leading_dots = 1 then ''./'' else concat (replicate (leading_dots - 1) ''../''))
                      in case normalize_resolution_path
                               (parent @ ''/'' @ up @ replace_char (CHR ''.'') (CHR ''/'') rest) of
                           Some base \<Rightarrow> push_python_module_file_candidates base []
                         | None \<Rightarrow> []))
          else
            let module_path = replace_char (CHR ''.'') (CHR ''/'') m
            in if \<not> contains_str module_path ''/'' then
                 (case normalize_resolution_path caller_file_path of
                    Some caller_path \<Rightarrow>
                      (case parent_of caller_path of
                         Some parent \<Rightarrow> push_python_module_file_candidates (parent @ ''/'' @ module_path) []
                       | None \<Rightarrow> [])
                  | None \<Rightarrow> [])
               else push_python_module_file_candidates module_path [])"

definition nonempty_segments :: "string \<Rightarrow> string list" where
  "nonempty_segments s = filter (\<lambda>x. x \<noteq> []) (split_char (CHR ''/'') s)"

definition go_import_path_match_score :: "string \<Rightarrow> string \<Rightarrow> nat option" where
  "go_import_path_match_score path module_name =
     (case normalize_import_module_name module_name of None \<Rightarrow> None
      | Some m \<Rightarrow>
          let import_segments = nonempty_segments m
          in if import_segments = [] then None
             else case normalize_resolution_path path of None \<Rightarrow> None
               | Some normalized_path \<Rightarrow>
                   (case parent_of normalized_path of None \<Rightarrow> None
                    | Some package_dir \<Rightarrow>
                        let path_segments = nonempty_segments package_dir;
                            max_len = min (length import_segments) (length path_segments);
                            min_len = (if length import_segments > 1 then 2 else 1)
                        in find (\<lambda>len. drop (length import_segments - len) import_segments
                                       = drop (length path_segments - len) path_segments)
                             (rev [min_len..<Suc max_len])))"

definition swift_sources_root_and_module :: "string \<Rightarrow> (string \<times> string) option" where
  "swift_sources_root_and_module path =
     (case (case strip_prefix ''sources/'' path of
              Some rest \<Rightarrow> Some ([], rest)
            | None \<Rightarrow> split_once ''/sources/'' path) of
        None \<Rightarrow> None
      | Some (root_dir, rest) \<Rightarrow>
          let m = trim (hd (split_char (CHR ''/'') rest)) in if m = [] then None else Some (root_dir, m))"

definition swift_imported_module_path_matches :: "string \<Rightarrow> string \<Rightarrow> string \<Rightarrow> bool" where
  "swift_imported_module_path_matches path caller_file_path module_name =
     (case normalize_resolution_path path of None \<Rightarrow> False
      | Some normalized_path \<Rightarrow>
          (case normalize_resolution_path caller_file_path of None \<Rightarrow> False
           | Some caller_path \<Rightarrow>
               if normalized_path = caller_path then False
               else case swift_sources_root_and_module normalized_path of None \<Rightarrow> False
                 | Some (target_root, target_module) \<Rightarrow>
                     (case swift_sources_root_and_module caller_path of None \<Rightarrow> False
                      | Some (caller_root, _) \<Rightarrow> target_root = caller_root \<and> target_module = module_name)))"

section \<open>Imported names\<close>

definition push_alias_parts :: "string \<Rightarrow> string list \<Rightarrow> string list option" where
  "push_alias_parts s candidates =
     (case split_once '' as '' s of
        Some (lhs, rhs) \<Rightarrow> Some (push_unique_name (trim rhs) (push_unique_name (trim lhs) candidates))
      | None \<Rightarrow> None)"

definition push_brace_part :: "string \<Rightarrow> string list \<Rightarrow> string list" where
  "push_brace_part part candidates =
     (let part = trim part
      in if part = [] then candidates
         else case push_alias_parts part candidates of
                Some c \<Rightarrow> c | None \<Rightarrow> push_unique_name part candidates)"

definition import_name_candidates :: "string \<Rightarrow> bool \<Rightarrow> string list" where
  "import_name_candidates target_name legacy_mode =
     (let raw = trim target_name; candidates = push_unique_name raw []
      in if legacy_mode then candidates
         else
           let candidates = (case push_alias_parts raw candidates of Some c \<Rightarrow> c | None \<Rightarrow> candidates);
               candidates = (if ends_with raw ''.*'' then push_unique_name (trim_end_literal ''.*'' raw) candidates
                             else candidates);
               candidates = fold (\<lambda>delimiter candidates.
                   case rsplit_once delimiter raw of
                     Some (_, tail) \<Rightarrow> push_unique_name (trim tail) candidates | None \<Rightarrow> candidates)
                 [''::'', ''.'', ''/''] candidates
           in case (find_char (CHR 0x7B) raw, rfind_char (CHR 0x7D) raw) of
                (Some start, Some stop) \<Rightarrow>
                  if start < stop
                  then fold push_brace_part (split_char (CHR '','') (drop (start + 1) (take stop raw))) candidates
                  else candidates
              | _ \<Rightarrow> candidates)"

definition is_relative_import_module_name :: "string \<Rightarrow> bool" where
  "is_relative_import_module_name name =
     (case normalize_import_module_name name of None \<Rightarrow> False | Some m \<Rightarrow> is_relative_module m)"

definition is_import_binding_name :: "string \<Rightarrow> bool" where
  "is_import_binding_name name =
     (case normalize_import_module_name name of None \<Rightarrow> False
      | Some m \<Rightarrow> m \<noteq> [] \<and> \<not> starts_with m ''./'' \<and> \<not> starts_with m ''../'' \<and> \<not> starts_with m ''/''
               \<and> \<not> contains_str m ''/'')"

end
