(* ===== verification/Candidate_Index.thy ===== *)
theory Candidate_Index
  imports Resolution_Names
begin

text \<open>
  The candidate index of the resolution pass (\<^verbatim>\<open>CandidateIndex\<close> in
  \<^verbatim>\<open>resolution/mod.rs\<close>): the graph nodes that may be targets, the hash maps built over them
  once, and the lookups by file, module, path, owner and name. The maps hold offsets into the node
  vector. Every lookup is memoised behind a lock; the memo and the lookups are modelled apart: a
  lookup here is the closure the memo runs, and the last section shows that reading through the memo,
  in any interleaving of threads, returns just that.
\<close>

section \<open>The index\<close>

record CandidateNode =
  cn_id :: int
  cn_file_node_id :: "int option"
  cn_file_path :: "string option"
  cn_normalized_file_path :: "string option"
  cn_serialized_name :: string
  cn_serialized_name_ascii_lower :: string
  cn_qualified_name :: "string option"

record CandidateNodeSnapshot =
  cs_id :: int
  cs_file_node_id :: "int option"
  cs_file_path :: "string option"
  cs_serialized_name :: string
  cs_qualified_name :: "string option"

record CandidateIndex =
  ci_nodes :: "CandidateNode list"
  ci_relative_import_nodes :: "CandidateNode list"
  ci_import_binding_node_ids :: "int set"
  ci_node_offset_by_id :: "int \<rightharpoonup> nat"
  ci_exact_map :: "string \<rightharpoonup> nat list"
  ci_suffix_map_ascii_lower :: "string \<rightharpoonup> nat list"
  ci_file_path_map :: "string \<rightharpoonup> nat list"
  ci_relative_file_path_map :: "string \<rightharpoonup> nat list"

text \<open>\<^verbatim>\<open>map.entry(key).or_default().push(value)\<close>\<close>

definition entry_push :: "'k \<Rightarrow> 'v \<Rightarrow> ('k \<rightharpoonup> 'v list) \<Rightarrow> ('k \<rightharpoonup> 'v list)" where
  "entry_push k v m = m(k \<mapsto> (case m k of Some vs \<Rightarrow> vs @ [v] | None \<Rightarrow> [v]))"

definition entry_push_opt :: "'k option \<Rightarrow> 'v \<Rightarrow> ('k \<rightharpoonup> 'v list) \<Rightarrow> ('k \<rightharpoonup> 'v list)" where
  "entry_push_opt k v m = (case k of Some k \<Rightarrow> entry_push k v m | None \<Rightarrow> m)"

definition candidate_nodes_from_snapshots :: "CandidateNodeSnapshot list \<Rightarrow> CandidateNode list" where
  "candidate_nodes_from_snapshots = map (\<lambda>s.
     \<lparr>cn_id = cs_id s, cn_file_node_id = cs_file_node_id s, cn_file_path = cs_file_path s,
      cn_normalized_file_path = Option.bind (cs_file_path s) normalize_resolution_path,
      cn_serialized_name = cs_serialized_name s,
      cn_serialized_name_ascii_lower = to_ascii_lowercase (cs_serialized_name s),
      cn_qualified_name = cs_qualified_name s\<rparr>)"

definition snapshot_of :: "CandidateNode \<Rightarrow> CandidateNodeSnapshot" where
  "snapshot_of n = \<lparr>cs_id = cn_id n, cs_file_node_id = cn_file_node_id n, cs_file_path = cn_file_path n,
     cs_serialized_name = cn_serialized_name n, cs_qualified_name = cn_qualified_name n\<rparr>"

definition snapshot_nodes :: "CandidateIndex \<Rightarrow> CandidateNodeSnapshot list" where
  "snapshot_nodes index = map snapshot_of (ci_nodes index)"

definition snapshot_relative_import_nodes :: "CandidateIndex \<Rightarrow> CandidateNodeSnapshot list" where
  "snapshot_relative_import_nodes index = map snapshot_of (ci_relative_import_nodes index)"

definition index_node :: "nat \<times> CandidateNode \<Rightarrow> CandidateIndex \<Rightarrow> CandidateIndex" where
  "index_node entry index = (case entry of (offset, node) \<Rightarrow>
     index\<lparr>ci_node_offset_by_id := (ci_node_offset_by_id index)(cn_id node \<mapsto> offset),
       ci_exact_map := entry_push (cn_serialized_name node) offset (ci_exact_map index),
       ci_suffix_map_ascii_lower := entry_push_opt
         (map_option to_ascii_lowercase (tail_component (cn_serialized_name node))) offset (ci_suffix_map_ascii_lower index),
       ci_file_path_map := entry_push_opt (cn_normalized_file_path node) offset (ci_file_path_map index)\<rparr>)"

definition index_relative_node :: "nat \<times> CandidateNode \<Rightarrow> CandidateIndex \<Rightarrow> CandidateIndex" where
  "index_relative_node entry index = (case entry of (offset, node) \<Rightarrow>
     index\<lparr>ci_relative_file_path_map :=
       entry_push_opt (cn_normalized_file_path node) offset (ci_relative_file_path_map index)\<rparr>)"

definition from_primary_relative_and_import_bindings ::
  "CandidateNode list \<Rightarrow> CandidateNode list \<Rightarrow> int set \<Rightarrow> CandidateIndex" where
  "from_primary_relative_and_import_bindings nodes relative_import_nodes import_binding_node_ids =
     (let relative = (if relative_import_nodes = [] then nodes else relative_import_nodes);
          index = \<lparr>ci_nodes = nodes, ci_relative_import_nodes = relative,
            ci_import_binding_node_ids = import_binding_node_ids, ci_node_offset_by_id = Map.empty,
            ci_exact_map = Map.empty, ci_suffix_map_ascii_lower = Map.empty, ci_file_path_map = Map.empty,
            ci_relative_file_path_map = Map.empty\<rparr>
      in fold index_relative_node (enumerate 0 relative) (fold index_node (enumerate 0 nodes) index))"

definition from_primary_and_relative_nodes :: "CandidateNode list \<Rightarrow> CandidateNode list \<Rightarrow> CandidateIndex" where
  "from_primary_and_relative_nodes nodes relative = from_primary_relative_and_import_bindings nodes relative {}"

definition from_snapshot_nodes_with_import_bindings :: "CandidateNodeSnapshot list \<Rightarrow> int list \<Rightarrow> CandidateIndex" where
  "from_snapshot_nodes_with_import_bindings nodes ids =
     from_primary_relative_and_import_bindings (candidate_nodes_from_snapshots nodes) [] (set ids)"

definition from_snapshot_nodes_with_relative ::
  "CandidateNodeSnapshot list \<Rightarrow> CandidateNodeSnapshot list \<Rightarrow> CandidateIndex" where
  "from_snapshot_nodes_with_relative nodes relative =
     from_primary_and_relative_nodes (candidate_nodes_from_snapshots nodes) (candidate_nodes_from_snapshots relative)"

definition is_import_binding_node :: "CandidateIndex \<Rightarrow> int \<Rightarrow> bool" where
  "is_import_binding_node index node_id \<longleftrightarrow> node_id \<in> ci_import_binding_node_ids index"

section \<open>Lookups by file, module and name\<close>

text \<open>Offsets in the maps are in range, so the indexing never panics (\<^verbatim>\<open>offsets_in_range\<close> below).\<close>

definition first_offset :: "CandidateNode list \<Rightarrow> nat list option \<Rightarrow> (CandidateNode \<Rightarrow> bool) \<Rightarrow> int option" where
  "first_offset nodes candidates p =
     (case candidates of None \<Rightarrow> None
      | Some offsets \<Rightarrow> map_option (\<lambda>i. cn_id (nodes ! i)) (find (\<lambda>i. p (nodes ! i)) offsets))"

definition first_in_file :: "CandidateIndex \<Rightarrow> nat list option \<Rightarrow> int \<Rightarrow> int option" where
  "first_in_file index candidates file_id =
     first_offset (ci_nodes index) candidates (\<lambda>n. cn_file_node_id n = Some file_id)"

definition first_in_module :: "CandidateIndex \<Rightarrow> nat list option \<Rightarrow> string \<Rightarrow> int option" where
  "first_in_module index candidates prefix_text =
     first_offset (ci_nodes index) candidates
       (\<lambda>n. case cn_qualified_name n of Some q \<Rightarrow> starts_with q prefix_text | None \<Rightarrow> False)"

definition find_same_file_readonly :: "CandidateIndex \<Rightarrow> int option \<Rightarrow> string \<Rightarrow> string \<Rightarrow> int option" where
  "find_same_file_readonly index file_id name name_ascii_lower =
     (case file_id of None \<Rightarrow> None
      | Some file_id \<Rightarrow>
          (case first_in_file index (ci_exact_map index name) file_id of
             Some i \<Rightarrow> Some i
           | None \<Rightarrow> first_in_file index (ci_suffix_map_ascii_lower index name_ascii_lower) file_id))"

definition find_same_module_readonly :: "CandidateIndex \<Rightarrow> string \<Rightarrow> string \<Rightarrow> string \<Rightarrow> string \<Rightarrow> int option" where
  "find_same_module_readonly index module_text delimiter name name_ascii_lower =
     (let qualified_prefix = module_text @ delimiter
      in case first_in_module index (ci_exact_map index name) qualified_prefix of
           Some i \<Rightarrow> Some i
         | None \<Rightarrow> first_in_module index (ci_suffix_map_ascii_lower index name_ascii_lower) qualified_prefix)"

definition find_global_unique_readonly :: "CandidateIndex \<Rightarrow> string \<Rightarrow> string \<Rightarrow> int option" where
  "find_global_unique_readonly index name name_ascii_lower =
     (case ci_exact_map index name of
        Some exact \<Rightarrow> if length exact = 1 then Some (cn_id (ci_nodes index ! hd exact)) else None
      | None \<Rightarrow>
          (case ci_suffix_map_ascii_lower index name_ascii_lower of
             Some tails \<Rightarrow> if length tails = 1 then Some (cn_id (ci_nodes index ! hd tails)) else None
           | None \<Rightarrow> None))"

definition find_global_unique_exact_readonly :: "CandidateIndex \<Rightarrow> string \<Rightarrow> int option" where
  "find_global_unique_exact_readonly index name =
     (case ci_exact_map index name of
        Some exact \<Rightarrow> if length exact = 1 then Some (cn_id (ci_nodes index ! hd exact)) else None
      | None \<Rightarrow> None)"

definition find_fuzzy_readonly :: "CandidateIndex \<Rightarrow> string \<Rightarrow> string \<Rightarrow> int option" where
  "find_fuzzy_readonly index name name_ascii_lower =
     (let fuzzy = map_option cn_id
            (find (\<lambda>n. contains_str (cn_serialized_name_ascii_lower n) name_ascii_lower) (ci_nodes index));
          by_suffix = (case ci_suffix_map_ascii_lower index name_ascii_lower of
             Some (i # _) \<Rightarrow> Some (cn_id (ci_nodes index ! i)) | _ \<Rightarrow> fuzzy)
      in case ci_exact_map index name of
           Some (i # _) \<Rightarrow> Some (cn_id (ci_nodes index ! i)) | _ \<Rightarrow> by_suffix)"

fun push_until_full :: "nat \<Rightarrow> int list \<Rightarrow> int list \<Rightarrow> int list" where
  "push_until_full limit out [] = out"
| "push_until_full limit out (c # cs) =
     (let out' = (if List.member out c then out else out @ [c])
      in if length out' \<ge> limit then out' else push_until_full limit out' cs)"

definition top_matches_readonly :: "CandidateIndex \<Rightarrow> string \<Rightarrow> string \<Rightarrow> nat \<Rightarrow> int list" where
  "top_matches_readonly index name name_ascii_lower limit =
     (let ident = (\<lambda>i. cn_id (ci_nodes index ! i));
          out = (case ci_exact_map index name of
             Some exact \<Rightarrow> fold (\<lambda>c out. if List.member out c then out else out @ [c]) (map ident (take limit exact)) []
           | None \<Rightarrow> [])
      in if length out < limit then
           (case ci_suffix_map_ascii_lower index name_ascii_lower of
              Some tails \<Rightarrow> push_until_full limit out (map ident tails) | None \<Rightarrow> out)
         else out)"

definition is_same_file_candidate :: "CandidateIndex \<Rightarrow> int \<Rightarrow> int option \<Rightarrow> bool" where
  "is_same_file_candidate index candidate_id caller_file_id =
     (case caller_file_id of None \<Rightarrow> False
      | Some file_id \<Rightarrow>
          (case ci_node_offset_by_id index candidate_id of
             Some offset \<Rightarrow> offset < length (ci_nodes index)
               \<and> cn_file_node_id (ci_nodes index ! offset) = Some file_id
           | None \<Rightarrow> False))"

section \<open>Lookups of imported members\<close>

definition first_matching_name_in_offsets :: "CandidateIndex \<Rightarrow> nat list \<Rightarrow> string \<Rightarrow> string \<Rightarrow> int option" where
  "first_matching_name_in_offsets index offsets name name_ascii_lower =
     first_offset (ci_relative_import_nodes index) (Some offsets)
       (\<lambda>n. cn_serialized_name n = name \<or> cn_serialized_name_ascii_lower n = name_ascii_lower
          \<or> map_option to_ascii_lowercase (tail_component (cn_serialized_name n)) = Some name_ascii_lower
          \<or> map_option to_ascii_lowercase (Option.bind (cn_qualified_name n) tail_component) = Some name_ascii_lower)"

fun first_in_paths :: "CandidateIndex \<Rightarrow> string \<Rightarrow> string \<Rightarrow> string list \<Rightarrow> int option" where
  "first_in_paths index name name_ascii_lower [] = None"
| "first_in_paths index name name_ascii_lower (path # paths) =
     (case ci_relative_file_path_map index path of
        None \<Rightarrow> first_in_paths index name name_ascii_lower paths
      | Some offsets \<Rightarrow>
          (case first_matching_name_in_offsets index offsets name name_ascii_lower of
             Some i \<Rightarrow> Some i | None \<Rightarrow> first_in_paths index name name_ascii_lower paths))"

definition find_relative_import_readonly ::
  "CandidateIndex \<Rightarrow> string option \<Rightarrow> string \<Rightarrow> string \<Rightarrow> string \<Rightarrow> int option" where
  "find_relative_import_readonly index caller_file_path module_name imported_name imported_name_ascii_lower =
     (case caller_file_path of None \<Rightarrow> None
      | Some caller \<Rightarrow>
          let candidates = relative_import_path_candidates caller module_name
          in if candidates = [] then None
             else if normalize_resolution_path caller = None then None
             else if normalize_import_module_name module_name = None then None
             else first_in_paths index imported_name imported_name_ascii_lower candidates)"

definition candidate_names :: "CandidateNode \<Rightarrow> string list" where
  "candidate_names node = cn_serialized_name node # (case cn_qualified_name node of Some q \<Rightarrow> [q] | None \<Rightarrow> [])"

definition owner_member_candidate_matches :: "CandidateNode \<Rightarrow> string \<Rightarrow> string \<Rightarrow> bool" where
  "owner_member_candidate_matches node owner_name method_name \<longleftrightarrow>
     list_ex (\<lambda>name. case split_owner_member_name name of None \<Rightarrow> False
        | Some (owner, member) \<Rightarrow>
            member = method_name \<and> last_nonempty_piece (\<lambda>c. c = CHR ''.'' \<or> c = CHR '':'') owner = owner_name)
       (candidate_names node)"

definition member_candidate_matches :: "CandidateNode \<Rightarrow> string \<Rightarrow> bool" where
  "member_candidate_matches node method_name \<longleftrightarrow>
     list_ex (\<lambda>name. (case split_owner_member_name name of None \<Rightarrow> False | Some (_, member) \<Rightarrow> member = method_name)
        \<or> name = method_name) (candidate_names node)"

text \<open>The offsets under several keys, sorted and without duplicates.\<close>

definition offsets_under ::
  "CandidateIndex \<Rightarrow> string list \<Rightarrow> string list \<Rightarrow> nat list" where
  "offsets_under index exact_keys suffix_keys =
     remdups_adj (sort
       (concat (map (\<lambda>k. case ci_exact_map index k of Some os \<Rightarrow> os | None \<Rightarrow> []) exact_keys)
        @ concat (map (\<lambda>k. case ci_suffix_map_ascii_lower index k of Some os \<Rightarrow> os | None \<Rightarrow> []) suffix_keys)))"

definition nodes_at :: "CandidateIndex \<Rightarrow> nat list \<Rightarrow> CandidateNode list" where
  "nodes_at index offsets =
     List.map_filter (\<lambda>i. if i < length (ci_nodes index) then Some (ci_nodes index ! i) else None) offsets"

definition unique_id :: "int list \<Rightarrow> int option" where
  "unique_id ids = (case remdups_adj (sort ids) of [i] \<Rightarrow> Some i | _ \<Rightarrow> None)"

definition owner_method_nodes :: "CandidateIndex \<Rightarrow> string \<Rightarrow> string \<Rightarrow> CandidateNode list" where
  "owner_method_nodes index owner_name method_name =
     (let owner_qualified_name = owner_name @ ''.'' @ method_name
      in filter (\<lambda>n. owner_member_candidate_matches n owner_name method_name)
           (nodes_at index (offsets_under index [owner_qualified_name]
              [to_ascii_lowercase method_name, to_ascii_lowercase owner_qualified_name])))"

definition path_is_candidate :: "string list \<Rightarrow> CandidateNode \<Rightarrow> bool" where
  "path_is_candidate path_candidates node =
     (case cn_normalized_file_path node of None \<Rightarrow> False
      | Some path \<Rightarrow> list_ex (\<lambda>candidate. path = candidate \<or> ends_with path (''/'' @ candidate)) path_candidates)"

definition find_path_imported_owner_member_exact_readonly ::
  "CandidateIndex \<Rightarrow> string list \<Rightarrow> string \<Rightarrow> string \<Rightarrow> int option" where
  "find_path_imported_owner_member_exact_readonly index path_candidates owner_name method_name =
     unique_id (map cn_id (filter (path_is_candidate path_candidates) (owner_method_nodes index owner_name method_name)))"

definition find_unique_imported_member_by_path :: "CandidateIndex \<Rightarrow> string list \<Rightarrow> string \<Rightarrow> int option" where
  "find_unique_imported_member_by_path index path_candidates method_name =
     unique_id (map cn_id (filter (path_is_candidate path_candidates)
       (filter (\<lambda>n. member_candidate_matches n method_name)
         (nodes_at index (case ci_suffix_map_ascii_lower index (to_ascii_lowercase method_name) of
            Some os \<Rightarrow> os | None \<Rightarrow> [])))))"

definition find_path_imported_owner_member_readonly ::
  "CandidateIndex \<Rightarrow> string list \<Rightarrow> string \<Rightarrow> string \<Rightarrow> int option" where
  "find_path_imported_owner_member_readonly index path_candidates owner_name method_name =
     (case find_path_imported_owner_member_exact_readonly index path_candidates owner_name method_name of
        Some i \<Rightarrow> Some i
      | None \<Rightarrow> find_unique_imported_member_by_path index path_candidates method_name)"

definition find_by_import_paths ::
  "(CandidateIndex \<Rightarrow> string list \<Rightarrow> string \<Rightarrow> string \<Rightarrow> int option) \<Rightarrow> CandidateIndex \<Rightarrow>
     (string \<Rightarrow> string \<Rightarrow> string list) \<Rightarrow> string option \<Rightarrow> string \<Rightarrow> string \<Rightarrow> string \<Rightarrow> int option" where
  "find_by_import_paths find_member index path_candidates caller_file_path module_name owner_name method_name =
     (case caller_file_path of None \<Rightarrow> None
      | Some caller \<Rightarrow>
          let candidates = path_candidates caller module_name
          in if candidates = [] then None else find_member index candidates owner_name method_name)"

definition find_python_imported_owner_member_readonly ::
  "CandidateIndex \<Rightarrow> string option \<Rightarrow> string \<Rightarrow> string \<Rightarrow> string \<Rightarrow> int option" where
  "find_python_imported_owner_member_readonly index =
     find_by_import_paths find_path_imported_owner_member_readonly index python_import_path_candidates"

definition find_typescript_imported_owner_member_readonly ::
  "CandidateIndex \<Rightarrow> string option \<Rightarrow> string \<Rightarrow> string \<Rightarrow> string \<Rightarrow> int option" where
  "find_typescript_imported_owner_member_readonly index =
     find_by_import_paths find_path_imported_owner_member_readonly index typescript_relative_import_path_candidates"

definition find_ruby_imported_owner_member_readonly ::
  "CandidateIndex \<Rightarrow> string option \<Rightarrow> string \<Rightarrow> string \<Rightarrow> string \<Rightarrow> int option" where
  "find_ruby_imported_owner_member_readonly index =
     find_by_import_paths find_path_imported_owner_member_exact_readonly index ruby_require_relative_path_candidates"

definition find_dart_imported_owner_member_readonly ::
  "CandidateIndex \<Rightarrow> string option \<Rightarrow> string \<Rightarrow> string \<Rightarrow> string \<Rightarrow> int option" where
  "find_dart_imported_owner_member_readonly index =
     find_by_import_paths find_path_imported_owner_member_readonly index relative_import_path_candidates"

definition find_qualified_imported_owner_member_readonly ::
  "CandidateIndex \<Rightarrow> string \<Rightarrow> string \<Rightarrow> string \<Rightarrow> int option" where
  "find_qualified_imported_owner_member_readonly index module_name owner_name method_name =
     (let imported_owner = trim module_name
      in if imported_owner = [] \<or> contains_str imported_owner ''*'' \<or> contains_str imported_owner ''|'' then None
         else
           let imported_member = imported_owner @ ''.'' @ method_name;
               owner_qualified_name = owner_name @ ''.'' @ method_name;
               offsets = offsets_under index [owner_qualified_name, imported_member]
                 [to_ascii_lowercase method_name, to_ascii_lowercase owner_qualified_name, to_ascii_lowercase imported_member]
           in unique_id (map cn_id (filter (\<lambda>n. cn_qualified_name n = Some imported_member)
                (filter (\<lambda>n. owner_member_candidate_matches n owner_name method_name) (nodes_at index offsets)))))"

definition find_swift_imported_owner_member_readonly ::
  "CandidateIndex \<Rightarrow> string option \<Rightarrow> string \<Rightarrow> string \<Rightarrow> string \<Rightarrow> int option" where
  "find_swift_imported_owner_member_readonly index caller_file_path module_name owner_name method_name =
     (case caller_file_path of None \<Rightarrow> None
      | Some caller \<Rightarrow>
          (case normalize_import_module_name module_name of None \<Rightarrow> None
           | Some m \<Rightarrow>
               unique_id (map cn_id (filter (\<lambda>n. case cn_normalized_file_path n of None \<Rightarrow> False
                   | Some path \<Rightarrow> swift_imported_module_path_matches path caller m)
                 (owner_method_nodes index owner_name method_name)))))"

definition go_scored_nodes :: "CandidateIndex \<Rightarrow> string \<Rightarrow> string \<Rightarrow> string \<Rightarrow> (int \<times> nat) list" where
  "go_scored_nodes index module_name owner_name method_name =
     List.map_filter (\<lambda>n. case cn_normalized_file_path n of None \<Rightarrow> None
         | Some path \<Rightarrow> map_option (Pair (cn_id n)) (go_import_path_match_score path module_name))
       (owner_method_nodes index owner_name method_name)"

definition find_go_imported_owner_member_readonly ::
  "CandidateIndex \<Rightarrow> string \<Rightarrow> string \<Rightarrow> string \<Rightarrow> int option" where
  "find_go_imported_owner_member_readonly index module_name owner_name method_name =
     (let matches = go_scored_nodes index module_name owner_name method_name
      in if matches = [] then None
         else let max_score = fold max (map snd matches) 0
              in unique_id (map fst (filter (\<lambda>(_, score). score = max_score) matches)))"

definition find_imported_owner_member_readonly ::
  "CandidateIndex \<Rightarrow> string option \<Rightarrow> string \<Rightarrow> string \<Rightarrow> string \<Rightarrow> int option" where
  "find_imported_owner_member_readonly index caller_file_path module_name owner_name method_name =
     (case detect_resolver_language caller_file_path of None \<Rightarrow> None
      | Some language \<Rightarrow>
          if language = ''python'' then
            find_python_imported_owner_member_readonly index caller_file_path module_name owner_name method_name
          else if language = ''go'' then find_go_imported_owner_member_readonly index module_name owner_name method_name
          else if language = ''javascript'' \<or> language = ''typescript'' then
            find_typescript_imported_owner_member_readonly index caller_file_path module_name owner_name method_name
          else if language = ''csharp'' \<or> language = ''java'' \<or> language = ''kotlin'' \<or> language = ''php'' then
            find_qualified_imported_owner_member_readonly index module_name owner_name method_name
          else if language = ''swift'' then
            find_swift_imported_owner_member_readonly index caller_file_path module_name owner_name method_name
          else if language = ''ruby'' then
            find_ruby_imported_owner_member_readonly index caller_file_path module_name owner_name method_name
          else if language = ''dart'' then
            find_dart_imported_owner_member_readonly index caller_file_path module_name owner_name method_name
          else None)"

definition owner_member_candidate_offsets :: "CandidateIndex \<Rightarrow> string \<Rightarrow> string \<Rightarrow> nat list" where
  "owner_member_candidate_offsets index owner_name method_name =
     (let owner_dot_name = owner_name @ ''.'' @ method_name; owner_colon_name = owner_name @ ''::'' @ method_name
      in offsets_under index [method_name, owner_dot_name, owner_colon_name]
           [to_ascii_lowercase method_name, to_ascii_lowercase owner_dot_name, to_ascii_lowercase owner_colon_name])"

text \<open>The loop of the alias lookup, which stops at the second distinct match.\<close>

fun alias_loop :: "(CandidateNode \<Rightarrow> bool) \<Rightarrow> int option \<Rightarrow> CandidateNode list \<Rightarrow> int option" where
  "alias_loop p selected [] = selected"
| "alias_loop p selected (n # ns) =
     (if \<not> p n then alias_loop p selected ns
      else if (case selected of Some i \<Rightarrow> i \<noteq> cn_id n | None \<Rightarrow> False) then None
      else alias_loop p (Some (cn_id n)) ns)"

definition find_global_unique_owner_alias_readonly :: "CandidateIndex \<Rightarrow> string \<Rightarrow> int option" where
  "find_global_unique_owner_alias_readonly index name =
     (case split_owner_member_name name of None \<Rightarrow> None
      | Some (requested_owner, requested_member) \<Rightarrow>
          alias_loop (\<lambda>n. case split_owner_member_name (cn_serialized_name n) of None \<Rightarrow> False
              | Some (candidate_owner, candidate_member) \<Rightarrow>
                  candidate_member = requested_member \<and> owner_alias_compatible requested_owner candidate_owner)
            None (nodes_at index (owner_member_candidate_offsets index requested_owner requested_member)))"

section \<open>The maps are exact\<close>

text \<open>The offsets of the elements with a given key, in order, or no entry.\<close>

definition positions :: "('a \<Rightarrow> 'k option) \<Rightarrow> 'a list \<Rightarrow> 'k \<Rightarrow> nat list" where
  "positions f xs k = filter (\<lambda>i. f (xs ! i) = Some k) [0..<length xs]"

definition grouped :: "('a \<Rightarrow> 'k option) \<Rightarrow> 'a list \<Rightarrow> 'k \<Rightarrow> nat list option" where
  "grouped f xs k = (if positions f xs k = [] then None else Some (positions f xs k))"

lemma positions_snoc:
  "positions f (xs @ [x]) k = positions f xs k @ (if f x = Some k then [length xs] else [])"
proof -
  have "filter (\<lambda>i. f ((xs @ [x]) ! i) = Some k) [0..<length xs] = positions f xs k"
    unfolding positions_def by (rule filter_cong) (auto simp: nth_append)
  then show ?thesis by (simp add: positions_def)
qed

lemma entry_push_opt_grouped:
  "entry_push_opt (f x) (length xs) (grouped f xs) = grouped f (xs @ [x])"
  by (auto simp: entry_push_opt_def entry_push_def grouped_def positions_snoc fun_eq_iff split: option.splits)

text \<open>A record field filled by one \<^verbatim>\<open>entry_push_opt\<close> per element ends as the grouping.\<close>

lemma fold_enumerate_field:
  assumes "\<And>i x r. field (step (i, x) r) = entry_push_opt (f x) i (field r)"
    and "field r0 = Map.empty"
  shows "field (fold step (enumerate 0 xs) r0) = grouped f xs"
proof (induction xs rule: rev_induct)
  case Nil
  then show ?case using assms(2) by (auto simp: grouped_def positions_def)
next
  case (snoc x xs)
  then show ?case using assms(1) by (simp add: enumerate_append_eq entry_push_opt_grouped)
qed

lemma fold_keeps_field:
  assumes "\<And>e r. field (step e r) = field r"
  shows "field (fold step es r) = field r"
  using assms by (induction es arbitrary: r) simp_all

lemma entry_push_Some: "entry_push k v m = entry_push_opt (Some k) v m"
  by (simp add: entry_push_opt_def)

abbreviation name_tail :: "CandidateNode \<Rightarrow> string option" where
  "name_tail n \<equiv> map_option to_ascii_lowercase (tail_component (cn_serialized_name n))"

lemma relative_fold_keeps:
  "ci_nodes (fold index_relative_node es r) = ci_nodes r"
  "ci_relative_import_nodes (fold index_relative_node es r) = ci_relative_import_nodes r"
  "ci_import_binding_node_ids (fold index_relative_node es r) = ci_import_binding_node_ids r"
  "ci_node_offset_by_id (fold index_relative_node es r) = ci_node_offset_by_id r"
  "ci_exact_map (fold index_relative_node es r) = ci_exact_map r"
  "ci_suffix_map_ascii_lower (fold index_relative_node es r) = ci_suffix_map_ascii_lower r"
  "ci_file_path_map (fold index_relative_node es r) = ci_file_path_map r"
  by (rule fold_keeps_field; simp add: index_relative_node_def split: prod.split)+

lemma node_fold_keeps:
  "ci_nodes (fold index_node es r) = ci_nodes r"
  "ci_relative_import_nodes (fold index_node es r) = ci_relative_import_nodes r"
  "ci_import_binding_node_ids (fold index_node es r) = ci_import_binding_node_ids r"
  "ci_relative_file_path_map (fold index_node es r) = ci_relative_file_path_map r"
  by (rule fold_keeps_field; simp add: index_node_def split: prod.split)+

lemma node_fold_fills:
  "ci_exact_map r = Map.empty \<Longrightarrow>
     ci_exact_map (fold index_node (enumerate 0 nodes) r) = grouped (\<lambda>n. Some (cn_serialized_name n)) nodes"
  "ci_suffix_map_ascii_lower r = Map.empty \<Longrightarrow>
     ci_suffix_map_ascii_lower (fold index_node (enumerate 0 nodes) r) = grouped name_tail nodes"
  "ci_file_path_map r = Map.empty \<Longrightarrow>
     ci_file_path_map (fold index_node (enumerate 0 nodes) r) = grouped cn_normalized_file_path nodes"
  "ci_relative_file_path_map r = Map.empty \<Longrightarrow>
     ci_relative_file_path_map (fold index_relative_node (enumerate 0 nodes) r) = grouped cn_normalized_file_path nodes"
  by (rule fold_enumerate_field; simp add: index_node_def index_relative_node_def entry_push_Some)+

lemma index_fields [simp]:
  "ci_nodes (from_primary_relative_and_import_bindings nodes rel ids) = nodes"
  "ci_relative_import_nodes (from_primary_relative_and_import_bindings nodes rel ids) = (if rel = [] then nodes else rel)"
  "ci_import_binding_node_ids (from_primary_relative_and_import_bindings nodes rel ids) = ids"
  "ci_exact_map (from_primary_relative_and_import_bindings nodes rel ids) = grouped (\<lambda>n. Some (cn_serialized_name n)) nodes"
  "ci_suffix_map_ascii_lower (from_primary_relative_and_import_bindings nodes rel ids) = grouped name_tail nodes"
  "ci_file_path_map (from_primary_relative_and_import_bindings nodes rel ids) = grouped cn_normalized_file_path nodes"
  "ci_relative_file_path_map (from_primary_relative_and_import_bindings nodes rel ids)
     = grouped cn_normalized_file_path (if rel = [] then nodes else rel)"
  unfolding from_primary_relative_and_import_bindings_def Let_def
  by (simp_all add: relative_fold_keeps node_fold_keeps node_fold_fills)

lemma index_offset_by_id:
  "ci_node_offset_by_id (from_primary_relative_and_import_bindings nodes rel ids) i =
     (case rev (positions (\<lambda>n. Some (cn_id n)) nodes i) of [] \<Rightarrow> None | o1 # _ \<Rightarrow> Some o1)"
proof -
  let ?r0 = "\<lparr>ci_nodes = nodes, ci_relative_import_nodes = (if rel = [] then nodes else rel),
      ci_import_binding_node_ids = ids, ci_node_offset_by_id = Map.empty,
      ci_exact_map = Map.empty, ci_suffix_map_ascii_lower = Map.empty, ci_file_path_map = Map.empty,
      ci_relative_file_path_map = Map.empty\<rparr>"
  have "ci_node_offset_by_id (fold index_node (enumerate 0 xs) ?r0) =
      (\<lambda>i. case rev (positions (\<lambda>n. Some (cn_id n)) xs i) of [] \<Rightarrow> None | o1 # _ \<Rightarrow> Some o1)" for xs
    by (induction xs rule: rev_induct)
      (auto simp: positions_snoc enumerate_append_eq index_node_def fun_eq_iff, simp add: positions_def)
  then show ?thesis
    unfolding from_primary_relative_and_import_bindings_def Let_def
    by (simp add: relative_fold_keeps)
qed

text \<open>Offsets in the maps are in range.\<close>

lemma offsets_in_range: "grouped f xs k = Some os \<Longrightarrow> i \<in> set os \<Longrightarrow> i < length xs \<and> f (xs ! i) = Some k"
  by (auto simp: grouped_def positions_def split: if_splits)

lemma map_positions: "map ((!) xs) (positions f xs k) = filter (\<lambda>x. f x = Some k) xs"
proof (induction xs rule: rev_induct)
  case (snoc x xs)
  have "map ((!) (xs @ [x])) (positions f xs k) = map ((!) xs) (positions f xs k)"
    by (rule map_cong) (auto simp: positions_def nth_append)
  with snoc show ?case by (simp add: positions_snoc)
qed (simp add: positions_def)

lemma find_map: "map_option g (find (\<lambda>x. p (g x)) xs) = find p (map g xs)"
  by (induction xs) auto

lemma find_filter: "find p (filter q xs) = find (\<lambda>x. q x \<and> p x) xs"
  by (induction xs) auto

lemma first_offset_grouped:
  "first_offset nodes (grouped f nodes k) p = map_option cn_id (find (\<lambda>n. f n = Some k \<and> p n) nodes)"
proof -
  have "map_option (\<lambda>i. cn_id (nodes ! i)) (find (\<lambda>i. p (nodes ! i)) (positions f nodes k))
      = map_option cn_id (find p (map ((!) nodes) (positions f nodes k)))"
    by (simp add: find_map [symmetric] option.map_comp comp_def)
  also have "\<dots> = map_option cn_id (find (\<lambda>n. f n = Some k \<and> p n) nodes)"
    by (simp only: map_positions find_filter)
  finally show ?thesis
    by (cases "positions f nodes k = []") (simp_all add: first_offset_def grouped_def)
qed

text \<open>The only element of a list, if there is one.\<close>

fun the_only :: "'a list \<Rightarrow> 'a option" where
  "the_only [x] = Some x"
| "the_only xs = None"

lemma grouped_cases:
  "grouped f nodes k = (if filter (\<lambda>n. f n = Some k) nodes = [] then None else Some (positions f nodes k))"
  "positions f nodes k = [] \<longleftrightarrow> filter (\<lambda>n. f n = Some k) nodes = []"
  "length (positions f nodes k) = length (filter (\<lambda>n. f n = Some k) nodes)"
  "positions f nodes k = i # is \<Longrightarrow> filter (\<lambda>n. f n = Some k) nodes = nodes ! i # map ((!) nodes) is"
proof -
  note m = map_positions [of nodes f k]
  show len: "length (positions f nodes k) = length (filter (\<lambda>n. f n = Some k) nodes)"
    by (metis m length_map)
  show "positions f nodes k = [] \<longleftrightarrow> filter (\<lambda>n. f n = Some k) nodes = []"
    by (metis m Nil_is_map_conv)
  then show "grouped f nodes k = (if filter (\<lambda>n. f n = Some k) nodes = [] then None else Some (positions f nodes k))"
    by (simp add: grouped_def)
  show "filter (\<lambda>n. f n = Some k) nodes = nodes ! i # map ((!) nodes) is" if "positions f nodes k = i # is"
    using m that by simp
qed

lemma unique_grouped:
  "(case grouped f nodes k of
      Some os \<Rightarrow> if length os = 1 then Some (cn_id (nodes ! hd os)) else None | None \<Rightarrow> d)
   = (if filter (\<lambda>n. f n = Some k) nodes = [] then d
      else map_option cn_id (the_only (filter (\<lambda>n. f n = Some k) nodes)))"
proof (cases "positions f nodes k")
  case Nil
  then have "filter (\<lambda>n. f n = Some k) nodes = []" by (simp only: grouped_cases(2))
  then show ?thesis by (simp add: grouped_cases(1))
next
  case (Cons i "is")
  then have "grouped f nodes k = Some (i # is)" by (simp add: grouped_def)
  moreover note grouped_cases(4) [OF Cons]
  ultimately show ?thesis by (cases "is") simp_all
qed

definition or_else :: "'a option \<Rightarrow> 'a option \<Rightarrow> 'a option" where
  "or_else x y = (case x of Some _ \<Rightarrow> x | None \<Rightarrow> y)"

lemma or_else_case: "(case x of None \<Rightarrow> y | Some i \<Rightarrow> Some i) = or_else x y"
  by (cases x) (simp_all add: or_else_def)

definition in_module :: "string \<Rightarrow> CandidateNode \<Rightarrow> bool" where
  "in_module prefix_text n \<longleftrightarrow> (case cn_qualified_name n of Some q \<Rightarrow> starts_with q prefix_text | None \<Rightarrow> False)"

lemma find_hd_filter: "find p xs = (case filter p xs of [] \<Rightarrow> None | x # _ \<Rightarrow> Some x)"
  by (induction xs) auto

lemma first_grouped:
  "(case grouped f nodes k of Some (i # _) \<Rightarrow> Some (cn_id (nodes ! i)) | _ \<Rightarrow> d)
   = or_else (map_option cn_id (find (\<lambda>n. f n = Some k) nodes)) d"
proof (cases "positions f nodes k")
  case Nil
  then have "filter (\<lambda>n. f n = Some k) nodes = []" by (simp only: grouped_cases(2))
  then show ?thesis by (simp add: grouped_cases(1) or_else_def find_hd_filter)
next
  case (Cons i "is")
  then have "grouped f nodes k = Some (i # is)" by (simp add: grouped_def)
  with grouped_cases(4) [OF Cons] show ?thesis by (simp add: or_else_def find_hd_filter)
qed

text \<open>C25: the hash maps of the candidate index change nothing but the cost of a lookup: searching the
  caller's file or module returns the first node, in index order, with the exact name there and
  otherwise the first whose last name component agrees up to case; the unique lookups return a
  node just when it is the only one with the exact name or, where no node has that name, the only
  one with the component; the fuzzy lookup falls through to the first node containing the name.\<close>

theorem index_lookups_are_scans:
  "let index = from_primary_relative_and_import_bindings nodes rel ids in
    find_same_file_readonly index (Some file) name lower =
      or_else (map_option cn_id (find (\<lambda>n. cn_serialized_name n = name \<and> cn_file_node_id n = Some file) nodes))
        (map_option cn_id (find (\<lambda>n. name_tail n = Some lower \<and> cn_file_node_id n = Some file) nodes))
    \<and> find_same_module_readonly index module_text delimiter name lower =
      or_else (map_option cn_id (find (\<lambda>n. cn_serialized_name n = name \<and> in_module (module_text @ delimiter) n) nodes))
        (map_option cn_id (find (\<lambda>n. name_tail n = Some lower \<and> in_module (module_text @ delimiter) n) nodes))
    \<and> find_global_unique_exact_readonly index name =
      map_option cn_id (the_only (filter (\<lambda>n. cn_serialized_name n = name) nodes))
    \<and> find_global_unique_readonly index name lower =
      map_option cn_id (the_only (if filter (\<lambda>n. cn_serialized_name n = name) nodes = []
        then filter (\<lambda>n. name_tail n = Some lower) nodes else filter (\<lambda>n. cn_serialized_name n = name) nodes))
    \<and> find_fuzzy_readonly index name lower =
      or_else (map_option cn_id (find (\<lambda>n. cn_serialized_name n = name) nodes))
        (or_else (map_option cn_id (find (\<lambda>n. name_tail n = Some lower) nodes))
          (map_option cn_id (find (\<lambda>n. contains_str (cn_serialized_name_ascii_lower n) lower) nodes)))"
proof -
  let ?index = "from_primary_relative_and_import_bindings nodes rel ids"
  note exact = unique_grouped [where f = "\<lambda>n. Some (cn_serialized_name n)" and k = name]
    and tails = unique_grouped [where f = name_tail and k = lower]
  have "find_global_unique_exact_readonly ?index name =
      map_option cn_id (the_only (filter (\<lambda>n. cn_serialized_name n = name) nodes))"
    unfolding find_global_unique_exact_readonly_def index_fields exact by simp
  moreover have "find_global_unique_readonly ?index name lower =
      map_option cn_id (the_only (if filter (\<lambda>n. cn_serialized_name n = name) nodes = []
        then filter (\<lambda>n. name_tail n = Some lower) nodes else filter (\<lambda>n. cn_serialized_name n = name) nodes))"
    unfolding find_global_unique_readonly_def index_fields exact tails by simp
  moreover have "find_fuzzy_readonly ?index name lower =
      or_else (map_option cn_id (find (\<lambda>n. cn_serialized_name n = name) nodes))
        (or_else (map_option cn_id (find (\<lambda>n. name_tail n = Some lower) nodes))
          (map_option cn_id (find (\<lambda>n. contains_str (cn_serialized_name_ascii_lower n) lower) nodes)))"
    unfolding find_fuzzy_readonly_def Let_def index_fields first_grouped by simp
  ultimately show ?thesis
    unfolding find_same_file_readonly_def find_same_module_readonly_def first_in_file_def first_in_module_def
      Let_def index_fields first_offset_grouped or_else_case in_module_def by simp
qed

section \<open>Imported members are unambiguous\<close>

lemma distinct_remdups_adj: "sorted xs \<Longrightarrow> distinct (remdups_adj xs)"
  by (induction xs rule: remdups_adj.induct) (auto simp: less_le)

lemma unique_id_Some: "unique_id ids = Some i \<longleftrightarrow> set ids = {i}"
proof -
  have d: "distinct (remdups_adj (sort ids))" and s: "set (remdups_adj (sort ids)) = set ids"
    by (simp_all add: distinct_remdups_adj)
  have "remdups_adj (sort ids) = [i]" if "set ids = {i}"
  proof -
    have "length (remdups_adj (sort ids)) = 1"
      using distinct_card [OF d] s that by simp
    then obtain j where j: "remdups_adj (sort ids) = [j]" by (auto simp: length_Suc_conv)
    with s that have "j = i" by simp
    with j show ?thesis by simp
  qed
  moreover have "set ids = {i}" if "remdups_adj (sort ids) = [i]"
    using s that by simp
  moreover have "unique_id ids = Some i \<longleftrightarrow> remdups_adj (sort ids) = [i]"
    by (auto simp: unique_id_def split: list.split)
  ultimately show ?thesis by blast
qed

lemma set_positions: "set (map ((!) xs) (positions f xs k)) = {x \<in> set xs. f x = Some k}"
  by (auto simp only: map_positions set_filter)

lemma set_grouped_nodes:
  "(!) nodes ` set (case grouped f nodes k of Some os \<Rightarrow> os | None \<Rightarrow> []) = {n \<in> set nodes. f n = Some k}"
  using set_positions [of nodes f k] by (auto simp: grouped_def)

lemma set_nodes_at:
  "(\<And>i. i \<in> set os \<Longrightarrow> i < length (ci_nodes index)) \<Longrightarrow> set (nodes_at index os) = (!) (ci_nodes index) ` set os"
  by (auto simp: nodes_at_def map_filter_def)

lemma set_offsets_under:
  "set (offsets_under index exact_keys suffix_keys) =
     (\<Union>k \<in> set exact_keys. set (case ci_exact_map index k of Some os \<Rightarrow> os | None \<Rightarrow> []))
     \<union> (\<Union>k \<in> set suffix_keys. set (case ci_suffix_map_ascii_lower index k of Some os \<Rightarrow> os | None \<Rightarrow> []))"
  by (simp add: offsets_under_def)

text \<open>The nodes an index files under any of some exact names or last components.\<close>

lemma grouped_in_range:
  "i \<in> set (case grouped f nodes k of Some os \<Rightarrow> os | None \<Rightarrow> []) \<Longrightarrow> i < length nodes"
  using offsets_in_range [of f nodes k] by (cases "grouped f nodes k") simp_all

lemma offsets_under_in_range:
  fixes nodes rel ids
  defines "index \<equiv> from_primary_relative_and_import_bindings nodes rel ids"
  shows "i \<in> set (offsets_under index exact_keys suffix_keys) \<Longrightarrow> i < length nodes"
  unfolding set_offsets_under index_def index_fields by (elim UnE UN_E) (rule grouped_in_range, assumption)+

lemma set_nodes_under:
  fixes nodes rel ids
  defines "index \<equiv> from_primary_relative_and_import_bindings nodes rel ids"
  shows "set (nodes_at index (offsets_under index exact_keys suffix_keys)) =
    {n \<in> set nodes. cn_serialized_name n \<in> set exact_keys \<or> name_tail n \<in> Some ` set suffix_keys}"
proof -
  have "set (nodes_at index (offsets_under index exact_keys suffix_keys)) =
      (!) nodes ` set (offsets_under index exact_keys suffix_keys)"
    by (subst set_nodes_at) (simp_all add: index_def offsets_under_in_range)
  also have "\<dots> = (\<Union>k \<in> set exact_keys. {n \<in> set nodes. Some (cn_serialized_name n) = Some k})
      \<union> (\<Union>k \<in> set suffix_keys. {n \<in> set nodes. name_tail n = Some k})"
    unfolding set_offsets_under index_def index_fields image_Un image_UN set_grouped_nodes ..
  finally show ?thesis by auto
qed

lemma alias_loop_Some:
  "alias_loop p selected ns = Some i \<longleftrightarrow>
     (case selected of None \<Rightarrow> {} | Some j \<Rightarrow> {j}) \<union> cn_id ` {n \<in> set ns. p n} = {i}"
  by (induction p selected ns rule: alias_loop.induct) (auto split: option.splits if_splits)

definition member_of_owner :: "string \<Rightarrow> string \<Rightarrow> CandidateNode \<Rightarrow> bool" where
  "member_of_owner owner method n \<longleftrightarrow> owner_member_candidate_matches n owner method
     \<and> (cn_serialized_name n = owner @ ''.'' @ method
        \<or> name_tail n \<in> {Some (to_ascii_lowercase method), Some (to_ascii_lowercase (owner @ ''.'' @ method))})"

lemma set_owner_method_nodes:
  "set (owner_method_nodes (from_primary_relative_and_import_bindings nodes rel ids) owner method) =
     {n \<in> set nodes. member_of_owner owner method n}"
  by (auto simp: owner_method_nodes_def Let_def set_nodes_under member_of_owner_def)

definition alias_of :: "string \<Rightarrow> string \<Rightarrow> CandidateNode \<Rightarrow> bool" where
  "alias_of owner member n \<longleftrightarrow>
     (case split_owner_member_name (cn_serialized_name n) of None \<Rightarrow> False
      | Some (o', m') \<Rightarrow> m' = member \<and> owner_alias_compatible owner o')
     \<and> (cn_serialized_name n \<in> {member, owner @ ''.'' @ member, owner @ ''::'' @ member}
        \<or> name_tail n \<in> Some ` to_ascii_lowercase ` {member, owner @ ''.'' @ member, owner @ ''::'' @ member})"

text \<open>An imported receiver is resolved only when the index leaves no doubt: a lookup by import
  paths, by a Swift module, or by an alias of the owner returns a node id exactly when it is the id
  of every indexed member of that owner satisfying the import, and there is one; two different
  candidates, or none, leave the call unresolved.\<close>

theorem imported_members_unambiguous:
  "let index = from_primary_relative_and_import_bindings nodes rel ids in
    (find_path_imported_owner_member_exact_readonly index paths owner method = Some i
      \<longleftrightarrow> cn_id ` {n \<in> set nodes. member_of_owner owner method n \<and> path_is_candidate paths n} = {i})
    \<and> (find_swift_imported_owner_member_readonly index (Some caller) module_name owner method = Some i
      \<longleftrightarrow> (\<exists>m. normalize_import_module_name module_name = Some m
         \<and> cn_id ` {n \<in> set nodes. member_of_owner owner method n
             \<and> (\<exists>path. cn_normalized_file_path n = Some path \<and> swift_imported_module_path_matches path caller m)} = {i}))
    \<and> (find_global_unique_owner_alias_readonly index name = Some i
      \<longleftrightarrow> (\<exists>own mem. split_owner_member_name name = Some (own, mem)
         \<and> cn_id ` {n \<in> set nodes. alias_of own mem n} = {i}))"
proof -
  let ?index = "from_primary_relative_and_import_bindings nodes rel ids"
  have filtered: "unique_id (map cn_id (filter p (owner_method_nodes ?index owner method))) = Some i
      \<longleftrightarrow> cn_id ` {n \<in> set nodes. member_of_owner owner method n \<and> p n} = {i}" for p
  proof -
    have "set (filter p (owner_method_nodes ?index owner method)) = {n \<in> set nodes. member_of_owner owner method n \<and> p n}"
      unfolding set_filter set_owner_method_nodes by blast
    then show ?thesis by (simp add: unique_id_Some)
  qed
  have aliased: "alias_loop (\<lambda>n. case split_owner_member_name (cn_serialized_name n) of None \<Rightarrow> False
        | Some (o', m') \<Rightarrow> m' = mem \<and> owner_alias_compatible own o') None
        (nodes_at ?index (owner_member_candidate_offsets ?index own mem)) = Some i
      \<longleftrightarrow> cn_id ` {n \<in> set nodes. alias_of own mem n} = {i}" for own mem
  proof -
    have "{n \<in> set (nodes_at ?index (owner_member_candidate_offsets ?index own mem)).
        case split_owner_member_name (cn_serialized_name n) of None \<Rightarrow> False
        | Some (o', m') \<Rightarrow> m' = mem \<and> owner_alias_compatible own o'} = {n \<in> set nodes. alias_of own mem n}"
      unfolding owner_member_candidate_offsets_def Let_def set_nodes_under alias_of_def by auto
    then show ?thesis by (simp add: alias_loop_Some)
  qed
  have swift: "(case cn_normalized_file_path n of None \<Rightarrow> False | Some path \<Rightarrow> swift_imported_module_path_matches path caller m)
      \<longleftrightarrow> (\<exists>path. cn_normalized_file_path n = Some path \<and> swift_imported_module_path_matches path caller m)" for n m
    by (cases "cn_normalized_file_path n") simp_all
  show ?thesis
    unfolding Let_def find_path_imported_owner_member_exact_readonly_def
      find_swift_imported_owner_member_readonly_def find_global_unique_owner_alias_readonly_def swift filtered
    by (cases "normalize_import_module_name module_name"; cases "split_owner_member_name name")
      (simp_all add: filtered aliased swift split: prod.split)
qed

section \<open>The memo\<close>

text \<open>
  \<^verbatim>\<open>cached_lookup\<close> takes the read lock and returns a stored answer, or computes outside any
  lock and then takes the write lock to store with \<^verbatim>\<open>or_insert\<close>. Rows are resolved by a thread
  pool, so the steps of different lookups interleave: a task has started, has missed and computed,
  or has finished.
\<close>

datatype 'q lookup_task = Started 'q | Missed 'q "int option" | Finished 'q "int option"

definition memo_store :: "'k \<Rightarrow> int option \<Rightarrow> ('k \<rightharpoonup> int option) \<Rightarrow> ('k \<rightharpoonup> int option)" where
  "memo_store k resolved cache = (case cache k of Some _ \<Rightarrow> cache | None \<Rightarrow> cache(k \<mapsto> resolved))"

definition cached_lookup ::
  "('q \<Rightarrow> 'k) \<Rightarrow> ('q \<Rightarrow> int option) \<Rightarrow> 'q lookup_task \<Rightarrow> ('k \<rightharpoonup> int option) \<Rightarrow> ('k \<rightharpoonup> int option) \<times> 'q lookup_task" where
  "cached_lookup key compute task cache =
     (case task of
        Started q \<Rightarrow> (case cache (key q) of
            Some cached \<Rightarrow> (cache, Finished q cached) | None \<Rightarrow> (cache, Missed q (compute q)))
      | Missed q resolved \<Rightarrow> (memo_store (key q) resolved cache, Finished q resolved)
      | Finished q r \<Rightarrow> (cache, Finished q r))"

inductive memo_step ::
  "('q \<Rightarrow> 'k) \<Rightarrow> ('q \<Rightarrow> int option) \<Rightarrow> ('k \<rightharpoonup> int option) \<times> 'q lookup_task list \<Rightarrow>
     ('k \<rightharpoonup> int option) \<times> 'q lookup_task list \<Rightarrow> bool" for key compute where
  "i < length tasks \<Longrightarrow> cached_lookup key compute (tasks ! i) cache = (cache', task') \<Longrightarrow>
     memo_step key compute (cache, tasks) (cache', tasks[i := task'])"

inductive_cases memo_stepE: "memo_step key compute (cache, tasks) s"

text \<open>Every answer, in every interleaving from an empty memo, is what its query computes.\<close>

definition memo_transparent :: "('q \<Rightarrow> 'k) \<Rightarrow> ('q \<Rightarrow> int option) \<Rightarrow> bool" where
  "memo_transparent key compute \<longleftrightarrow>
     (\<forall>qs cache tasks. (memo_step key compute)\<^sup>*\<^sup>* (Map.empty, map Started qs) (cache, tasks) \<longrightarrow>
        (\<forall>q r. Finished q r \<in> set tasks \<longrightarrow> r = compute q))"

locale memo =
  fixes key :: "'q \<Rightarrow> 'k"
    and compute :: "'q \<Rightarrow> int option"
  assumes key_sound: "key q = key q' \<Longrightarrow> compute q = compute q'"
begin

definition memo_inv :: "('k \<rightharpoonup> int option) \<times> 'q lookup_task list \<Rightarrow> bool" where
  "memo_inv s \<longleftrightarrow> (\<forall>q r. fst s (key q) = Some r \<longrightarrow> r = compute q)
     \<and> (\<forall>q r. Missed q r \<in> set (snd s) \<or> Finished q r \<in> set (snd s) \<longrightarrow> r = compute q)"

lemma step_inv:
  assumes "memo_step key compute s s'" and inv: "memo_inv s"
  shows "memo_inv s'"
  using assms(1)
proof cases
  case (1 i tasks cache cache' task')
  have stored: "\<And>q r. cache (key q) = Some r \<Longrightarrow> r = compute q"
    and tasks: "\<And>q r. Missed q r \<in> set tasks \<or> Finished q r \<in> set tasks \<Longrightarrow> r = compute q"
    using inv 1(1) by (auto simp: memo_inv_def)
  have upd: "set (tasks[i := task']) \<subseteq> insert task' (set tasks)"
    by (rule set_update_subset_insert)
  have mem: "tasks ! i \<in> set tasks" using 1(3) by simp
  have "(\<forall>q r. cache' (key q) = Some r \<longrightarrow> r = compute q)
      \<and> (\<forall>q r. task' = Missed q r \<or> task' = Finished q r \<longrightarrow> r = compute q)"
  proof (cases "tasks ! i")
    case (Started q)
    with 1(4) stored show ?thesis by (auto simp: cached_lookup_def split: option.splits)
  next
    case (Missed q r)
    with mem tasks have "r = compute q" by metis
    with 1(4) Missed stored show ?thesis
      by (auto simp: cached_lookup_def memo_store_def split: option.splits if_splits intro: key_sound [OF sym])
  next
    case (Finished q r)
    with mem tasks have "r = compute q" by metis
    with 1(4) Finished stored show ?thesis by (auto simp: cached_lookup_def)
  qed
  with tasks upd show ?thesis
    unfolding memo_inv_def 1(2) fst_conv snd_conv by blast
qed

lemma transparent: "memo_transparent key compute"
proof -
  have "memo_inv s" if "(memo_step key compute)\<^sup>*\<^sup>* (Map.empty, map Started qs) s" for s qs
    using that
  proof (induction rule: rtranclp_induct)
    case base
    show ?case by (auto simp: memo_inv_def)
  qed (rule step_inv)
  then show ?thesis unfolding memo_transparent_def memo_inv_def by (metis snd_conv)
qed

end

lemma relative_import_cong:
  assumes "normalize_resolution_path a = normalize_resolution_path b"
    and "normalize_import_module_name m = normalize_import_module_name n"
  shows "find_relative_import_readonly index (Some a) m name lower = find_relative_import_readonly index (Some b) n name lower"
proof -
  have "relative_import_path_candidates a m = relative_import_path_candidates b n"
    by (simp only: relative_import_path_candidates_def assms)
  then show ?thesis by (simp only: find_relative_import_readonly_def option.case assms)
qed

text \<open>The seven memos with their keys: a query is the argument list of the lookup.\<close>

interpretation same_file_memo: memo "\<lambda>(file, name, lower). (file, name, lower)"
    "\<lambda>(file, name, lower). find_same_file_readonly index (Some file) name lower" for index
  by unfold_locales auto

interpretation same_module_memo: memo "\<lambda>(module_text, delimiter, name, lower). (module_text @ delimiter, name, lower)"
    "\<lambda>(module_text, delimiter, name, lower). find_same_module_readonly index module_text delimiter name lower" for index
  by unfold_locales (auto simp: find_same_module_readonly_def)

interpretation global_unique_memo: memo "\<lambda>(name, lower). (name, lower)"
    "\<lambda>(name, lower). find_global_unique_readonly index name lower" for index
  by unfold_locales auto

interpretation global_exact_memo: memo "\<lambda>(name, lower). (name, lower)"
    "\<lambda>(name, lower). find_global_unique_exact_readonly index name" for index
  by unfold_locales auto

interpretation owner_alias_memo: memo "\<lambda>(name, lower). (name, lower)"
    "\<lambda>(name, lower). find_global_unique_owner_alias_readonly index name" for index
  by unfold_locales auto

interpretation fuzzy_memo: memo "\<lambda>(name, lower). (name, lower)"
    "\<lambda>(name, lower). find_fuzzy_readonly index name lower" for index
  by unfold_locales auto

interpretation relative_import_memo: memo
    "\<lambda>(caller, module_name, name, lower).
       (normalize_resolution_path caller, normalize_import_module_name module_name, name, lower)"
    "\<lambda>(caller, module_name, name, lower). find_relative_import_readonly index (Some caller) module_name name lower" for index
  by unfold_locales (auto intro: relative_import_cong)

text \<open>C24: the lookup memos are invisible: however the lookups of concurrent rows interleave, each
  returns what its own closure computes, also where the key is coarser than the query, as for
  modules (prefix and delimiter joined) and relative imports (both paths normalized).\<close>

theorem lookup_memos_transparent:
  "memo_transparent (\<lambda>(file, name, lower). (file, name, lower))
     (\<lambda>(file, name, lower). find_same_file_readonly index (Some file) name lower)
   \<and> memo_transparent (\<lambda>(module_text, delimiter, name, lower). (module_text @ delimiter, name, lower))
     (\<lambda>(module_text, delimiter, name, lower). find_same_module_readonly index module_text delimiter name lower)
   \<and> memo_transparent (\<lambda>(name, lower). (name, lower)) (\<lambda>(name, lower). find_global_unique_readonly index name lower)
   \<and> memo_transparent (\<lambda>(name, lower). (name, lower :: string)) (\<lambda>(name, lower). find_global_unique_exact_readonly index name)
   \<and> memo_transparent (\<lambda>(name, lower). (name, lower :: string)) (\<lambda>(name, lower). find_global_unique_owner_alias_readonly index name)
   \<and> memo_transparent (\<lambda>(name, lower). (name, lower)) (\<lambda>(name, lower). find_fuzzy_readonly index name lower)
   \<and> memo_transparent
     (\<lambda>(caller, module_name, name, lower).
        (normalize_resolution_path caller, normalize_import_module_name module_name, name, lower))
     (\<lambda>(caller, module_name, name, lower). find_relative_import_readonly index (Some caller) module_name name lower)"
  by (intro conjI same_file_memo.transparent same_module_memo.transparent global_unique_memo.transparent
      global_exact_memo.transparent owner_alias_memo.transparent fuzzy_memo.transparent relative_import_memo.transparent)

end
