(* ===== verification/Semantic_Resolvers.thy ===== *)
theory Semantic_Resolvers
  imports Resolution_Names
begin

text \<open>
  The semantic fallback of the resolution pass (\<^verbatim>\<open>codestory-indexer/src/semantic\<close>): the index
  of candidate nodes by name and last name component, the search restricted to kinds and language
  families, and the resolvers of the twelve languages, which differ in how they read an imported
  name, in the kinds they accept and in their confidences. No resolver fails, so the
  \<^verbatim>\<open>Result\<close> they return is its \<^verbatim>\<open>Ok\<close> list here.
\<close>

section \<open>The semantic candidate index\<close>

record SemanticResolutionRequest =
  rq_edge_kind :: EdgeKind
  rq_file_id :: "int option"
  rq_file_path :: "string option"
  rq_target_name :: string

record SemanticResolutionCandidate =
  sc_target_node_id :: int
  sc_confidence :: f32

record SemanticCandidateNode =
  sn_id :: int
  sn_kind :: "32 word"
  sn_serialized_name :: string
  sn_serialized_name_ascii_lower :: string
  sn_qualified_name :: "string option"
  sn_qualified_name_ascii_lower :: "string option"
  sn_file_node_id :: "int option"
  sn_language_family :: "string option"

record SemanticCandidateIndex =
  si_nodes :: "SemanticCandidateNode list"
  si_nodes_by_kind :: "32 word \<rightharpoonup> nat list"
  si_serialized_exact :: "string \<rightharpoonup> nat list"
  si_qualified_exact :: "string \<rightharpoonup> nat list"
  si_tail_ascii_lower :: "string \<rightharpoonup> nat list"

definition push_entry :: "nat \<Rightarrow> 'k \<Rightarrow> ('k \<rightharpoonup> nat list) \<Rightarrow> ('k \<rightharpoonup> nat list)" where
  "push_entry offset k m = m(k \<mapsto> (case m k of Some os \<Rightarrow> os @ [offset] | None \<Rightarrow> [offset]))"

definition tail_variants :: "SemanticCandidateNode \<Rightarrow> string list" where
  "tail_variants node =
     (case tail_component (sn_serialized_name node) of Some tail \<Rightarrow> [to_ascii_lowercase tail] | None \<Rightarrow> [])
     @ (case Option.bind (sn_qualified_name node) tail_component of Some tail \<Rightarrow> [to_ascii_lowercase tail] | None \<Rightarrow> [])"

definition index_semantic_node :: "nat \<times> SemanticCandidateNode \<Rightarrow> SemanticCandidateIndex \<Rightarrow> SemanticCandidateIndex" where
  "index_semantic_node entry index = (case entry of (offset, node) \<Rightarrow>
     index\<lparr>si_nodes_by_kind := push_entry offset (sn_kind node) (si_nodes_by_kind index),
       si_serialized_exact := push_entry offset (sn_serialized_name node) (si_serialized_exact index),
       si_qualified_exact := (case sn_qualified_name node of
          Some q \<Rightarrow> push_entry offset q (si_qualified_exact index) | None \<Rightarrow> si_qualified_exact index),
       si_tail_ascii_lower := fold (push_entry offset) (tail_variants node) (si_tail_ascii_lower index)\<rparr>)"

definition semantic_from_nodes :: "SemanticCandidateNode list \<Rightarrow> SemanticCandidateIndex" where
  "semantic_from_nodes nodes =
     fold index_semantic_node (enumerate 0 nodes)
       \<lparr>si_nodes = nodes, si_nodes_by_kind = Map.empty, si_serialized_exact = Map.empty,
        si_qualified_exact = Map.empty, si_tail_ascii_lower = Map.empty\<rparr>"

definition language_family_bucket :: "string \<Rightarrow> string" where
  "language_family_bucket language =
     (if language = ''c'' \<or> language = ''cpp'' then ''native''
      else if language = ''javascript'' \<or> language = ''typescript'' \<or> language = ''vue'' \<or> language = ''svelte''
        \<or> language = ''astro'' then ''webscript''
      else if List.member [''python'', ''rust'', ''java'', ''go'', ''ruby'', ''php'', ''csharp'', ''kotlin'',
        ''swift'', ''dart'', ''bash''] language then language
      else if is_structural_language_name language then ''structural'' else language)"

definition compatible_language_families :: "string option \<Rightarrow> string option \<Rightarrow> bool" where
  "compatible_language_families caller candidate =
     (case (caller, candidate) of (Some l, Some r) \<Rightarrow> l = r | _ \<Rightarrow> True)"

text \<open>The search keeps what it found; the ids seen are those of the nodes found.\<close>

definition push_offset ::
  "SemanticCandidateIndex \<Rightarrow> 32 word list \<Rightarrow> string option \<Rightarrow> nat \<Rightarrow> nat \<Rightarrow> SemanticCandidateNode list \<Rightarrow>
     SemanticCandidateNode list" where
  "push_offset index kinds family limit offset out =
     (if length out \<ge> limit then out
      else if offset \<ge> length (si_nodes index) then out
      else let node = si_nodes index ! offset
           in if \<not> List.member kinds (sn_kind node) \<or> \<not> compatible_language_families family (sn_language_family node)
                \<or> List.member (map sn_id out) (sn_id node) then out
              else out @ [node])"

fun fuzzy_scan ::
  "nat \<Rightarrow> (SemanticCandidateNode \<Rightarrow> bool) \<Rightarrow> (SemanticCandidateNode \<Rightarrow> bool) \<Rightarrow> SemanticCandidateNode list \<Rightarrow>
     SemanticCandidateNode list \<Rightarrow> SemanticCandidateNode list" where
  "fuzzy_scan limit compatible contains out [] = out"
| "fuzzy_scan limit compatible contains out (node # nodes) =
     (if List.member (map sn_id out) (sn_id node) \<or> \<not> compatible node then fuzzy_scan limit compatible contains out nodes
      else if contains node then
        (if length out + 1 \<ge> limit then out @ [node] else fuzzy_scan limit compatible contains (out @ [node]) nodes)
      else fuzzy_scan limit compatible contains out nodes)"

definition semantic_nodes_at :: "SemanticCandidateIndex \<Rightarrow> nat list \<Rightarrow> SemanticCandidateNode list" where
  "semantic_nodes_at index offsets =
     List.map_filter (\<lambda>i. if i < length (si_nodes index) then Some (si_nodes index ! i) else None) offsets"

fun fuzzy_kinds ::
  "SemanticCandidateIndex \<Rightarrow> nat \<Rightarrow> (SemanticCandidateNode \<Rightarrow> bool) \<Rightarrow> (SemanticCandidateNode \<Rightarrow> bool) \<Rightarrow>
     SemanticCandidateNode list \<Rightarrow> 32 word list \<Rightarrow> SemanticCandidateNode list" where
  "fuzzy_kinds index limit compatible contains out [] = out"
| "fuzzy_kinds index limit compatible contains out (kind # kinds) =
     (case si_nodes_by_kind index kind of
        None \<Rightarrow> fuzzy_kinds index limit compatible contains out kinds
      | Some offsets \<Rightarrow>
          let out' = fuzzy_scan limit compatible contains out (semantic_nodes_at index offsets)
          in if length out' \<ge> limit then out' else fuzzy_kinds index limit compatible contains out' kinds)"

definition nodes_for_name ::
  "SemanticCandidateIndex \<Rightarrow> 32 word list \<Rightarrow> string \<Rightarrow> string \<Rightarrow> string option \<Rightarrow> bool \<Rightarrow> nat \<Rightarrow> SemanticCandidateNode list" where
  "nodes_for_name index kinds name name_ascii_lower caller_language allow_fuzzy limit =
     (let family = map_option language_family_bucket caller_language;
          offsets_of = (\<lambda>m k. case m k of Some os \<Rightarrow> os | None \<Rightarrow> []);
          offsets = offsets_of (si_serialized_exact index) name @ offsets_of (si_qualified_exact index) name
            @ offsets_of (si_tail_ascii_lower index) name_ascii_lower;
          out = fold (push_offset index kinds family limit) offsets []
      in if allow_fuzzy \<and> out = [] then
           fuzzy_kinds index limit (\<lambda>n. compatible_language_families family (sn_language_family n))
             (\<lambda>n. contains_str (sn_serialized_name_ascii_lower n) name_ascii_lower
                \<or> (case sn_qualified_name_ascii_lower n of Some q \<Rightarrow> contains_str q name_ascii_lower | None \<Rightarrow> False))
             out kinds
         else out)"

section \<open>Requests\<close>

definition non_empty_trimmed :: "string \<Rightarrow> string option" where
  "non_empty_trimmed value = (let trimmed = trim value in if trimmed = [] then None else Some trimmed)"

definition request_target :: "SemanticResolutionRequest \<Rightarrow> string option" where
  "request_target request = non_empty_trimmed (rq_target_name request)"

definition request_language :: "SemanticResolutionRequest \<Rightarrow> string option" where
  "request_language request = detect_resolver_language (rq_file_path request)"

definition alias_target :: "string \<Rightarrow> string" where
  "alias_target target = trim (case split_once '' as '' target of Some (_, rhs) \<Rightarrow> trim rhs | None \<Rightarrow> target)"

definition tail_segment :: "(char \<Rightarrow> bool) \<Rightarrow> string \<Rightarrow> string option" where
  "tail_segment separators value = non_empty_trimmed (last (split_on separators value))"

definition namespace_tail :: "string \<Rightarrow> string \<Rightarrow> string option" where
  "namespace_tail separator value = non_empty_trimmed (last_piece separator value)"

definition call_target_name :: "string \<Rightarrow> string option" where
  "call_target_name target =
     non_empty_trimmed (case rsplit_once ''::'' target of Some (_, tail) \<Rightarrow> tail
       | None \<Rightarrow> (case rsplit_once ''.'' target of Some (_, tail) \<Rightarrow> tail | None \<Rightarrow> target))"

definition to_candidates :: "int list \<Rightarrow> f32 \<Rightarrow> SemanticResolutionCandidate list" where
  "to_candidates ids confidence = map (\<lambda>i. \<lparr>sc_target_node_id = i, sc_confidence = confidence\<rparr>) ids"

definition resolve_import_candidates ::
  "SemanticCandidateIndex \<Rightarrow> 32 word list \<Rightarrow> string \<Rightarrow> int option \<Rightarrow> string option \<Rightarrow> f32 \<Rightarrow> SemanticResolutionCandidate list" where
  "resolve_import_candidates index kinds symbol file_id caller_language confidence =
     to_candidates (map sn_id (filter (\<lambda>n. file_id = None \<or> sn_file_node_id n = None \<or> sn_file_node_id n \<noteq> file_id)
       (nodes_for_name index kinds symbol (to_ascii_lowercase symbol) caller_language True 4))) confidence"

definition resolve_call_candidates ::
  "SemanticCandidateIndex \<Rightarrow> 32 word list \<Rightarrow> string \<Rightarrow> int option \<Rightarrow> string option \<Rightarrow> f32 \<Rightarrow> f32 \<Rightarrow>
     SemanticResolutionCandidate list" where
  "resolve_call_candidates index kinds call_name file_id caller_language same_file_confidence global_confidence =
     (let found = nodes_for_name index kinds call_name (to_ascii_lowercase call_name) caller_language False 3;
          out = (case file_id of None \<Rightarrow> []
            | Some f \<Rightarrow> to_candidates (map sn_id (filter (\<lambda>n. sn_file_node_id n = Some f) found)) same_file_confidence)
      in if out = [] then to_candidates (map sn_id found) global_confidence else out)"

section \<open>The resolvers\<close>

text \<open>How the script, C and generic resolvers read an imported path.\<close>

definition include_base :: "string \<Rightarrow> string" where
  "include_base target =
     (let trimmed = trim_matches (\<lambda>c. c = CHR ''>'') (trim_matches (\<lambda>c. c = CHR ''<'')
            (trim_matches (\<lambda>c. c = CHR 0x22) (trim target)))
      in trim (last_piece ''/'' trimmed))"

definition strip_first_suffix :: "string list \<Rightarrow> string \<Rightarrow> string" where
  "strip_first_suffix extensions symbol =
     (case List.map_filter (\<lambda>ext. strip_suffix ext symbol) extensions of s # _ \<Rightarrow> s | [] \<Rightarrow> symbol)"

definition c_normalize_include_symbol :: "string \<Rightarrow> string" where
  "c_normalize_include_symbol target = strip_first_suffix [''.h''] (include_base target)"

definition cpp_normalize_include_symbol :: "string \<Rightarrow> string" where
  "cpp_normalize_include_symbol target = strip_first_suffix [''.hpp'', ''.hxx'', ''.hh'', ''.h''] (include_base target)"

definition strip_known_script_extension :: "string \<Rightarrow> string" where
  "strip_known_script_extension =
     strip_first_suffix [''.d.ts'', ''.tsx'', ''.cts'', ''.mts'', ''.jsx'', ''.cjs'', ''.mjs'', ''.js'', ''.ts'']"

definition javascript_normalize_import_symbol :: "string \<Rightarrow> string" where
  "javascript_normalize_import_symbol target =
     (case tail_segment (\<lambda>c. c = CHR ''/'' \<or> c = CHR 0x5C \<or> c = CHR '':'') (trim_matches is_quote (alias_target target)) of
        Some s \<Rightarrow> strip_known_script_extension s | None \<Rightarrow> [])"

definition strip_known_extension :: "string \<Rightarrow> string" where
  "strip_known_extension symbol =
     (case List.map_filter (\<lambda>ext. Option.bind (strip_suffix ext symbol) (strip_suffix ''.''))
             (concat (map lp_extensions LANGUAGE_SUPPORT_PROFILES)) of
        s # _ \<Rightarrow> s | [] \<Rightarrow> symbol)"

definition generic_normalized_import_symbol :: "string \<Rightarrow> string option" where
  "generic_normalized_import_symbol target =
     (let unquoted = trim (trim_matches is_quote (alias_target target));
          is_slash = (\<lambda>c. c = CHR ''/'' \<or> c = CHR 0x5C)
      in if contains_any is_slash unquoted then map_option strip_known_extension (tail_segment is_slash unquoted)
         else map_option strip_known_extension
           (tail_segment (\<lambda>c. c = CHR ''.'' \<or> c = CHR '':'') (strip_known_extension unquoted)))"

definition c_resolve_import ::
  "SemanticCandidateIndex \<Rightarrow> SemanticResolutionRequest \<Rightarrow> SemanticResolutionCandidate list" where
  "c_resolve_import index request =
     (case request_target request of None \<Rightarrow> []
      | Some target \<Rightarrow>
          (let symbol = c_normalize_include_symbol target
           in if symbol = [] then []
              else resolve_import_candidates index
                [node_kind_as_i32 NK_MODULE, node_kind_as_i32 NK_STRUCT, node_kind_as_i32 NK_UNION, node_kind_as_i32 NK_ENUM, node_kind_as_i32 NK_TYPEDEF, node_kind_as_i32 NK_FUNCTION]
                symbol (rq_file_id request) (request_language request) (f32_lit 18119394)))"

definition c_resolve_call ::
  "SemanticCandidateIndex \<Rightarrow> SemanticResolutionRequest \<Rightarrow> SemanticResolutionCandidate list" where
  "c_resolve_call index request =
     (case request_target request of None \<Rightarrow> []
      | Some target \<Rightarrow>
          case call_target_name target of None \<Rightarrow> []
          | Some call_name \<Rightarrow>
              resolve_call_candidates index [node_kind_as_i32 NK_FUNCTION, node_kind_as_i32 NK_METHOD] call_name
                (rq_file_id request) (request_language request) (f32_lit 27514634) (f32_lit 22145926))"

definition cpp_resolve_import ::
  "SemanticCandidateIndex \<Rightarrow> SemanticResolutionRequest \<Rightarrow> SemanticResolutionCandidate list" where
  "cpp_resolve_import index request =
     (case request_target request of None \<Rightarrow> []
      | Some target \<Rightarrow>
          (let symbol = cpp_normalize_include_symbol target
           in if symbol = [] then []
              else resolve_import_candidates index
                [node_kind_as_i32 NK_MODULE, node_kind_as_i32 NK_NAMESPACE, node_kind_as_i32 NK_CLASS, node_kind_as_i32 NK_STRUCT, node_kind_as_i32 NK_ENUM, node_kind_as_i32 NK_TYPEDEF, node_kind_as_i32 NK_FUNCTION, node_kind_as_i32 NK_METHOD]
                symbol (rq_file_id request) (request_language request) (f32_lit 19461570)))"

definition cpp_resolve_call ::
  "SemanticCandidateIndex \<Rightarrow> SemanticResolutionRequest \<Rightarrow> SemanticResolutionCandidate list" where
  "cpp_resolve_call index request =
     (case request_target request of None \<Rightarrow> []
      | Some target \<Rightarrow>
          case call_target_name target of None \<Rightarrow> []
          | Some call_name \<Rightarrow>
              resolve_call_candidates index [node_kind_as_i32 NK_METHOD, node_kind_as_i32 NK_FUNCTION] call_name
                (rq_file_id request) (request_language request) (f32_lit 27514634) (f32_lit 23488102))"

definition javascript_resolve_import ::
  "SemanticCandidateIndex \<Rightarrow> SemanticResolutionRequest \<Rightarrow> SemanticResolutionCandidate list" where
  "javascript_resolve_import index request =
     (case request_target request of None \<Rightarrow> []
      | Some target \<Rightarrow>
          (let symbol = javascript_normalize_import_symbol target
           in if symbol = [] then []
              else resolve_import_candidates index
                [node_kind_as_i32 NK_MODULE, node_kind_as_i32 NK_NAMESPACE, node_kind_as_i32 NK_PACKAGE, node_kind_as_i32 NK_CLASS, node_kind_as_i32 NK_FUNCTION]
                symbol (rq_file_id request) (request_language request) (f32_lit 19126026)))"

definition javascript_resolve_call ::
  "SemanticCandidateIndex \<Rightarrow> SemanticResolutionRequest \<Rightarrow> SemanticResolutionCandidate list" where
  "javascript_resolve_call index request =
     (case request_target request of None \<Rightarrow> []
      | Some target \<Rightarrow>
          case call_target_name target of None \<Rightarrow> []
          | Some call_name \<Rightarrow>
              resolve_call_candidates index [node_kind_as_i32 NK_METHOD, node_kind_as_i32 NK_FUNCTION] call_name
                (rq_file_id request) (request_language request) (f32_lit 27514634) (f32_lit 23152558))"

definition python_resolve_import ::
  "SemanticCandidateIndex \<Rightarrow> SemanticResolutionRequest \<Rightarrow> SemanticResolutionCandidate list" where
  "python_resolve_import index request =
     (case request_target request of None \<Rightarrow> []
      | Some target \<Rightarrow>
          (case tail_segment (\<lambda>c. c = CHR ''.'' \<or> c = CHR ''/'' \<or> c = CHR '':'') (alias_target target) of None \<Rightarrow> []
           | Some symbol \<Rightarrow>
               resolve_import_candidates index
                 [node_kind_as_i32 NK_MODULE, node_kind_as_i32 NK_PACKAGE, node_kind_as_i32 NK_CLASS, node_kind_as_i32 NK_FUNCTION, node_kind_as_i32 NK_METHOD]
                 symbol (rq_file_id request) (request_language request) (f32_lit 19797114)))"

definition python_resolve_call ::
  "SemanticCandidateIndex \<Rightarrow> SemanticResolutionRequest \<Rightarrow> SemanticResolutionCandidate list" where
  "python_resolve_call index request =
     (case request_target request of None \<Rightarrow> []
      | Some target \<Rightarrow>
          if contains_str target ''.'' then []
          else case call_target_name target of None \<Rightarrow> []
          | Some call_name \<Rightarrow>
              resolve_call_candidates index [node_kind_as_i32 NK_METHOD, node_kind_as_i32 NK_FUNCTION] call_name
                (rq_file_id request) (request_language request) (f32_lit 27514634) (f32_lit 24159192))"

definition rust_resolve_import ::
  "SemanticCandidateIndex \<Rightarrow> SemanticResolutionRequest \<Rightarrow> SemanticResolutionCandidate list" where
  "rust_resolve_import index request =
     (case request_target request of None \<Rightarrow> []
      | Some target \<Rightarrow>
          (case (case namespace_tail ''::'' (alias_target target) of None \<Rightarrow> None
           | Some symbol \<Rightarrow> Some (trim (trim_end_literal '' (import)'' symbol))) of None \<Rightarrow> []
           | Some symbol \<Rightarrow>
               resolve_import_candidates index
                 [node_kind_as_i32 NK_MODULE, node_kind_as_i32 NK_NAMESPACE, node_kind_as_i32 NK_STRUCT, node_kind_as_i32 NK_ENUM, node_kind_as_i32 NK_INTERFACE, node_kind_as_i32 NK_TYPEDEF, node_kind_as_i32 NK_FUNCTION, node_kind_as_i32 NK_METHOD]
                 symbol (rq_file_id request) (request_language request) (f32_lit 20468204)))"

definition rust_resolve_call ::
  "SemanticCandidateIndex \<Rightarrow> SemanticResolutionRequest \<Rightarrow> SemanticResolutionCandidate list" where
  "rust_resolve_call index request =
     (case request_target request of None \<Rightarrow> []
      | Some target \<Rightarrow>
          case call_target_name target of None \<Rightarrow> []
          | Some call_name \<Rightarrow>
              resolve_call_candidates index [node_kind_as_i32 NK_METHOD, node_kind_as_i32 NK_FUNCTION] call_name
                (rq_file_id request) (request_language request) (f32_lit 27514634) (f32_lit 24494736))"

definition typescript_resolve_import ::
  "SemanticCandidateIndex \<Rightarrow> SemanticResolutionRequest \<Rightarrow> SemanticResolutionCandidate list" where
  "typescript_resolve_import index request =
     (case request_target request of None \<Rightarrow> []
      | Some target \<Rightarrow>
          (case tail_segment (\<lambda>c. c = CHR ''/'' \<or> c = CHR ''.'' \<or> c = CHR '':'') (alias_target target) of None \<Rightarrow> []
           | Some symbol \<Rightarrow>
               resolve_import_candidates index
                 [node_kind_as_i32 NK_MODULE, node_kind_as_i32 NK_NAMESPACE, node_kind_as_i32 NK_PACKAGE, node_kind_as_i32 NK_CLASS, node_kind_as_i32 NK_INTERFACE, node_kind_as_i32 NK_ENUM, node_kind_as_i32 NK_TYPEDEF]
                 symbol (rq_file_id request) (request_language request) (f32_lit 19461570)))"

definition typescript_resolve_call ::
  "SemanticCandidateIndex \<Rightarrow> SemanticResolutionRequest \<Rightarrow> SemanticResolutionCandidate list" where
  "typescript_resolve_call index request =
     (case request_target request of None \<Rightarrow> []
      | Some target \<Rightarrow>
          case call_target_name target of None \<Rightarrow> []
          | Some call_name \<Rightarrow>
              resolve_call_candidates index [node_kind_as_i32 NK_METHOD, node_kind_as_i32 NK_FUNCTION] call_name
                (rq_file_id request) (request_language request) (f32_lit 29527900) (f32_lit 23488102))"

definition java_resolve_import ::
  "SemanticCandidateIndex \<Rightarrow> SemanticResolutionRequest \<Rightarrow> SemanticResolutionCandidate list" where
  "java_resolve_import index request =
     (case request_target request of None \<Rightarrow> []
      | Some target \<Rightarrow>
          (case tail_segment (\<lambda>c. c = CHR ''.'') target of None \<Rightarrow> []
           | Some symbol \<Rightarrow>
               resolve_import_candidates index
                 [node_kind_as_i32 NK_PACKAGE, node_kind_as_i32 NK_MODULE, node_kind_as_i32 NK_NAMESPACE, node_kind_as_i32 NK_CLASS, node_kind_as_i32 NK_INTERFACE, node_kind_as_i32 NK_ANNOTATION, node_kind_as_i32 NK_ENUM]
                 symbol (rq_file_id request) (request_language request) (f32_lit 20132660)))"

definition java_resolve_call ::
  "SemanticCandidateIndex \<Rightarrow> SemanticResolutionRequest \<Rightarrow> SemanticResolutionCandidate list" where
  "java_resolve_call index request =
     (case request_target request of None \<Rightarrow> []
      | Some target \<Rightarrow>
          case call_target_name target of None \<Rightarrow> []
          | Some call_name \<Rightarrow>
              resolve_call_candidates index [node_kind_as_i32 NK_METHOD, node_kind_as_i32 NK_FUNCTION] call_name
                (rq_file_id request) (request_language request) (f32_lit 29863444) (f32_lit 24159192))"

definition go_resolve_import ::
  "SemanticCandidateIndex \<Rightarrow> SemanticResolutionRequest \<Rightarrow> SemanticResolutionCandidate list" where
  "go_resolve_import index request =
     (case request_target request of None \<Rightarrow> []
      | Some target \<Rightarrow>
          (case (case tail_segment (\<lambda>c. c = CHR ''/'' \<or> c = CHR ''.'') (trim_matches (\<lambda>c. c = CHR 0x22) target) of Some s \<Rightarrow> Some s
           | None \<Rightarrow> tail_segment (\<lambda>c. c = CHR ''/'' \<or> c = CHR ''.'') target) of None \<Rightarrow> []
           | Some symbol \<Rightarrow>
               resolve_import_candidates index
                 [node_kind_as_i32 NK_MODULE, node_kind_as_i32 NK_PACKAGE, node_kind_as_i32 NK_FUNCTION, node_kind_as_i32 NK_METHOD, node_kind_as_i32 NK_STRUCT]
                 symbol (rq_file_id request) (request_language request) (f32_lit 19461570)))"

definition go_resolve_call ::
  "SemanticCandidateIndex \<Rightarrow> SemanticResolutionRequest \<Rightarrow> SemanticResolutionCandidate list" where
  "go_resolve_call index request =
     (case request_target request of None \<Rightarrow> []
      | Some target \<Rightarrow>
          case call_target_name target of None \<Rightarrow> []
          | Some call_name \<Rightarrow>
              resolve_call_candidates index [node_kind_as_i32 NK_METHOD, node_kind_as_i32 NK_FUNCTION] call_name
                (rq_file_id request) (request_language request) (f32_lit 26843546) (f32_lit 23488102))"

definition ruby_resolve_import ::
  "SemanticCandidateIndex \<Rightarrow> SemanticResolutionRequest \<Rightarrow> SemanticResolutionCandidate list" where
  "ruby_resolve_import index request =
     (case request_target request of None \<Rightarrow> []
      | Some target \<Rightarrow>
          (case (case tail_segment (\<lambda>c. c = CHR ''/'' \<or> c = CHR '':'') (trim_matches (\<lambda>c. c = CHR 0x22) target) of Some s \<Rightarrow> Some s
           | None \<Rightarrow> tail_segment (\<lambda>c. c = CHR ''/'' \<or> c = CHR '':'' \<or> c = CHR ''.'') target) of None \<Rightarrow> []
           | Some symbol \<Rightarrow>
               resolve_import_candidates index
                 [node_kind_as_i32 NK_MODULE, node_kind_as_i32 NK_CLASS, node_kind_as_i32 NK_METHOD, node_kind_as_i32 NK_FUNCTION]
                 symbol (rq_file_id request) (request_language request) (f32_lit 19461570)))"

definition ruby_resolve_call ::
  "SemanticCandidateIndex \<Rightarrow> SemanticResolutionRequest \<Rightarrow> SemanticResolutionCandidate list" where
  "ruby_resolve_call index request =
     (case request_target request of None \<Rightarrow> []
      | Some target \<Rightarrow>
          case call_target_name target of None \<Rightarrow> []
          | Some call_name \<Rightarrow>
              resolve_call_candidates index [node_kind_as_i32 NK_METHOD, node_kind_as_i32 NK_FUNCTION] call_name
                (rq_file_id request) (request_language request) (f32_lit 26843546) (f32_lit 23488102))"

definition php_resolve_import ::
  "SemanticCandidateIndex \<Rightarrow> SemanticResolutionRequest \<Rightarrow> SemanticResolutionCandidate list" where
  "php_resolve_import index request =
     (case request_target request of None \<Rightarrow> []
      | Some target \<Rightarrow>
          (case (case namespace_tail [CHR 0x5C] target of Some s \<Rightarrow> Some s
           | None \<Rightarrow> tail_segment (\<lambda>c. c = CHR 0x5C \<or> c = CHR ''/'') target) of None \<Rightarrow> []
           | Some symbol \<Rightarrow>
               resolve_import_candidates index
                 [node_kind_as_i32 NK_NAMESPACE, node_kind_as_i32 NK_MODULE, node_kind_as_i32 NK_CLASS, node_kind_as_i32 NK_INTERFACE, node_kind_as_i32 NK_FUNCTION, node_kind_as_i32 NK_METHOD]
                 symbol (rq_file_id request) (request_language request) (f32_lit 19461570)))"

definition php_resolve_call ::
  "SemanticCandidateIndex \<Rightarrow> SemanticResolutionRequest \<Rightarrow> SemanticResolutionCandidate list" where
  "php_resolve_call index request =
     (case request_target request of None \<Rightarrow> []
      | Some target \<Rightarrow>
          case call_target_name target of None \<Rightarrow> []
          | Some call_name \<Rightarrow>
              resolve_call_candidates index [node_kind_as_i32 NK_METHOD, node_kind_as_i32 NK_FUNCTION] call_name
                (rq_file_id request) (request_language request) (f32_lit 26843546) (f32_lit 23488102))"

definition csharp_resolve_import ::
  "SemanticCandidateIndex \<Rightarrow> SemanticResolutionRequest \<Rightarrow> SemanticResolutionCandidate list" where
  "csharp_resolve_import index request =
     (case request_target request of None \<Rightarrow> []
      | Some target \<Rightarrow>
          (case namespace_tail ''.'' target of None \<Rightarrow> []
           | Some symbol \<Rightarrow>
               resolve_import_candidates index
                 [node_kind_as_i32 NK_NAMESPACE, node_kind_as_i32 NK_MODULE, node_kind_as_i32 NK_CLASS, node_kind_as_i32 NK_INTERFACE, node_kind_as_i32 NK_STRUCT, node_kind_as_i32 NK_METHOD, node_kind_as_i32 NK_FUNCTION]
                 symbol (rq_file_id request) (request_language request) (f32_lit 19461570)))"

definition csharp_resolve_call ::
  "SemanticCandidateIndex \<Rightarrow> SemanticResolutionRequest \<Rightarrow> SemanticResolutionCandidate list" where
  "csharp_resolve_call index request =
     (case request_target request of None \<Rightarrow> []
      | Some target \<Rightarrow>
          case call_target_name target of None \<Rightarrow> []
          | Some call_name \<Rightarrow>
              resolve_call_candidates index [node_kind_as_i32 NK_METHOD, node_kind_as_i32 NK_FUNCTION] call_name
                (rq_file_id request) (request_language request) (f32_lit 26843546) (f32_lit 23488102))"

definition generic_resolve_import ::
  "SemanticCandidateIndex \<Rightarrow> SemanticResolutionRequest \<Rightarrow> SemanticResolutionCandidate list" where
  "generic_resolve_import index request =
     (case request_target request of None \<Rightarrow> []
      | Some target \<Rightarrow>
          (case generic_normalized_import_symbol target of None \<Rightarrow> []
           | Some symbol \<Rightarrow>
               resolve_import_candidates index
                 [node_kind_as_i32 NK_MODULE, node_kind_as_i32 NK_NAMESPACE, node_kind_as_i32 NK_PACKAGE, node_kind_as_i32 NK_CLASS, node_kind_as_i32 NK_INTERFACE, node_kind_as_i32 NK_ENUM, node_kind_as_i32 NK_TYPEDEF, node_kind_as_i32 NK_FUNCTION]
                 symbol (rq_file_id request) (request_language request) PROBABLE_MIN))"

definition generic_resolve_call ::
  "SemanticCandidateIndex \<Rightarrow> SemanticResolutionRequest \<Rightarrow> SemanticResolutionCandidate list" where
  "generic_resolve_call index request =
     (case request_target request of None \<Rightarrow> []
      | Some target \<Rightarrow>
          case call_target_name target of None \<Rightarrow> []
          | Some call_name \<Rightarrow>
              resolve_call_candidates index [node_kind_as_i32 NK_METHOD, node_kind_as_i32 NK_FUNCTION] call_name
                (rq_file_id request) (request_language request) (f32_lit 26843546) (f32_lit 22817014))"

datatype SemanticResolverKind =
    ResolverC | ResolverCpp | ResolverJavaScript | ResolverPython | ResolverRust | ResolverTypeScript | ResolverJava | ResolverGo | ResolverRuby | ResolverPhp | ResolverCSharp | ResolverGeneric

text \<open>Every resolver answers imports and calls, and nothing for other edges.\<close>

fun resolver_operations ::
  "SemanticResolverKind \<Rightarrow>
     (SemanticCandidateIndex \<Rightarrow> SemanticResolutionRequest \<Rightarrow> SemanticResolutionCandidate list)
     \<times> (SemanticCandidateIndex \<Rightarrow> SemanticResolutionRequest \<Rightarrow> SemanticResolutionCandidate list)" where
  "resolver_operations ResolverC = (c_resolve_import, c_resolve_call)"
| "resolver_operations ResolverCpp = (cpp_resolve_import, cpp_resolve_call)"
| "resolver_operations ResolverJavaScript = (javascript_resolve_import, javascript_resolve_call)"
| "resolver_operations ResolverPython = (python_resolve_import, python_resolve_call)"
| "resolver_operations ResolverRust = (rust_resolve_import, rust_resolve_call)"
| "resolver_operations ResolverTypeScript = (typescript_resolve_import, typescript_resolve_call)"
| "resolver_operations ResolverJava = (java_resolve_import, java_resolve_call)"
| "resolver_operations ResolverGo = (go_resolve_import, go_resolve_call)"
| "resolver_operations ResolverRuby = (ruby_resolve_import, ruby_resolve_call)"
| "resolver_operations ResolverPhp = (php_resolve_import, php_resolve_call)"
| "resolver_operations ResolverCSharp = (csharp_resolve_import, csharp_resolve_call)"
| "resolver_operations ResolverGeneric = (generic_resolve_import, generic_resolve_call)"

definition resolver_resolve ::
  "SemanticResolverKind \<Rightarrow> SemanticCandidateIndex \<Rightarrow> SemanticResolutionRequest \<Rightarrow> SemanticResolutionCandidate list" where
  "resolver_resolve resolver index request =
     (case rq_edge_kind request of
        EK_IMPORT \<Rightarrow> fst (resolver_operations resolver) index request
      | EK_CALL \<Rightarrow> snd (resolver_operations resolver) index request
      | _ \<Rightarrow> [])"

definition RESOLVER_BY_LANGUAGE :: "(string \<times> SemanticResolverKind) list" where
  "RESOLVER_BY_LANGUAGE =
    [(''c'', ResolverC),
     (''cpp'', ResolverCpp),
     (''javascript'', ResolverJavaScript),
     (''vue'', ResolverJavaScript),
     (''svelte'', ResolverJavaScript),
     (''astro'', ResolverJavaScript),
     (''python'', ResolverPython),
     (''rust'', ResolverRust),
     (''typescript'', ResolverTypeScript),
     (''java'', ResolverJava),
     (''go'', ResolverGo),
     (''ruby'', ResolverRuby),
     (''php'', ResolverPhp),
     (''csharp'', ResolverCSharp),
     (''kotlin'', ResolverGeneric),
     (''swift'', ResolverGeneric),
     (''dart'', ResolverGeneric),
     (''bash'', ResolverGeneric)]"

definition semantic_resolver_for_path :: "string option \<Rightarrow> SemanticResolverKind option" where
  "semantic_resolver_for_path path =
     (case detect_resolver_language path of None \<Rightarrow> None
      | Some language \<Rightarrow> map_of RESOLVER_BY_LANGUAGE language)"

definition registry_resolve ::
  "bool \<Rightarrow> SemanticCandidateIndex \<Rightarrow> SemanticResolutionRequest \<Rightarrow> SemanticResolutionCandidate list" where
  "registry_resolve enabled index request =
     (if \<not> enabled then []
      else case semantic_resolver_for_path (rq_file_path request) of
             None \<Rightarrow> [] | Some resolver \<Rightarrow> resolver_resolve resolver index request)"

section \<open>What the search returns\<close>

text \<open>Each entry of a map built by \<^verbatim>\<open>push_entry\<close> points at nodes with that key.\<close>

definition points_at :: "'a list \<Rightarrow> ('a \<Rightarrow> 'k \<Rightarrow> bool) \<Rightarrow> ('k \<rightharpoonup> nat list) \<Rightarrow> bool" where
  "points_at nodes p m \<longleftrightarrow> (\<forall>k os i. m k = Some os \<longrightarrow> i \<in> set os \<longrightarrow> i < length nodes \<and> p (nodes ! i) k)"

lemma points_at_empty: "points_at nodes p Map.empty"
  by (simp add: points_at_def)

lemma points_at_push:
  assumes "points_at nodes p m" and "i < length nodes" and "p (nodes ! i) k"
  shows "points_at nodes p (push_entry i k m)"
  using assms unfolding points_at_def push_entry_def by (auto split: if_splits option.splits)

lemma points_at_fold:
  "points_at nodes p m \<Longrightarrow> i < length nodes \<Longrightarrow> (\<And>k. k \<in> set ks \<Longrightarrow> p (nodes ! i) k) \<Longrightarrow>
     points_at nodes p (fold (push_entry i) ks m)"
  by (induction ks arbitrary: m) (auto intro: points_at_push)

definition semantic_index_ok :: "SemanticCandidateNode list \<Rightarrow> SemanticCandidateIndex \<Rightarrow> bool" where
  "semantic_index_ok nodes index \<longleftrightarrow> si_nodes index = nodes
     \<and> points_at nodes (\<lambda>n k. sn_kind n = k) (si_nodes_by_kind index)
     \<and> points_at nodes (\<lambda>n k. sn_serialized_name n = k) (si_serialized_exact index)
     \<and> points_at nodes (\<lambda>n k. sn_qualified_name n = Some k) (si_qualified_exact index)
     \<and> points_at nodes (\<lambda>n k. k \<in> set (tail_variants n)) (si_tail_ascii_lower index)"

lemma index_semantic_node_ok:
  assumes "semantic_index_ok nodes index" and "i < length nodes"
  shows "semantic_index_ok nodes (index_semantic_node (i, nodes ! i) index)"
  using assms unfolding semantic_index_ok_def index_semantic_node_def
  by (auto intro: points_at_push points_at_fold split: option.split)

lemma index_semantic_nodes_ok:
  "semantic_index_ok nodes index \<Longrightarrow> \<forall>(i, n) \<in> set es. i < length nodes \<and> n = nodes ! i \<Longrightarrow>
     semantic_index_ok nodes (fold index_semantic_node es index)"
  by (induction es arbitrary: index) (auto intro: index_semantic_node_ok)

lemma semantic_from_nodes_ok: "semantic_index_ok nodes (semantic_from_nodes nodes)"
  unfolding semantic_from_nodes_def
proof (rule index_semantic_nodes_ok)
  show "\<forall>(i, n) \<in> set (enumerate 0 nodes). i < length nodes \<and> n = nodes ! i"
    by (auto simp: in_set_enumerate_eq)
qed (simp add: semantic_index_ok_def points_at_empty)

lemma semantic_points:
  "si_nodes (semantic_from_nodes nodes) = nodes"
  "points_at nodes (\<lambda>n k. sn_kind n = k) (si_nodes_by_kind (semantic_from_nodes nodes))"
  "points_at nodes (\<lambda>n k. sn_serialized_name n = k) (si_serialized_exact (semantic_from_nodes nodes))"
  "points_at nodes (\<lambda>n k. sn_qualified_name n = Some k) (si_qualified_exact (semantic_from_nodes nodes))"
  "points_at nodes (\<lambda>n k. k \<in> set (tail_variants n)) (si_tail_ascii_lower (semantic_from_nodes nodes))"
  using semantic_from_nodes_ok [of nodes] by (simp_all only: semantic_index_ok_def)

lemma points_atD:
  "points_at nodes p m \<Longrightarrow> i \<in> set (case m k of Some os \<Rightarrow> os | None \<Rightarrow> []) \<Longrightarrow> i < length nodes \<and> p (nodes ! i) k"
  by (cases "m k") (simp_all add: points_at_def)

text \<open>The nodes a search may return.\<close>

definition named :: "string \<Rightarrow> string \<Rightarrow> SemanticCandidateNode \<Rightarrow> bool" where
  "named name lower n \<longleftrightarrow> sn_serialized_name n = name \<or> sn_qualified_name n = Some name \<or> lower \<in> set (tail_variants n)"

definition contains_name :: "string \<Rightarrow> SemanticCandidateNode \<Rightarrow> bool" where
  "contains_name lower n \<longleftrightarrow> contains_str (sn_serialized_name_ascii_lower n) lower
     \<or> (case sn_qualified_name_ascii_lower n of Some q \<Rightarrow> contains_str q lower | None \<Rightarrow> False)"

definition admissible :: "32 word list \<Rightarrow> string option \<Rightarrow> SemanticCandidateNode \<Rightarrow> bool" where
  "admissible kinds language n \<longleftrightarrow> sn_kind n \<in> set kinds
     \<and> compatible_language_families (map_option language_family_bucket language) (sn_language_family n)"

lemma push_offsets_inv:
  assumes "distinct (map sn_id out)" and "set out \<subseteq> {n \<in> set (si_nodes index). p n}" and "length out \<le> limit"
    and "\<And>i. i \<in> set os \<Longrightarrow> i < length (si_nodes index) \<Longrightarrow> sn_kind (si_nodes index ! i) \<in> set kinds \<Longrightarrow>
      compatible_language_families family (sn_language_family (si_nodes index ! i)) \<Longrightarrow> p (si_nodes index ! i)"
  shows "distinct (map sn_id (fold (push_offset index kinds family limit) os out))
    \<and> set (fold (push_offset index kinds family limit) os out) \<subseteq> {n \<in> set (si_nodes index). p n}
    \<and> length (fold (push_offset index kinds family limit) os out) \<le> limit"
  using assms
proof (induction os arbitrary: out)
  case (Cons i os)
  have "distinct (map sn_id (push_offset index kinds family limit i out))
      \<and> set (push_offset index kinds family limit i out) \<subseteq> {n \<in> set (si_nodes index). p n}
      \<and> length (push_offset index kinds family limit i out) \<le> limit"
    using Cons.prems by (auto simp: push_offset_def Let_def)
  with Cons show ?case by simp
qed simp

lemma fuzzy_scan_inv:
  assumes "distinct (map sn_id out)" and "set out \<subseteq> A" and "length out \<le> max 1 limit"
    and "\<And>n. n \<in> set ns \<Longrightarrow> compatible n \<Longrightarrow> contains n \<Longrightarrow> n \<in> A"
  shows "distinct (map sn_id (fuzzy_scan limit compatible contains out ns))
    \<and> set (fuzzy_scan limit compatible contains out ns) \<subseteq> A
    \<and> (length out < limit \<or> out = [] \<longrightarrow> length (fuzzy_scan limit compatible contains out ns) \<le> max 1 limit)"
  using assms
  by (induction limit compatible contains out ns rule: fuzzy_scan.induct) auto

lemma fuzzy_kinds_inv:
  assumes "distinct (map sn_id out)" and "set out \<subseteq> A" and "length out < limit \<or> out = []"
    and "\<forall>k \<in> set ks. \<forall>os. si_nodes_by_kind index k = Some os \<longrightarrow>
      {n \<in> set (semantic_nodes_at index os). compatible n \<and> contains n} \<subseteq> A"
  shows "distinct (map sn_id (fuzzy_kinds index limit compatible contains out ks))
    \<and> set (fuzzy_kinds index limit compatible contains out ks) \<subseteq> A
    \<and> length (fuzzy_kinds index limit compatible contains out ks) \<le> max 1 limit"
  using assms
proof (induction ks arbitrary: out)
  case Nil
  then show ?case by auto
next
  case (Cons k ks)
  show ?case
  proof (cases "si_nodes_by_kind index k")
    case None
    with Cons.IH [OF Cons.prems(1-3)] Cons.prems(4) show ?thesis by simp
  next
    case (Some os)
    let ?out = "fuzzy_scan limit compatible contains out (semantic_nodes_at index os)"
    have "distinct (map sn_id ?out) \<and> set ?out \<subseteq> A \<and> length ?out \<le> max 1 limit"
      using fuzzy_scan_inv [OF Cons.prems(1,2), of limit "semantic_nodes_at index os" compatible contains]
        Cons.prems(3,4) Some by fastforce
    with Cons.IH [of ?out] Cons.prems(4) Some show ?thesis
      by (cases "limit \<le> length ?out") (simp_all add: Let_def not_le)
  qed
qed

lemma nodes_for_name_sound:
  "let found = nodes_for_name (semantic_from_nodes nodes) kinds name lower language fuzzy limit in
     set found \<subseteq> {n \<in> set nodes. admissible kinds language n \<and> (named name lower n \<or> fuzzy \<and> contains_name lower n)}
     \<and> distinct (map sn_id found) \<and> length found \<le> max 1 limit"
proof -
  let ?index = "semantic_from_nodes nodes"
  let ?family = "map_option language_family_bucket language"
  let ?offsets = "(case si_serialized_exact ?index name of Some os \<Rightarrow> os | None \<Rightarrow> [])
    @ (case si_qualified_exact ?index name of Some os \<Rightarrow> os | None \<Rightarrow> [])
    @ (case si_tail_ascii_lower ?index lower of Some os \<Rightarrow> os | None \<Rightarrow> [])"
  let ?out = "fold (push_offset ?index kinds ?family limit) ?offsets []"
  let ?A = "{n \<in> set nodes. admissible kinds language n \<and> (named name lower n \<or> fuzzy \<and> contains_name lower n)}"
  have out: "distinct (map sn_id ?out) \<and> set ?out \<subseteq> ?A \<and> length ?out \<le> limit"
  proof -
    have offs: "named name lower (nodes ! i)" if "i \<in> set ?offsets" for i
    proof -
      from that consider "i \<in> set (case si_serialized_exact ?index name of Some os \<Rightarrow> os | None \<Rightarrow> [])"
        | "i \<in> set (case si_qualified_exact ?index name of Some os \<Rightarrow> os | None \<Rightarrow> [])"
        | "i \<in> set (case si_tail_ascii_lower ?index lower of Some os \<Rightarrow> os | None \<Rightarrow> [])"
        unfolding set_append by blast
      then show ?thesis
        using points_atD [OF semantic_points(3)] points_atD [OF semantic_points(4)] points_atD [OF semantic_points(5)]
        unfolding named_def by cases blast+
    qed
    then show ?thesis
      using push_offsets_inv [of "[]" ?index "\<lambda>n. admissible kinds language n \<and> (named name lower n \<or> fuzzy \<and> contains_name lower n)"
          limit ?offsets kinds ?family]
      by (simp add: admissible_def semantic_points(1))
  qed
  show ?thesis
  proof (cases "fuzzy \<and> ?out = []")
    case True
    have "n \<in> ?A" if "k \<in> set kinds" and "si_nodes_by_kind ?index k = Some os" and "n \<in> set (semantic_nodes_at ?index os)"
      and "compatible_language_families ?family (sn_language_family n)" and "contains_name lower n" for k os n
    proof -
      from that(3) obtain i where "i \<in> set os" "n = nodes ! i"
        by (auto simp: semantic_nodes_at_def map_filter_def semantic_points(1) split: if_splits)
      with that(2) have "n \<in> set nodes" "sn_kind n = k"
        using semantic_points(2) [of nodes] by (auto simp: points_at_def)
      with that True show ?thesis by (simp add: admissible_def)
    qed
    then have "distinct (map sn_id (fuzzy_kinds ?index limit (\<lambda>n. compatible_language_families ?family (sn_language_family n))
          (contains_name lower) [] kinds))
        \<and> set (fuzzy_kinds ?index limit (\<lambda>n. compatible_language_families ?family (sn_language_family n))
          (contains_name lower) [] kinds) \<subseteq> ?A
        \<and> length (fuzzy_kinds ?index limit (\<lambda>n. compatible_language_families ?family (sn_language_family n))
          (contains_name lower) [] kinds) \<le> max 1 limit"
      by (intro fuzzy_kinds_inv) (simp_all add: subset_iff)
    with True show ?thesis by (simp add: nodes_for_name_def Let_def contains_name_def [abs_def])
  next
    case False
    with out show ?thesis by (auto simp: nodes_for_name_def Let_def)
  qed
qed

text \<open>C30: a semantic search never strays: it returns distinct graph nodes of the requested kinds, of the
  caller's language family or of none, that carry the name or its last component or, in a fuzzy
  search that found none of those, contain it, and no more of them than the limit, or one where it is 0.\<close>

theorem semantic_search_admissible:
  "let found = nodes_for_name (semantic_from_nodes nodes) kinds name lower language fuzzy limit in
     set found \<subseteq> {n \<in> set nodes. admissible kinds language n \<and> (named name lower n \<or> fuzzy \<and> contains_name lower n)}
     \<and> distinct (map sn_id found) \<and> length found \<le> max 1 limit"
  by (rule nodes_for_name_sound)

section \<open>Certainty of the fallback\<close>

lemma certain_lit: "from_confidence (Some (f32_lit k)) = Some Certain \<longleftrightarrow> 28521268 \<le> k"
proof -
  have "f32_ge (f32_lit k) CERTAIN_MIN \<longleftrightarrow> (28521268 :: rat) \<le> of_nat k"
    by (simp add: f32_lit_def CERTAIN_MIN_def field_simps)
  also have "\<dots> \<longleftrightarrow> 28521268 \<le> k"
    by (metis of_nat_le_iff of_nat_numeral)
  finally show ?thesis by (simp add: from_confidence_def)
qed

lemma probable_not_certain: "from_confidence (Some PROBABLE_MIN) = Some Probable"
  by (simp add: from_confidence_def CERTAIN_MIN_def PROBABLE_MIN_def)

lemma import_candidate_confidence:
  "c \<in> set (resolve_import_candidates index kinds symbol file_id language conf) \<Longrightarrow> sc_confidence c = conf"
  by (auto simp: resolve_import_candidates_def to_candidates_def)

lemma call_candidate_cases:
  assumes "c \<in> set (resolve_call_candidates index kinds call_name file_id language same_file global)"
  obtains (same_file) n where "sc_confidence c = same_file" "sc_target_node_id c = sn_id n"
      "n \<in> set (nodes_for_name index kinds call_name (to_ascii_lowercase call_name) language False 3)"
      "file_id \<noteq> None" "sn_file_node_id n = file_id"
  | (global) n where "sc_confidence c = global" "sc_target_node_id c = sn_id n"
      "n \<in> set (nodes_for_name index kinds call_name (to_ascii_lowercase call_name) language False 3)"
  using assms by (auto simp: resolve_call_candidates_def Let_def to_candidates_def split: if_splits option.splits)

text \<open>
  An answer of a resolver is certain only for a call, from a resolver whose same-file confidence
  is, and then it is in the caller's file.
\<close>

lemma call_certain:
  assumes "c \<in> set (resolve_call_candidates (semantic_from_nodes nodes) kinds call_name file_id language (f32_lit s) (f32_lit g))"
    and "from_confidence (Some (sc_confidence c)) = Some Certain" and "g < 28521268"
  shows "28521268 \<le> s \<and> (\<exists>n \<in> set nodes. sn_id n = sc_target_node_id c \<and> file_id \<noteq> None \<and> sn_file_node_id n = file_id)"
  using assms(1)
proof (cases rule: call_candidate_cases)
  case (same_file n)
  have "n \<in> set nodes"
    using nodes_for_name_sound [of nodes kinds call_name "to_ascii_lowercase call_name" language False 3] same_file(3)
    by (auto simp: Let_def)
  with same_file assms(2) show ?thesis by (auto simp: certain_lit)
next
  case (global n)
  with assms(2,3) show ?thesis by (simp add: certain_lit)
qed

lemmas resolve_import_defs = c_resolve_import_def cpp_resolve_import_def javascript_resolve_import_def
  python_resolve_import_def rust_resolve_import_def typescript_resolve_import_def java_resolve_import_def
  go_resolve_import_def ruby_resolve_import_def php_resolve_import_def csharp_resolve_import_def
  generic_resolve_import_def

lemmas resolve_call_defs = c_resolve_call_def cpp_resolve_call_def javascript_resolve_call_def
  python_resolve_call_def rust_resolve_call_def typescript_resolve_call_def java_resolve_call_def
  go_resolve_call_def ruby_resolve_call_def php_resolve_call_def csharp_resolve_call_def
  generic_resolve_call_def

lemma resolver_import_not_certain:
  assumes "c \<in> set (fst (resolver_operations r) index request)"
  shows "from_confidence (Some (sc_confidence c)) \<noteq> Some Certain"
  using assms
  by (cases r) (auto simp: resolve_import_defs Let_def certain_lit probable_not_certain
      dest!: import_candidate_confidence split: option.splits if_splits)

lemma resolver_call_certain:
  assumes "c \<in> set (snd (resolver_operations r) (semantic_from_nodes nodes) request)"
    and "from_confidence (Some (sc_confidence c)) = Some Certain"
  shows "r \<in> {ResolverJava, ResolverTypeScript} \<and> (\<exists>n \<in> set nodes. sn_id n = sc_target_node_id c
    \<and> rq_file_id request \<noteq> None \<and> sn_file_node_id n = rq_file_id request)"
  using assms
  by (cases r) (auto simp: resolve_call_defs dest!: call_certain split: option.splits if_splits)

text \<open>C31: the semantic fallback is certain only about the caller's own file: an answer whose confidence
  counts as certain answers a call made in a Java or TypeScript file, and its target is a graph node
  of that very file; every import and every answer from elsewhere stays below.\<close>

theorem semantic_certain_only_same_file:
  assumes "c \<in> set (registry_resolve enabled (semantic_from_nodes nodes) request)"
    and "from_confidence (Some (sc_confidence c)) = Some Certain"
  shows "rq_edge_kind request = EK_CALL
    \<and> detect_resolver_language (rq_file_path request) \<in> {Some ''java'', Some ''typescript''}
    \<and> (\<exists>n \<in> set nodes. sn_id n = sc_target_node_id c
        \<and> rq_file_id request \<noteq> None \<and> sn_file_node_id n = rq_file_id request)"
proof -
  from assms(1) obtain r where r: "semantic_resolver_for_path (rq_file_path request) = Some r"
    and c: "c \<in> set (resolver_resolve r (semantic_from_nodes nodes) request)"
    by (cases "semantic_resolver_for_path (rq_file_path request)") (auto simp: registry_resolve_def split: if_splits)
  have call: "rq_edge_kind request = EK_CALL" and "c \<in> set (snd (resolver_operations r) (semantic_from_nodes nodes) request)"
    using c resolver_import_not_certain assms(2) by (auto simp: resolver_resolve_def split: EdgeKind.splits)
  from resolver_call_certain [OF this(2) assms(2)] have java: "r \<in> {ResolverJava, ResolverTypeScript}"
    and node: "\<exists>n \<in> set nodes. sn_id n = sc_target_node_id c
        \<and> rq_file_id request \<noteq> None \<and> sn_file_node_id n = rq_file_id request" by blast+
  from r obtain l where l: "detect_resolver_language (rq_file_path request) = Some l"
    and "map_of RESOLVER_BY_LANGUAGE l = Some r"
    by (auto simp: semantic_resolver_for_path_def split: option.splits)
  then have "(l, r) \<in> set RESOLVER_BY_LANGUAGE" by (simp add: map_of_SomeD)
  with java have "l \<in> {''java'', ''typescript''}" by (auto simp: RESOLVER_BY_LANGUAGE_def)
  with call node l show ?thesis by auto
qed

text \<open>A Java file with one method, asked from that file.\<close>

definition example_semantic_node :: SemanticCandidateNode where
  "example_semantic_node = \<lparr>sn_id = 7, sn_kind = node_kind_as_i32 NK_METHOD, sn_serialized_name = ''run'',
     sn_serialized_name_ascii_lower = ''run'', sn_qualified_name = None, sn_qualified_name_ascii_lower = None,
     sn_file_node_id = Some 1, sn_language_family = Some ''java''\<rparr>"

lemma example_language: "detect_resolver_language (Some ''A.java'') = Some ''java''"
  by (simp add: detect_resolver_language_def parser_backed_language_name_for_path_def language_support_profile_for_path_def
      last_piece_def rsplit_once_def language_support_profile_for_ext_def Let_def trim_visible trim_start_matches_def
      LANGUAGE_SUPPORT_PROFILES_def parser_profile_def eq_ignore_ascii_case_def to_ascii_lowercase_def ascii_lower_def
      byte_def visible_def)

lemma example_search:
  "nodes_for_name (semantic_from_nodes [example_semantic_node])
     [node_kind_as_i32 NK_METHOD, node_kind_as_i32 NK_FUNCTION] ''run'' (to_ascii_lowercase ''run'') (Some ''java'') False 3
   = [example_semantic_node]"
  by (simp add: nodes_for_name_def semantic_from_nodes_def index_semantic_node_def push_entry_def Let_def
      example_semantic_node_def tail_variants_def push_offset_def compatible_language_families_def
      language_family_bucket_def tail_component_def)

lemma example_answer:
  "registry_resolve True (semantic_from_nodes [example_semantic_node])
     \<lparr>rq_edge_kind = EK_CALL, rq_file_id = Some 1, rq_file_path = Some ''A.java'', rq_target_name = ''run''\<rparr>
   = [\<lparr>sc_target_node_id = 7, sc_confidence = f32_lit 29863444\<rparr>]"
  using example_search
  by (simp add: registry_resolve_def semantic_resolver_for_path_def example_language RESOLVER_BY_LANGUAGE_def
      resolver_resolve_def java_resolve_call_def request_target_def non_empty_trimmed_def Let_def trim_visible visible_def
      byte_def call_target_name_def rsplit_once_def request_language_def resolve_call_candidates_def to_candidates_def
      example_semantic_node_def)

theorem semantic_certain_only_same_file_witness:
  "registry_resolve True (semantic_from_nodes [example_semantic_node])
     \<lparr>rq_edge_kind = EK_CALL, rq_file_id = Some 1, rq_file_path = Some ''A.java'', rq_target_name = ''run''\<rparr>
   = [\<lparr>sc_target_node_id = 7, sc_confidence = f32_lit 29863444\<rparr>]
   \<and> detect_resolver_language (Some ''A.java'') \<in> {Some ''java'', Some ''typescript''}"
  using example_answer semantic_certain_only_same_file
    [of "\<lparr>sc_target_node_id = 7, sc_confidence = f32_lit 29863444\<rparr>" True "[example_semantic_node]"
      "\<lparr>rq_edge_kind = EK_CALL, rq_file_id = Some 1, rq_file_path = Some ''A.java'', rq_target_name = ''run''\<rparr>"]
  by (simp add: certain_lit)

end
