(* ===== verification/Edge_Resolution.thy ===== *)
theory Edge_Resolution
  imports Candidate_Index Semantic_Resolvers
begin

text \<open>
  Choosing the target of one unresolved edge
  (\<^verbatim>\<open>resolution/candidate_selection.rs\<close> and the helpers of \<^verbatim>\<open>resolution/mod.rs\<close>): the
  confidence policy, the ordered candidate ids, the strategies of calls and of imports in the order
  the code tries them, and the deduplicated semantic requests of a batch of rows. The candidate
  payload of an update is the JSON text of an id list; it is kept here as that list, whose encoding
  cannot fail.
\<close>

section \<open>Policy, strategies and updates\<close>

record ResolutionFlags =
  rf_legacy_mode :: bool
  rf_enable_semantic :: bool
  rf_store_candidates :: bool
  rf_parallel_compute :: bool

record ResolutionPolicy =
  rp_call_same_file :: f32
  rp_call_same_module :: f32
  rp_call_global_unique :: f32
  rp_import_same_file :: f32
  rp_import_same_module :: f32
  rp_import_global_unique :: f32
  rp_import_fuzzy :: f32
  rp_min_call_confidence :: f32

text \<open>The literals 0.95, 0.80, 0.60, 0.90, 0.70, 0.50, 0.30, 0.40 and 0.95, 0.80, 0.62, 0.90, 0.75, 0.55, 0.35.\<close>

definition policy_for_flags :: "ResolutionFlags \<Rightarrow> ResolutionPolicy" where
  "policy_for_flags flags =
     (if rf_legacy_mode flags
      then \<lparr>rp_call_same_file = f32_lit 31876710, rp_call_same_module = f32_lit 26843546,
            rp_call_global_unique = f32_lit 20132660, rp_import_same_file = f32_lit 30198988,
            rp_import_same_module = f32_lit 23488102, rp_import_global_unique = f32_lit 16777216,
            rp_import_fuzzy = f32_lit 10066330, rp_min_call_confidence = f32_lit 13421773\<rparr>
      else \<lparr>rp_call_same_file = f32_lit 31876710, rp_call_same_module = f32_lit 26843546,
            rp_call_global_unique = f32_lit 20803748, rp_import_same_file = f32_lit 30198988,
            rp_import_same_module = f32_lit 25165824, rp_import_global_unique = f32_lit 18454938,
            rp_import_fuzzy = f32_lit 11744051, rp_min_call_confidence = PROBABLE_MIN\<rparr>)"

record ResolutionPass =
  ps_flags :: ResolutionFlags
  ps_policy :: ResolutionPolicy

definition pass_new :: "ResolutionFlags \<Rightarrow> ResolutionPass" where
  "pass_new flags = \<lparr>ps_flags = flags, ps_policy = policy_for_flags flags\<rparr>"

datatype ResolutionStrategy =
    CallSameFile | CallSameModule | CallGlobalUnique | CallSemanticFallback
  | ImportSameFile | ImportSameModule | ImportGlobalUnique | ImportFuzzy | ImportSemanticFallback

record ResolvedEdgeUpdate =
  ru_edge_id :: int
  ru_resolved_target_node_id :: "int option"
  ru_confidence :: "f32 option"
  ru_certainty :: "string option"
  ru_candidate_payload :: "int list option"
  ru_touch_metadata :: bool

record ComputedResolution =
  cr_update :: ResolvedEdgeUpdate
  cr_strategy :: "ResolutionStrategy option"

record UnresolvedEdgeRow =
  ue_edge_id :: int
  ue_file_id :: "int option"
  ue_caller_qualified :: "string option"
  ue_source_name :: string
  ue_target_name :: string
  ue_target_node_id :: int
  ue_caller_file_path :: "string option"
  ue_callsite_identity :: "string option"

definition candidate_json :: "int list \<Rightarrow> int list option" where
  "candidate_json candidates = (if candidates = [] then None else Some candidates)"

definition build_resolved_edge_update :: "int \<Rightarrow> (int \<times> f32) option \<Rightarrow> int list \<Rightarrow> ResolvedEdgeUpdate" where
  "build_resolved_edge_update edge_id selected candidates =
     (case selected of
        Some (target_id, confidence) \<Rightarrow>
          \<lparr>ru_edge_id = edge_id, ru_resolved_target_node_id = Some target_id, ru_confidence = Some confidence,
           ru_certainty = map_option certainty_as_str (from_confidence (Some confidence)),
           ru_candidate_payload = candidate_json candidates, ru_touch_metadata = True\<rparr>
      | None \<Rightarrow>
          \<lparr>ru_edge_id = edge_id, ru_resolved_target_node_id = None, ru_confidence = None, ru_certainty = None,
           ru_candidate_payload = candidate_json candidates, ru_touch_metadata = False\<rparr>)"

section \<open>Ordered candidate ids\<close>

record OrderedCandidateIds =
  oc_ordered :: "int list"
  oc_seen :: "int set"

definition ids_empty :: OrderedCandidateIds where
  "ids_empty = \<lparr>oc_ordered = [], oc_seen = {}\<rparr>"

definition ids_push :: "int \<Rightarrow> OrderedCandidateIds \<Rightarrow> OrderedCandidateIds" where
  "ids_push candidate ids =
     (if candidate \<in> oc_seen ids then ids
      else \<lparr>oc_ordered = oc_ordered ids @ [candidate], oc_seen = insert candidate (oc_seen ids)\<rparr>)"

text \<open>A limit of \<^verbatim>\<open>usize::MAX\<close> is never reached by a vector.\<close>

fun extend_loop :: "nat option \<Rightarrow> int list \<Rightarrow> OrderedCandidateIds \<Rightarrow> OrderedCandidateIds" where
  "extend_loop limit [] ids = ids"
| "extend_loop limit (c # cs) ids =
     (let ids' = ids_push c ids
      in if (case limit of Some l \<Rightarrow> length (oc_ordered ids') \<ge> l | None \<Rightarrow> False) then ids'
         else extend_loop limit cs ids')"

definition extend_stage :: "int list \<Rightarrow> nat option \<Rightarrow> OrderedCandidateIds \<Rightarrow> OrderedCandidateIds" where
  "extend_stage stage limit ids =
     (if (case limit of Some l \<Rightarrow> length (oc_ordered ids) \<ge> l | None \<Rightarrow> False) then ids
      else extend_loop limit stage ids)"

text \<open>The pool takes three matches of each name until it is full.\<close>

definition collect_candidate_pool_from_index ::
  "CandidateIndex \<Rightarrow> string list \<Rightarrow> nat \<Rightarrow> OrderedCandidateIds \<Rightarrow> OrderedCandidateIds" where
  "collect_candidate_pool_from_index index names limit ids =
     (if length (oc_ordered ids) \<ge> limit then ids
      else extend_loop (Some limit)
        (concat (map (\<lambda>name. top_matches_readonly index name (to_ascii_lowercase name) 3) names)) ids)"

definition store_push :: "ResolutionPass \<Rightarrow> int \<Rightarrow> OrderedCandidateIds \<Rightarrow> OrderedCandidateIds" where
  "store_push pass candidate ids = (if rf_store_candidates (ps_flags pass) then ids_push candidate ids else ids)"

section \<open>The best semantic candidate\<close>

record UnambiguousBestCandidate =
  ub_selected :: "(int \<times> f32) option"
  ub_tied_best :: bool

definition ub_default :: UnambiguousBestCandidate where
  "ub_default = \<lparr>ub_selected = None, ub_tied_best = False\<rparr>"

definition ub_consider :: "int \<Rightarrow> f32 \<Rightarrow> UnambiguousBestCandidate \<Rightarrow> UnambiguousBestCandidate" where
  "ub_consider candidate_id confidence b =
     (case ub_selected b of
        None \<Rightarrow> \<lparr>ub_selected = Some (candidate_id, confidence), ub_tied_best = False\<rparr>
      | Some (selected_id, selected_confidence) \<Rightarrow>
          if f32_gt confidence selected_confidence
          then \<lparr>ub_selected = Some (candidate_id, confidence), ub_tied_best = False\<rparr>
          else if f32_eq confidence selected_confidence \<and> candidate_id \<noteq> selected_id then b\<lparr>ub_tied_best := True\<rparr>
          else b)"

definition ub_result :: "UnambiguousBestCandidate \<Rightarrow> (int \<times> f32) option" where
  "ub_result b = (if ub_tied_best b then None else ub_selected b)"

definition consider_selected :: "int \<Rightarrow> f32 \<Rightarrow> (int \<times> f32) option \<Rightarrow> (int \<times> f32) option" where
  "consider_selected candidate_id confidence selected =
     (case selected of
        None \<Rightarrow> Some (candidate_id, confidence)
      | Some (i, existing) \<Rightarrow> if f32_gt confidence existing then Some (candidate_id, confidence) else selected)"

section \<open>Calls\<close>

definition is_member_call_placeholder :: "string option \<Rightarrow> bool" where
  "is_member_call_placeholder callsite \<longleftrightarrow>
     is_python_dotted_call_placeholder EK_CALL callsite \<or> is_cpp_member_call_placeholder EK_CALL callsite
     \<or> is_js_member_call_placeholder EK_CALL callsite \<or> is_ts_member_call_placeholder EK_CALL callsite
     \<or> is_kotlin_member_call_placeholder EK_CALL callsite \<or> is_dart_member_call_placeholder EK_CALL callsite
     \<or> is_swift_member_call_placeholder EK_CALL callsite \<or> is_go_selector_call_placeholder EK_CALL callsite
     \<or> is_java_member_call_placeholder EK_CALL callsite \<or> is_csharp_member_call_placeholder EK_CALL callsite
     \<or> is_ruby_member_call_placeholder EK_CALL callsite \<or> is_php_member_call_placeholder EK_CALL callsite"

type_synonym selection = "(int \<times> f32 \<times> ResolutionStrategy) option"

definition finish_resolution :: "UnresolvedEdgeRow \<Rightarrow> selection \<Rightarrow> OrderedCandidateIds \<Rightarrow> ComputedResolution" where
  "finish_resolution row selected ids =
     \<lparr>cr_update = build_resolved_edge_update (ue_edge_id row)
        (map_option (\<lambda>(candidate, confidence, _). (candidate, confidence)) selected) (oc_ordered ids),
      cr_strategy = map_option (\<lambda>(_, _, strategy). strategy) selected\<rparr>"

text \<open>What the first part of a call's resolution settles for the rest of it.\<close>

record call_context =
  cc_name :: string
  cc_common :: bool
  cc_qualified :: bool

definition call_name :: "UnresolvedEdgeRow \<Rightarrow> string" where
  "call_name row =
     (case receiver_owner_from_callsite (ue_callsite_identity row) of
        Some owner \<Rightarrow> owner @ ''.'' @ ue_target_name row | None \<Rightarrow> ue_target_name row)"

definition call_context_of :: "UnresolvedEdgeRow \<Rightarrow> call_context" where
  "call_context_of row =
     \<lparr>cc_name = call_name row, cc_common = is_common_unqualified_call (call_name row),
      cc_qualified = is_owner_qualified_call_name (call_name row)\<rparr>"

definition consider_semantic ::
  "ResolutionPass \<Rightarrow> UnresolvedEdgeRow \<Rightarrow> SemanticResolutionCandidate \<Rightarrow> OrderedCandidateIds \<times> UnambiguousBestCandidate \<Rightarrow>
     OrderedCandidateIds \<times> UnambiguousBestCandidate" where
  "consider_semantic pass row candidate acc = (case acc of (ids, fallback) \<Rightarrow>
     (store_push pass (sc_target_node_id candidate) ids,
      if \<not> is_common_unqualified_call (call_name row)
         \<or> should_keep_common_call_resolution (call_name row) (sc_confidence candidate) (ue_callsite_identity row)
      then ub_consider (sc_target_node_id candidate) (sc_confidence candidate) fallback else fallback))"

text \<open>One strategy: nothing once a target is selected; otherwise a candidate is stored and selected.\<close>

definition try_stage ::
  "ResolutionPass \<Rightarrow> bool \<Rightarrow> int option \<Rightarrow> f32 \<Rightarrow> ResolutionStrategy \<Rightarrow>
     selection \<times> OrderedCandidateIds \<Rightarrow> selection \<times> OrderedCandidateIds" where
  "try_stage pass enabled found confidence strategy acc = (case acc of (selected, ids) \<Rightarrow>
     if selected = None \<and> enabled then
       (case found of
          Some candidate \<Rightarrow> (Some (candidate, confidence, strategy), store_push pass candidate ids)
        | None \<Rightarrow> acc)
     else acc)"

definition same_module_stage ::
  "ResolutionPass \<Rightarrow> CandidateIndex \<Rightarrow> UnresolvedEdgeRow \<Rightarrow> call_context \<Rightarrow>
     selection \<times> OrderedCandidateIds \<Rightarrow> selection \<times> OrderedCandidateIds" where
  "same_module_stage pass index row cc acc = (case acc of (selected, ids) \<Rightarrow>
     if selected = None \<and> (\<not> cc_common cc \<or> rf_store_candidates (ps_flags pass)) then
       (case Option.bind (ue_caller_qualified row) module_prefix of
          None \<Rightarrow> acc
        | Some (prefix_text, delimiter) \<Rightarrow>
            (case find_same_module_readonly index prefix_text delimiter (cc_name cc) (to_ascii_lowercase (cc_name cc)) of
               None \<Rightarrow> acc
             | Some candidate \<Rightarrow>
                 (if cc_common cc then selected
                  else Some (candidate, rp_call_same_module (ps_policy pass), CallSameModule),
                  store_push pass candidate ids)))
     else acc)"

definition call_local_stages ::
  "ResolutionPass \<Rightarrow> CandidateIndex \<Rightarrow> UnresolvedEdgeRow \<Rightarrow> selection \<times> OrderedCandidateIds \<Rightarrow>
     selection \<times> OrderedCandidateIds" where
  "call_local_stages pass index row acc =
     (let cc = call_context_of row; name = cc_name cc; policy = ps_policy pass;
          acc = try_stage pass (\<not> cc_common cc)
            (if is_import_binding_node index (ue_target_node_id row) then Some (ue_target_node_id row) else None)
            (rp_call_same_file policy) CallSameFile acc;
          acc = try_stage pass (\<not> cc_common cc)
            (find_same_file_readonly index (ue_file_id row) name (to_ascii_lowercase name))
            (rp_call_same_file policy) CallSameFile acc
      in same_module_stage pass index row cc acc)"

definition call_global_stages ::
  "ResolutionPass \<Rightarrow> CandidateIndex \<Rightarrow> UnresolvedEdgeRow \<Rightarrow> selection \<times> OrderedCandidateIds \<Rightarrow>
     selection \<times> OrderedCandidateIds" where
  "call_global_stages pass index row acc =
     (let cc = call_context_of row; name = cc_name cc; policy = ps_policy pass;
          acc = try_stage pass (\<not> cc_common cc) (find_global_unique_exact_readonly index name)
            (if cc_qualified cc then rp_call_same_file policy else rp_call_global_unique policy) CallGlobalUnique acc;
          acc = try_stage pass (cc_qualified cc) (find_global_unique_owner_alias_readonly index name)
            (rp_call_same_file policy) CallGlobalUnique acc
      in (fst acc,
          if rf_store_candidates (ps_flags pass) \<and> fst acc = None
          then collect_candidate_pool_from_index index [name] 6 (snd acc) else snd acc))"

definition call_fallback_stage ::
  "UnresolvedEdgeRow \<Rightarrow> UnambiguousBestCandidate \<Rightarrow> selection \<Rightarrow> selection" where
  "call_fallback_stage row fallback selected =
     (let selected =
            (if selected = None \<and> \<not> is_owner_qualified_call_name (call_name row) then
               map_option (\<lambda>(candidate, confidence). (candidate, confidence, CallSemanticFallback)) (ub_result fallback)
             else selected)
      in case selected of
           Some (_, confidence, _) \<Rightarrow>
             if should_keep_common_call_resolution (call_name row) confidence (ue_callsite_identity row)
             then selected else None
         | None \<Rightarrow> None)"

definition call_stages ::
  "ResolutionPass \<Rightarrow> CandidateIndex \<Rightarrow> UnresolvedEdgeRow \<Rightarrow> UnambiguousBestCandidate \<Rightarrow>
     selection \<Rightarrow> OrderedCandidateIds \<Rightarrow> ComputedResolution" where
  "call_stages pass index row fallback selected ids =
     (let callsite = ue_callsite_identity row;
          (selected, ids) = call_local_stages pass index row (selected, ids)
      in if selected = None \<and> receiver_owner_from_callsite callsite \<noteq> None \<and> receiver_module_from_callsite callsite = None
         then finish_resolution row None ids
         else
           let (selected, ids) = call_global_stages pass index row (selected, ids)
           in finish_resolution row (call_fallback_stage row fallback selected) ids)"

definition compute_call_resolution ::
  "ResolutionPass \<Rightarrow> CandidateIndex \<Rightarrow> UnresolvedEdgeRow \<Rightarrow> SemanticResolutionCandidate list \<Rightarrow> ComputedResolution" where
  "compute_call_resolution pass index row semantic_candidates =
     (let callsite = ue_callsite_identity row;
          owner = receiver_owner_from_callsite callsite;
          module_name = receiver_module_from_callsite callsite
      in if is_member_call_placeholder callsite \<and> owner = None then finish_resolution row None ids_empty
         else
           let (ids, fallback) = fold (consider_semantic pass row) semantic_candidates (ids_empty, ub_default)
           in case (owner, module_name) of
                (Some owner_name, Some module_name) \<Rightarrow>
                  (case find_imported_owner_member_readonly index (ue_caller_file_path row) module_name owner_name
                          (ue_target_name row) of
                     None \<Rightarrow> finish_resolution row None ids
                   | Some candidate \<Rightarrow>
                       call_stages pass index row fallback
                         (Some (candidate, rp_call_same_file (ps_policy pass), CallGlobalUnique))
                         (store_push pass candidate ids))
              | _ \<Rightarrow> call_stages pass index row fallback None ids)"

section \<open>Imports\<close>

record import_stages =
  is_same_file_stage :: OrderedCandidateIds
  is_same_module_stage :: OrderedCandidateIds
  is_global_stage :: OrderedCandidateIds
  is_fuzzy_stage :: OrderedCandidateIds
  is_same_file :: "int option"
  is_same_module :: "int option"
  is_global :: "int option"
  is_fuzzy :: "int option"

definition import_stages_empty :: import_stages where
  "import_stages_empty = \<lparr>is_same_file_stage = ids_empty, is_same_module_stage = ids_empty, is_global_stage = ids_empty,
     is_fuzzy_stage = ids_empty, is_same_file = None, is_same_module = None, is_global = None, is_fuzzy = None\<rparr>"

definition other_file :: "CandidateIndex \<Rightarrow> UnresolvedEdgeRow \<Rightarrow> int \<Rightarrow> int option" where
  "other_file index row candidate =
     (if is_same_file_candidate index candidate (ue_file_id row) then None else Some candidate)"

definition import_module_step ::
  "CandidateIndex \<Rightarrow> UnresolvedEdgeRow \<Rightarrow> string \<Rightarrow> import_stages \<Rightarrow> import_stages" where
  "import_module_step index row name st =
     (case (if is_same_module st = None then
              Option.bind (Option.bind (ue_caller_qualified row) module_prefix)
                (\<lambda>(prefix_text, delimiter). find_same_module_readonly index prefix_text delimiter name (to_ascii_lowercase name))
            else None) of
        None \<Rightarrow> st
      | Some c \<Rightarrow> st\<lparr>is_same_module_stage := ids_push c (is_same_module_stage st), is_same_module := other_file index row c\<rparr>)"

definition import_global_step ::
  "CandidateIndex \<Rightarrow> UnresolvedEdgeRow \<Rightarrow> string \<Rightarrow> import_stages \<Rightarrow> import_stages" where
  "import_global_step index row name st =
     (case (if is_global st = None then find_global_unique_readonly index name (to_ascii_lowercase name) else None) of
        None \<Rightarrow> st
      | Some c \<Rightarrow> st\<lparr>is_global_stage := ids_push c (is_global_stage st), is_global := other_file index row c\<rparr>)"

definition import_fuzzy_step ::
  "CandidateIndex \<Rightarrow> UnresolvedEdgeRow \<Rightarrow> string \<Rightarrow> import_stages \<Rightarrow> import_stages" where
  "import_fuzzy_step index row name st =
     (case (if is_fuzzy st = None then find_fuzzy_readonly index name (to_ascii_lowercase name) else None) of
        None \<Rightarrow> st
      | Some c \<Rightarrow> st\<lparr>is_fuzzy_stage := ids_push c (is_fuzzy_stage st), is_fuzzy := other_file index row c\<rparr>)"

fun import_loop ::
  "ResolutionPass \<Rightarrow> CandidateIndex \<Rightarrow> UnresolvedEdgeRow \<Rightarrow> string list \<Rightarrow> import_stages \<Rightarrow> import_stages" where
  "import_loop pass index row [] st = st"
| "import_loop pass index row (name # names) st =
     (case (if rf_legacy_mode (ps_flags pass) \<and> is_same_file st = None
            then find_same_file_readonly index (ue_file_id row) name (to_ascii_lowercase name) else None) of
        Some c \<Rightarrow> st\<lparr>is_same_file_stage := ids_push c (is_same_file_stage st), is_same_file := Some c\<rparr>
      | None \<Rightarrow>
          let st = import_global_step index row name (import_module_step index row name st);
              st = (if rf_legacy_mode (ps_flags pass) then st else import_fuzzy_step index row name st)
          in if is_same_module st \<noteq> None \<or> is_global st \<noteq> None \<or> is_fuzzy st \<noteq> None then st
             else import_loop pass index row names st)"

definition import_candidate_ids ::
  "ResolutionPass \<Rightarrow> CandidateIndex \<Rightarrow> string list \<Rightarrow> import_stages \<Rightarrow> OrderedCandidateIds \<Rightarrow> OrderedCandidateIds" where
  "import_candidate_ids pass index names st ids =
     (if \<not> rf_store_candidates (ps_flags pass) then ids
      else
        let legacy = rf_legacy_mode (ps_flags pass);
            ids = (if legacy \<and> is_same_file st \<noteq> None then extend_stage (oc_ordered (is_same_file_stage st)) None ids
              else
                let ids = extend_stage (oc_ordered (is_same_module_stage st)) None ids
                in if is_same_module st = None then
                     let ids = extend_stage (oc_ordered (is_global_stage st)) None ids
                     in if is_global st = None \<and> \<not> legacy then extend_stage (oc_ordered (is_fuzzy_stage st)) None ids
                        else ids
                   else ids)
        in collect_candidate_pool_from_index index names 8 ids)"

definition import_selection :: "ResolutionPass \<Rightarrow> int option \<Rightarrow> import_stages \<Rightarrow> selection" where
  "import_selection pass relative st =
     (let policy = ps_policy pass
      in case relative of Some c \<Rightarrow> Some (c, CERTAIN_MIN, ImportSameModule)
         | None \<Rightarrow> (case is_same_file st of Some c \<Rightarrow> Some (c, rp_import_same_file policy, ImportSameFile)
         | None \<Rightarrow> (case is_same_module st of Some c \<Rightarrow> Some (c, rp_import_same_module policy, ImportSameModule)
         | None \<Rightarrow> (case is_global st of Some c \<Rightarrow> Some (c, rp_import_global_unique policy, ImportGlobalUnique)
         | None \<Rightarrow> map_option (\<lambda>c. (c, rp_import_fuzzy policy, ImportFuzzy)) (is_fuzzy st)))))"

definition import_renames :: "UnresolvedEdgeRow \<Rightarrow> bool" where
  "import_renames row \<longleftrightarrow> import_alias_mismatch (ue_source_name row) (ue_target_name row)
     \<or> is_import_binding_name (ue_source_name row) \<and> is_relative_import_module_name (ue_target_name row)"

definition import_relative :: "CandidateIndex \<Rightarrow> UnresolvedEdgeRow \<Rightarrow> int option" where
  "import_relative index row =
     (if is_import_binding_name (ue_source_name row) \<and> is_relative_import_module_name (ue_target_name row)
      then find_relative_import_readonly index (ue_caller_file_path row) (ue_target_name row)
             (ue_source_name row) (to_ascii_lowercase (ue_source_name row))
      else None)"

definition import_fallback :: "SemanticResolutionCandidate list \<Rightarrow> (int \<times> f32) option" where
  "import_fallback candidates =
     fold (\<lambda>c. consider_selected (sc_target_node_id c) (sc_confidence c)) candidates None"

definition compute_import_resolution ::
  "ResolutionPass \<Rightarrow> CandidateIndex \<Rightarrow> UnresolvedEdgeRow \<Rightarrow> SemanticResolutionCandidate list \<Rightarrow> ComputedResolution" where
  "compute_import_resolution pass index row semantic_candidates =
     (let names = import_name_candidates (ue_target_name row) (rf_legacy_mode (ps_flags pass));
          ids = fold (\<lambda>c. store_push pass (sc_target_node_id c)) semantic_candidates ids_empty;
          relative = import_relative index row;
          ids = (case relative of Some c \<Rightarrow> store_push pass c ids | None \<Rightarrow> ids);
          st = import_loop pass index row names import_stages_empty;
          ids = import_candidate_ids pass index names st ids;
          selected = import_selection pass relative st;
          selected = (if import_renames row \<and> relative = None
              \<and> \<not> (case selected of Some (_, _, s) \<Rightarrow> s = ImportSameFile | None \<Rightarrow> False)
            then None else selected);
          selected = (if selected = None \<and> \<not> import_renames row
            then map_option (\<lambda>(c, confidence). (c, confidence, ImportSemanticFallback)) (import_fallback semantic_candidates)
            else selected)
      in finish_resolution row selected ids)"

section \<open>The order of the strategies\<close>

text \<open>
  What a call resolves to, without the bookkeeping: the first target of a list of strategies. A
  receiver with a known module is looked up there and nowhere else, one with only a known owner
  stays within the file and the module, and a common name is left to a certain fallback.
\<close>

definition candidate_of :: "f32 \<Rightarrow> ResolutionStrategy \<Rightarrow> int option \<Rightarrow> selection" where
  "candidate_of confidence strategy found = map_option (\<lambda>c. (c, confidence, strategy)) found"

definition local_choice :: "ResolutionPass \<Rightarrow> CandidateIndex \<Rightarrow> UnresolvedEdgeRow \<Rightarrow> selection" where
  "local_choice pass index row =
     (let name = call_name row; lower = to_ascii_lowercase name; policy = ps_policy pass
      in or_else (candidate_of (rp_call_same_file policy) CallSameFile
             (if is_import_binding_node index (ue_target_node_id row) then Some (ue_target_node_id row) else None))
           (or_else (candidate_of (rp_call_same_file policy) CallSameFile
                (find_same_file_readonly index (ue_file_id row) name lower))
             (candidate_of (rp_call_same_module policy) CallSameModule
                (Option.bind (Option.bind (ue_caller_qualified row) module_prefix)
                  (\<lambda>(p, d). find_same_module_readonly index p d name lower)))))"

definition global_choice :: "ResolutionPass \<Rightarrow> CandidateIndex \<Rightarrow> UnresolvedEdgeRow \<Rightarrow> selection" where
  "global_choice pass index row =
     (let name = call_name row; qualified = is_owner_qualified_call_name name; policy = ps_policy pass
      in or_else (candidate_of (if qualified then rp_call_same_file policy else rp_call_global_unique policy) CallGlobalUnique
             (find_global_unique_exact_readonly index name))
           (if qualified then candidate_of (rp_call_same_file policy) CallGlobalUnique
               (find_global_unique_owner_alias_readonly index name)
            else None))"

definition fallback_choice ::
  "UnresolvedEdgeRow \<Rightarrow> SemanticResolutionCandidate list \<Rightarrow> selection" where
  "fallback_choice row candidates =
     (let name = call_name row;
          kept = filter (\<lambda>c. should_keep_common_call_resolution name (sc_confidence c) (ue_callsite_identity row)) candidates
      in if is_owner_qualified_call_name name then None
         else map_option (\<lambda>(c, confidence). (c, confidence, CallSemanticFallback))
           (ub_result (fold (\<lambda>c. ub_consider (sc_target_node_id c) (sc_confidence c)) kept ub_default)))"

definition call_choice ::
  "ResolutionPass \<Rightarrow> CandidateIndex \<Rightarrow> UnresolvedEdgeRow \<Rightarrow> SemanticResolutionCandidate list \<Rightarrow> selection" where
  "call_choice pass index row candidates =
     (let callsite = ue_callsite_identity row
      in case (receiver_owner_from_callsite callsite, receiver_module_from_callsite callsite) of
           (Some owner, Some module_name) \<Rightarrow>
             candidate_of (rp_call_same_file (ps_policy pass)) CallGlobalUnique
               (find_imported_owner_member_readonly index (ue_caller_file_path row) module_name owner (ue_target_name row))
         | (Some owner, None) \<Rightarrow> local_choice pass index row
         | (None, _) \<Rightarrow>
             if is_member_call_placeholder callsite then None
             else if is_common_unqualified_call (call_name row) then fallback_choice row candidates
             else or_else (local_choice pass index row)
               (or_else (global_choice pass index row) (fallback_choice row candidates)))"

lemma fst_try_stage [simp]:
  "fst (try_stage pass enabled found confidence strategy acc) =
     (if enabled then or_else (fst acc) (candidate_of confidence strategy found) else fst acc)"
  by (auto simp: try_stage_def or_else_def candidate_of_def split: prod.splits option.splits)

lemma fst_same_module_stage [simp]:
  "fst (same_module_stage pass index row cc acc) =
     (if cc_common cc then fst acc
      else or_else (fst acc) (candidate_of (rp_call_same_module (ps_policy pass)) CallSameModule
        (Option.bind (Option.bind (ue_caller_qualified row) module_prefix)
          (\<lambda>(p, d). find_same_module_readonly index p d (cc_name cc) (to_ascii_lowercase (cc_name cc))))))"
  by (cases "Option.bind (ue_caller_qualified row) module_prefix")
    (auto simp: same_module_stage_def or_else_def candidate_of_def simp del: bind_assoc split: prod.splits option.splits)

lemma or_else_simps [simp]: "or_else None y = y" "or_else (Some a) y = Some a" "or_else x None = x"
    "or_else (or_else x y) z = or_else x (or_else y z)"
  by (auto simp: or_else_def split: option.splits)

lemma fst_local_stages:
  "fst (call_local_stages pass index row acc) =
     (if is_common_unqualified_call (call_name row) then fst acc else or_else (fst acc) (local_choice pass index row))"
  by (simp add: call_local_stages_def local_choice_def Let_def call_context_of_def)

lemma qualified_not_common: "is_owner_qualified_call_name name \<Longrightarrow> \<not> is_common_unqualified_call name"
  by (auto simp: is_owner_qualified_call_name_def is_common_unqualified_call_def)

lemma fst_global_stages:
  "fst (call_global_stages pass index row acc) =
     (if is_common_unqualified_call (call_name row) then fst acc else or_else (fst acc) (global_choice pass index row))"
  using qualified_not_common [of "call_name row"]
  by (auto simp: call_global_stages_def global_choice_def Let_def call_context_of_def)

lemma snd_consider_semantic:
  "snd (fold (consider_semantic pass row) candidates acc) =
     fold (\<lambda>c. ub_consider (sc_target_node_id c) (sc_confidence c))
       (filter (\<lambda>c. should_keep_common_call_resolution (call_name row) (sc_confidence c) (ue_callsite_identity row)) candidates)
       (snd acc)"
  by (induction candidates arbitrary: acc)
    (auto simp: consider_semantic_def should_keep_common_call_resolution_def split: prod.splits)

text \<open>The fallback only ever holds a candidate it was shown.\<close>

lemma ub_consider_selected:
  "ub_selected (fold (\<lambda>c. ub_consider (sc_target_node_id c) (sc_confidence c)) cs b) \<in>
     {ub_selected b} \<union> (\<lambda>c. Some (sc_target_node_id c, sc_confidence c)) ` set cs"
proof (induction cs arbitrary: b)
  case (Cons c cs)
  have "ub_selected (ub_consider (sc_target_node_id c) (sc_confidence c) b) \<in>
      {ub_selected b, Some (sc_target_node_id c, sc_confidence c)}"
    by (auto simp: ub_consider_def split: option.splits)
  with Cons.IH [of "ub_consider (sc_target_node_id c) (sc_confidence c) b"] show ?case by auto
qed simp

lemma fallback_choice_kept:
  assumes "fallback_choice row candidates = Some (c, confidence, strategy)"
  shows "should_keep_common_call_resolution (call_name row) confidence (ue_callsite_identity row)
    \<and> strategy = CallSemanticFallback \<and> c \<in> sc_target_node_id ` set candidates"
proof -
  let ?kept = "filter (\<lambda>c. should_keep_common_call_resolution (call_name row) (sc_confidence c) (ue_callsite_identity row)) candidates"
  let ?b = "fold (\<lambda>c. ub_consider (sc_target_node_id c) (sc_confidence c)) ?kept ub_default"
  have "ub_selected ?b = Some (c, confidence)" and "strategy = CallSemanticFallback"
    using assms by (auto simp: fallback_choice_def Let_def ub_result_def split: if_splits)
  with ub_consider_selected [of ?kept ub_default] show ?thesis
    by (auto simp: ub_default_def)
qed

lemma not_common_keeps:
  "\<not> is_common_unqualified_call name \<Longrightarrow> should_keep_common_call_resolution name confidence callsite"
  by (simp add: should_keep_common_call_resolution_def)

lemma fallback_stage_choice:
  assumes "fallback = snd (fold (consider_semantic pass row) candidates (ids0, ub_default))"
    and "selected = None \<or> \<not> is_common_unqualified_call (call_name row)"
  shows "call_fallback_stage row fallback selected = or_else selected (fallback_choice row candidates)"
proof (cases selected)
  case None
  have "(if is_owner_qualified_call_name (call_name row) then None
      else map_option (\<lambda>(c, confidence). (c, confidence, CallSemanticFallback)) (ub_result fallback))
    = fallback_choice row candidates"
    by (simp add: fallback_choice_def Let_def assms(1) snd_consider_semantic)
  moreover have "(case fallback_choice row candidates of
      Some (_, confidence, _) \<Rightarrow>
        if should_keep_common_call_resolution (call_name row) confidence (ue_callsite_identity row)
        then fallback_choice row candidates else None
    | None \<Rightarrow> None) = fallback_choice row candidates"
    by (auto dest: fallback_choice_kept split: option.splits prod.splits)
  ultimately show ?thesis
    using None by (cases "is_owner_qualified_call_name (call_name row)") (simp_all add: call_fallback_stage_def Let_def)
next
  case (Some a)
  with assms(2) show ?thesis
    by (cases a) (auto simp: call_fallback_stage_def Let_def not_common_keeps)
qed

lemma contains_str_middle: "contains_str (a @ p @ b) p"
proof (induction a)
  case Nil
  have "starts_with (p @ b) p" by (simp add: starts_with_prefix)
  then show ?case by (cases "p @ b") simp_all
qed simp

lemma receiver_call_qualified:
  "receiver_owner_from_callsite (ue_callsite_identity row) = Some owner \<Longrightarrow> \<not> is_common_unqualified_call (call_name row)"
  using contains_str_middle [of owner "''.''" "ue_target_name row"]
  by (simp add: call_name_def is_common_unqualified_call_def)

text \<open>The candidate ids kept for an edge: no duplicates, and none unless they are asked for.\<close>

definition ids_ok :: "ResolutionPass \<Rightarrow> OrderedCandidateIds \<Rightarrow> bool" where
  "ids_ok pass ids \<longleftrightarrow> distinct (oc_ordered ids) \<and> oc_seen ids = set (oc_ordered ids)
     \<and> (rf_store_candidates (ps_flags pass) \<or> oc_ordered ids = [])"

lemma ids_ok_empty [simp, inv_intros]: "ids_ok pass ids_empty"
  by (simp add: ids_ok_def ids_empty_def)

lemma ids_ok_push: "ids_ok pass ids \<Longrightarrow> rf_store_candidates (ps_flags pass) \<Longrightarrow> ids_ok pass (ids_push c ids)"
  by (auto simp: ids_ok_def ids_push_def)

lemma ids_ok_store_push [inv_intros]: "ids_ok pass ids \<Longrightarrow> ids_ok pass (store_push pass c ids)"
  by (simp add: store_push_def ids_ok_push)

lemma ids_ok_extend_loop: "ids_ok pass ids \<Longrightarrow> rf_store_candidates (ps_flags pass) \<Longrightarrow> ids_ok pass (extend_loop limit cs ids)"
  by (induction limit cs ids rule: extend_loop.induct) (auto simp: Let_def ids_ok_push split: option.split)

lemma ids_ok_pool [inv_intros]:
  "ids_ok pass ids \<Longrightarrow> rf_store_candidates (ps_flags pass) \<Longrightarrow> ids_ok pass (collect_candidate_pool_from_index index names limit ids)"
  by (simp add: collect_candidate_pool_from_index_def ids_ok_extend_loop)

lemma ids_ok_extend_stage [inv_intros]:
  "ids_ok pass ids \<Longrightarrow> rf_store_candidates (ps_flags pass) \<Longrightarrow> ids_ok pass (extend_stage cs limit ids)"
  by (auto simp: extend_stage_def ids_ok_extend_loop split: option.split)

lemma ids_ok_try_stage [inv_intros]: "ids_ok pass (snd acc) \<Longrightarrow> ids_ok pass (snd (try_stage pass enabled found conf strategy acc))"
  by (auto simp: try_stage_def ids_ok_store_push split: prod.splits option.splits)

lemma ids_ok_same_module_stage [inv_intros]: "ids_ok pass (snd acc) \<Longrightarrow> ids_ok pass (snd (same_module_stage pass index row cc acc))"
  by (auto simp: same_module_stage_def ids_ok_store_push split: prod.splits option.splits)

lemma ids_ok_local [inv_intros]: "ids_ok pass (snd acc) \<Longrightarrow> ids_ok pass (snd (call_local_stages pass index row acc))"
  by (simp add: call_local_stages_def Let_def inv_intros)

lemma ids_ok_global [inv_intros]: "ids_ok pass (snd acc) \<Longrightarrow> ids_ok pass (snd (call_global_stages pass index row acc))"
  by (simp add: call_global_stages_def Let_def inv_intros)

lemma ids_ok_semantic: "ids_ok pass (fst acc) \<Longrightarrow> ids_ok pass (fst (fold (consider_semantic pass row) cs acc))"
  by (induction cs arbitrary: acc) (auto simp: consider_semantic_def ids_ok_store_push split: prod.splits)

lemma call_stages_choice:
  assumes "ids_ok pass ids" and "fallback = snd (fold (consider_semantic pass row) candidates (ids0, ub_default))"
    and "selected = None \<or> \<not> is_common_unqualified_call (call_name row)"
  shows "\<exists>ids'. ids_ok pass ids' \<and> call_stages pass index row fallback selected ids =
    finish_resolution row
      (let kept = (if is_common_unqualified_call (call_name row) then selected else or_else selected (local_choice pass index row))
       in if receiver_owner_from_callsite (ue_callsite_identity row) \<noteq> None
             \<and> receiver_module_from_callsite (ue_callsite_identity row) = None then kept
          else or_else (if is_common_unqualified_call (call_name row) then kept else or_else kept (global_choice pass index row))
                 (fallback_choice row candidates)) ids'"
proof -
  obtain s1 i1 where 1: "call_local_stages pass index row (selected, ids) = (s1, i1)" by fastforce
  obtain s2 i2 where 2: "call_global_stages pass index row (s1, i1) = (s2, i2)" by fastforce
  have s1: "s1 = (if is_common_unqualified_call (call_name row) then selected else or_else selected (local_choice pass index row))"
    using fst_local_stages [of pass index row "(selected, ids)"] 1 by simp
  have s2: "s2 = (if is_common_unqualified_call (call_name row) then s1 else or_else s1 (global_choice pass index row))"
    using fst_global_stages [of pass index row "(s1, i1)"] 2 by simp
  have i1: "ids_ok pass i1" using ids_ok_local [of pass "(selected, ids)" index row] assms(1) 1 by simp
  have i2: "ids_ok pass i2" using ids_ok_global [of pass "(s1, i1)" index row] i1 2 by simp
  have fb: "call_fallback_stage row fallback s2 = or_else s2 (fallback_choice row candidates)"
    by (rule fallback_stage_choice [OF assms(2)]) (use assms(3) s1 s2 in \<open>auto split: if_splits\<close>)
  show ?thesis
  proof (cases "receiver_owner_from_callsite (ue_callsite_identity row) \<noteq> None
      \<and> receiver_module_from_callsite (ue_callsite_identity row) = None")
    case True
    then obtain owner where "receiver_owner_from_callsite (ue_callsite_identity row) = Some owner" by auto
    then have nc: "\<not> is_common_unqualified_call (call_name row)" by (rule receiver_call_qualified)
    have q: "is_owner_qualified_call_name (call_name row)"
      using contains_str_middle [of owner "''.''" "ue_target_name row"] \<open>receiver_owner_from_callsite _ = _\<close>
      by (simp add: call_name_def is_owner_qualified_call_name_def)
    show ?thesis
    proof (cases s1)
      case None
      with True i1 s1 1 show ?thesis by (auto simp: call_stages_def Let_def)
    next
      case (Some a)
      with s2 nc have "s2 = Some a" by simp
      with Some fb 1 2 have "call_stages pass index row fallback selected ids = finish_resolution row s1 i2"
        by (simp add: call_stages_def)
      with i2 show ?thesis unfolding Let_def if_P [OF True] s1 [symmetric] by blast
    qed
  next
    case False
    with i2 fb s1 s2 1 2 show ?thesis by (auto simp: call_stages_def Let_def)
  qed
qed

lemma call_resolution_choice:
  "\<exists>ids. ids_ok pass ids \<and>
     compute_call_resolution pass index row candidates = finish_resolution row (call_choice pass index row candidates) ids"
proof -
  let ?callsite = "ue_callsite_identity row"
  obtain ids fallback where sem: "fold (consider_semantic pass row) candidates (ids_empty, ub_default) = (ids, fallback)"
    by fastforce
  have ids: "ids_ok pass ids"
    using ids_ok_semantic [of pass "(ids_empty, ub_default)" row candidates] sem by simp
  have fb: "fallback = snd (fold (consider_semantic pass row) candidates (ids_empty, ub_default))"
    using sem by simp
  note stages = call_stages_choice [OF _ fb, where index = index]
  show ?thesis
  proof (cases "receiver_owner_from_callsite ?callsite")
    case None
    show ?thesis
    proof (cases "is_member_call_placeholder ?callsite")
      case True
      with None show ?thesis
        by (auto simp: compute_call_resolution_def call_choice_def Let_def intro!: exI [of _ ids_empty])
    next
      case False
      with None stages [OF ids, of None] sem show ?thesis
        by (auto simp: compute_call_resolution_def call_choice_def Let_def)
    qed
  next
    case owner: (Some owner)
    note nc = receiver_call_qualified [OF owner]
    show ?thesis
    proof (cases "receiver_module_from_callsite ?callsite")
      case None
      with owner nc stages [OF ids, of None] sem show ?thesis
        by (auto simp: compute_call_resolution_def call_choice_def Let_def)
    next
      case (Some m)
      show ?thesis
      proof (cases "find_imported_owner_member_readonly index (ue_caller_file_path row) m owner (ue_target_name row)")
        case None
        with owner Some ids sem show ?thesis
          by (auto simp: compute_call_resolution_def call_choice_def candidate_of_def Let_def)
      next
        case found: (Some c)
        with owner Some nc stages [OF ids_ok_store_push [OF ids, of c],
            of "Some (c, rp_call_same_file (ps_policy pass), CallGlobalUnique)"] sem show ?thesis
          by (auto simp: compute_call_resolution_def call_choice_def candidate_of_def Let_def)
      qed
    qed
  qed
qed

text \<open>C7: the target of a call is the first of a fixed list of choices: the member an imported receiver
  names, or nothing; for a receiver of known owner the import binding, the caller's file, the
  caller's module, or nothing; for a plain name those, then a globally unique exact name, an alias of
  its owner, the unambiguous best semantic candidate; for a common name only such a candidate that
  is certain. Recording candidates for later inspection changes none of it, and what is recorded
  has no duplicates.\<close>

theorem call_resolution_order:
  "\<exists>ids. ids_ok pass ids \<and>
     compute_call_resolution pass index row candidates = finish_resolution row (call_choice pass index row candidates) ids"
  by (rule call_resolution_choice)

section \<open>The order of the strategies of an import\<close>

text \<open>
  What one name of an import resolves to, and what the import does: the file a relative import
  names; or the first of its names that has a target outside the importing file (in legacy mode a
  target of the importing file comes first); or the best semantic candidate. A renamed binding is
  only followed to a file or, in legacy mode, within the importing file.
\<close>

definition name_choice :: "ResolutionPass \<Rightarrow> CandidateIndex \<Rightarrow> UnresolvedEdgeRow \<Rightarrow> string \<Rightarrow> selection" where
  "name_choice pass index row name =
     (let policy = ps_policy pass; lower = to_ascii_lowercase name; legacy = rf_legacy_mode (ps_flags pass)
      in or_else (if legacy then candidate_of (rp_import_same_file policy) ImportSameFile
             (find_same_file_readonly index (ue_file_id row) name lower) else None)
         (or_else (candidate_of (rp_import_same_module policy) ImportSameModule
             (Option.bind (Option.bind (Option.bind (ue_caller_qualified row) module_prefix)
               (\<lambda>(p, d). find_same_module_readonly index p d name lower)) (other_file index row)))
         (or_else (candidate_of (rp_import_global_unique policy) ImportGlobalUnique
             (Option.bind (find_global_unique_readonly index name lower) (other_file index row)))
           (if legacy then None else candidate_of (rp_import_fuzzy policy) ImportFuzzy
             (Option.bind (find_fuzzy_readonly index name lower) (other_file index row))))))"

definition names_choice :: "ResolutionPass \<Rightarrow> CandidateIndex \<Rightarrow> UnresolvedEdgeRow \<Rightarrow> string list \<Rightarrow> selection" where
  "names_choice pass index row names = foldr (\<lambda>name. or_else (name_choice pass index row name)) names None"

definition import_choice ::
  "ResolutionPass \<Rightarrow> CandidateIndex \<Rightarrow> UnresolvedEdgeRow \<Rightarrow> SemanticResolutionCandidate list \<Rightarrow> selection" where
  "import_choice pass index row candidates =
     (let named = names_choice pass index row (import_name_candidates (ue_target_name row) (rf_legacy_mode (ps_flags pass)))
      in or_else (candidate_of CERTAIN_MIN ImportSameModule (import_relative index row))
         (if import_renames row
          then (case named of Some (_, _, s) \<Rightarrow> if s = ImportSameFile then named else None | None \<Rightarrow> None)
          else or_else named
            (map_option (\<lambda>(c, confidence). (c, confidence, ImportSemanticFallback)) (import_fallback candidates))))"

definition stages_clear :: "import_stages \<Rightarrow> bool" where
  "stages_clear st \<longleftrightarrow> is_same_file st = None \<and> is_same_module st = None \<and> is_global st = None \<and> is_fuzzy st = None"

lemma import_selection_none: "import_selection pass None st = or_else
    (candidate_of (rp_import_same_file (ps_policy pass)) ImportSameFile (is_same_file st))
    (or_else (candidate_of (rp_import_same_module (ps_policy pass)) ImportSameModule (is_same_module st))
    (or_else (candidate_of (rp_import_global_unique (ps_policy pass)) ImportGlobalUnique (is_global st))
      (candidate_of (rp_import_fuzzy (ps_policy pass)) ImportFuzzy (is_fuzzy st))))"
  by (auto simp: import_selection_def candidate_of_def Let_def split: option.splits)

lemma import_step_fields:
  fixes index row name st
  assumes "stages_clear st"
  defines "st' \<equiv> import_global_step index row name (import_module_step index row name st)"
  shows "is_same_file st' = None"
    and "is_same_module st' = Option.bind (Option.bind (Option.bind (ue_caller_qualified row) module_prefix)
      (\<lambda>(p, d). find_same_module_readonly index p d name (to_ascii_lowercase name))) (other_file index row)"
    and "is_global st' = Option.bind (find_global_unique_readonly index name (to_ascii_lowercase name)) (other_file index row)"
    and "is_fuzzy st' = None"
    and "is_fuzzy (import_fuzzy_step index row name st') =
      Option.bind (find_fuzzy_readonly index name (to_ascii_lowercase name)) (other_file index row)"
    and "is_same_file (import_fuzzy_step index row name st') = None"
    and "is_same_module (import_fuzzy_step index row name st') = is_same_module st'"
    and "is_global (import_fuzzy_step index row name st') = is_global st'"
  using assms(1) unfolding st'_def stages_clear_def import_global_step_def import_module_step_def import_fuzzy_step_def
  by (auto simp del: bind_assoc split: option.splits)

lemma import_loop_choice:
  "stages_clear st \<Longrightarrow>
     import_selection pass None (import_loop pass index row names st) = names_choice pass index row names"
proof (induction names arbitrary: st)
  case Nil
  then show ?case by (simp add: names_choice_def import_selection_none stages_clear_def candidate_of_def)
next
  case (Cons name names)
  let ?legacy = "rf_legacy_mode (ps_flags pass)"
  let ?own = "find_same_file_readonly index (ue_file_id row) name (to_ascii_lowercase name)"
  let ?st = "import_global_step index row name (import_module_step index row name st)"
  let ?st' = "if ?legacy then ?st else import_fuzzy_step index row name ?st"
  note fields = import_step_fields [OF Cons.prems, of index row name]
  have rest: "names_choice pass index row (name # names) =
      or_else (name_choice pass index row name) (names_choice pass index row names)"
    by (simp add: names_choice_def)
  show ?case
  proof (cases "if ?legacy then ?own else None")
    case (Some c)
    with Cons.prems show ?thesis
      unfolding rest by (auto simp: stages_clear_def import_selection_none name_choice_def Let_def candidate_of_def split: if_splits)
  next
    case None
    have sel: "import_selection pass None ?st' = name_choice pass index row name"
      using None fields unfolding import_selection_none name_choice_def Let_def
      by (auto simp: candidate_of_def simp del: bind_assoc split: if_splits)
    have loop: "import_loop pass index row (name # names) st =
        (if is_same_module ?st' \<noteq> None \<or> is_global ?st' \<noteq> None \<or> is_fuzzy ?st' \<noteq> None then ?st'
         else import_loop pass index row names ?st')"
      using None Cons.prems by (auto simp: stages_clear_def Let_def split: if_splits)
    have own: "is_same_file ?st' = None" using fields by simp
    show ?thesis
    proof (cases "stages_clear ?st'")
      case True
      then have "import_selection pass None ?st' = None"
        by (simp add: import_selection_none stages_clear_def candidate_of_def)
      with sel True Cons.IH [OF True] show ?thesis
        unfolding rest loop by (simp add: stages_clear_def)
    next
      case False
      with own have hit: "is_same_module ?st' \<noteq> None \<or> is_global ?st' \<noteq> None \<or> is_fuzzy ?st' \<noteq> None"
        by (simp add: stages_clear_def)
      with own have "import_selection pass None ?st' \<noteq> None"
        by (auto simp: import_selection_none candidate_of_def or_else_def split: option.splits)
      with sel hit show ?thesis
        unfolding rest loop by (auto simp: or_else_def)
    qed
  qed
qed

lemma ids_ok_fold_store: "ids_ok pass ids \<Longrightarrow> ids_ok pass (fold (\<lambda>c. store_push pass (sc_target_node_id c)) cs ids)"
  by (induction cs arbitrary: ids) (simp_all add: ids_ok_store_push)

lemma ids_ok_import_ids: "ids_ok pass ids \<Longrightarrow> ids_ok pass (import_candidate_ids pass index names st ids)"
  by (auto simp: import_candidate_ids_def Let_def intro!: inv_intros)

lemma import_resolution_choice:
  "\<exists>ids. ids_ok pass ids \<and>
     compute_import_resolution pass index row candidates = finish_resolution row (import_choice pass index row candidates) ids"
proof -
  let ?names = "import_name_candidates (ue_target_name row) (rf_legacy_mode (ps_flags pass))"
  let ?st = "import_loop pass index row ?names import_stages_empty"
  let ?ids0 = "fold (\<lambda>c. store_push pass (sc_target_node_id c)) candidates ids_empty"
  let ?ids = "import_candidate_ids pass index ?names ?st
    (case import_relative index row of Some c \<Rightarrow> store_push pass c ?ids0 | None \<Rightarrow> ?ids0)"
  have ok: "ids_ok pass ?ids"
    by (rule ids_ok_import_ids) (auto simp: ids_ok_fold_store ids_ok_store_push split: option.split)
  have named: "import_selection pass None ?st = names_choice pass index row ?names"
    by (rule import_loop_choice) (simp add: stages_clear_def import_stages_empty_def)
  have "compute_import_resolution pass index row candidates = finish_resolution row (import_choice pass index row candidates) ?ids"
  proof (cases "import_relative index row")
    case None
    then show ?thesis
      unfolding compute_import_resolution_def import_choice_def Let_def named None
      by (auto simp: candidate_of_def or_else_def split: option.splits)
  next
    case (Some c)
    then show ?thesis
      by (simp add: compute_import_resolution_def import_choice_def Let_def import_selection_def candidate_of_def)
  qed
  with ok show ?thesis by blast
qed

text \<open>C8: the target of an import is the file its relative module names; else, for a binding that is not
  renamed, the first of its candidate names with a target in the importer's module, globally unique
  or by fuzzy match, never in the importing file except for the same-file match of legacy mode; else
  the best semantic candidate. A renamed binding resolves by none of the name strategies but the
  legacy same-file one. Recording candidates changes nothing and records no duplicates.\<close>

theorem import_resolution_order:
  "\<exists>ids. ids_ok pass ids \<and>
     compute_import_resolution pass index row candidates = finish_resolution row (import_choice pass index row candidates) ids"
  by (rule import_resolution_choice)

section \<open>Where targets come from\<close>

lemma set_nodes_at_subset: "set (nodes_at index os) \<subseteq> set (ci_nodes index)"
  by (auto simp: nodes_at_def map_filter_def)

lemma unique_id_in: "unique_id ids = Some i \<Longrightarrow> i \<in> set ids"
  by (simp add: unique_id_Some)

lemma first_offset_in_nodes:
  "set_option (first_offset nodes (grouped f nodes k) p) \<subseteq> cn_id ` set nodes"
  by (auto simp: first_offset_grouped find_Some_iff)

lemma lookups_in_nodes:
  fixes nodes rel ids
  defines "index \<equiv> from_primary_relative_and_import_bindings nodes rel ids"
  shows "set_option (find_same_file_readonly index fl name lower) \<subseteq> cn_id ` set nodes"
    and "set_option (find_same_module_readonly index m d name lower) \<subseteq> cn_id ` set nodes"
    and "set_option (find_global_unique_exact_readonly index name) \<subseteq> cn_id ` set nodes"
    and "set_option (find_global_unique_owner_alias_readonly index name) \<subseteq> cn_id ` set nodes"
    and "set_option (find_imported_owner_member_readonly index caller module_name owner meth) \<subseteq> cn_id ` set nodes"
proof -
  show "set_option (find_same_file_readonly index fl name lower) \<subseteq> cn_id ` set nodes"
    by (cases fl) (auto simp: find_same_file_readonly_def first_in_file_def index_def first_offset_grouped
        find_Some_iff split: option.splits)
  show "set_option (find_same_module_readonly index m d name lower) \<subseteq> cn_id ` set nodes"
    by (auto simp: find_same_module_readonly_def first_in_module_def Let_def index_def first_offset_grouped
        find_Some_iff split: option.splits)
  have only: "set_option (the_only xs) \<subseteq> set xs" for xs :: "CandidateNode list"
    by (cases xs rule: the_only.cases) auto
  have "find_global_unique_exact_readonly index name =
      map_option cn_id (the_only (filter (\<lambda>n. cn_serialized_name n = name) nodes))"
    unfolding find_global_unique_exact_readonly_def index_def index_fields
      unique_grouped [where f = "\<lambda>n. Some (cn_serialized_name n)" and k = name] by simp
  then show "set_option (find_global_unique_exact_readonly index name) \<subseteq> cn_id ` set nodes"
    using only [of "filter (\<lambda>n. cn_serialized_name n = name) nodes"] by (auto simp: option.set_map)
  show "set_option (find_global_unique_owner_alias_readonly index name) \<subseteq> cn_id ` set nodes"
  proof
    fix i assume "i \<in> set_option (find_global_unique_owner_alias_readonly index name)"
    then obtain p os where "alias_loop p None (nodes_at index os) = Some i"
      by (auto simp: find_global_unique_owner_alias_readonly_def split: option.splits)
    then have "i \<in> cn_id ` set (nodes_at index os)" by (auto simp: alias_loop_Some)
    then show "i \<in> cn_id ` set nodes" using set_nodes_at_subset [of index os] by (auto simp: index_def)
  qed
  have u: "i \<in> cn_id ` set nodes" if "unique_id (map f xs) = Some i" and "f ` set xs \<subseteq> cn_id ` set nodes" for i f and xs :: "'x list"
    using unique_id_in [OF that(1)] that(2) by auto
  have own: "set (owner_method_nodes index owner meth) \<subseteq> set nodes"
    using set_nodes_at_subset by (fastforce simp: owner_method_nodes_def Let_def index_def)
  have exact: "i \<in> cn_id ` set nodes" if "find_path_imported_owner_member_exact_readonly index paths owner meth = Some i" for i paths
    using that own unfolding find_path_imported_owner_member_exact_readonly_def by (elim u) auto
  have path: "i \<in> cn_id ` set nodes" if "find_path_imported_owner_member_readonly index paths owner meth = Some i" for i paths
    using that exact set_nodes_at_subset [of index]
    by (auto simp: find_path_imported_owner_member_readonly_def find_unique_imported_member_by_path_def index_def
        split: option.splits dest!: unique_id_in) blast+
  have go: "i \<in> cn_id ` set nodes" if "find_go_imported_owner_member_readonly index module_name owner meth = Some i" for i
    using that own
    by (auto simp: find_go_imported_owner_member_readonly_def Let_def go_scored_nodes_def map_filter_def
        split: if_splits option.splits dest!: unique_id_in) blast
  have swift: "i \<in> cn_id ` set nodes" if "find_swift_imported_owner_member_readonly index caller module_name owner meth = Some i" for i
    using that own
    by (auto simp: find_swift_imported_owner_member_readonly_def split: option.splits dest!: unique_id_in) blast
  have qual: "i \<in> cn_id ` set nodes" if "find_qualified_imported_owner_member_readonly index module_name owner meth = Some i" for i
    using that set_nodes_at_subset [of index]
    by (auto simp: find_qualified_imported_owner_member_readonly_def Let_def index_def split: if_splits dest!: unique_id_in) blast
  show "set_option (find_imported_owner_member_readonly index caller module_name owner meth) \<subseteq> cn_id ` set nodes"
  proof
    fix i assume "i \<in> set_option (find_imported_owner_member_readonly index caller module_name owner meth)"
    then show "i \<in> cn_id ` set nodes"
      using go swift qual
      by (auto simp: find_imported_owner_member_readonly_def find_python_imported_owner_member_readonly_def
          find_typescript_imported_owner_member_readonly_def find_ruby_imported_owner_member_readonly_def
          find_dart_imported_owner_member_readonly_def find_by_import_paths_def Let_def
          split: option.splits if_splits dest: path exact)
  qed
qed

lemma import_lookups_in_nodes:
  fixes nodes rel ids
  defines "index \<equiv> from_primary_relative_and_import_bindings nodes rel ids"
  shows "set_option (find_global_unique_readonly index name lower) \<subseteq> cn_id ` set nodes"
    and "set_option (find_fuzzy_readonly index name lower) \<subseteq> cn_id ` set nodes"
    and "set_option (find_relative_import_readonly index caller module_name alias_name alias_lower) \<subseteq> cn_id ` (set nodes \<union> set rel)"
proof -
  have only: "set_option (the_only xs) \<subseteq> set xs" for xs :: "CandidateNode list"
    by (cases xs rule: the_only.cases) auto
  have filtered: "cn_id x \<in> cn_id ` set nodes" if "the_only (filter p nodes) = Some x" for x p
    using only [of "filter p nodes"] that by auto
  show "set_option (find_global_unique_readonly index name lower) \<subseteq> cn_id ` set nodes"
    unfolding find_global_unique_readonly_def index_def index_fields
      unique_grouped [where f = "\<lambda>n. Some (cn_serialized_name n)" and k = name]
      unique_grouped [where f = name_tail and k = lower]
    by (auto dest: filtered)
  show "set_option (find_fuzzy_readonly index name lower) \<subseteq> cn_id ` set nodes"
    unfolding find_fuzzy_readonly_def Let_def index_def index_fields first_grouped
    by (auto simp: or_else_def find_Some_iff split: option.splits)
  let ?rel = "if rel = [] then nodes else rel"
  have path: "set_option (first_in_paths index alias_name alias_lower paths) \<subseteq> cn_id ` set ?rel" for paths
  proof (induction paths)
    case (Cons path paths)
    have step: "set_option (first_matching_name_in_offsets index os alias_name alias_lower) \<subseteq> cn_id ` set ?rel"
      if "ci_relative_file_path_map index path = Some os" for os
    proof -
      have "first_matching_name_in_offsets index os alias_name alias_lower =
          first_offset ?rel (grouped cn_normalized_file_path ?rel path)
            (\<lambda>n. cn_serialized_name n = alias_name \<or> cn_serialized_name_ascii_lower n = alias_lower
              \<or> map_option to_ascii_lowercase (tail_component (cn_serialized_name n)) = Some alias_lower
              \<or> map_option to_ascii_lowercase (Option.bind (cn_qualified_name n) tail_component) = Some alias_lower)"
        using that unfolding first_matching_name_in_offsets_def index_def index_fields by simp
      then show ?thesis by (simp only: first_offset_in_nodes)
    qed
    with Cons.IH show ?case by (auto split: option.splits simp del: index_fields)
  qed simp
  then show "set_option (find_relative_import_readonly index caller module_name alias_name alias_lower)
      \<subseteq> cn_id ` (set nodes \<union> set rel)"
    by (cases caller) (fastforce simp: find_relative_import_readonly_def Let_def split: if_splits)+
qed


text \<open>The ids a target can come from: the index, the bindings of imports, the semantic candidates.\<close>

definition known_targets ::
  "CandidateNode list \<Rightarrow> CandidateNode list \<Rightarrow> int set \<Rightarrow> SemanticResolutionCandidate list \<Rightarrow> int set" where
  "known_targets nodes rel binding_ids candidates =
     cn_id ` set nodes \<union> cn_id ` set rel \<union> binding_ids \<union> sc_target_node_id ` set candidates"

lemma or_else_SomeE: "or_else x y = Some a \<Longrightarrow> x = Some a \<or> y = Some a"
  by (auto simp: or_else_def split: option.splits)

lemma candidate_of_Some: "candidate_of confidence strategy found = Some (c, r) \<longleftrightarrow> found = Some c \<and> r = (confidence, strategy)"
  by (auto simp: candidate_of_def)

lemma set_option_subsetD: "set_option x \<subseteq> A \<Longrightarrow> x = Some a \<Longrightarrow> a \<in> A"
  by auto

lemma local_choice_known:
  assumes "local_choice pass (from_primary_relative_and_import_bindings nodes rel ids) row = Some (c, r)"
  shows "c \<in> cn_id ` set nodes \<union> ids"
proof -
  let ?index = "from_primary_relative_and_import_bindings nodes rel ids"
  let ?name = "call_name row"
  consider "is_import_binding_node ?index c"
    | "find_same_file_readonly ?index (ue_file_id row) ?name (to_ascii_lowercase ?name) = Some c"
    | p d where "find_same_module_readonly ?index p d ?name (to_ascii_lowercase ?name) = Some c"
    using assms unfolding local_choice_def Let_def
    by (auto simp: candidate_of_Some bind_eq_Some_conv split: if_splits dest!: or_else_SomeE)
  then show ?thesis
    by cases (auto simp: is_import_binding_node_def dest: set_option_subsetD [OF lookups_in_nodes(1)]
      set_option_subsetD [OF lookups_in_nodes(2)])
qed

lemma global_choice_known:
  assumes "global_choice pass (from_primary_relative_and_import_bindings nodes rel ids) row = Some (c, r)"
  shows "c \<in> cn_id ` set nodes"
  using assms unfolding global_choice_def Let_def
  by (auto simp: candidate_of_Some split: if_splits dest!: or_else_SomeE
      dest: set_option_subsetD [OF lookups_in_nodes(3)] set_option_subsetD [OF lookups_in_nodes(4)])

lemma call_choice_known:
  assumes "call_choice pass (from_primary_relative_and_import_bindings nodes rel ids) row candidates = Some (c, conf, strategy)"
  shows "c \<in> known_targets nodes rel ids candidates
    \<and> should_keep_common_call_resolution (call_name row) conf (ue_callsite_identity row)"
  using assms unfolding call_choice_def Let_def known_targets_def
  by (auto simp: candidate_of_Some not_common_keeps receiver_call_qualified
      split: option.splits if_splits dest!: or_else_SomeE local_choice_known global_choice_known fallback_choice_kept
      dest: set_option_subsetD [OF lookups_in_nodes(5)])

lemma name_choice_known:
  assumes "name_choice pass (from_primary_relative_and_import_bindings nodes rel ids) row name = Some (c, r)"
  shows "c \<in> cn_id ` set nodes"
proof -
  let ?index = "from_primary_relative_and_import_bindings nodes rel ids"
  let ?lower = "to_ascii_lowercase name"
  have other: "other_file ?index row x = Some y \<Longrightarrow> y = x" for x y
    by (simp add: other_file_def split: if_splits)
  consider "find_same_file_readonly ?index (ue_file_id row) name ?lower = Some c"
    | p d where "find_same_module_readonly ?index p d name ?lower = Some c"
    | "find_global_unique_readonly ?index name ?lower = Some c" | "find_fuzzy_readonly ?index name ?lower = Some c"
    using assms unfolding name_choice_def Let_def
    by (auto simp: candidate_of_Some bind_eq_Some_conv split: if_splits dest!: or_else_SomeE other)
  then show ?thesis
    by cases (blast dest: set_option_subsetD [OF lookups_in_nodes(1)] set_option_subsetD [OF lookups_in_nodes(2)]
      set_option_subsetD [OF import_lookups_in_nodes(1)] set_option_subsetD [OF import_lookups_in_nodes(2)])+
qed

lemma names_choice_known:
  assumes "names_choice pass (from_primary_relative_and_import_bindings nodes rel ids) row names = Some (c, r)"
  shows "c \<in> cn_id ` set nodes"
  using assms
  by (induction names) (auto simp: names_choice_def dest!: or_else_SomeE name_choice_known)

lemma consider_selected_fold:
  "fold (\<lambda>c. consider_selected (sc_target_node_id c) (sc_confidence c)) cs sel \<in>
     {sel} \<union> (\<lambda>c. Some (sc_target_node_id c, sc_confidence c)) ` set cs"
proof (induction cs arbitrary: sel)
  case (Cons c cs)
  have "consider_selected (sc_target_node_id c) (sc_confidence c) sel \<in> {sel, Some (sc_target_node_id c, sc_confidence c)}"
    by (auto simp: consider_selected_def split: option.splits)
  with Cons.IH [of "consider_selected (sc_target_node_id c) (sc_confidence c) sel"] show ?case by auto
qed simp

lemma import_choice_known:
  assumes "import_choice pass (from_primary_relative_and_import_bindings nodes rel ids) row candidates = Some (c, conf, strategy)"
  shows "c \<in> known_targets nodes rel ids candidates"
proof -
  let ?index = "from_primary_relative_and_import_bindings nodes rel ids"
  consider "import_relative ?index row = Some c"
    | names where "names_choice pass ?index row names = Some (c, conf, strategy)"
    | "import_fallback candidates = Some (c, conf)"
    using assms unfolding import_choice_def Let_def
    by (auto simp: candidate_of_Some split: if_splits option.splits dest!: or_else_SomeE)
  then show ?thesis
  proof cases
    case 1
    then have "c \<in> cn_id ` (set nodes \<union> set rel)"
      using set_option_subsetD [OF import_lookups_in_nodes(3)] by (auto simp: import_relative_def split: if_splits)
    then show ?thesis by (auto simp: known_targets_def)
  next
    case 2
    then show ?thesis using names_choice_known by (auto simp: known_targets_def)
  next
    case 3
    then show ?thesis using consider_selected_fold [of candidates None]
      by (auto simp: import_fallback_def known_targets_def)
  qed
qed

lemma finish_resolution_fields:
  "ru_resolved_target_node_id (cr_update (finish_resolution row sel ids)) = map_option fst sel"
  "ru_confidence (cr_update (finish_resolution row sel ids)) = map_option (fst \<circ> snd) sel"
  "ru_certainty (cr_update (finish_resolution row sel ids)) =
     Option.bind (map_option (fst \<circ> snd) sel) (\<lambda>c. map_option certainty_as_str (from_confidence (Some c)))"
  "ru_edge_id (cr_update (finish_resolution row sel ids)) = ue_edge_id row"
  by (auto simp: finish_resolution_def build_resolved_edge_update_def split: option.splits)

text \<open>C28: no resolution invents a target: whatever a call or an import resolves to is a node of the
  candidate index, the binding of an import or a target some semantic resolver offered, and the
  update it writes is for its own edge. A common name such as \<^verbatim>\<open>push\<close> or \<^verbatim>\<open>len\<close>, called without an
  owner, is left unresolved or resolved with certainty.\<close>

theorem resolved_targets_known:
  "let index = from_primary_relative_and_import_bindings nodes rel ids;
       call = cr_update (compute_call_resolution pass index row candidates);
       imported = cr_update (compute_import_resolution pass index row candidates)
   in set_option (ru_resolved_target_node_id call) \<subseteq> known_targets nodes rel ids candidates
    \<and> set_option (ru_resolved_target_node_id imported) \<subseteq> known_targets nodes rel ids candidates
    \<and> ru_edge_id call = ue_edge_id row \<and> ru_edge_id imported = ue_edge_id row
    \<and> ru_certainty call \<in> (if is_common_unqualified_call (call_name row) then {None, Some ''certain''} else UNIV)"
proof -
  let ?index = "from_primary_relative_and_import_bindings nodes rel ids"
  obtain is1 where 1: "compute_call_resolution pass ?index row candidates =
      finish_resolution row (call_choice pass ?index row candidates) is1"
    using call_resolution_choice by blast
  obtain is2 where 2: "compute_import_resolution pass ?index row candidates =
      finish_resolution row (import_choice pass ?index row candidates) is2"
    using import_resolution_choice by blast
  have "map_option fst (call_choice pass ?index row candidates) = Some c \<Longrightarrow> c \<in> known_targets nodes rel ids candidates" for c
    by (auto dest: call_choice_known)
  moreover have "map_option fst (import_choice pass ?index row candidates) = Some c \<Longrightarrow> c \<in> known_targets nodes rel ids candidates" for c
    by (auto dest: import_choice_known)
  moreover have "Option.bind (map_option (fst \<circ> snd) (call_choice pass ?index row candidates))
        (\<lambda>c. map_option certainty_as_str (from_confidence (Some c)))
      \<in> (if is_common_unqualified_call (call_name row) then {None, Some ''certain''} else UNIV)"
    by (cases "call_choice pass ?index row candidates")
      (auto simp: should_keep_common_call_resolution_def dest!: call_choice_known)
  ultimately show ?thesis
    unfolding Let_def 1 2 finish_resolution_fields by (simp add: subset_iff)
qed

end
