(* ===== verification/Override_Resolution.thy ===== *)
theory Override_Resolution
  imports Edge_Resolution
begin

text \<open>
  Overrides (\<^verbatim>\<open>OverrideSupport\<close> of \<^verbatim>\<open>resolution/mod.rs\<close>, and the walks up the inheritance graph of
  \<^verbatim>\<open>resolution/pipeline.rs\<close>): which methods of the ancestors of its owner a method overrides. The
  graph comes from the indexed program and may have cycles and missing nodes. The walk is a work
  list; it is a partial function here, and every result below is that it returns.
\<close>

section \<open>The indexed members and inheritance\<close>

record OverrideMemberSnapshot =
  om_owner_id :: int
  om_owner_name :: string
  om_method_id :: int
  om_method_name :: string

record OverrideSupport =
  os_owner_by_method :: "int \<rightharpoonup> int list"
  os_methods_by_owner_and_name :: "int \<times> string \<rightharpoonup> int list"
  os_owner_name_by_id :: "int \<rightharpoonup> string"
  os_methods_by_owner_name_and_name :: "string \<times> string \<rightharpoonup> int list"
  os_inheritance_by_type :: "int \<rightharpoonup> int list"
  os_inheritance_by_owner_name :: "string \<rightharpoonup> string list"

definition or_insert :: "'k \<Rightarrow> 'v \<Rightarrow> ('k \<rightharpoonup> 'v) \<Rightarrow> ('k \<rightharpoonup> 'v)" where
  "or_insert k v m = (case m k of Some _ \<Rightarrow> m | None \<Rightarrow> m(k \<mapsto> v))"

definition add_member :: "OverrideMemberSnapshot \<Rightarrow> OverrideSupport \<Rightarrow> OverrideSupport" where
  "add_member e s = s\<lparr>
     os_owner_by_method := entry_push (om_method_id e) (om_owner_id e) (os_owner_by_method s),
     os_owner_name_by_id := or_insert (om_owner_id e) (om_owner_name e) (os_owner_name_by_id s),
     os_methods_by_owner_and_name :=
       entry_push (om_owner_id e, om_method_name e) (om_method_id e) (os_methods_by_owner_and_name s),
     os_methods_by_owner_name_and_name :=
       entry_push (om_owner_name e, om_method_name e) (om_method_id e) (os_methods_by_owner_name_and_name s)\<rparr>"

definition override_support_from_snapshot ::
  "OverrideMemberSnapshot list \<Rightarrow> (int \<times> int) list \<Rightarrow> (string \<times> string) list \<Rightarrow> (int \<times> string) list \<Rightarrow> OverrideSupport" where
  "override_support_from_snapshot members inheritance inheritance_by_name node_names =
     (let s = fold add_member members
            \<lparr>os_owner_by_method = Map.empty, os_methods_by_owner_and_name = Map.empty, os_owner_name_by_id = Map.empty,
             os_methods_by_owner_name_and_name = Map.empty, os_inheritance_by_type = Map.empty,
             os_inheritance_by_owner_name = Map.empty\<rparr>
      in s\<lparr>os_owner_name_by_id := fold (\<lambda>(i, n). or_insert i n) node_names (os_owner_name_by_id s),
           os_inheritance_by_type := fold (\<lambda>(a, b). entry_push a b) inheritance Map.empty,
           os_inheritance_by_owner_name := fold (\<lambda>(a, b). entry_push a b) inheritance_by_name Map.empty\<rparr>)"

section \<open>The walk up the graph\<close>

definition entries :: "('k \<rightharpoonup> 'v list) \<Rightarrow> 'k \<Rightarrow> 'v list" where
  "entries m k = (case m k of Some vs \<Rightarrow> vs | None \<Rightarrow> [])"

text \<open>Both walks of the code are this loop, over owner ids or over owner names.\<close>

partial_function (option) owner_walk ::
  "('k \<rightharpoonup> 'k list) \<Rightarrow> ('k \<Rightarrow> OrderedCandidateIds \<Rightarrow> OrderedCandidateIds) \<Rightarrow> 'k list \<Rightarrow> 'k set \<Rightarrow>
     OrderedCandidateIds \<Rightarrow> OrderedCandidateIds option" where
  "owner_walk parents visit pending visited candidates =
     (case pending of
        [] \<Rightarrow> Some candidates
      | current # rest \<Rightarrow>
          if current \<in> visited then owner_walk parents visit rest visited candidates
          else owner_walk parents visit (rest @ entries parents current) (insert current visited) (visit current candidates))"

definition collect_override_candidates :: "int \<Rightarrow> string \<Rightarrow> OverrideSupport \<Rightarrow> int list option" where
  "collect_override_candidates owner_id method_name s =
     map_option oc_ordered (owner_walk (os_inheritance_by_type s)
       (\<lambda>current ids. if current = owner_id then ids
          else let ids = extend_stage (entries (os_methods_by_owner_and_name s) (current, method_name)) None ids
               in case os_owner_name_by_id s current of
                    Some owner_name \<Rightarrow>
                      extend_stage (entries (os_methods_by_owner_name_and_name s) (owner_name, method_name)) None ids
                  | None \<Rightarrow> ids)
       [owner_id] {} ids_empty)"

definition collect_override_candidates_by_owner_name :: "string \<Rightarrow> string \<Rightarrow> OverrideSupport \<Rightarrow> int list option" where
  "collect_override_candidates_by_owner_name owner_name method_name s =
     map_option oc_ordered (owner_walk (os_inheritance_by_owner_name s)
       (\<lambda>current ids. if current = owner_name then ids
          else extend_stage (entries (os_methods_by_owner_name_and_name s) (current, method_name)) None ids)
       [owner_name] {} ids_empty)"

section \<open>The override of one method\<close>

definition names_of :: "OverrideSupport \<Rightarrow> int list \<Rightarrow> string list" where
  "names_of s ids = remdups (List.map_filter (os_owner_name_by_id s) ids)"

definition override_update :: "ResolutionPass \<Rightarrow> int \<Rightarrow> int list \<Rightarrow> ResolvedEdgeUpdate \<times> bool" where
  "override_update pass edge_id ids =
     (let selected = (if length ids = 1 then Some (hd ids, F32_Fin 1) else None)
      in (build_resolved_edge_update edge_id selected (if rf_store_candidates (ps_flags pass) then ids else []),
          selected \<noteq> None))"

text \<open>\<^verbatim>\<open>sort_unstable\<close> and \<^verbatim>\<open>dedup\<close>; several candidates of one name count as the first of them.\<close>

definition sort_dedup :: "int list \<Rightarrow> int list" where
  "sort_dedup ids = remdups_adj (sort ids)"

definition resolve_by_owner_name ::
  "ResolutionPass \<Rightarrow> OverrideSupport \<Rightarrow> int \<Rightarrow> string \<Rightarrow> string \<Rightarrow> (ResolvedEdgeUpdate \<times> bool) option" where
  "resolve_by_owner_name pass s edge_id owner_name method_name =
     map_option (\<lambda>ids.
         let ids = sort_dedup ids
         in override_update pass edge_id
              (if length ids > 1 \<and> length (names_of s ids) = 1 then take 1 ids else ids))
       (collect_override_candidates_by_owner_name owner_name method_name s)"

definition owner_of_method :: "OverrideSupport \<Rightarrow> int list \<Rightarrow> int option" where
  "owner_of_method s owner_ids =
     (let ids = sort_dedup owner_ids
      in if length ids = 1 then Some (hd ids)
         else if length (names_of s ids) = 1 then Some (hd ids) else None)"

definition resolve_by_owner_id ::
  "ResolutionPass \<Rightarrow> OverrideSupport \<Rightarrow> int \<Rightarrow> int \<Rightarrow> string \<Rightarrow> (ResolvedEdgeUpdate \<times> bool) option" where
  "resolve_by_owner_id pass s edge_id owner_id method_name =
     map_option (\<lambda>ids.
         override_update pass edge_id
           (if length ids > 1 \<and> length (names_of s ids) = 1 then take 1 (sort ids) else ids))
       (collect_override_candidates owner_id method_name s)"

definition resolve_override ::
  "ResolutionPass \<Rightarrow> OverrideSupport \<Rightarrow> int \<times> int \<times> string \<Rightarrow> (ResolvedEdgeUpdate \<times> bool) option" where
  "resolve_override pass s row =
     (case row of (edge_id, source_id, source_name) \<Rightarrow>
       let method_name = short_member_name source_name;
           unresolved = Some (build_resolved_edge_update edge_id None [], False)
       in case owner_name_from_member_name source_name of
            Some owner_name \<Rightarrow> resolve_by_owner_name pass s edge_id owner_name method_name
          | None \<Rightarrow>
              (case os_owner_by_method s source_id of
                 None \<Rightarrow> unresolved
               | Some owner_ids \<Rightarrow>
                   (case owner_of_method s owner_ids of
                      None \<Rightarrow> unresolved
                    | Some owner_id \<Rightarrow>
                        if owner_id = 0 then unresolved
                        else resolve_by_owner_id pass s edge_id owner_id method_name)))"

section \<open>The walk returns, on cyclic graphs too\<close>

definition parent_rel :: "('k \<rightharpoonup> 'k list) \<Rightarrow> ('k \<times> 'k) set" where
  "parent_rel parents = {(c, p). p \<in> set (entries parents c)}"

lemma walk_result:
  assumes "finite U" and "set pending \<subseteq> U" and "\<And>c. set (entries parents c) \<subseteq> U"
    and "\<And>v p. v \<in> visited \<Longrightarrow> p \<in> set (entries parents v) \<Longrightarrow> p \<in> visited \<union> set pending"
  shows "\<exists>order. owner_walk parents visit pending visited candidates = Some (fold visit order candidates)
    \<and> distinct order \<and> set order = (parent_rel parents)\<^sup>* `` (visited \<union> set pending) - visited"
  using assms(2,4)
proof (induction "(card (U - visited), length pending)" arbitrary: pending visited candidates
    rule: wf_induct_rule [OF wf_lex_prod [OF wf_less_than wf_less_than]])
  case less: 1
  show ?case
  proof (cases pending)
    case Nil
    with less.prems(2) have closed: "parent_rel parents `` visited \<subseteq> visited" by (auto simp: parent_rel_def)
    have "(parent_rel parents)\<^sup>* `` visited = visited"
      using Image_closed_trancl [OF closed] .
    with Nil show ?thesis by (intro exI [of _ "[]"]) (simp add: owner_walk.simps)
  next
    case (Cons c rest)
    show ?thesis
    proof (cases "c \<in> visited")
      case True
      with Cons less.hyps [of visited rest candidates] less.prems show ?thesis
        by (auto simp: owner_walk.simps [of _ _ "c # rest"] insert_absorb)
    next
      case False
      let ?pending = "rest @ entries parents c"
      let ?visited = "insert c visited"
      from Cons less.prems(1) have c: "c \<in> U" by simp
      then have "card (U - ?visited) < card (U - visited)"
        using False assms(1) by (intro psubset_card_mono) auto
      moreover have "set ?pending \<subseteq> U" using Cons less.prems(1) assms(3) by auto
      moreover have "p \<in> ?visited \<union> set ?pending" if "v \<in> ?visited" "p \<in> set (entries parents v)" for v p
        using that less.prems(2) [of v p] Cons by auto
      ultimately obtain order where order:
        "owner_walk parents visit ?pending ?visited (visit c candidates) = Some (fold visit order (visit c candidates))"
        "distinct order" "set order = (parent_rel parents)\<^sup>* `` (?visited \<union> set ?pending) - ?visited"
        using less.hyps [of ?visited ?pending "visit c candidates"] by auto
      have step: "owner_walk parents visit pending visited candidates = Some (fold visit (c # order) candidates)"
        using False Cons order(1) by (simp add: owner_walk.simps [of _ _ "c # rest"])
      have "(parent_rel parents)\<^sup>* `` (?visited \<union> set ?pending) = (parent_rel parents)\<^sup>* `` (visited \<union> set pending)"
      proof -
        have "set (entries parents c) \<subseteq> (parent_rel parents)\<^sup>* `` {c}" by (auto simp: parent_rel_def)
        then have "(parent_rel parents)\<^sup>* `` set (entries parents c) \<subseteq> (parent_rel parents)\<^sup>* `` {c}"
          by (auto intro: rtrancl_trans)
        then show ?thesis using Cons by auto
      qed
      with order(3) have "set (c # order) = (parent_rel parents)\<^sup>* `` (visited \<union> set pending) - visited"
        using False Cons by auto
      with step order(2,3) show ?thesis by (intro exI [of _ "c # order"]) auto
    qed
  qed
qed

section \<open>What the maps hold\<close>

lemma entries_push: "entries (entry_push k v m) k' = entries m k' @ (if k = k' then [v] else [])"
  by (auto simp: entries_def entry_push_def split: option.splits)

lemma entries_fold_push:
  "entries (fold (\<lambda>x. entry_push (f x) (g x)) xs m) k = entries m k @ map g (filter (\<lambda>x. f x = k) xs)"
  by (induction xs arbitrary: m) (auto simp: entries_push)

lemma or_insert_apply: "or_insert k v m k' = or_else (m k') (if k = k' then Some v else None)"
  by (auto simp: or_insert_def or_else_def split: option.splits)

lemma fold_or_insert: "fold (\<lambda>x. or_insert (f x) (g x)) xs m k = or_else (m k) (map_of (map (\<lambda>x. (f x, g x)) xs) k)"
  by (induction xs arbitrary: m) (auto simp: or_insert_apply or_else_def split: option.splits)

lemma add_member_fields:
  "os_owner_by_method (fold add_member ms s) = fold (\<lambda>e. entry_push (om_method_id e) (om_owner_id e)) ms (os_owner_by_method s)"
  "os_methods_by_owner_and_name (fold add_member ms s) =
     fold (\<lambda>e. entry_push (om_owner_id e, om_method_name e) (om_method_id e)) ms (os_methods_by_owner_and_name s)"
  "os_owner_name_by_id (fold add_member ms s) = fold (\<lambda>e. or_insert (om_owner_id e) (om_owner_name e)) ms (os_owner_name_by_id s)"
  "os_methods_by_owner_name_and_name (fold add_member ms s) =
     fold (\<lambda>e. entry_push (om_owner_name e, om_method_name e) (om_method_id e)) ms (os_methods_by_owner_name_and_name s)"
  by (induction ms arbitrary: s) (simp_all add: add_member_def)

text \<open>The name a type is known by: that of its first indexed member, else its node's.\<close>

definition name_of_owner :: "OverrideMemberSnapshot list \<Rightarrow> (int \<times> string) list \<Rightarrow> int \<rightharpoonup> string" where
  "name_of_owner members node_names = map_of (map (\<lambda>e. (om_owner_id e, om_owner_name e)) members @ node_names)"

lemma entries_empty [simp]: "entries Map.empty k = []"
  by (simp add: entries_def)

lemma fold_pairs_push: "fold (\<lambda>(a, b). entry_push a b) = fold (\<lambda>x. entry_push (fst x) (snd x))"
  by (simp add: case_prod_unfold)

lemma support_fields:
  fixes members inh inh_names names
  defines "s \<equiv> override_support_from_snapshot members inh inh_names names"
  shows "set (entries (os_owner_by_method s) m) = {om_owner_id e | e. e \<in> set members \<and> om_method_id e = m}"
    and "set (entries (os_methods_by_owner_and_name s) (i, n)) =
      {om_method_id e | e. e \<in> set members \<and> om_owner_id e = i \<and> om_method_name e = n}"
    and "set (entries (os_methods_by_owner_name_and_name s) (t, n)) =
      {om_method_id e | e. e \<in> set members \<and> om_owner_name e = t \<and> om_method_name e = n}"
    and "os_owner_name_by_id s = name_of_owner members names"
    and "parent_rel (os_inheritance_by_type s) = set inh"
    and "parent_rel (os_inheritance_by_owner_name s) = set inh_names"
proof -
  show "os_owner_name_by_id s = name_of_owner members names"
  proof
    show "os_owner_name_by_id s k = name_of_owner members names k" for k
      by (auto simp: s_def override_support_from_snapshot_def Let_def add_member_fields case_prod_unfold
          fold_or_insert name_of_owner_def or_else_def map_add_def split: option.splits)
  qed
qed (auto simp: s_def override_support_from_snapshot_def Let_def add_member_fields entries_fold_push
    fold_pairs_push parent_rel_def image_iff)

lemma extend_loop_all: "oc_seen ids = set (oc_ordered ids) \<Longrightarrow> distinct (oc_ordered ids) \<Longrightarrow>
    oc_seen (extend_loop None cs ids) = set (oc_ordered (extend_loop None cs ids))
    \<and> distinct (oc_ordered (extend_loop None cs ids))
    \<and> set (oc_ordered (extend_loop None cs ids)) = set (oc_ordered ids) \<union> set cs"
  by (induction "None :: nat option" cs ids rule: extend_loop.induct) (auto simp: Let_def ids_push_def split: if_splits)

definition ids_hold :: "OrderedCandidateIds \<Rightarrow> int set \<Rightarrow> bool" where
  "ids_hold ids S \<longleftrightarrow> oc_seen ids = set (oc_ordered ids) \<and> distinct (oc_ordered ids) \<and> set (oc_ordered ids) = S"

lemma ids_hold_extend: "ids_hold ids S \<Longrightarrow> ids_hold (extend_stage cs None ids) (S \<union> set cs)"
  using extend_loop_all [of ids cs] by (simp add: ids_hold_def extend_stage_def)

lemma ids_hold_fold:
  assumes "\<And>c ids S. ids_hold ids S \<Longrightarrow> ids_hold (visit c ids) (S \<union> F c)" and "ids_hold ids S"
  shows "ids_hold (fold visit order ids) (S \<union> (\<Union>c\<in>set order. F c))"
  using assms(2)
proof (induction order arbitrary: ids S)
  case (Cons c order)
  from Cons.IH [OF assms(1) [OF Cons.prems]] show ?case by (simp add: Un_assoc Un_commute Un_left_commute)
qed simp

lemma walk_collects:
  assumes "finite (parent_rel parents)" and "\<And>c ids S. ids_hold ids S \<Longrightarrow> ids_hold (visit c ids) (S \<union> F c)"
  shows "\<exists>ids. map_option oc_ordered (owner_walk parents visit [start] {} ids_empty) = Some ids
    \<and> distinct ids \<and> set ids = (\<Union>c \<in> (parent_rel parents)\<^sup>* `` {start}. F c)"
proof -
  let ?U = "insert start (Range (parent_rel parents))"
  have "set (entries parents c) \<subseteq> ?U" for c by (auto simp: parent_rel_def)
  then obtain order where order: "owner_walk parents visit [start] {} ids_empty = Some (fold visit order ids_empty)"
    "set order = (parent_rel parents)\<^sup>* `` {start}"
    using walk_result [of ?U "[start]" parents "{}" visit ids_empty] finite_Range [OF assms(1)] by auto
  have "ids_hold (fold visit order ids_empty) ({} \<union> (\<Union>c\<in>set order. F c))"
    by (rule ids_hold_fold [OF assms(2)]) (simp_all add: ids_hold_def ids_empty_def)
  with order show ?thesis by (auto simp: ids_hold_def)
qed

section \<open>Candidates are the methods of proper ancestors\<close>

text \<open>The methods a name stands for in a type: its own, and those of every type known by its name.\<close>

definition methods_named ::
  "OverrideMemberSnapshot list \<Rightarrow> (int \<times> string) list \<Rightarrow> string \<Rightarrow> int \<Rightarrow> int set" where
  "methods_named members names n i =
     {om_method_id e | e. e \<in> set members \<and> om_method_name e = n
        \<and> (om_owner_id e = i \<or> name_of_owner members names i = Some (om_owner_name e))}"

lemma candidates_by_id:
  fixes members inh inh_names names
  defines "s \<equiv> override_support_from_snapshot members inh inh_names names"
  shows "\<exists>ids. collect_override_candidates owner n s = Some ids \<and> distinct ids
    \<and> set ids = (\<Union>c \<in> (set inh)\<^sup>* `` {owner} - {owner}. methods_named members names n c)"
proof -
  let ?F = "\<lambda>c. if c = owner then {} else methods_named members names n c"
  note fields = support_fields [of members inh inh_names names, folded s_def]
  have "\<exists>ids. collect_override_candidates owner n s = Some ids \<and> distinct ids
      \<and> set ids = (\<Union>c \<in> (parent_rel (os_inheritance_by_type s))\<^sup>* `` {owner}. ?F c)"
    unfolding collect_override_candidates_def
  proof (rule walk_collects, goal_cases)
    case 1
    then show ?case by (simp add: fields)
  next
    case (2 c ids S)
    let ?own = "entries (os_methods_by_owner_and_name s) (c, n)"
    have own: "ids_hold (extend_stage ?own None ids) (S \<union> set ?own)" using 2 by (rule ids_hold_extend)
    show ?case
    proof (cases "os_owner_name_by_id s c")
      case None
      then have "methods_named members names n c = set ?own" by (auto simp: methods_named_def fields)
      with None 2 own show ?thesis by (simp add: Let_def)
    next
      case (Some t)
      let ?named = "entries (os_methods_by_owner_name_and_name s) (t, n)"
      from Some have "methods_named members names n c = set ?own \<union> set ?named"
        by (auto simp: methods_named_def fields)
      with Some 2 ids_hold_extend [OF own, of ?named] show ?thesis by (simp add: Let_def Un_assoc)
    qed
  qed
  moreover have "(\<Union>c \<in> (set inh)\<^sup>* `` {owner}. ?F c) = (\<Union>c \<in> (set inh)\<^sup>* `` {owner} - {owner}. methods_named members names n c)"
    by auto
  ultimately show ?thesis by (simp add: fields)
qed

lemma candidates_by_name:
  fixes members inh inh_names names
  defines "s \<equiv> override_support_from_snapshot members inh inh_names names"
  shows "\<exists>ids. collect_override_candidates_by_owner_name owner n s = Some ids \<and> distinct ids
    \<and> set ids = {om_method_id e | e. e \<in> set members \<and> om_method_name e = n
        \<and> om_owner_name e \<in> (set inh_names)\<^sup>* `` {owner} - {owner}}"
proof -
  let ?F = "\<lambda>c. if c = owner then {} else {om_method_id e | e. e \<in> set members \<and> om_owner_name e = c \<and> om_method_name e = n}"
  note fields = support_fields [of members inh inh_names names, folded s_def]
  have "\<exists>ids. collect_override_candidates_by_owner_name owner n s = Some ids \<and> distinct ids
      \<and> set ids = (\<Union>c \<in> (parent_rel (os_inheritance_by_owner_name s))\<^sup>* `` {owner}. ?F c)"
    unfolding collect_override_candidates_by_owner_name_def
  proof (rule walk_collects, goal_cases)
    case 1
    then show ?case by (simp add: fields)
  next
    case (2 c ids S)
    then show ?case
      using ids_hold_extend [OF 2, of "entries (os_methods_by_owner_name_and_name s) (c, n)"] by (simp add: fields)
  qed
  moreover have "(\<Union>c \<in> (set inh_names)\<^sup>* `` {owner}. ?F c) = {om_method_id e | e. e \<in> set members \<and> om_method_name e = n
        \<and> om_owner_name e \<in> (set inh_names)\<^sup>* `` {owner} - {owner}}"
    by auto
  ultimately show ?thesis by (simp add: fields)
qed

section \<open>What an override resolves to\<close>

text \<open>The overridden methods a row may resolve to.\<close>

definition overridable ::
  "OverrideMemberSnapshot list \<Rightarrow> (int \<times> int) list \<Rightarrow> (string \<times> string) list \<Rightarrow> (int \<times> string) list \<Rightarrow>
     int \<Rightarrow> string \<Rightarrow> int set" where
  "overridable members inh inh_names names source_id source_name =
     (let n = short_member_name source_name
      in case owner_name_from_member_name source_name of
           Some owner \<Rightarrow> {om_method_id e | e. e \<in> set members \<and> om_method_name e = n
               \<and> om_owner_name e \<in> (set inh_names)\<^sup>* `` {owner} - {owner}}
         | None \<Rightarrow> (\<Union>e \<in> {e \<in> set members. om_method_id e = source_id}.
             \<Union>c \<in> (set inh)\<^sup>* `` {om_owner_id e} - {om_owner_id e}. methods_named members names n c))"

lemma override_update_target:
  "ru_resolved_target_node_id (fst (override_update pass edge_id ids)) = (case ids of [i] \<Rightarrow> Some i | _ \<Rightarrow> None)"
  "ru_edge_id (fst (override_update pass edge_id ids)) = edge_id"
  "snd (override_update pass edge_id ids) \<longleftrightarrow> ru_resolved_target_node_id (fst (override_update pass edge_id ids)) \<noteq> None"
  by (cases ids rule: the_only.cases;
      simp add: override_update_def Let_def build_resolved_edge_update_def)+

lemma set_sort_dedup [simp]: "set (sort_dedup ids) = set ids"
  by (simp add: sort_dedup_def)

lemma target_of_take:
  "set_option (case (if b then take 1 ids else ids) of [i] \<Rightarrow> Some i | _ \<Rightarrow> None) \<subseteq> set ids"
  by (cases ids; cases "tl ids") (auto split: list.splits)

lemma owner_of_method_in: "owner_of_method s ids = Some i \<Longrightarrow> i \<in> set ids"
proof -
  assume i: "owner_of_method s ids = Some i"
  then have "sort_dedup ids \<noteq> []" by (auto simp: owner_of_method_def Let_def names_of_def split: if_splits)
  with i show ?thesis using hd_in_set [of "sort_dedup ids"] by (auto simp: owner_of_method_def Let_def split: if_splits)
qed

definition override_ok :: "int set \<Rightarrow> int \<Rightarrow> ResolvedEdgeUpdate \<times> bool \<Rightarrow> bool" where
  "override_ok S edge_id u \<longleftrightarrow> ru_edge_id (fst u) = edge_id \<and> set_option (ru_resolved_target_node_id (fst u)) \<subseteq> S
     \<and> (snd u \<longleftrightarrow> ru_resolved_target_node_id (fst u) \<noteq> None)"

lemma override_ok_unresolved [simp]: "override_ok S edge_id (build_resolved_edge_update edge_id None [], False)"
  by (simp add: override_ok_def build_resolved_edge_update_def)

lemma override_ok_update:
  "set ids \<subseteq> S \<Longrightarrow> override_ok S edge_id (override_update pass edge_id (if b then take 1 ids else ids))"
  using target_of_take [of b ids] by (auto simp: override_ok_def override_update_target)

lemma resolve_override_ok:
  "\<exists>u. resolve_override pass (override_support_from_snapshot members inh inh_names names) (edge_id, source_id, source_name) = Some u
     \<and> override_ok (overridable members inh inh_names names source_id source_name) edge_id u"
proof (cases "owner_name_from_member_name source_name")
  case (Some owner)
  let ?S = "overridable members inh inh_names names source_id source_name"
  let ?s = "override_support_from_snapshot members inh inh_names names"
  obtain ids where ids: "collect_override_candidates_by_owner_name owner (short_member_name source_name) ?s = Some ids"
    and sub: "set ids \<subseteq> ?S"
    using candidates_by_name [of owner "short_member_name source_name" members inh inh_names names] Some
    by (auto simp: overridable_def Let_def)
  let ?b = "length (sort_dedup ids) > 1 \<and> length (names_of ?s (sort_dedup ids)) = 1"
  have "resolve_override pass ?s (edge_id, source_id, source_name) =
      Some (override_update pass edge_id (if ?b then take 1 (sort_dedup ids) else sort_dedup ids))"
    using Some ids by (simp add: resolve_override_def resolve_by_owner_name_def Let_def)
  moreover have "override_ok ?S edge_id (override_update pass edge_id (if ?b then take 1 (sort_dedup ids) else sort_dedup ids))"
    using sub by (intro override_ok_update) simp
  ultimately show ?thesis by blast
next
  case None
  let ?s = "override_support_from_snapshot members inh inh_names names"
  let ?n = "short_member_name source_name"
  note fields = support_fields [of members inh inh_names names]
  show ?thesis
  proof (cases "Option.bind (os_owner_by_method ?s source_id) (owner_of_method ?s)")
    case unresolved: None
    with None show ?thesis
      by (cases "os_owner_by_method ?s source_id") (auto simp: resolve_override_def Let_def)
  next
    case (Some i)
    then obtain os where os: "os_owner_by_method ?s source_id = Some os" and i: "owner_of_method ?s os = Some i"
      by (auto simp: bind_eq_Some_conv)
    have "i \<in> set (entries (os_owner_by_method ?s) source_id)"
      using owner_of_method_in [OF i] os by (simp add: entries_def)
    then obtain e where e: "e \<in> set members" "om_method_id e = source_id" "om_owner_id e = i"
      by (auto simp: fields)
    obtain ids where ids: "collect_override_candidates i ?n ?s = Some ids"
      "set ids = (\<Union>c \<in> (set inh)\<^sup>* `` {i} - {i}. methods_named members names ?n c)"
      using candidates_by_id [of i ?n members inh inh_names names] by blast
    have sub: "set ids \<subseteq> overridable members inh inh_names names source_id source_name"
      using None e ids(2) by (auto simp: overridable_def Let_def)
    have "override_ok (overridable members inh inh_names names source_id source_name) edge_id
        (override_update pass edge_id (if b then take 1 (sort ids) else ids))" for b
      using override_ok_update [of "sort ids" _ edge_id pass b] override_ok_update [of ids _ edge_id pass False] sub
      by (cases b) simp_all
    note ok = this
    show ?thesis
    proof (cases "i = 0")
      case True
      with None os i show ?thesis by (auto simp: resolve_override_def Let_def)
    next
      case False
      with None os i ids(1) have "resolve_override pass ?s (edge_id, source_id, source_name) =
          Some (override_update pass edge_id
            (if length ids > 1 \<and> length (names_of ?s ids) = 1 then take 1 (sort ids) else ids))"
        by (simp add: resolve_override_def resolve_by_owner_id_def Let_def)
      with ok show ?thesis by blast
    qed
  qed
qed

text \<open>C9: the walk up the inheritance graph always returns, on cyclic graphs too, and an override edge
  resolves to nothing or to a method of its name in a proper ancestor of its owner: the owner named
  by the method's own qualified name or, for a bare name, one the index lists the method under. The
  row counts as resolved exactly when its update carries a target.\<close>

theorem overrides_are_ancestor_methods:
  "\<exists>u. resolve_override pass (override_support_from_snapshot members inh inh_names names) (edge_id, source_id, source_name) = Some u
     \<and> override_ok (overridable members inh inh_names names source_id source_name) edge_id u"
  by (rule resolve_override_ok)

end
