(* ===== verification/Resolution_Store.thy ===== *)
theory Resolution_Store
  imports Override_Resolution
begin

text \<open>
  What a resolution pass reads and writes (\<^verbatim>\<open>resolution/sql.rs\<close>, \<^verbatim>\<open>resolution/pipeline.rs\<close>,
  \<^verbatim>\<open>ScopeCallerContext\<close> and \<^verbatim>\<open>semantic_candidates_for_rows\<close> of \<^verbatim>\<open>resolution/mod.rs\<close>): the caller
  scope, the statements the pass issues, and the semantic requests of a batch of rows.

  The database is its node and edge tables, each a list of rows in row order; a statement is what
  it does to them. A statement succeeds except where the schema refuses it, which is at the primary
  key of the staged updates.
\<close>

section \<open>The tables\<close>

record db_node =
  dn_id :: int
  dn_kind :: "32 word"
  dn_serialized_name :: string
  dn_qualified_name :: "string option"
  dn_canonical_id :: "string option"
  dn_file_node_id :: "int option"
  dn_start_line :: "int option"

record db_edge =
  de_id :: int
  de_source_node_id :: int
  de_target_node_id :: int
  de_kind :: "32 word"
  de_file_node_id :: "int option"
  de_resolved_source_node_id :: "int option"
  de_resolved_target_node_id :: "int option"
  de_confidence :: "f32 option"
  de_callsite_identity :: "string option"
  de_certainty :: "string option"
  de_candidate_target_node_ids :: "int list option"

record graph_db =
  db_nodes :: "db_node list"
  db_edges :: "db_edge list"

definition node_row :: "graph_db \<Rightarrow> int \<Rightarrow> db_node option" where
  "node_row db i = find (\<lambda>n. dn_id n = i) (db_nodes db)"

definition update_edges :: "(db_edge \<Rightarrow> bool) \<Rightarrow> (db_edge \<Rightarrow> db_edge) \<Rightarrow> graph_db \<Rightarrow> graph_db" where
  "update_edges p f db = db\<lparr>db_edges := map (\<lambda>e. if p e then f e else e) (db_edges db)\<rparr>"

text \<open>
  SQL's \<^verbatim>\<open>LIKE\<close> for a pattern that ends in \<^verbatim>\<open>%\<close> and has no other: ASCII letters match in either case,
  and \<^verbatim>\<open>_\<close> is any one character, that is a byte with its UTF-8 continuation bytes.
\<close>

fun like_prefix :: "string \<Rightarrow> string \<Rightarrow> bool" where
  "like_prefix [] s = True"
| "like_prefix (p # ps) [] = False"
| "like_prefix (p # ps) (c # cs) =
     (if p = CHR ''_''
      then like_prefix ps (if byte c \<ge> 0xC0 then dropWhile (\<lambda>b. 0x80 \<le> byte b \<and> byte b < 0xC0) cs else cs)
      else to_ascii_lowercase [p] = to_ascii_lowercase [c] \<and> like_prefix ps cs)"

definition is_route_like :: "db_node \<Rightarrow> bool" where
  "is_route_like n =
     (case dn_canonical_id n of None \<Rightarrow> False
      | Some c \<Rightarrow> list_ex (\<lambda>p. like_prefix p c)
          [''tauri:command:'', ''openapi:endpoint:'', ''route_endpoint:'', ''payload:collection:''])"

section \<open>The scope of callers\<close>

datatype ScopeCallerMode = Unscoped | ScopedCallers | EmptyScope

text \<open>\<^verbatim>\<open>sx_callers\<close> is the temporary table of caller ids.\<close>

record ScopeCallerContext =
  sx_mode :: ScopeCallerMode
  sx_callers :: "int list"

definition scope_prepare :: "graph_db \<Rightarrow> int list option \<Rightarrow> ScopeCallerContext" where
  "scope_prepare db caller_scope_file_ids =
     (case caller_scope_file_ids of
        None \<Rightarrow> \<lparr>sx_mode = Unscoped, sx_callers = []\<rparr>
      | Some ids \<Rightarrow>
          if ids = [] then \<lparr>sx_mode = EmptyScope, sx_callers = []\<rparr>
          else \<lparr>sx_mode = ScopedCallers,
                sx_callers = map dn_id (filter (\<lambda>n. dn_file_node_id n \<in> Some ` set ids) (db_nodes db))\<rparr>)"

definition scope_clause :: "ScopeCallerContext \<Rightarrow> db_edge \<Rightarrow> bool" where
  "scope_clause scope e \<longleftrightarrow> (if sx_mode scope = ScopedCallers then List.member (sx_callers scope) (de_source_node_id e) else True)"

text \<open>Only the worklist of calls asks for edges without metadata of the indexer.\<close>

definition worklist_metadata_filter :: "EdgeKind \<Rightarrow> db_edge \<Rightarrow> bool" where
  "worklist_metadata_filter kind e \<longleftrightarrow> (if kind = EK_CALL then de_confidence e = None \<and> de_certainty e = None else True)"

definition count_unresolved_on_conn :: "graph_db \<Rightarrow> EdgeKind \<Rightarrow> ScopeCallerContext \<Rightarrow> nat" where
  "count_unresolved_on_conn db kind scope =
     (if sx_mode scope = EmptyScope then 0
      else length (filter (\<lambda>e. de_kind e = edge_kind_as_i32 kind \<and> de_resolved_target_node_id e = None
        \<and> worklist_metadata_filter kind e \<and> scope_clause scope e) (db_edges db)))"

section \<open>The statements\<close>

definition prepare_sources :: "EdgeKind \<Rightarrow> ScopeCallerContext \<Rightarrow> graph_db \<Rightarrow> graph_db" where
  "prepare_sources kind scope =
     update_edges (\<lambda>e. de_kind e = edge_kind_as_i32 kind \<and> de_resolved_source_node_id e = None \<and> scope_clause scope e)
       (\<lambda>e. e\<lparr>de_resolved_source_node_id := Some (de_source_node_id e)\<rparr>)"

definition clear_resolution :: "db_edge \<Rightarrow> db_edge" where
  "clear_resolution e = e\<lparr>de_resolved_target_node_id := None, de_confidence := None, de_certainty := None\<rparr>"

definition cleanup_stale_call_resolutions ::
  "ResolutionPass \<Rightarrow> ScopeCallerContext \<Rightarrow> graph_db \<Rightarrow> graph_db" where
  "cleanup_stale_call_resolutions pass scope db =
     (if sx_mode scope = EmptyScope then db
      else
        let cutoff = rp_min_call_confidence (ps_policy pass);
            db = update_edges (\<lambda>e. de_kind e = edge_kind_as_i32 EK_CALL
                \<and> (case de_confidence e of None \<Rightarrow> False | Some c \<Rightarrow> f32_gt cutoff c)
                \<and> \<not> List.member (map dn_id (filter is_route_like (db_nodes db))) (de_target_node_id e)
                \<and> scope_clause scope e) clear_resolution db;
            common = map dn_id (filter (\<lambda>n. List.member common_unqualified_call_names
                (to_ascii_lowercase (dn_serialized_name n))) (db_nodes db))
        in update_edges (\<lambda>e. de_kind e = edge_kind_as_i32 EK_CALL \<and> de_resolved_target_node_id e \<noteq> None
             \<and> List.member common (de_target_node_id e)
             \<and> (rf_legacy_mode (ps_flags pass) \<or> de_certainty e \<noteq> Some (certainty_as_str Certain))
             \<and> scope_clause scope e) clear_resolution db)"

definition map_unresolved_edge_row :: "graph_db \<Rightarrow> db_edge \<Rightarrow> UnresolvedEdgeRow option" where
  "map_unresolved_edge_row db e =
     (case (node_row db (de_source_node_id e), node_row db (de_target_node_id e)) of
        (Some caller, Some target) \<Rightarrow>
          if is_route_like target then None
          else let file_id = or_else (dn_file_node_id caller) (de_file_node_id e)
               in Some \<lparr>ue_edge_id = de_id e, ue_file_id = file_id, ue_caller_qualified = dn_qualified_name caller,
                    ue_source_name = dn_serialized_name caller, ue_target_name = dn_serialized_name target,
                    ue_target_node_id = de_target_node_id e,
                    ue_caller_file_path = map_option dn_serialized_name (Option.bind file_id (node_row db)),
                    ue_callsite_identity = de_callsite_identity e\<rparr>
      | _ \<Rightarrow> None)"

definition unresolved_edges :: "graph_db \<Rightarrow> EdgeKind \<Rightarrow> ScopeCallerContext \<Rightarrow> UnresolvedEdgeRow list" where
  "unresolved_edges db kind scope =
     (if sx_mode scope = EmptyScope then []
      else List.map_filter (map_unresolved_edge_row db)
        (sort_key de_id (filter (\<lambda>e. de_kind e = edge_kind_as_i32 kind \<and> de_resolved_target_node_id e = None
          \<and> worklist_metadata_filter kind e \<and> scope_clause scope e) (db_edges db))))"

text \<open>A NaN is stored as \<^verbatim>\<open>NULL\<close>.\<close>

definition sql_real :: "f32 option \<Rightarrow> f32 option" where
  "sql_real c = (if c = Some F32_NaN then None else c)"

definition apply_update :: "ResolvedEdgeUpdate \<Rightarrow> db_edge \<Rightarrow> db_edge" where
  "apply_update u e =
     e\<lparr>de_resolved_target_node_id := (if ru_touch_metadata u then ru_resolved_target_node_id u else de_resolved_target_node_id e),
       de_confidence := (if ru_touch_metadata u then sql_real (ru_confidence u) else de_confidence e),
       de_certainty := (if ru_touch_metadata u then ru_certainty u else de_certainty e),
       de_candidate_target_node_ids := or_else (ru_candidate_payload u) (de_candidate_target_node_ids e)\<rparr>"

datatype resolution_error =
    ResolutionCancelled | ConstraintViolation | SqlFailed | StillWalking | InvalidRequestKind EnumConversionError

definition apply_resolution_updates :: "ResolvedEdgeUpdate list \<Rightarrow> graph_db \<Rightarrow> resolution_error + graph_db" where
  "apply_resolution_updates updates db =
     (if updates = [] then Inr db
      else if \<not> distinct (map ru_edge_id updates) then Inl ConstraintViolation
      else Inr (db\<lparr>db_edges := map (\<lambda>e. case find (\<lambda>u. ru_edge_id u = de_id e) updates of
                      Some u \<Rightarrow> apply_update u e | None \<Rightarrow> e) (db_edges db)\<rparr>))"

section \<open>Semantic requests of a batch\<close>

record SemanticResolutionRequestKey =
  rk_edge_kind :: "32 word"
  rk_file_id :: "int option"
  rk_file_path :: "string option"
  rk_target_name :: string

record SemanticRequestStats =
  rs_total_requests :: nat
  rs_unique_requests :: nat
  rs_skipped_requests :: nat

definition is_call_placeholder :: "EdgeKind \<Rightarrow> string option \<Rightarrow> bool" where
  "is_call_placeholder kind callsite \<longleftrightarrow>
     is_python_dotted_call_placeholder kind callsite \<or> is_cpp_member_call_placeholder kind callsite
     \<or> is_js_member_call_placeholder kind callsite \<or> is_ts_member_call_placeholder kind callsite
     \<or> is_kotlin_member_call_placeholder kind callsite \<or> is_dart_member_call_placeholder kind callsite
     \<or> is_swift_member_call_placeholder kind callsite \<or> is_go_selector_call_placeholder kind callsite
     \<or> is_java_member_call_placeholder kind callsite \<or> is_csharp_member_call_placeholder kind callsite
     \<or> is_ruby_member_call_placeholder kind callsite \<or> is_php_member_call_placeholder kind callsite
     \<or> is_imported_receiver_call_placeholder kind callsite"

definition should_skip_semantic_candidates :: "EdgeKind \<Rightarrow> UnresolvedEdgeRow \<Rightarrow> bool" where
  "should_skip_semantic_candidates kind row \<longleftrightarrow> kind = EK_CALL
     \<and> \<not> should_keep_common_call_resolution (ue_target_name row) CERTAIN_MIN (ue_callsite_identity row)"

definition semantic_request_target_name :: "EdgeKind \<Rightarrow> UnresolvedEdgeRow \<Rightarrow> string" where
  "semantic_request_target_name kind row =
     (if kind = EK_IMPORT \<and> import_alias_mismatch (ue_source_name row) (ue_target_name row)
      then ue_target_name row @ '' as '' @ ue_source_name row else ue_target_name row)"

definition semantic_request_key :: "EdgeKind \<Rightarrow> UnresolvedEdgeRow \<Rightarrow> SemanticResolutionRequestKey option" where
  "semantic_request_key kind row =
     (if detect_resolver_language (ue_caller_file_path row) = None
         \<or> is_call_placeholder kind (ue_callsite_identity row) \<or> should_skip_semantic_candidates kind row
      then None
      else Some \<lparr>rk_edge_kind = edge_kind_as_i32 kind, rk_file_id = ue_file_id row,
                 rk_file_path = ue_caller_file_path row, rk_target_name = semantic_request_target_name kind row\<rparr>)"

definition semantic_candidates_for_edge ::
  "ResolutionPass \<Rightarrow> SemanticCandidateIndex \<Rightarrow> SemanticResolutionRequestKey \<Rightarrow>
     EnumConversionError + SemanticResolutionCandidate list" where
  "semantic_candidates_for_edge pass index key =
     (case EdgeKind_try_from (rk_edge_kind key) of
        Inl e \<Rightarrow> Inl e
      | Inr kind \<Rightarrow> Inr (registry_resolve (rf_enable_semantic (ps_flags pass)) index
          \<lparr>rq_edge_kind = kind, rq_file_id = rk_file_id key, rq_file_path = rk_file_path key,
           rq_target_name = rk_target_name key\<rparr>))"

text \<open>The loop over the rows: the index of each row's key among the keys seen, new keys at the end.\<close>

record request_batch =
  rb_indexes :: "nat option list"
  rb_keys :: "SemanticResolutionRequestKey list"
  rb_key_indexes :: "SemanticResolutionRequestKey \<rightharpoonup> nat"
  rb_skipped :: nat

definition batch_row :: "EdgeKind \<Rightarrow> UnresolvedEdgeRow \<Rightarrow> request_batch \<Rightarrow> request_batch" where
  "batch_row kind row b =
     (case semantic_request_key kind row of
        None \<Rightarrow> b\<lparr>rb_skipped := rb_skipped b + 1, rb_indexes := rb_indexes b @ [None]\<rparr>
      | Some key \<Rightarrow>
          (case rb_key_indexes b key of
             Some i \<Rightarrow> b\<lparr>rb_indexes := rb_indexes b @ [Some i]\<rparr>
           | None \<Rightarrow>
               let i = length (rb_keys b)
               in b\<lparr>rb_key_indexes := (rb_key_indexes b)(key \<mapsto> i), rb_keys := rb_keys b @ [key],
                    rb_indexes := rb_indexes b @ [Some i]\<rparr>))"

fun collect_results :: "('e + 'a) list \<Rightarrow> 'e + 'a list" where
  "collect_results [] = Inr []"
| "collect_results (r # rs) =
     (case r of Inl e \<Rightarrow> Inl e | Inr x \<Rightarrow> (case collect_results rs of Inl e \<Rightarrow> Inl e | Inr xs \<Rightarrow> Inr (x # xs)))"

text \<open>A parallel map and a sequential one collect the same results.\<close>

definition semantic_candidates_for_rows ::
  "ResolutionPass \<Rightarrow> SemanticCandidateIndex \<Rightarrow> UnresolvedEdgeRow list \<Rightarrow> EdgeKind \<Rightarrow>
     EnumConversionError + SemanticResolutionCandidate list list \<times> SemanticRequestStats" where
  "semantic_candidates_for_rows pass index rows kind =
     (if \<not> rf_enable_semantic (ps_flags pass)
      then Inr (replicate (length rows) [], \<lparr>rs_total_requests = 0, rs_unique_requests = 0, rs_skipped_requests = 0\<rparr>)
      else
        let b = fold (batch_row kind) rows \<lparr>rb_indexes = [], rb_keys = [], rb_key_indexes = Map.empty, rb_skipped = 0\<rparr>
        in case collect_results (map (semantic_candidates_for_edge pass index) (rb_keys b)) of
             Inl e \<Rightarrow> Inl e
           | Inr results \<Rightarrow>
               Inr (map (\<lambda>i. case i of Some i \<Rightarrow> results ! i | None \<Rightarrow> []) (rb_indexes b),
                    \<lparr>rs_total_requests = length rows, rs_unique_requests = length (rb_keys b),
                     rs_skipped_requests = rb_skipped b\<rparr>))"

text \<open>What one row asks for, on its own.\<close>

definition row_candidates ::
  "ResolutionPass \<Rightarrow> SemanticCandidateIndex \<Rightarrow> EdgeKind \<Rightarrow> UnresolvedEdgeRow \<Rightarrow> SemanticResolutionCandidate list" where
  "row_candidates pass index kind row =
     (case semantic_request_key kind row of
        None \<Rightarrow> []
      | Some key \<Rightarrow> registry_resolve (rf_enable_semantic (ps_flags pass)) index
          \<lparr>rq_edge_kind = kind, rq_file_id = rk_file_id key, rq_file_path = rk_file_path key,
           rq_target_name = rk_target_name key\<rparr>)"

definition indexed :: "EdgeKind \<Rightarrow> SemanticResolutionRequestKey list \<Rightarrow> UnresolvedEdgeRow \<Rightarrow> nat option \<Rightarrow> bool" where
  "indexed kind keys row i = (case semantic_request_key kind row of
     None \<Rightarrow> i = None | Some k \<Rightarrow> \<exists>j. i = Some j \<and> j < length keys \<and> keys ! j = k)"

definition batch_ok :: "EdgeKind \<Rightarrow> UnresolvedEdgeRow list \<Rightarrow> request_batch \<Rightarrow> bool" where
  "batch_ok kind rows b \<longleftrightarrow>
     (\<forall>k i. rb_key_indexes b k = Some i \<longleftrightarrow> i < length (rb_keys b) \<and> rb_keys b ! i = k)
   \<and> list_all2 (indexed kind (rb_keys b)) rows (rb_indexes b)
   \<and> set (rb_keys b) = set (List.map_filter (semantic_request_key kind) rows)
   \<and> rb_skipped b = length (filter (\<lambda>r. semantic_request_key kind r = None) rows)"

lemma batch_ok_row:
  assumes "batch_ok kind rows b"
  shows "batch_ok kind (rows @ [row]) (batch_row kind row b)"
proof (cases "semantic_request_key kind row")
  case None
  with assms show ?thesis by (auto simp: batch_ok_def batch_row_def indexed_def map_filter_def intro!: list_all2_appendI)
next
  case (Some k)
  note idx = assms [unfolded batch_ok_def, THEN conjunct1]
  show ?thesis
  proof (cases "rb_key_indexes b k")
    case None
    have grow: "list_all2 (indexed kind (rb_keys b @ [k])) rows (rb_indexes b)"
      using assms unfolding batch_ok_def
      by (elim conjE list_all2_mono) (fastforce simp: indexed_def nth_append split: option.splits)
    have new: "k \<notin> set (rb_keys b)" using idx None by (metis in_set_conv_nth option.distinct(1))
    then have "\<forall>k' i. ((rb_key_indexes b)(k \<mapsto> length (rb_keys b))) k' = Some i
        \<longleftrightarrow> i < length (rb_keys b @ [k]) \<and> (rb_keys b @ [k]) ! i = k'"
      using idx by (auto simp: nth_append less_Suc_eq in_set_conv_nth)
    with None Some assms grow show ?thesis
      by (auto simp: batch_ok_def batch_row_def indexed_def Let_def map_filter_def intro!: list_all2_appendI)
  next
    case (Some i)
    then have i: "i < length (rb_keys b)" "rb_keys b ! i = k" using idx by blast+
    have step: "batch_row kind row b = b\<lparr>rb_indexes := rb_indexes b @ [Some i]\<rparr>"
      using Some \<open>semantic_request_key kind row = Some k\<close> by (simp add: batch_row_def)
    have "indexed kind (rb_keys b) row (Some i)"
      using i \<open>semantic_request_key kind row = Some k\<close> by (simp add: indexed_def)
    moreover have "k \<in> set (rb_keys b)" using i by auto
    ultimately show ?thesis
      using assms \<open>semantic_request_key kind row = Some k\<close> unfolding step
      by (auto simp: batch_ok_def map_filter_def intro!: list_all2_appendI)
  qed
qed

lemma batch_ok_fold:
  "batch_ok kind rows (fold (batch_row kind) rows \<lparr>rb_indexes = [], rb_keys = [], rb_key_indexes = Map.empty, rb_skipped = 0\<rparr>)"
  by (induction rows rule: rev_induct) (simp_all add: batch_ok_row, simp add: batch_ok_def map_filter_def)

lemma list_all2_map_eq: "list_all2 (\<lambda>x y. g y = f x) xs ys \<Longrightarrow> map g ys = map f xs"
  by (induction rule: list_all2_induct) simp_all

lemma collect_results_Inr: "collect_results (map (\<lambda>x. Inr (f x)) xs) = Inr (map f xs)"
  by (induction xs) simp_all

lemma semantic_candidates_for_rows_eq:
  "\<exists>stats. semantic_candidates_for_rows pass index rows kind =
     Inr (map (row_candidates pass index kind) rows, stats)
     \<and> rs_unique_requests stats + rs_skipped_requests stats \<le> rs_total_requests stats
     \<and> rs_total_requests stats \<le> length rows"
proof (cases "rf_enable_semantic (ps_flags pass)")
  case False
  then have "row_candidates pass index kind row = []" for row
    by (simp add: row_candidates_def registry_resolve_def split: option.split)
  then have "map (row_candidates pass index kind) rows = replicate (length rows) []"
    by (induction rows) simp_all
  with False show ?thesis by (simp add: semantic_candidates_for_rows_def)
next
  case True
  let ?b = "fold (batch_row kind) rows \<lparr>rb_indexes = [], rb_keys = [], rb_key_indexes = Map.empty, rb_skipped = 0\<rparr>"
  let ?f = "\<lambda>key. registry_resolve True index \<lparr>rq_edge_kind = kind, rq_file_id = rk_file_id key,
      rq_file_path = rk_file_path key, rq_target_name = rk_target_name key\<rparr>"
  have ok: "batch_ok kind rows ?b" by (rule batch_ok_fold)
  have kinds: "rk_edge_kind k = edge_kind_as_i32 kind" if "k \<in> set (rb_keys ?b)" for k
    using that ok by (auto simp: batch_ok_def map_filter_def semantic_request_key_def split: if_splits)
  have "map (semantic_candidates_for_edge pass index) (rb_keys ?b) = map (\<lambda>k. Inr (?f k)) (rb_keys ?b)"
    by (rule map_cong) (simp_all only: semantic_candidates_for_edge_def kinds EdgeKind_try_from_def True
        edge_kind.decode_encode option.case sum.case)
  then have results: "collect_results (map (semantic_candidates_for_edge pass index) (rb_keys ?b)) = Inr (map ?f (rb_keys ?b))"
    by (simp only: collect_results_Inr)
  have "map (\<lambda>i. case i of Some i \<Rightarrow> map ?f (rb_keys ?b) ! i | None \<Rightarrow> []) (rb_indexes ?b) = map (row_candidates pass index kind) rows"
  proof -
    have "list_all2 (\<lambda>row i. (case i of Some i \<Rightarrow> map ?f (rb_keys ?b) ! i | None \<Rightarrow> []) = row_candidates pass index kind row)
        rows (rb_indexes ?b)"
      using ok unfolding batch_ok_def
      by (elim conjE list_all2_mono) (auto simp: indexed_def row_candidates_def True split: option.splits)
    then show ?thesis by (rule list_all2_map_eq)
  qed
  moreover have "length (rb_keys ?b) + rb_skipped ?b \<le> length rows"
  proof -
    have "distinct (rb_keys ?b)"
      unfolding distinct_conv_nth using ok unfolding batch_ok_def by (metis option.inject)
    then have "length (rb_keys ?b) = card (set (List.map_filter (semantic_request_key kind) rows))"
      using ok by (simp add: batch_ok_def distinct_card [symmetric])
    also have "\<dots> \<le> length (List.map_filter (semantic_request_key kind) rows)" by (rule card_length)
    also have "\<dots> = length (filter (\<lambda>r. semantic_request_key kind r \<noteq> None) rows)" by (simp add: map_filter_def)
    finally show ?thesis
      using ok sum_length_filter_compl [of "\<lambda>r. semantic_request_key kind r = None" rows] by (simp add: batch_ok_def)
  qed
  ultimately show ?thesis
    using True by (simp add: semantic_candidates_for_rows_def Let_def results)
qed

text \<open>C29: sharing requests between the rows of a batch changes nothing but their number: every row gets
  the candidates its own request would, rows without a request get none, no request fails, and the
  distinct and skipped requests together are at most the rows.\<close>

theorem semantic_batch_is_per_row:
  "\<exists>stats. semantic_candidates_for_rows pass index rows kind =
     Inr (map (row_candidates pass index kind) rows, stats)
     \<and> rs_unique_requests stats + rs_skipped_requests stats \<le> rs_total_requests stats
     \<and> rs_total_requests stats \<le> length rows"
  by (rule semantic_candidates_for_rows_eq)

end
