(* ===== verification/Resolution_Pass.thy ===== *)
theory Resolution_Pass
  imports Resolution_Store
begin

text \<open>
  A resolution pass over the store (\<^verbatim>\<open>ResolutionPass::run_with_scope_with_cancel\<close> of
  \<^verbatim>\<open>resolution/mod.rs\<close> with \<^verbatim>\<open>resolution/pipeline.rs\<close>): the prepared indexes, calls, imports and
  overrides in turn, cancellation between the steps, and the transaction around it all.

  A cancellation token answers each check of the pass in turn. That \<^verbatim>\<open>BEGIN\<close>, \<^verbatim>\<open>COMMIT\<close> and
  \<^verbatim>\<open>ROLLBACK\<close> succeed is up to the environment. The prepared indexes are loaded from the tables or
  restored from the stored snapshot, an argument here: its JSON encoding, the table it is kept in
  and the timing telemetry are not modelled.
\<close>

section \<open>The prepared indexes\<close>

record SemanticCandidateNodeSnapshot =
  ss_id :: int
  ss_kind :: "32 word"
  ss_serialized_name :: string
  ss_qualified_name :: "string option"
  ss_file_node_id :: "int option"
  ss_language_family :: "string option"

definition semantic_from_snapshot_nodes :: "SemanticCandidateNodeSnapshot list \<Rightarrow> SemanticCandidateIndex" where
  "semantic_from_snapshot_nodes nodes = semantic_from_nodes (map (\<lambda>n.
     \<lparr>sn_id = ss_id n, sn_kind = ss_kind n, sn_serialized_name = ss_serialized_name n,
      sn_serialized_name_ascii_lower = to_ascii_lowercase (ss_serialized_name n),
      sn_qualified_name = ss_qualified_name n,
      sn_qualified_name_ascii_lower = map_option to_ascii_lowercase (ss_qualified_name n),
      sn_file_node_id = ss_file_node_id n, sn_language_family = ss_language_family n\<rparr>) nodes)"

definition semantic_snapshot_nodes :: "SemanticCandidateIndex \<Rightarrow> SemanticCandidateNodeSnapshot list" where
  "semantic_snapshot_nodes index = map (\<lambda>n.
     \<lparr>ss_id = sn_id n, ss_kind = sn_kind n, ss_serialized_name = sn_serialized_name n,
      ss_qualified_name = sn_qualified_name n, ss_file_node_id = sn_file_node_id n,
      ss_language_family = sn_language_family n\<rparr>) (si_nodes index)"

record ResolutionSupportSnapshot =
  sp_enable_semantic :: bool
  sp_call_candidates :: "CandidateNodeSnapshot list"
  sp_call_import_binding_node_ids :: "int list"
  sp_import_candidates :: "CandidateNodeSnapshot list"
  sp_relative_import_candidates :: "CandidateNodeSnapshot list"
  sp_call_semantic_nodes :: "SemanticCandidateNodeSnapshot list"
  sp_import_semantic_nodes :: "SemanticCandidateNodeSnapshot list"
  sp_override_members :: "OverrideMemberSnapshot list"
  sp_override_inheritance :: "(int \<times> int) list"
  sp_override_inheritance_by_name :: "(string \<times> string) list"
  sp_node_names :: "(int \<times> string) list"

record PreparedResolutionState =
  pr_call_candidate_index :: CandidateIndex
  pr_import_candidate_index :: CandidateIndex
  pr_call_semantic_index :: SemanticCandidateIndex
  pr_import_semantic_index :: SemanticCandidateIndex
  pr_override_support :: OverrideSupport

text \<open>Rows \<^verbatim>\<open>ORDER BY COALESCE(start_line, i64::MIN), id\<close>: a stable sort by line of the rows sorted by id.\<close>

definition nodes_of_kinds :: "graph_db \<Rightarrow> NodeKind list \<Rightarrow> db_node list" where
  "nodes_of_kinds db kinds =
     sort_key (\<lambda>n. case dn_start_line n of Some l \<Rightarrow> l | None \<Rightarrow> - 9223372036854775808)
       (sort_key dn_id (filter (\<lambda>n. dn_kind n \<in> node_kind_as_i32 ` set kinds) (db_nodes db)))"

definition file_path_of :: "graph_db \<Rightarrow> db_node \<Rightarrow> string option" where
  "file_path_of db n = map_option dn_serialized_name (Option.bind (dn_file_node_id n) (node_row db))"

definition load_nodes :: "graph_db \<Rightarrow> NodeKind list \<Rightarrow> CandidateNode list" where
  "load_nodes db kinds = map (\<lambda>n.
     \<lparr>cn_id = dn_id n, cn_file_node_id = dn_file_node_id n, cn_file_path = file_path_of db n,
      cn_normalized_file_path = Option.bind (file_path_of db n) normalize_resolution_path,
      cn_serialized_name = dn_serialized_name n,
      cn_serialized_name_ascii_lower = to_ascii_lowercase (dn_serialized_name n),
      cn_qualified_name = dn_qualified_name n\<rparr>) (nodes_of_kinds db kinds)"

definition load_import_binding_node_ids :: "graph_db \<Rightarrow> int set" where
  "load_import_binding_node_ids db =
     set (map de_source_node_id (filter (\<lambda>e. de_kind e = edge_kind_as_i32 EK_IMPORT) (db_edges db)))"

definition load_with_import_bindings :: "graph_db \<Rightarrow> NodeKind list \<Rightarrow> CandidateIndex" where
  "load_with_import_bindings db kinds =
     from_primary_relative_and_import_bindings (load_nodes db kinds) [] (load_import_binding_node_ids db)"

definition load_with_relative_import_kinds :: "graph_db \<Rightarrow> NodeKind list \<Rightarrow> NodeKind list \<Rightarrow> CandidateIndex" where
  "load_with_relative_import_kinds db kinds relative_kinds =
     from_primary_and_relative_nodes (load_nodes db kinds) (if relative_kinds = [] then [] else load_nodes db relative_kinds)"

definition semantic_candidate_kinds :: "EdgeKind \<Rightarrow> NodeKind list" where
  "semantic_candidate_kinds kind =
     (case kind of
        EK_CALL \<Rightarrow> [NK_FUNCTION, NK_METHOD]
      | EK_IMPORT \<Rightarrow> [NK_MODULE, NK_NAMESPACE, NK_PACKAGE, NK_CLASS, NK_STRUCT, NK_INTERFACE, NK_ANNOTATION,
          NK_UNION, NK_ENUM, NK_TYPEDEF, NK_FUNCTION, NK_METHOD]
      | _ \<Rightarrow> [])"

definition semantic_load :: "graph_db \<Rightarrow> NodeKind list \<Rightarrow> SemanticCandidateIndex" where
  "semantic_load db kinds = semantic_from_nodes (map (\<lambda>n.
     \<lparr>sn_id = dn_id n, sn_kind = dn_kind n, sn_serialized_name = dn_serialized_name n,
      sn_serialized_name_ascii_lower = to_ascii_lowercase (dn_serialized_name n),
      sn_qualified_name = dn_qualified_name n,
      sn_qualified_name_ascii_lower = map_option to_ascii_lowercase (dn_qualified_name n),
      sn_file_node_id = dn_file_node_id n,
      sn_language_family = map_option language_family_bucket (detect_language (file_path_of db n))\<rparr>)
     (nodes_of_kinds db kinds))"

text \<open>The loads of the override support, in row order.\<close>

definition load_override_member_rows :: "graph_db \<Rightarrow> OverrideMemberSnapshot list" where
  "load_override_member_rows db = List.map_filter (\<lambda>e.
     case (node_row db (de_source_node_id e), node_row db (de_target_node_id e)) of
       (Some owner, Some meth) \<Rightarrow>
         if de_kind e = edge_kind_as_i32 EK_MEMBER \<and> dn_kind meth = node_kind_as_i32 NK_METHOD
         then Some \<lparr>om_owner_id = de_source_node_id e, om_owner_name = dn_serialized_name owner,
                    om_method_id = de_target_node_id e, om_method_name = short_member_name (dn_serialized_name meth)\<rparr>
         else None
     | _ \<Rightarrow> None) (db_edges db)"

definition inheritance_edges :: "graph_db \<Rightarrow> (int \<times> int) list" where
  "inheritance_edges db = map (\<lambda>e. (de_source_node_id e,
       case de_resolved_target_node_id e of Some t \<Rightarrow> t | None \<Rightarrow> de_target_node_id e))
     (filter (\<lambda>e. de_kind e = edge_kind_as_i32 EK_INHERITANCE) (db_edges db))"

definition load_override_inheritance_by_name_rows :: "graph_db \<Rightarrow> (string \<times> string) list" where
  "load_override_inheritance_by_name_rows db = List.map_filter (\<lambda>(a, b).
     case (node_row db a, node_row db b) of
       (Some s, Some t) \<Rightarrow> Some (dn_serialized_name s, dn_serialized_name t) | _ \<Rightarrow> None) (inheritance_edges db)"

definition load_override_support :: "graph_db \<Rightarrow> OverrideSupport" where
  "load_override_support db = override_support_from_snapshot (load_override_member_rows db) (inheritance_edges db)
     (load_override_inheritance_by_name_rows db) (map (\<lambda>n. (dn_id n, dn_serialized_name n)) (db_nodes db))"

definition prepared_from_snapshot :: "ResolutionSupportSnapshot \<Rightarrow> ResolutionFlags \<Rightarrow> PreparedResolutionState" where
  "prepared_from_snapshot s flags =
     \<lparr>pr_call_candidate_index = from_snapshot_nodes_with_import_bindings (sp_call_candidates s) (sp_call_import_binding_node_ids s),
      pr_import_candidate_index = from_snapshot_nodes_with_relative (sp_import_candidates s) (sp_relative_import_candidates s),
      pr_call_semantic_index = (if rf_enable_semantic flags then semantic_from_snapshot_nodes (sp_call_semantic_nodes s)
        else semantic_from_nodes []),
      pr_import_semantic_index = (if rf_enable_semantic flags then semantic_from_snapshot_nodes (sp_import_semantic_nodes s)
        else semantic_from_nodes []),
      pr_override_support = override_support_from_snapshot (sp_override_members s) (sp_override_inheritance s)
        (sp_override_inheritance_by_name s) (sp_node_names s)\<rparr>"

definition prepared_from_tables :: "graph_db \<Rightarrow> ResolutionFlags \<Rightarrow> PreparedResolutionState" where
  "prepared_from_tables db flags =
     \<lparr>pr_call_candidate_index = load_with_import_bindings db [NK_FUNCTION, NK_METHOD, NK_MACRO],
      pr_import_candidate_index = load_with_relative_import_kinds db [NK_MODULE, NK_NAMESPACE, NK_PACKAGE]
        (semantic_candidate_kinds EK_IMPORT),
      pr_call_semantic_index = (if rf_enable_semantic flags then semantic_load db (semantic_candidate_kinds EK_CALL)
        else semantic_from_nodes []),
      pr_import_semantic_index = (if rf_enable_semantic flags then semantic_load db (semantic_candidate_kinds EK_IMPORT)
        else semantic_from_nodes []),
      pr_override_support = load_override_support db\<rparr>"

definition prepared_load :: "graph_db \<Rightarrow> ResolutionFlags \<Rightarrow> ResolutionSupportSnapshot option \<Rightarrow> PreparedResolutionState" where
  "prepared_load db flags stored =
     (case stored of
        Some s \<Rightarrow> if sp_enable_semantic s = rf_enable_semantic flags then prepared_from_snapshot s flags
                  else prepared_from_tables db flags
      | None \<Rightarrow> prepared_from_tables db flags)"

section \<open>Steps of a pass\<close>

record ResolutionStrategyCounters =
  ct_call_same_file :: nat
  ct_call_same_module :: nat
  ct_call_global_unique :: nat
  ct_call_semantic_fallback :: nat
  ct_import_same_file :: nat
  ct_import_same_module :: nat
  ct_import_global_unique :: nat
  ct_import_fuzzy :: nat
  ct_import_semantic_fallback :: nat

definition counters_default :: ResolutionStrategyCounters where
  "counters_default = \<lparr>ct_call_same_file = 0, ct_call_same_module = 0, ct_call_global_unique = 0,
     ct_call_semantic_fallback = 0, ct_import_same_file = 0, ct_import_same_module = 0,
     ct_import_global_unique = 0, ct_import_fuzzy = 0, ct_import_semantic_fallback = 0\<rparr>"

definition counters_record :: "ResolutionStrategy option \<Rightarrow> ResolutionStrategyCounters \<Rightarrow> ResolutionStrategyCounters" where
  "counters_record strategy c =
     (case strategy of None \<Rightarrow> c
      | Some CallSameFile \<Rightarrow> c\<lparr>ct_call_same_file := ct_call_same_file c + 1\<rparr>
      | Some CallSameModule \<Rightarrow> c\<lparr>ct_call_same_module := ct_call_same_module c + 1\<rparr>
      | Some CallGlobalUnique \<Rightarrow> c\<lparr>ct_call_global_unique := ct_call_global_unique c + 1\<rparr>
      | Some CallSemanticFallback \<Rightarrow> c\<lparr>ct_call_semantic_fallback := ct_call_semantic_fallback c + 1\<rparr>
      | Some ImportSameFile \<Rightarrow> c\<lparr>ct_import_same_file := ct_import_same_file c + 1\<rparr>
      | Some ImportSameModule \<Rightarrow> c\<lparr>ct_import_same_module := ct_import_same_module c + 1\<rparr>
      | Some ImportGlobalUnique \<Rightarrow> c\<lparr>ct_import_global_unique := ct_import_global_unique c + 1\<rparr>
      | Some ImportFuzzy \<Rightarrow> c\<lparr>ct_import_fuzzy := ct_import_fuzzy c + 1\<rparr>
      | Some ImportSemanticFallback \<Rightarrow> c\<lparr>ct_import_semantic_fallback := ct_import_semantic_fallback c + 1\<rparr>)"

text \<open>The tables inside the transaction, the checks made so far, and the counters.\<close>

record run_state =
  rn_db :: graph_db
  rn_checks :: nat
  rn_counters :: ResolutionStrategyCounters

type_synonym 'a run = "run_state \<Rightarrow> (resolution_error + 'a) \<times> run_state"

definition return_r :: "'a \<Rightarrow> 'a run" where
  "return_r x st = (Inr x, st)"

definition fail_r :: "resolution_error \<Rightarrow> 'a run" where
  "fail_r e st = (Inl e, st)"

definition bind_r :: "'a run \<Rightarrow> ('a \<Rightarrow> 'b run) \<Rightarrow> 'b run" where
  "bind_r m f st = (case m st of (Inl e, st') \<Rightarrow> (Inl e, st') | (Inr x, st') \<Rightarrow> f x st')"

definition read_r :: "(graph_db \<Rightarrow> 'a) \<Rightarrow> 'a run" where
  "read_r f st = (Inr (f (rn_db st)), st)"

definition write_r :: "(graph_db \<Rightarrow> graph_db) \<Rightarrow> unit run" where
  "write_r f st = (Inr (), st\<lparr>rn_db := f (rn_db st)\<rparr>)"

definition apply_r :: "ResolvedEdgeUpdate list \<Rightarrow> unit run" where
  "apply_r updates st =
     (case apply_resolution_updates updates (rn_db st) of
        Inl e \<Rightarrow> (Inl e, st) | Inr db \<Rightarrow> (Inr (), st\<lparr>rn_db := db\<rparr>))"

definition count_r :: "ResolutionStrategy option list \<Rightarrow> unit run" where
  "count_r strategies st = (Inr (), st\<lparr>rn_counters := fold counters_record strategies (rn_counters st)\<rparr>)"

definition check_cancelled :: "(nat \<Rightarrow> bool) \<Rightarrow> unit run" where
  "check_cancelled cancels st =
     (if cancels (rn_checks st) then Inl ResolutionCancelled else Inr (), st\<lparr>rn_checks := rn_checks st + 1\<rparr>)"

definition checked :: "(nat \<Rightarrow> bool) \<Rightarrow> 'a run \<Rightarrow> 'a run" where
  "checked cancels m = bind_r (check_cancelled cancels) (\<lambda>_. m)"

type_synonym compute =
  "ResolutionPass \<Rightarrow> CandidateIndex \<Rightarrow> UnresolvedEdgeRow \<Rightarrow> SemanticResolutionCandidate list \<Rightarrow> ComputedResolution"

definition finish_edges :: "(nat \<Rightarrow> bool) \<Rightarrow> ComputedResolution list \<Rightarrow> nat run" where
  "finish_edges cancels computed =
     checked cancels (bind_r (count_r (map cr_strategy computed)) (\<lambda>_.
       checked cancels (bind_r (apply_r (map cr_update computed)) (\<lambda>_.
         return_r (length (filter (\<lambda>c. cr_strategy c \<noteq> None) computed))))))"

definition resolve_edges_after_prepare ::
  "ResolutionPass \<Rightarrow> ScopeCallerContext \<Rightarrow> CandidateIndex \<Rightarrow> SemanticCandidateIndex \<Rightarrow> EdgeKind \<Rightarrow> compute \<Rightarrow>
     (nat \<Rightarrow> bool) \<Rightarrow> nat run" where
  "resolve_edges_after_prepare pass scope index semantic kind compute cancels =
     checked cancels (bind_r (read_r (\<lambda>db. unresolved_edges db kind scope)) (\<lambda>rows.
       if rows = [] then return_r 0
       else checked cancels
         (case semantic_candidates_for_rows pass semantic rows kind of
            Inl e \<Rightarrow> fail_r (InvalidRequestKind e)
          | Inr (candidates, _) \<Rightarrow>
              checked cancels (finish_edges cancels (map2 (compute pass index) rows candidates)))))"

definition resolve_calls_on_conn ::
  "ResolutionPass \<Rightarrow> ScopeCallerContext \<Rightarrow> PreparedResolutionState \<Rightarrow> (nat \<Rightarrow> bool) \<Rightarrow> nat run" where
  "resolve_calls_on_conn pass scope prepared cancels =
     checked cancels
       (if sx_mode scope = EmptyScope then return_r 0
        else checked cancels (bind_r (write_r (prepare_sources EK_CALL scope)) (\<lambda>_.
          checked cancels (bind_r (write_r (cleanup_stale_call_resolutions pass scope)) (\<lambda>_.
            resolve_edges_after_prepare pass scope (pr_call_candidate_index prepared) (pr_call_semantic_index prepared)
              EK_CALL compute_call_resolution cancels)))))"

definition resolve_imports_on_conn ::
  "ResolutionPass \<Rightarrow> ScopeCallerContext \<Rightarrow> PreparedResolutionState \<Rightarrow> (nat \<Rightarrow> bool) \<Rightarrow> nat run" where
  "resolve_imports_on_conn pass scope prepared cancels =
     checked cancels
       (if sx_mode scope = EmptyScope then return_r 0
        else checked cancels (bind_r (write_r (prepare_sources EK_IMPORT scope)) (\<lambda>_.
          checked cancels
            (resolve_edges_after_prepare pass scope (pr_import_candidate_index prepared) (pr_import_semantic_index prepared)
              EK_IMPORT compute_import_resolution cancels))))"

definition reset_overrides :: "ScopeCallerContext \<Rightarrow> graph_db \<Rightarrow> graph_db" where
  "reset_overrides scope =
     update_edges (\<lambda>e. de_kind e = edge_kind_as_i32 EK_OVERRIDE \<and> scope_clause scope e)
       (\<lambda>e. e\<lparr>de_resolved_source_node_id := Some (de_source_node_id e), de_resolved_target_node_id := None,
             de_confidence := None, de_certainty := None, de_candidate_target_node_ids := None\<rparr>)"

definition unresolved_override_edges :: "graph_db \<Rightarrow> ScopeCallerContext \<Rightarrow> (int \<times> int \<times> string) list" where
  "unresolved_override_edges db scope =
     List.map_filter (\<lambda>e. map_option (\<lambda>n. (de_id e, de_source_node_id e, dn_serialized_name n)) (node_row db (de_source_node_id e)))
       (sort_key de_id (filter (\<lambda>e. de_kind e = edge_kind_as_i32 EK_OVERRIDE \<and> de_resolved_target_node_id e = None
         \<and> scope_clause scope e) (db_edges db)))"

fun override_rows ::
  "ResolutionPass \<Rightarrow> OverrideSupport \<Rightarrow> (nat \<Rightarrow> bool) \<Rightarrow> (int \<times> int \<times> string) list \<Rightarrow> ResolvedEdgeUpdate list \<times> nat \<Rightarrow>
     (ResolvedEdgeUpdate list \<times> nat) run" where
  "override_rows pass support cancels [] acc = return_r acc"
| "override_rows pass support cancels (row # rows) acc =
     checked cancels
       (case resolve_override pass support row of
          None \<Rightarrow> fail_r StillWalking
        | Some (u, hit) \<Rightarrow> override_rows pass support cancels rows (fst acc @ [u], snd acc + (if hit then 1 else 0)))"

definition resolve_overrides_on_conn ::
  "ResolutionPass \<Rightarrow> ScopeCallerContext \<Rightarrow> PreparedResolutionState \<Rightarrow> (nat \<Rightarrow> bool) \<Rightarrow> nat run" where
  "resolve_overrides_on_conn pass scope prepared cancels =
     checked cancels
       (if sx_mode scope = EmptyScope then return_r 0
        else checked cancels (bind_r (write_r (reset_overrides scope)) (\<lambda>_.
          checked cancels (bind_r (read_r (\<lambda>db. unresolved_override_edges db scope)) (\<lambda>rows.
            if rows = [] then return_r 0
            else bind_r (override_rows pass (pr_override_support prepared) cancels rows ([], 0)) (\<lambda>(updates, resolved).
              checked cancels (bind_r (apply_r updates) (\<lambda>_. return_r resolved))))))))"

section \<open>The pass and its transaction\<close>

record ResolutionStats =
  st_unresolved_calls_before :: nat
  st_resolved_calls :: nat
  st_unresolved_calls :: nat
  st_unresolved_imports_before :: nat
  st_resolved_imports :: nat
  st_unresolved_imports :: nat
  st_strategy_counters :: ResolutionStrategyCounters

definition finish_pass :: "(nat \<Rightarrow> bool) \<Rightarrow> ScopeCallerContext \<Rightarrow> nat \<Rightarrow> nat \<Rightarrow> nat \<Rightarrow> nat \<Rightarrow> ResolutionStats run" where
  "finish_pass cancels scope calls_before imports_before calls imports =
     checked cancels (bind_r (read_r (\<lambda>db. count_unresolved_on_conn db EK_CALL scope)) (\<lambda>calls_after.
       checked cancels (bind_r (read_r (\<lambda>db. count_unresolved_on_conn db EK_IMPORT scope)) (\<lambda>imports_after.
         (\<lambda>st. (Inr \<lparr>st_unresolved_calls_before = calls_before, st_resolved_calls = calls,
           st_unresolved_calls = calls_after, st_unresolved_imports_before = imports_before,
           st_resolved_imports = imports, st_unresolved_imports = imports_after,
           st_strategy_counters = rn_counters st\<rparr>, st))))))"

definition pass_steps ::
  "ResolutionPass \<Rightarrow> (nat \<Rightarrow> bool) \<Rightarrow> ScopeCallerContext \<Rightarrow> PreparedResolutionState \<Rightarrow> nat \<Rightarrow> nat \<Rightarrow> ResolutionStats run" where
  "pass_steps pass cancels scope prepared calls_before imports_before =
     checked cancels (checked cancels (bind_r (resolve_calls_on_conn pass scope prepared cancels) (\<lambda>calls.
       checked cancels (bind_r (resolve_imports_on_conn pass scope prepared cancels) (\<lambda>imports.
         checked cancels (bind_r (resolve_overrides_on_conn pass scope prepared cancels) (\<lambda>_.
           finish_pass cancels scope calls_before imports_before calls imports)))))))"

definition pass_work ::
  "ResolutionPass \<Rightarrow> (nat \<Rightarrow> bool) \<Rightarrow> int list option \<Rightarrow> ResolutionSupportSnapshot option \<Rightarrow> ResolutionStats run" where
  "pass_work pass cancels scope_ids stored =
     checked cancels (bind_r (read_r (\<lambda>db. scope_prepare db scope_ids)) (\<lambda>scope.
       checked cancels (bind_r (read_r (\<lambda>db. count_unresolved_on_conn db EK_CALL scope)) (\<lambda>calls_before.
         checked cancels (bind_r (read_r (\<lambda>db. count_unresolved_on_conn db EK_IMPORT scope)) (\<lambda>imports_before.
           checked cancels (bind_r (read_r (\<lambda>db. count_unresolved_on_conn db EK_OVERRIDE scope)) (\<lambda>_.
             checked cancels (bind_r (read_r (\<lambda>db. prepared_load db (ps_flags pass) stored)) (\<lambda>prepared.
               pass_steps pass cancels scope prepared calls_before imports_before))))))))))"

text \<open>
  A connection: what is committed, and the tables of a transaction that is still open. The
  environment answers whether \<^verbatim>\<open>BEGIN\<close>, \<^verbatim>\<open>COMMIT\<close> and \<^verbatim>\<open>ROLLBACK\<close> succeed; \<^verbatim>\<open>BEGIN\<close> never does inside a
  transaction, and a failed \<^verbatim>\<open>ROLLBACK\<close> is ignored.
\<close>

record db_connection =
  cx_committed :: graph_db
  cx_open :: "graph_db option"

record transaction_env =
  te_begin :: bool
  te_commit :: bool
  te_rollback :: bool

definition run_in_immediate_transaction ::
  "transaction_env \<Rightarrow> (graph_db \<Rightarrow> (resolution_error + 'a) \<times> graph_db) \<Rightarrow> db_connection \<Rightarrow>
     (resolution_error + 'a) \<times> db_connection" where
  "run_in_immediate_transaction env work conn =
     (if \<not> te_begin env \<or> cx_open conn \<noteq> None then (Inl SqlFailed, conn)
      else case work (cx_committed conn) of
             (Inr v, db) \<Rightarrow>
               if te_commit env then (Inr v, \<lparr>cx_committed = db, cx_open = None\<rparr>)
               else (Inl SqlFailed, conn\<lparr>cx_open := Some db\<rparr>)
           | (Inl e, db) \<Rightarrow> (Inl e, if te_rollback env then conn else conn\<lparr>cx_open := Some db\<rparr>))"

definition run_with_scope_with_cancel ::
  "ResolutionPass \<Rightarrow> transaction_env \<Rightarrow> (nat \<Rightarrow> bool) \<Rightarrow> int list option \<Rightarrow> ResolutionSupportSnapshot option \<Rightarrow>
     db_connection \<Rightarrow> (resolution_error + ResolutionStats) \<times> db_connection" where
  "run_with_scope_with_cancel pass env cancels scope_ids stored conn =
     (if cancels 0 then (Inl ResolutionCancelled, conn)
      else run_in_immediate_transaction env
        (\<lambda>db. case pass_work pass cancels scope_ids stored \<lparr>rn_db = db, rn_checks = 1, rn_counters = counters_default\<rparr> of
           (r, st) \<Rightarrow> (r, rn_db st)) conn)"

section \<open>What every step keeps\<close>

text \<open>An update written by a pass: it sets a target and its certainty together, or neither.\<close>

definition update_ok :: "ResolvedEdgeUpdate \<Rightarrow> bool" where
  "update_ok u \<longleftrightarrow> (ru_touch_metadata u \<longleftrightarrow> ru_resolved_target_node_id u \<noteq> None)
     \<and> (ru_touch_metadata u \<longrightarrow> ru_certainty u \<in> Some ` range certainty_as_str)"

lemma from_confidence_Some: "\<exists>c. from_confidence (Some x) = Some c"
  by (auto simp: from_confidence_def)

lemma update_ok_build [simp]: "update_ok (build_resolved_edge_update i sel ids)"
  using from_confidence_Some by (fastforce simp: update_ok_def build_resolved_edge_update_def split: option.splits)

lemma update_ok_finish [simp]: "update_ok (cr_update (finish_resolution row sel ids))"
  by (simp add: finish_resolution_def)

text \<open>The updates of one step are for unresolved edges in its scope, at most one for each.\<close>

definition pass_kinds :: "32 word set" where
  "pass_kinds = {edge_kind_as_i32 EK_CALL, edge_kind_as_i32 EK_IMPORT, edge_kind_as_i32 EK_OVERRIDE}"

definition updates_for :: "ScopeCallerContext \<Rightarrow> graph_db \<Rightarrow> ResolvedEdgeUpdate list \<Rightarrow> bool" where
  "updates_for scope db updates \<longleftrightarrow>
     (\<forall>u \<in> set updates. update_ok u \<and> (\<exists>e \<in> set (db_edges db). de_id e = ru_edge_id u
        \<and> de_kind e \<in> pass_kinds \<and> scope_clause scope e \<and> de_resolved_target_node_id e = None))"

locale pass_relation =
  fixes R :: "ScopeCallerContext \<Rightarrow> graph_db \<Rightarrow> graph_db \<Rightarrow> bool"
  assumes same: "R scope db db"
    and compose: "R scope db db' \<Longrightarrow> R scope db' db'' \<Longrightarrow> R scope db db''"
    and sources: "sx_mode scope \<noteq> EmptyScope \<Longrightarrow> edge_kind_as_i32 kind \<in> pass_kinds \<Longrightarrow> R scope db (prepare_sources kind scope db)"
    and cleaned: "sx_mode scope \<noteq> EmptyScope \<Longrightarrow> R scope db (cleanup_stale_call_resolutions pass scope db)"
    and reset: "sx_mode scope \<noteq> EmptyScope \<Longrightarrow> R scope db (reset_overrides scope db)"
    and applied: "sx_mode scope \<noteq> EmptyScope \<Longrightarrow> updates_for scope db updates \<Longrightarrow>
      apply_resolution_updates updates db = Inr db' \<Longrightarrow> R scope db db'"
begin

definition keeps_rel :: "ScopeCallerContext \<Rightarrow> graph_db \<Rightarrow> 'a run \<Rightarrow> bool" where
  "keeps_rel scope db m \<longleftrightarrow> (\<forall>st. rn_db st = db \<longrightarrow> R scope db (rn_db (snd (m st))))"

lemma keeps_return [simp]: "keeps_rel scope db (return_r x)"
  by (simp add: keeps_rel_def return_r_def same)

lemma keeps_fail [simp]: "keeps_rel scope db (fail_r e)"
  by (simp add: keeps_rel_def fail_r_def same)

lemma keeps_checked: "keeps_rel scope db m \<Longrightarrow> keeps_rel scope db (checked cancels m)"
  by (auto simp: keeps_rel_def checked_def bind_r_def check_cancelled_def same)

lemma keeps_read: "keeps_rel scope db (f (g db)) \<Longrightarrow> keeps_rel scope db (bind_r (read_r g) f)"
  by (auto simp: keeps_rel_def bind_r_def read_r_def)

lemma keeps_write:
  "R scope db (g db) \<Longrightarrow> keeps_rel scope (g db) (f ()) \<Longrightarrow> keeps_rel scope db (bind_r (write_r g) f)"
  using compose by (fastforce simp: keeps_rel_def bind_r_def write_r_def)

lemma keeps_count: "keeps_rel scope db (f ()) \<Longrightarrow> keeps_rel scope db (bind_r (count_r ss) f)"
  by (simp add: keeps_rel_def bind_r_def count_r_def)

lemma keeps_bind:
  assumes "keeps_rel scope db m" and "\<And>x db'. keeps_rel scope db' (f x)"
  shows "keeps_rel scope db (bind_r m f)"
  unfolding keeps_rel_def
proof (intro allI impI)
  fix st :: run_state
  assume st: "rn_db st = db"
  obtain r st' where m: "m st = (r, st')" by fastforce
  with assms(1) st have first: "R scope db (rn_db st')" by (auto simp: keeps_rel_def)
  show "R scope db (rn_db (snd (bind_r m f st)))"
  proof (cases r)
    case (Inl e)
    with m first show ?thesis by (simp add: bind_r_def)
  next
    case (Inr x)
    with assms(2) [of "rn_db st'" x] have "R scope (rn_db st') (rn_db (snd (f x st')))" by (simp add: keeps_rel_def)
    with first Inr m compose show ?thesis by (auto simp: bind_r_def)
  qed
qed

lemma keeps_apply:
  assumes "sx_mode scope \<noteq> EmptyScope" and "updates_for scope db updates"
  shows "keeps_rel scope db (bind_r (apply_r updates) (\<lambda>_. return_r x))"
  using applied [OF assms] by (auto simp: keeps_rel_def bind_r_def apply_r_def return_r_def same split: sum.splits)

lemma keeps_finish_edges:
  "sx_mode scope \<noteq> EmptyScope \<Longrightarrow> updates_for scope db (map cr_update computed) \<Longrightarrow> keeps_rel scope db (finish_edges cancels computed)"
  unfolding finish_edges_def by (intro keeps_checked keeps_count keeps_apply)

end

definition sound_compute :: "compute \<Rightarrow> bool" where
  "sound_compute compute \<longleftrightarrow> (\<forall>pass index row candidates. update_ok (cr_update (compute pass index row candidates))
     \<and> ru_edge_id (cr_update (compute pass index row candidates)) = ue_edge_id row
     \<and> (cr_strategy (compute pass index row candidates) \<noteq> None
          \<longleftrightarrow> ru_resolved_target_node_id (cr_update (compute pass index row candidates)) \<noteq> None))"

lemma finish_resolution_strategy:
  "cr_strategy (finish_resolution row sel ids) \<noteq> None \<longleftrightarrow> sel \<noteq> None"
  by (auto simp: finish_resolution_def)

lemma sound_computes: "sound_compute compute_call_resolution" "sound_compute compute_import_resolution"
  unfolding sound_compute_def
  by (metis call_resolution_choice update_ok_finish finish_resolution_fields(1,4) finish_resolution_strategy option.map_disc_iff)
    (metis import_resolution_choice update_ok_finish finish_resolution_fields(1,4) finish_resolution_strategy option.map_disc_iff)

lemma set_map_filterD: "x \<in> set (List.map_filter f xs) \<Longrightarrow> \<exists>y \<in> set xs. f y = Some x"
  by (auto simp: map_filter_def)

lemma row_edge_id: "map_unresolved_edge_row db e = Some row \<Longrightarrow> ue_edge_id row = de_id e"
  by (auto simp: map_unresolved_edge_row_def Let_def split: option.splits if_splits)

lemma unresolved_edges_rows:
  assumes "row \<in> set (unresolved_edges db kind scope)"
  shows "\<exists>e \<in> set (db_edges db). de_id e = ue_edge_id row \<and> de_kind e = edge_kind_as_i32 kind
    \<and> scope_clause scope e \<and> de_resolved_target_node_id e = None \<and> worklist_metadata_filter kind e"
  using assms by (fastforce simp: unresolved_edges_def row_edge_id dest: set_map_filterD split: if_splits)

lemma updates_for_computed:
  assumes "sound_compute compute" and "edge_kind_as_i32 kind \<in> pass_kinds"
  shows "updates_for scope db (map cr_update (map2 (compute pass index) (unresolved_edges db kind scope) candidates))"
  using assms unresolved_edges_rows [of _ db kind scope]
  by (fastforce simp: updates_for_def sound_compute_def dest: set_zip_leftD)

context pass_relation
begin

lemma keeps_resolve_edges:
  assumes "sx_mode scope \<noteq> EmptyScope" and "sound_compute compute" and "edge_kind_as_i32 kind \<in> pass_kinds"
  shows "keeps_rel scope db (resolve_edges_after_prepare pass scope index semantic kind compute cancels)"
  unfolding resolve_edges_after_prepare_def
  using keeps_finish_edges [OF assms(1) updates_for_computed [OF assms(2,3)]]
  by (intro keeps_checked keeps_read) (auto intro!: keeps_checked split: sum.split)

lemma keeps_calls: "keeps_rel scope db (resolve_calls_on_conn pass scope prepared cancels)"
  unfolding resolve_calls_on_conn_def
  by (rule keeps_checked)
    (auto simp: pass_kinds_def intro!: keeps_checked keeps_write keeps_resolve_edges sources cleaned sound_computes)

lemma keeps_imports: "keeps_rel scope db (resolve_imports_on_conn pass scope prepared cancels)"
  unfolding resolve_imports_on_conn_def
  by (rule keeps_checked)
    (auto simp: pass_kinds_def intro!: keeps_checked keeps_write keeps_resolve_edges sources sound_computes)

end

lemma override_update_shape: "ru_edge_id (fst (override_update pass i ids)) = i \<and> update_ok (fst (override_update pass i ids))"
  by (simp add: override_update_def Let_def) (simp add: build_resolved_edge_update_def split: option.split)

lemma resolve_override_shape:
  assumes "resolve_override pass support (i, src, name) = Some (u, hit)"
  shows "ru_edge_id u = i \<and> update_ok u"
proof -
  have "(u, hit) = (build_resolved_edge_update i None [], False) \<or> (\<exists>ids. override_update pass i ids = (u, hit))"
    using assms by (auto simp: resolve_override_def resolve_by_owner_name_def resolve_by_owner_id_def Let_def
      split: option.splits if_splits)
  then show ?thesis
  proof
    assume "(u, hit) = (build_resolved_edge_update i None [], False)"
    then show ?thesis by (simp add: build_resolved_edge_update_def update_ok_def)
  next
    assume "\<exists>ids. override_update pass i ids = (u, hit)"
    then show ?thesis using override_update_shape [of pass i] by (metis fst_conv)
  qed
qed

lemma override_rows_result:
  "override_rows pass support cancels rows acc st = (r, st') \<Longrightarrow>
     rn_db st' = rn_db st \<and> (case r of Inl _ \<Rightarrow> True
       | Inr (us, n) \<Rightarrow> \<exists>vs. us = fst acc @ vs \<and> map ru_edge_id vs = map fst rows \<and> list_all update_ok vs)"
proof (induction pass support cancels rows acc arbitrary: st r st' rule: override_rows.induct)
  case (2 pass support cancels row rows acc)
  obtain i src name where row: "row = (i, src, name)" by (cases row) auto
  show ?case
  proof (cases "cancels (rn_checks st) \<or> resolve_override pass support row = None")
    case True
    with 2(2) show ?thesis
      by (auto simp: checked_def bind_r_def check_cancelled_def fail_r_def split: if_splits)
  next
    case False
    then obtain u hit where u: "resolve_override pass support row = Some (u, hit)" by fastforce
    with False 2(2) have "override_rows pass support cancels rows (fst acc @ [u], snd acc + (if hit then 1 else 0))
        (st\<lparr>rn_checks := rn_checks st + 1\<rparr>) = (r, st')"
      by (simp add: checked_def bind_r_def check_cancelled_def)
    from 2(1) [OF u refl this] resolve_override_shape [OF u [unfolded row]] row show ?thesis
      by (auto split: sum.splits)
  qed
qed (auto simp: return_r_def)

lemma override_edges_rows:
  assumes "row \<in> set (unresolved_override_edges db scope)"
  shows "\<exists>e \<in> set (db_edges db). de_id e = fst row \<and> de_kind e = edge_kind_as_i32 EK_OVERRIDE
    \<and> scope_clause scope e \<and> de_resolved_target_node_id e = None"
  using assms by (fastforce simp: unresolved_override_edges_def dest: set_map_filterD)

lemma updates_for_overrides:
  assumes "map ru_edge_id us = map fst (unresolved_override_edges db scope)" and "list_all update_ok us"
  shows "updates_for scope db us"
proof -
  have "ru_edge_id u \<in> fst ` set (unresolved_override_edges db scope)" if "u \<in> set us" for u
    using assms(1) that by (metis image_eqI list.set_map)
  with assms(2) override_edges_rows [of _ db scope] show ?thesis
    by (fastforce simp: updates_for_def list_all_iff pass_kinds_def)
qed

context pass_relation
begin

lemma keeps_overrides: "keeps_rel scope db (resolve_overrides_on_conn pass scope prepared cancels)"
proof (cases "sx_mode scope = EmptyScope")
  case True
  then show ?thesis by (simp add: resolve_overrides_on_conn_def keeps_checked)
next
  case False
  have rows: "keeps_rel scope db' (bind_r (override_rows pass (pr_override_support prepared) cancels
      (unresolved_override_edges db' scope) ([], 0)) (\<lambda>(updates, resolved).
        checked cancels (bind_r (apply_r updates) (\<lambda>_. return_r resolved))))" for db'
    unfolding keeps_rel_def
  proof (intro allI impI)
    fix st :: run_state
    assume st: "rn_db st = db'"
    obtain r st' where run: "override_rows pass (pr_override_support prepared) cancels
        (unresolved_override_edges db' scope) ([], 0) st = (r, st')" by fastforce
    note result = override_rows_result [OF this]
    show "R scope db' (rn_db (snd (bind_r (override_rows pass (pr_override_support prepared) cancels
      (unresolved_override_edges db' scope) ([], 0)) (\<lambda>(updates, resolved).
        checked cancels (bind_r (apply_r updates) (\<lambda>_. return_r resolved))) st)))"
    proof (cases r)
      case (Inl e)
      with run result st show ?thesis by (simp add: bind_r_def same)
    next
      case (Inr x)
      obtain us n where x: "x = (us, n)" by (cases x)
      with result Inr have "updates_for scope db' us" by (auto intro: updates_for_overrides)
      then have "keeps_rel scope db' (checked cancels (bind_r (apply_r us) (\<lambda>_. return_r n)))"
        by (intro keeps_checked keeps_apply False)
      with run Inr x result st show ?thesis by (simp add: bind_r_def [of "override_rows _ _ _ _ _"] keeps_rel_def)
    qed
  qed
  show ?thesis
    unfolding resolve_overrides_on_conn_def using False
    by (auto intro!: keeps_checked keeps_write reset keeps_read rows)
qed

lemma keeps_pass_steps: "keeps_rel scope db (pass_steps pass cancels scope prepared before_calls before_imports)"
proof -
  have "keeps_rel scope db' (finish_pass cancels scope a b c d)" for db' a b c d
    unfolding finish_pass_def by (intro keeps_checked keeps_read) (simp add: keeps_rel_def same)
  then show ?thesis
    unfolding pass_steps_def
    by (intro keeps_checked keeps_bind keeps_calls keeps_imports keeps_overrides)
qed

lemma keeps_pass_work: "keeps_rel (scope_prepare db scope_ids) db (pass_work pass cancels scope_ids stored)"
  unfolding pass_work_def by (intro keeps_checked keeps_read keeps_pass_steps)

text \<open>Committed or not, a pass relates the tables it found to those it leaves committed.\<close>

lemma pass_committed:
  "R (scope_prepare (cx_committed conn) scope_ids) (cx_committed conn)
     (cx_committed (snd (run_with_scope_with_cancel pass env cancels scope_ids stored conn)))"
proof -
  have "R (scope_prepare db scope_ids) db (rn_db (snd (pass_work pass cancels scope_ids stored
      \<lparr>rn_db = db, rn_checks = 1, rn_counters = counters_default\<rparr>)))" for db
    using keeps_pass_work [of db scope_ids pass cancels stored] by (simp add: keeps_rel_def)
  then show ?thesis
    by (auto simp: run_with_scope_with_cancel_def run_in_immediate_transaction_def same
        split: prod.splits sum.splits) (metis snd_conv)
qed

end

section \<open>Edges out of scope, and what is never rewritten\<close>

definition edge_key :: "db_edge \<Rightarrow> int \<times> int \<times> int \<times> 32 word \<times> int option \<times> string option" where
  "edge_key e = (de_id e, de_source_node_id e, de_target_node_id e, de_kind e, de_file_node_id e, de_callsite_identity e)"

definition touchable :: "ScopeCallerContext \<Rightarrow> db_edge \<Rightarrow> bool" where
  "touchable scope e \<longleftrightarrow> sx_mode scope \<noteq> EmptyScope \<and> de_kind e \<in> pass_kinds \<and> scope_clause scope e"

definition edge_frame :: "ScopeCallerContext \<Rightarrow> db_edge \<Rightarrow> db_edge \<Rightarrow> bool" where
  "edge_frame scope e e' \<longleftrightarrow> edge_key e' = edge_key e \<and> (touchable scope e \<or> e' = e)"

definition tables_frame :: "ScopeCallerContext \<Rightarrow> graph_db \<Rightarrow> graph_db \<Rightarrow> bool" where
  "tables_frame scope db db' \<longleftrightarrow> db_nodes db' = db_nodes db \<and> list_all2 (edge_frame scope) (db_edges db) (db_edges db')"

lemma edge_frame_refl [simp]: "edge_frame scope e e"
  by (simp add: edge_frame_def)

lemma touchable_key: "edge_key e' = edge_key e \<Longrightarrow> touchable scope e' = touchable scope e"
  by (auto simp: edge_key_def touchable_def scope_clause_def)

lemma edge_frame_trans: "edge_frame scope e e' \<Longrightarrow> edge_frame scope e' e'' \<Longrightarrow> edge_frame scope e e''"
  unfolding edge_frame_def by (metis touchable_key)

lemma frame_ids: "list_all2 (edge_frame scope) es es' \<Longrightarrow> map de_id es' = map de_id es"
  by (induction rule: list_all2_induct) (auto simp: edge_frame_def edge_key_def)

lemma tables_frame_update:
  assumes "\<And>e. e \<in> set (db_edges db) \<Longrightarrow> p e \<Longrightarrow> touchable scope e" and "\<And>e. edge_key (f e) = edge_key e"
  shows "tables_frame scope db (update_edges p f db)"
  using assms by (auto simp: tables_frame_def update_edges_def edge_frame_def list_all2_map2 intro!: list.rel_refl_strong)

lemma tables_frame_trans:
  "tables_frame scope db db' \<Longrightarrow> tables_frame scope db' db'' \<Longrightarrow> tables_frame scope db db''"
  unfolding tables_frame_def by (auto intro: list_all2_trans [OF edge_frame_trans])

lemma tables_frame_ids: "tables_frame scope db db' \<Longrightarrow> map de_id (db_edges db') = map de_id (db_edges db)"
  unfolding tables_frame_def by (elim conjE frame_ids)

lemma tables_frame_refl [simp]: "tables_frame scope db db"
  by (simp add: tables_frame_def list.rel_refl)

lemma nodes_update [simp]: "db_nodes (update_edges p f db) = db_nodes db"
  by (simp add: update_edges_def)

lemma key_simps [simp]:
  "edge_key (clear_resolution e) = edge_key e"
  "edge_key (apply_update u e) = edge_key e"
  by (simp_all add: edge_key_def clear_resolution_def apply_update_def)

lemma cleanup_frame: "sx_mode scope \<noteq> EmptyScope \<Longrightarrow> tables_frame scope db (cleanup_stale_call_resolutions pass scope db)"
  unfolding cleanup_stale_call_resolutions_def Let_def if_not_P
  by (intro tables_frame_trans [OF tables_frame_update tables_frame_update] if_weak_cong)
    (auto simp: touchable_def pass_kinds_def)

lemma applied_frame:
  assumes "sx_mode scope \<noteq> EmptyScope" and "updates_for scope db updates" and "distinct (map de_id (db_edges db))"
    and "apply_resolution_updates updates db = Inr db'"
  shows "tables_frame scope db db'"
proof -
  have "touchable scope e" if "e \<in> set (db_edges db)" "find (\<lambda>u. ru_edge_id u = de_id e) updates = Some u" for e u
  proof -
    from that(2) have "u \<in> set updates" and "ru_edge_id u = de_id e" by (auto simp: find_Some_iff)
    with assms(2) obtain e' where e': "e' \<in> set (db_edges db)" "de_id e' = de_id e" "de_kind e' \<in> pass_kinds" "scope_clause scope e'"
      by (auto simp: updates_for_def)
    with assms(3) that(1) have "e' = e" by (auto simp: distinct_map dest: inj_onD)
    with e' assms(1) show ?thesis by (simp add: touchable_def)
  qed
  with assms(4) show ?thesis
    by (auto simp: apply_resolution_updates_def tables_frame_def edge_frame_def list_all2_map2
        split: if_splits option.splits intro!: list.rel_refl_strong)
qed

interpretation frame: pass_relation
  "\<lambda>scope db db'. if distinct (map de_id (db_edges db)) then tables_frame scope db db' else True"
proof (unfold_locales, goal_cases)
  case (2 scope db db' db'')
  then show ?case
    by (auto simp: tables_frame_ids dest: tables_frame_trans)
next
  case (3 scope kind db)
  then show ?case by (auto simp: prepare_sources_def touchable_def edge_key_def intro!: tables_frame_update)
next
  case (4 scope db pass)
  then show ?case by (simp add: cleanup_frame)
next
  case (5 scope db)
  then show ?case by (auto simp: reset_overrides_def touchable_def edge_key_def pass_kinds_def intro!: tables_frame_update)
next
  case (6 scope db updates db')
  then show ?case by (simp add: applied_frame)
qed simp


text \<open>A sample: a caller in file 9 and its unresolved call, and a resolved call from another file.\<close>

definition sample_pass :: ResolutionPass where
  "sample_pass = pass_new \<lparr>rf_legacy_mode = False, rf_enable_semantic = True, rf_store_candidates = False, rf_parallel_compute = True\<rparr>"

definition sample_node :: "int \<Rightarrow> string \<Rightarrow> int \<Rightarrow> db_node" where
  "sample_node i name file_id = \<lparr>dn_id = i, dn_kind = node_kind_as_i32 NK_FUNCTION, dn_serialized_name = name,
     dn_qualified_name = None, dn_canonical_id = None, dn_file_node_id = Some file_id, dn_start_line = Some 1\<rparr>"

definition sample_edge :: "int \<Rightarrow> int \<Rightarrow> int \<Rightarrow> int option \<Rightarrow> db_edge" where
  "sample_edge i a b target = \<lparr>de_id = i, de_source_node_id = a, de_target_node_id = b, de_kind = edge_kind_as_i32 EK_CALL,
     de_file_node_id = None, de_resolved_source_node_id = None, de_resolved_target_node_id = target,
     de_confidence = None, de_callsite_identity = None, de_certainty = map_option (\<lambda>_. ''certain'') target,
     de_candidate_target_node_ids = None\<rparr>"

definition sample_conn :: db_connection where
  "sample_conn = \<lparr>cx_committed = \<lparr>db_nodes = [sample_node 1 ''f'' 9, sample_node 2 ''g'' 9, sample_node 3 ''h'' 8],
     db_edges = [sample_edge 1 1 2 None, sample_edge 2 3 2 (Some 2)]\<rparr>, cx_open = None\<rparr>"

definition sample_transaction :: transaction_env where
  "sample_transaction = \<lparr>te_begin = True, te_commit = True, te_rollback = True\<rparr>"

text \<open>C6: whatever a pass does and however it ends, the nodes and the identity of every edge stay as they
  are, and an edge changes at all only if it is a call, an import or an override whose source lies in
  a file of the caller scope; without a scope every such edge may change, with an empty one none.\<close>

theorem pass_stays_in_scope:
  assumes "distinct (map de_id (db_edges (cx_committed conn)))"
  shows "tables_frame (scope_prepare (cx_committed conn) scope_ids) (cx_committed conn)
    (cx_committed (snd (run_with_scope_with_cancel pass env cancels scope_ids stored conn)))"
  using frame.pass_committed [of conn scope_ids pass env cancels stored] assms by simp

theorem pass_stays_in_scope_witness:
  "distinct (map de_id (db_edges (cx_committed sample_conn)))
    \<and> db_edges (cx_committed (snd (run_with_scope_with_cancel sample_pass sample_transaction (\<lambda>_. False) (Some [9]) None sample_conn))) ! 1
        = sample_edge 2 3 2 (Some 2)"
proof -
  have d: "distinct (map de_id (db_edges (cx_committed sample_conn)))"
    by (simp add: sample_conn_def sample_edge_def)
  from pass_stays_in_scope [OF d, of "Some [9]" sample_pass sample_transaction "\<lambda>_. False" None] d show ?thesis
    by (auto simp: tables_frame_def edge_frame_def touchable_def scope_clause_def scope_prepare_def
        sample_conn_def sample_edge_def sample_node_def list_all2_Cons1)
qed

section \<open>Resolved edges carry a certainty\<close>

definition edge_typed :: "db_edge \<Rightarrow> bool" where
  "edge_typed e \<longleftrightarrow> de_resolved_target_node_id e = None \<or> de_certainty e \<in> Some ` range certainty_as_str"

definition tables_typed :: "graph_db \<Rightarrow> bool" where
  "tables_typed db \<longleftrightarrow> list_all edge_typed (db_edges db)"

lemma typed_update: "tables_typed db \<Longrightarrow> (\<And>e. edge_typed e \<Longrightarrow> edge_typed (f e)) \<Longrightarrow> tables_typed (update_edges p f db)"
  by (auto simp: tables_typed_def update_edges_def list_all_iff)

lemma typed_clear: "edge_typed (clear_resolution e)"
  by (simp add: edge_typed_def clear_resolution_def)

interpretation typed: pass_relation "\<lambda>scope db db'. if tables_typed db then tables_typed db' else True"
proof (unfold_locales, goal_cases)
  case (3 scope kind db)
  then show ?case by (auto simp: prepare_sources_def edge_typed_def intro!: typed_update)
next
  case (4 scope db pass)
  then show ?case by (auto simp: cleanup_stale_call_resolutions_def Let_def intro!: typed_update typed_clear)
next
  case (5 scope db)
  then show ?case by (auto simp: reset_overrides_def edge_typed_def intro!: typed_update)
next
  case (6 scope db updates db')
  have "edge_typed (apply_update u e)" if "edge_typed e" "u \<in> set updates" for u e
    using that 6(2) by (auto simp: edge_typed_def apply_update_def updates_for_def update_ok_def)
  moreover have "u \<in> set updates" if "find (\<lambda>u. ru_edge_id u = de_id e) updates = Some u" for u e
    using that by (auto simp: find_Some_iff)
  ultimately show ?case
    using 6(3) by (auto simp: apply_resolution_updates_def tables_typed_def list_all_iff split: if_splits option.splits) blast
qed (auto split: if_splits)

text \<open>C27: a pass keeps the tables well typed: when every resolved edge carries one of the three certainty
  labels before it, every resolved edge carries one after it, whichever way the pass ends.\<close>

theorem pass_keeps_certainties:
  assumes "tables_typed (cx_committed conn)"
  shows "tables_typed (cx_committed (snd (run_with_scope_with_cancel pass env cancels scope_ids stored conn)))"
  using typed.pass_committed [where conn = conn and pass = pass and env = env and cancels = cancels
    and scope_ids = scope_ids and stored = stored] assms by simp

theorem pass_keeps_certainties_witness:
  "tables_typed (cx_committed sample_conn)
    \<and> tables_typed (cx_committed (snd (run_with_scope_with_cancel sample_pass sample_transaction (\<lambda>_. False) None None sample_conn)))"
proof -
  have "''certain'' \<in> range certainty_as_str" by (metis certainty_as_str.simps(1) rangeI)
  then have "tables_typed (cx_committed sample_conn)"
    by (simp add: sample_conn_def sample_edge_def tables_typed_def edge_typed_def)
  with pass_keeps_certainties [OF this] show ?thesis by blast
qed

section \<open>A pass fails only when it is cancelled\<close>

abbreviation ids_distinct :: "graph_db \<Rightarrow> bool" where
  "ids_distinct db \<equiv> distinct (map de_id (db_edges db))"

text \<open>
  A run from given tables with distinct edge ids: it keeps them distinct, a run that succeeds saw
  every check it made answered no, and one that fails stopped at a check answered yes.
\<close>

definition outcome_ok :: "(nat \<Rightarrow> bool) \<Rightarrow> nat \<Rightarrow> nat \<Rightarrow> resolution_error + 'a \<Rightarrow> bool" where
  "outcome_ok cancels a b r \<longleftrightarrow> a \<le> b \<and> (case r of Inr _ \<Rightarrow> \<forall>i. a \<le> i \<and> i < b \<longrightarrow> \<not> cancels i
     | Inl e \<Rightarrow> e = ResolutionCancelled \<and> a < b \<and> cancels (b - 1))"

definition run_ok :: "(nat \<Rightarrow> bool) \<Rightarrow> graph_db \<Rightarrow> 'a run \<Rightarrow> bool" where
  "run_ok cancels db m \<longleftrightarrow> (\<forall>st. rn_db st = db \<longrightarrow> ids_distinct db \<longrightarrow>
     ids_distinct (rn_db (snd (m st))) \<and> outcome_ok cancels (rn_checks st) (rn_checks (snd (m st))) (fst (m st)))"

lemma outcome_ok_seq:
  assumes "outcome_ok cancels a b (Inr x)" and "outcome_ok cancels b c r"
  shows "outcome_ok cancels a c r"
proof (cases r)
  case (Inl e)
  with assms show ?thesis by (auto simp: outcome_ok_def)
next
  case (Inr y)
  have "\<not> cancels i" if "a \<le> i" "i < c" for i
    using assms Inr that by (cases "i < b") (auto simp: outcome_ok_def)
  with assms Inr show ?thesis by (auto simp: outcome_ok_def)
qed

lemma outcome_ok_same [simp]: "outcome_ok cancels a a (Inr x)"
  by (auto simp: outcome_ok_def)

lemma run_ok_return [simp]: "run_ok cancels db (return_r x)"
  by (simp add: run_ok_def return_r_def)

lemma run_ok_bind:
  assumes "run_ok cancels db m" and "\<And>x db'. run_ok cancels db' (f x)"
  shows "run_ok cancels db (bind_r m f)"
  unfolding run_ok_def
proof (intro allI impI)
  fix st :: run_state
  assume st: "rn_db st = db" "ids_distinct db"
  obtain r1 st1 where m: "m st = (r1, st1)" by fastforce
  from assms(1) st m have first: "ids_distinct (rn_db st1)" "outcome_ok cancels (rn_checks st) (rn_checks st1) r1"
    by (auto simp: run_ok_def)
  show "ids_distinct (rn_db (snd (bind_r m f st)))
      \<and> outcome_ok cancels (rn_checks st) (rn_checks (snd (bind_r m f st))) (fst (bind_r m f st))"
  proof (cases r1)
    case (Inl e)
    with m first show ?thesis by (simp add: bind_r_def outcome_ok_def)
  next
    case (Inr x)
    have "ids_distinct (rn_db (snd (f x st1)))"
        "outcome_ok cancels (rn_checks st1) (rn_checks (snd (f x st1))) (fst (f x st1))"
      using assms(2) [of "rn_db st1" x] first(1) by (auto simp: run_ok_def)
    with first Inr m show ?thesis by (auto simp: bind_r_def intro: outcome_ok_seq)
  qed
qed

lemma run_ok_then:
  assumes "\<And>st. rn_db st = db \<Longrightarrow> \<exists>x st'. m st = (Inr x, st') \<and> rn_db st' = db' \<and> outcome_ok cancels (rn_checks st) (rn_checks st') (Inr x)
      \<and> run_ok cancels db' (f x)"
    and "map de_id (db_edges db') = map de_id (db_edges db)"
  shows "run_ok cancels db (bind_r m f)"
  unfolding run_ok_def
proof (intro allI impI)
  fix st :: run_state
  assume st: "rn_db st = db" "ids_distinct db"
  from assms(1) [OF st(1)] obtain x st' where m: "m st = (Inr x, st')" "rn_db st' = db'"
    "outcome_ok cancels (rn_checks st) (rn_checks st') (Inr x)" "run_ok cancels db' (f x)" by blast
  with assms(2) st(2) have "ids_distinct (rn_db (snd (f x st')))"
    "outcome_ok cancels (rn_checks st') (rn_checks (snd (f x st'))) (fst (f x st'))"
    by (auto simp: run_ok_def)
  with m show "ids_distinct (rn_db (snd (bind_r m f st)))
      \<and> outcome_ok cancels (rn_checks st) (rn_checks (snd (bind_r m f st))) (fst (bind_r m f st))"
    by (auto simp: bind_r_def intro: outcome_ok_seq)
qed

lemma run_ok_read: "run_ok cancels db (f (g db)) \<Longrightarrow> run_ok cancels db (bind_r (read_r g) f)"
  by (rule run_ok_then [where db' = db]) (auto simp: read_r_def)

lemma run_ok_count: "run_ok cancels db (f ()) \<Longrightarrow> run_ok cancels db (bind_r (count_r ss) f)"
  by (rule run_ok_then [where db' = db]) (auto simp: count_r_def)

lemma run_ok_write:
  "map de_id (db_edges (g db)) = map de_id (db_edges db) \<Longrightarrow> run_ok cancels (g db) (f ()) \<Longrightarrow>
     run_ok cancels db (bind_r (write_r g) f)"
  by (rule run_ok_then [where db' = "g db"]) (auto simp: write_r_def)

lemma run_ok_checked: "run_ok cancels db m \<Longrightarrow> run_ok cancels db (checked cancels m)"
  unfolding run_ok_def checked_def
proof (intro allI impI, goal_cases)
  case (1 st)
  show ?case
  proof (cases "cancels (rn_checks st)")
    case True
    with 1 show ?thesis by (simp add: bind_r_def check_cancelled_def outcome_ok_def)
  next
    case False
    let ?st = "st\<lparr>rn_checks := rn_checks st + 1\<rparr>"
    have "outcome_ok cancels (rn_checks st) (rn_checks ?st) (Inr ())"
      using False by (auto simp: outcome_ok_def less_Suc_eq)
    moreover have "outcome_ok cancels (rn_checks ?st) (rn_checks (snd (m ?st))) (fst (m ?st))"
      using 1(1) [rule_format, of ?st] 1(2,3) by simp
    ultimately have "outcome_ok cancels (rn_checks st) (rn_checks (snd (m ?st))) (fst (m ?st))"
      by (rule outcome_ok_seq)
    then show ?thesis
      using 1(1) [rule_format, of ?st] 1(2,3) False by (simp add: bind_r_def check_cancelled_def)
  qed
qed

lemma apply_ids: "apply_resolution_updates updates db = Inr db' \<Longrightarrow> map de_id (db_edges db') = map de_id (db_edges db)"
  by (auto simp: apply_resolution_updates_def apply_update_def split: if_splits option.split)

lemma run_ok_apply:
  assumes "ids_distinct db \<Longrightarrow> distinct (map ru_edge_id updates)"
  shows "run_ok cancels db (bind_r (apply_r updates) (\<lambda>_. return_r x))"
proof -
  have "\<exists>db'. apply_resolution_updates updates db = Inr db'" if "ids_distinct db"
    using assms that by (auto simp: apply_resolution_updates_def)
  then show ?thesis
    using apply_ids [of updates db]
    by (fastforce simp: run_ok_def bind_r_def apply_r_def return_r_def)
qed

lemma distinct_map_filter:
  assumes "distinct (map k xs)" and "\<And>x y. f x = Some y \<Longrightarrow> k' y = k x"
  shows "distinct (map k' (List.map_filter f xs))"
proof -
  have "map k' (List.map_filter f xs) = map k (filter (\<lambda>x. f x \<noteq> None) xs)"
    using assms(2) by (induction xs) (auto simp: map_filter_simps split: option.split)
  with assms(1) show ?thesis by (simp add: distinct_map inj_on_def)
qed

lemma worklist_ids_distinct:
  assumes "ids_distinct db"
  shows "distinct (map ue_edge_id (unresolved_edges db kind scope))"
    and "distinct (map fst (unresolved_override_edges db scope))"
proof -
  have sorted: "distinct (map de_id (sort_key de_id (filter p (db_edges db))))" for p
    using assms by (simp add: distinct_map inj_on_def)
  show "distinct (map ue_edge_id (unresolved_edges db kind scope))"
    unfolding unresolved_edges_def by (cases "sx_mode scope = EmptyScope")
      (auto intro: distinct_map_filter [OF sorted] row_edge_id)
  show "distinct (map fst (unresolved_override_edges db scope))"
    unfolding unresolved_override_edges_def by (rule distinct_map_filter [OF sorted]) auto
qed

lemma semantic_lengths:
  "\<exists>cs stats. semantic_candidates_for_rows pass index rows kind = Inr (cs, stats) \<and> length cs = length rows"
  using semantic_candidates_for_rows_eq [of pass index rows kind] by auto

lemma computed_ids:
  "sound_compute compute \<Longrightarrow> length cs = length rows \<Longrightarrow>
     map ru_edge_id (map cr_update (map2 (compute pass index) rows cs)) = map ue_edge_id rows"
  by (induction rows arbitrary: cs) (auto simp: sound_compute_def length_Suc_conv)

lemma run_ok_resolve_edges:
  assumes "sound_compute compute"
  shows "run_ok cancels db (resolve_edges_after_prepare pass scope index semantic kind compute cancels)"
proof -
  let ?rows = "unresolved_edges db kind scope"
  obtain cs stats where cs: "semantic_candidates_for_rows pass semantic ?rows kind = Inr (cs, stats)" "length cs = length ?rows"
    using semantic_lengths by blast
  have "distinct (map ru_edge_id (map cr_update (map2 (compute pass index) ?rows cs)))" if "ids_distinct db"
    using worklist_ids_distinct(1) [OF that] computed_ids [OF assms cs(2)] by simp
  then have "run_ok cancels db (finish_edges cancels (map2 (compute pass index) ?rows cs))"
    unfolding finish_edges_def by (intro run_ok_checked run_ok_count run_ok_apply)
  then show ?thesis
    unfolding resolve_edges_after_prepare_def
    by (intro run_ok_checked run_ok_read) (auto simp: cs intro: run_ok_checked)
qed

lemma update_edges_ids: "(\<And>e. de_id (f e) = de_id e) \<Longrightarrow> map de_id (db_edges (update_edges p f db)) = map de_id (db_edges db)"
  by (simp add: update_edges_def)

lemma statement_ids:
  "map de_id (db_edges (prepare_sources kind scope db)) = map de_id (db_edges db)"
  "map de_id (db_edges (cleanup_stale_call_resolutions pass scope db)) = map de_id (db_edges db)"
  "map de_id (db_edges (reset_overrides scope db)) = map de_id (db_edges db)"
  by (simp_all add: prepare_sources_def cleanup_stale_call_resolutions_def reset_overrides_def Let_def update_edges_ids
      clear_resolution_def)

lemma run_ok_overrides_rows:
  assumes "\<And>row. resolve_override pass support row \<noteq> None"
  shows "run_ok cancels db (override_rows pass support cancels rows acc)"
  using assms
proof (induction rows arbitrary: acc)
  case (Cons row rows)
  obtain u hit where "resolve_override pass support row = Some (u, hit)" using Cons.prems [of row] by auto
  with Cons show ?case by (auto intro: run_ok_checked)
qed simp

lemma run_ok_override_step:
  assumes "\<And>row. resolve_override pass (pr_override_support prepared) row \<noteq> None"
  shows "run_ok cancels db (resolve_overrides_on_conn pass scope prepared cancels)"
proof -
  have step: "run_ok cancels db' (bind_r (override_rows pass (pr_override_support prepared) cancels
      (unresolved_override_edges db' scope) ([], 0)) (\<lambda>(updates, resolved).
        checked cancels (bind_r (apply_r updates) (\<lambda>_. return_r resolved))))" for db'
    unfolding run_ok_def
  proof (intro allI impI)
    fix st :: run_state
    assume st: "rn_db st = db'" "ids_distinct db'"
    let ?m = "override_rows pass (pr_override_support prepared) cancels (unresolved_override_edges db' scope) ([], 0)"
    let ?f = "\<lambda>(updates, resolved). checked cancels (bind_r (apply_r updates) (\<lambda>_. return_r (resolved :: nat)))"
    obtain r st1 where m: "?m st = (r, st1)" by fastforce
    have first: "outcome_ok cancels (rn_checks st) (rn_checks st1) r"
      using run_ok_overrides_rows [OF assms, of cancels db' "unresolved_override_edges db' scope" "([], 0)"] st m
      by (auto simp: run_ok_def)
    note result = override_rows_result [OF m]
    show "ids_distinct (rn_db (snd (bind_r ?m ?f st)))
        \<and> outcome_ok cancels (rn_checks st) (rn_checks (snd (bind_r ?m ?f st))) (fst (bind_r ?m ?f st))"
    proof (cases r)
      case (Inl e)
      with m first result st show ?thesis by (simp add: bind_r_def outcome_ok_def)
    next
      case (Inr x)
      obtain us n where x: "x = (us, n)" by (cases x)
      with result Inr have "map ru_edge_id us = map fst (unresolved_override_edges db' scope)" by auto
      then have "run_ok cancels db' (?f x)"
        using worklist_ids_distinct(2) [OF st(2)] x by (auto intro!: run_ok_checked run_ok_apply)
      with m first result st Inr show ?thesis
        unfolding bind_r_def [of ?m] by (auto simp: run_ok_def intro: outcome_ok_seq)
    qed
  qed
  show ?thesis
    unfolding resolve_overrides_on_conn_def
    by (auto intro!: run_ok_checked run_ok_write run_ok_read step statement_ids)
qed

lemma run_ok_pass_steps:
  assumes "\<And>row. resolve_override pass (pr_override_support prepared) row \<noteq> None"
  shows "run_ok cancels db (pass_steps pass cancels scope prepared a b)"
proof -
  have calls: "run_ok cancels db' (resolve_calls_on_conn pass scope prepared cancels)" for db'
    unfolding resolve_calls_on_conn_def
    by (auto intro!: run_ok_checked run_ok_write statement_ids run_ok_resolve_edges sound_computes)
  have imps: "run_ok cancels db' (resolve_imports_on_conn pass scope prepared cancels)" for db'
    unfolding resolve_imports_on_conn_def
    by (auto intro!: run_ok_checked run_ok_write statement_ids run_ok_resolve_edges sound_computes)
  have finish: "run_ok cancels db' (finish_pass cancels scope a b c d)" for db' c d
    unfolding finish_pass_def by (intro run_ok_checked run_ok_read) (simp add: run_ok_def)
  show ?thesis
    unfolding pass_steps_def
    by (intro run_ok_checked run_ok_bind calls imps run_ok_override_step assms finish)
qed

lemma prepared_overrides_return: "resolve_override pass (pr_override_support (prepared_load db flags stored)) row \<noteq> None"
proof -
  obtain i src name where "row = (i, src, name)" by (cases row) auto
  moreover have "\<exists>ms inh inhn names. pr_override_support (prepared_load db flags stored) =
      override_support_from_snapshot ms inh inhn names"
  proof -
    have "\<exists>ms inh inhn names. pr_override_support (prepared_from_snapshot s flags) =
        override_support_from_snapshot ms inh inhn names" for s
      unfolding prepared_from_snapshot_def by auto
    moreover have "\<exists>ms inh inhn names. pr_override_support (prepared_from_tables db flags) =
        override_support_from_snapshot ms inh inhn names"
      unfolding prepared_from_tables_def load_override_support_def by auto
    ultimately show ?thesis by (cases stored) (simp_all add: prepared_load_def)
  qed
  ultimately show ?thesis using resolve_override_ok by (metis option.distinct(1))
qed

lemma run_ok_pass_work: "run_ok cancels db (pass_work pass cancels scope_ids stored)"
  unfolding pass_work_def
  by (intro run_ok_checked run_ok_read run_ok_pass_steps prepared_overrides_return)



section \<open>The counts a pass reports\<close>

definition counted :: "EdgeKind \<Rightarrow> ScopeCallerContext \<Rightarrow> db_edge \<Rightarrow> bool" where
  "counted kind scope e \<longleftrightarrow> de_kind e = edge_kind_as_i32 kind \<and> de_resolved_target_node_id e = None
     \<and> worklist_metadata_filter kind e \<and> scope_clause scope e"

lemma count_counted:
  "count_unresolved_on_conn db kind scope =
     (if sx_mode scope = EmptyScope then 0 else length (filter (counted kind scope) (db_edges db)))"
  by (simp add: count_unresolved_on_conn_def counted_def [abs_def])

lemma length_filter_ids:
  assumes "distinct (map k xs)" and "T \<subseteq> k ` {x \<in> set xs. P x}"
  shows "length (filter P xs) = length (filter (\<lambda>x. P x \<and> k x \<notin> T) xs) + card T"
proof -
  have "distinct (map k (filter (\<lambda>x. P x \<and> k x \<in> T) xs))" using assms(1) by (simp add: distinct_map inj_on_def)
  then have "length (filter (\<lambda>x. P x \<and> k x \<in> T) xs) = card (k ` set (filter (\<lambda>x. P x \<and> k x \<in> T) xs))"
    by (metis distinct_card length_map list.set_map)
  also have "k ` set (filter (\<lambda>x. P x \<and> k x \<in> T) xs) = T" using assms(2) by auto
  finally have "length (filter (\<lambda>x. P x \<and> k x \<in> T) xs) = card T" .
  moreover have "length (filter P xs) = length (filter (\<lambda>x. P x \<and> k x \<notin> T) xs) + length (filter (\<lambda>x. P x \<and> k x \<in> T) xs)"
    by (induction xs) auto
  ultimately show ?thesis by simp
qed

text \<open>One step's updates take as many edges off the worklist of their kind as they resolve, and none off another.\<close>

lemma applied_counts:
  assumes "ids_distinct db" and "apply_resolution_updates updates db = Inr db'" and "distinct (map ru_edge_id updates)"
    and "\<And>u. u \<in> set updates \<Longrightarrow> update_ok u \<and> (\<exists>e \<in> set (db_edges db). de_id e = ru_edge_id u \<and> counted kind scope e)"
  shows "length (filter (counted kind scope) (db_edges db')) + length (filter ru_touch_metadata updates)
      = length (filter (counted kind scope) (db_edges db))"
    and "edge_kind_as_i32 other \<noteq> edge_kind_as_i32 kind \<Longrightarrow>
      length (filter (counted other scope) (db_edges db')) = length (filter (counted other scope) (db_edges db))"
proof -
  let ?new = "\<lambda>e. case find (\<lambda>u. ru_edge_id u = de_id e) updates of Some u \<Rightarrow> apply_update u e | None \<Rightarrow> e"
  have new: "db_edges db' = map ?new (db_edges db)"
  proof (cases "updates = []")
    case True
    with assms(2) show ?thesis by (auto simp: apply_resolution_updates_def)
  next
    case False
    with assms(2,3) show ?thesis by (auto simp: apply_resolution_updates_def)
  qed
  have found: "update_ok u \<and> counted kind scope e \<and> u \<in> set updates \<and> ru_edge_id u = de_id e"
    if "e \<in> set (db_edges db)" "find (\<lambda>u. ru_edge_id u = de_id e) updates = Some u" for e u
  proof -
    from that(2) have u: "u \<in> set updates" "ru_edge_id u = de_id e" by (auto simp: find_Some_iff)
    with assms(4) obtain e' where "e' \<in> set (db_edges db)" "de_id e' = de_id e" "counted kind scope e'" by force
    with assms(1) that(1) have "counted kind scope e" by (metis distinct_map inj_onD)
    with u assms(4) show ?thesis by blast
  qed
  let ?T = "ru_edge_id ` {u \<in> set updates. ru_touch_metadata u}"
  have inj: "inj_on ru_edge_id (set updates)" using assms(3) by (simp add: distinct_map)
  have "counted kind scope (?new e) \<longleftrightarrow> counted kind scope e \<and> de_id e \<notin> ?T" if e: "e \<in> set (db_edges db)" for e
  proof (cases "find (\<lambda>u. ru_edge_id u = de_id e) updates")
    case None
    then have "de_id e \<notin> ?T" by (auto simp: find_None_iff)
    with None show ?thesis by simp
  next
    case (Some u)
    note u = found [OF e Some]
    have "de_id e \<in> ?T \<longleftrightarrow> ru_touch_metadata u" using u inj_onD [OF inj, of u] by (auto simp: image_iff)
    with u Some show ?thesis
      by (auto simp: counted_def apply_update_def update_ok_def worklist_metadata_filter_def scope_clause_def split: if_splits)
  qed
  then have "filter (\<lambda>e. counted kind scope (?new e)) (db_edges db) = filter (\<lambda>e. counted kind scope e \<and> de_id e \<notin> ?T) (db_edges db)"
    by (intro filter_cong) auto
  moreover have "?T \<subseteq> de_id ` {e \<in> set (db_edges db). counted kind scope e}" using assms(4) by force
  note length_filter_ids [OF assms(1) this]
  moreover have "card ?T = length (filter ru_touch_metadata updates)"
  proof -
    have "card ?T = card {u \<in> set updates. ru_touch_metadata u}"
      by (rule card_image) (rule inj_on_subset [OF inj], auto)
    also have "\<dots> = length (filter ru_touch_metadata updates)"
      using assms(3) distinct_card [of "filter ru_touch_metadata updates"] by (simp add: distinct_map)
    finally show ?thesis .
  qed
  ultimately show "length (filter (counted kind scope) (db_edges db')) + length (filter ru_touch_metadata updates)
      = length (filter (counted kind scope) (db_edges db))"
    by (simp add: new filter_map comp_def)
  assume other: "edge_kind_as_i32 other \<noteq> edge_kind_as_i32 kind"
  have "counted other scope (?new e) \<longleftrightarrow> counted other scope e" if e: "e \<in> set (db_edges db)" for e
  proof (cases "find (\<lambda>u. ru_edge_id u = de_id e) updates")
    case (Some u)
    with found [OF e Some] other show ?thesis by (simp add: counted_def apply_update_def)
  qed simp
  then show "length (filter (counted other scope) (db_edges db')) = length (filter (counted other scope) (db_edges db))"
    by (simp add: new filter_map comp_def cong: filter_cong)
qed

text \<open>What a run yields when it succeeds.\<close>

definition run_yields :: "graph_db \<Rightarrow> 'a run \<Rightarrow> ('a \<Rightarrow> graph_db \<Rightarrow> bool) \<Rightarrow> bool" where
  "run_yields db m P \<longleftrightarrow> (\<forall>st x st'. rn_db st = db \<longrightarrow> m st = (Inr x, st') \<longrightarrow> P x (rn_db st'))"

lemma run_yields_return: "P x db \<Longrightarrow> run_yields db (return_r x) P"
  by (simp add: run_yields_def return_r_def)

lemma run_yields_bind:
  assumes "run_yields db m Q" and "\<And>x db'. Q x db' \<Longrightarrow> run_yields db' (f x) P"
  shows "run_yields db (bind_r m f) P"
  unfolding run_yields_def
proof (intro allI impI)
  fix st x st'
  assume st: "rn_db st = db" and run: "bind_r m f st = (Inr x, st')"
  obtain r st1 where m: "m st = (r, st1)" by fastforce
  with run obtain y where r: "r = Inr y" and f: "f y st1 = (Inr x, st')"
    by (cases r) (simp_all add: bind_r_def)
  with m st assms(1) have "Q y (rn_db st1)" by (auto simp: run_yields_def)
  from assms(2) [OF this] f show "P x (rn_db st')" by (simp add: run_yields_def)
qed

lemma run_yields_checked: "run_yields db m P \<Longrightarrow> run_yields db (checked cancels m) P"
  unfolding checked_def
  by (rule run_yields_bind [where Q = "\<lambda>_ db'. db' = db"]) (auto simp: run_yields_def check_cancelled_def split: if_splits)

lemma run_yields_read: "run_yields db (f (g db)) P \<Longrightarrow> run_yields db (bind_r (read_r g) f) P"
  by (rule run_yields_bind [where Q = "\<lambda>x db'. x = g db \<and> db' = db"]) (auto simp: run_yields_def read_r_def)

lemma run_yields_write: "run_yields (g db) (f ()) P \<Longrightarrow> run_yields db (bind_r (write_r g) f) P"
  by (rule run_yields_bind [where Q = "\<lambda>_ db'. db' = g db"]) (auto simp: run_yields_def write_r_def)

lemma run_yields_count: "run_yields db (f ()) P \<Longrightarrow> run_yields db (bind_r (count_r ss) f) P"
  by (rule run_yields_bind [where Q = "\<lambda>_ db'. db' = db"]) (auto simp: run_yields_def count_r_def)

lemma run_yields_apply:
  "(\<And>db'. apply_resolution_updates updates db = Inr db' \<Longrightarrow> P x db') \<Longrightarrow>
     run_yields db (bind_r (apply_r updates) (\<lambda>_. return_r x)) P"
  by (auto simp: run_yields_def bind_r_def apply_r_def return_r_def split: sum.splits)

lemma run_yields_fail [simp]: "run_yields db (fail_r e) P"
  by (simp add: run_yields_def fail_r_def)

lemma unresolved_edges_counted:
  "row \<in> set (unresolved_edges db kind scope) \<Longrightarrow> \<exists>e \<in> set (db_edges db). de_id e = ue_edge_id row \<and> counted kind scope e"
  using unresolved_edges_rows [of row db kind scope] by (auto simp: counted_def)

lemma resolve_edges_counts:
  assumes "ids_distinct db" and "sound_compute compute"
  shows "run_yields db (resolve_edges_after_prepare pass scope index semantic kind compute cancels) (\<lambda>n db'. ids_distinct db'
    \<and> length (filter (counted kind scope) (db_edges db')) + n = length (filter (counted kind scope) (db_edges db))
    \<and> (\<forall>other. edge_kind_as_i32 other \<noteq> edge_kind_as_i32 kind \<longrightarrow>
        length (filter (counted other scope) (db_edges db')) = length (filter (counted other scope) (db_edges db))))"
    (is "run_yields db _ ?P")
proof -
  let ?rows = "unresolved_edges db kind scope"
  obtain cs stats where cs: "semantic_candidates_for_rows pass semantic ?rows kind = Inr (cs, stats)" "length cs = length ?rows"
    using semantic_lengths by blast
  let ?computed = "map2 (compute pass index) ?rows cs"
  let ?updates = "map cr_update ?computed"
  have ids: "distinct (map ru_edge_id ?updates)"
    using worklist_ids_distinct(1) [OF assms(1)] computed_ids [OF assms(2) cs(2)] by simp
  have ups: "update_ok u \<and> (\<exists>e \<in> set (db_edges db). de_id e = ru_edge_id u \<and> counted kind scope e)" if "u \<in> set ?updates" for u
    using that assms(2) unresolved_edges_counted [of _ db kind scope]
    by (fastforce simp: sound_compute_def dest: set_zip_leftD)
  have touched: "length (filter ru_touch_metadata ?updates) = length (filter (\<lambda>c. cr_strategy c \<noteq> None) ?computed)"
  proof -
    have "ru_touch_metadata (cr_update c) \<longleftrightarrow> cr_strategy c \<noteq> None" if "c \<in> set ?computed" for c
    proof -
      from that obtain row cand where "c = compute pass index row cand" by auto
      with assms(2) [unfolded sound_compute_def, rule_format, of pass index row cand] show ?thesis
        unfolding update_ok_def by blast
    qed
    then show ?thesis by (simp add: filter_map comp_def cong: filter_cong)
  qed
  have "?P (length (filter (\<lambda>c. cr_strategy c \<noteq> None) ?computed)) db'" if "apply_resolution_updates ?updates db = Inr db'" for db'
    using applied_counts [OF assms(1) that ids ups] apply_ids [OF that] assms(1) touched by simp
  then have "run_yields db (finish_edges cancels ?computed) ?P"
    unfolding finish_edges_def by (intro run_yields_checked run_yields_count run_yields_apply)
  moreover have "?P 0 db" using assms(1) by simp
  ultimately show ?thesis
    unfolding resolve_edges_after_prepare_def
    by (intro run_yields_checked run_yields_read) (auto simp: cs intro: run_yields_checked run_yields_return)
qed

abbreviation worklist :: "EdgeKind \<Rightarrow> ScopeCallerContext \<Rightarrow> graph_db \<Rightarrow> nat" where
  "worklist kind scope db \<equiv> length (filter (counted kind scope) (db_edges db))"

lemma length_filter_mono: "(\<And>x. P x \<Longrightarrow> Q x) \<Longrightarrow> length (filter P xs) \<le> length (filter Q xs)"
  by (induction xs) (auto intro: le_SucI)

lemma update_edges_more_count:
  "(\<And>e. p e \<Longrightarrow> counted kind scope e \<Longrightarrow> counted kind scope (f e)) \<Longrightarrow>
     worklist kind scope db \<le> worklist kind scope (update_edges p f db)"
  unfolding update_edges_def by (auto simp: filter_map comp_def intro!: length_filter_mono)

lemma update_edges_same_count:
  "(\<And>e. p e \<Longrightarrow> counted kind scope (f e) = counted kind scope e) \<Longrightarrow> worklist kind scope (update_edges p f db) = worklist kind scope db"
  unfolding update_edges_def by (auto simp: filter_map comp_def intro!: antisym length_filter_mono)

lemma statement_counts:
  "worklist kind scope (prepare_sources k scope db) = worklist kind scope db"
  "worklist EK_IMPORT scope (cleanup_stale_call_resolutions pass scope db) = worklist EK_IMPORT scope db"
  "worklist EK_CALL scope db \<le> worklist EK_CALL scope (cleanup_stale_call_resolutions pass scope db)"
  "kind \<noteq> EK_OVERRIDE \<Longrightarrow> worklist kind scope (reset_overrides scope db) = worklist kind scope db"
proof -
  show "worklist kind scope (prepare_sources k scope db) = worklist kind scope db"
    unfolding prepare_sources_def
    by (rule update_edges_same_count) (auto simp: counted_def worklist_metadata_filter_def scope_clause_def)
  show "worklist EK_IMPORT scope (cleanup_stale_call_resolutions pass scope db) = worklist EK_IMPORT scope db"
    unfolding cleanup_stale_call_resolutions_def Let_def
    by (auto simp: counted_def clear_resolution_def intro!: trans [OF update_edges_same_count update_edges_same_count])
  show "worklist EK_CALL scope db \<le> worklist EK_CALL scope (cleanup_stale_call_resolutions pass scope db)"
    unfolding cleanup_stale_call_resolutions_def Let_def
    by (auto simp: counted_def worklist_metadata_filter_def intro!: order_trans [OF update_edges_more_count update_edges_more_count])
  show "worklist kind scope (reset_overrides scope db) = worklist kind scope db" if "kind \<noteq> EK_OVERRIDE"
    unfolding reset_overrides_def using that edge_kind.encode_inj [of kind EK_OVERRIDE]
    by (intro update_edges_same_count) (auto simp: counted_def)
qed

lemma run_yields_mono: "run_yields db m Q \<Longrightarrow> (\<And>x db'. Q x db' \<Longrightarrow> P x db') \<Longrightarrow> run_yields db m P"
  by (auto simp: run_yields_def)

lemma calls_counts:
  assumes "ids_distinct db" and "sx_mode scope \<noteq> EmptyScope"
  shows "run_yields db (resolve_calls_on_conn pass scope prepared cancels) (\<lambda>n db'. ids_distinct db'
    \<and> worklist EK_CALL scope db \<le> worklist EK_CALL scope db' + n \<and> worklist EK_IMPORT scope db' = worklist EK_IMPORT scope db)"
proof -
  let ?db = "cleanup_stale_call_resolutions pass scope (prepare_sources EK_CALL scope db)"
  have d: "ids_distinct ?db" using assms(1) by (simp add: statement_ids)
  have "worklist EK_CALL scope db \<le> worklist EK_CALL scope ?db" "worklist EK_IMPORT scope ?db = worklist EK_IMPORT scope db"
    using statement_counts(3) [of scope "prepare_sources EK_CALL scope db" pass] by (simp_all add: statement_counts(1,2))
  then show ?thesis
    unfolding resolve_calls_on_conn_def if_not_P [OF assms(2)]
    by (intro run_yields_checked run_yields_write run_yields_mono [OF resolve_edges_counts [OF d sound_computes(1)]]) auto
qed

lemma imports_counts:
  assumes "ids_distinct db" and "sx_mode scope \<noteq> EmptyScope"
  shows "run_yields db (resolve_imports_on_conn pass scope prepared cancels) (\<lambda>n db'. ids_distinct db'
    \<and> worklist EK_IMPORT scope db' + n = worklist EK_IMPORT scope db \<and> worklist EK_CALL scope db' = worklist EK_CALL scope db)"
proof -
  let ?db = "prepare_sources EK_IMPORT scope db"
  have d: "ids_distinct ?db" using assms(1) by (simp add: statement_ids)
  show ?thesis
    unfolding resolve_imports_on_conn_def if_not_P [OF assms(2)]
    by (intro run_yields_checked run_yields_write run_yields_mono [OF resolve_edges_counts [OF d sound_computes(2)]])
      (auto simp: statement_counts(1))
qed

lemma overrides_counts:
  assumes "ids_distinct db" and "sx_mode scope \<noteq> EmptyScope"
  shows "run_yields db (resolve_overrides_on_conn pass scope prepared cancels) (\<lambda>_ db'.
    worklist EK_IMPORT scope db' = worklist EK_IMPORT scope db \<and> worklist EK_CALL scope db' = worklist EK_CALL scope db)"
    (is "run_yields db _ ?P")
proof -
  let ?db = "reset_overrides scope db"
  let ?rows = "unresolved_override_edges ?db scope"
  have d: "ids_distinct ?db" using assms(1) by (simp add: statement_ids)
  have same: "?P x ?db" for x :: nat by (simp add: statement_counts(4))
  have rows: "run_yields ?db (override_rows pass (pr_override_support prepared) cancels ?rows ([], 0)) (\<lambda>(us, n) db'.
      db' = ?db \<and> map ru_edge_id us = map fst ?rows \<and> list_all update_ok us)"
    unfolding run_yields_def by (auto dest!: override_rows_result)
  have "run_yields ?db (bind_r (override_rows pass (pr_override_support prepared) cancels ?rows ([], 0)) (\<lambda>(updates, resolved).
        checked cancels (bind_r (apply_r updates) (\<lambda>_. return_r resolved)))) ?P"
  proof (rule run_yields_bind [OF rows], clarify, intro run_yields_checked run_yields_apply)
    fix us :: "ResolvedEdgeUpdate list" and n :: nat and db'
    assume ids: "map ru_edge_id us = map fst ?rows" and ok: "list_all update_ok us"
      and run: "apply_resolution_updates us ?db = Inr db'"
    have "update_ok u \<and> (\<exists>e \<in> set (db_edges ?db). de_id e = ru_edge_id u \<and> counted EK_OVERRIDE scope e)" if "u \<in> set us" for u
    proof -
      have "ru_edge_id u \<in> fst ` set ?rows" using ids that by (metis image_eqI list.set_map)
      with override_edges_rows [of _ ?db scope] ok that show ?thesis
        by (fastforce simp: counted_def worklist_metadata_filter_def list_all_iff)
    qed
    from applied_counts(2) [OF d run _ this, of EK_IMPORT] applied_counts(2) [OF d run _ this, of EK_CALL] same
    show "?P n db'" using worklist_ids_distinct(2) [OF d, of scope] ids by simp
  qed
  then show ?thesis
    unfolding resolve_overrides_on_conn_def if_not_P [OF assms(2)]
    by (intro run_yields_checked run_yields_write run_yields_read) (auto intro: run_yields_return simp: same)
qed

lemma pass_steps_counts:
  assumes "ids_distinct db"
  shows "run_yields db (pass_steps pass cancels scope prepared (count_unresolved_on_conn db EK_CALL scope)
      (count_unresolved_on_conn db EK_IMPORT scope)) (\<lambda>stats _.
    st_unresolved_imports stats + st_resolved_imports stats = st_unresolved_imports_before stats
    \<and> st_unresolved_calls_before stats \<le> st_unresolved_calls stats + st_resolved_calls stats)"
    (is "run_yields db (pass_steps _ _ _ _ ?calls ?imports) ?P")
proof (cases "sx_mode scope = EmptyScope")
  case True
  then have zero: "run_yields db' (resolve_calls_on_conn pass scope prepared cancels) (\<lambda>n _. n = 0)"
    "run_yields db' (resolve_imports_on_conn pass scope prepared cancels) (\<lambda>n _. n = 0)" for db'
    unfolding resolve_calls_on_conn_def resolve_imports_on_conn_def by (auto intro!: run_yields_checked run_yields_return)
  have finish: "run_yields db' (finish_pass cancels scope 0 0 0 0) ?P" for db'
    unfolding finish_pass_def by (intro run_yields_checked run_yields_read) (simp add: run_yields_def True count_counted)
  have overrides: "run_yields db' (resolve_overrides_on_conn pass scope prepared cancels) (\<lambda>_ _. True)" for db'
    by (simp add: run_yields_def)
  show ?thesis
    unfolding pass_steps_def
    by (intro run_yields_checked run_yields_bind [OF zero(1)] run_yields_bind [OF zero(2)] run_yields_bind [OF overrides])
      (simp add: finish count_counted True)
next
  case False
  note c = count_counted [where scope = scope] False
  have finish: "run_yields db' (finish_pass cancels scope ?calls ?imports a b) ?P"
    if "worklist EK_IMPORT scope db' + b = ?imports" "?calls \<le> worklist EK_CALL scope db' + a" for db' a b
    unfolding finish_pass_def using that by (intro run_yields_checked run_yields_read) (simp add: run_yields_def c)
  show ?thesis
    unfolding pass_steps_def
  proof (intro run_yields_checked, rule run_yields_bind [OF calls_counts [OF assms False]], elim conjE, intro run_yields_checked)
    fix a db1
    assume 1: "ids_distinct db1" "worklist EK_CALL scope db \<le> worklist EK_CALL scope db1 + a"
      "worklist EK_IMPORT scope db1 = worklist EK_IMPORT scope db"
    show "run_yields db1 (bind_r (resolve_imports_on_conn pass scope prepared cancels) (\<lambda>imports.
        checked cancels (bind_r (resolve_overrides_on_conn pass scope prepared cancels) (\<lambda>_.
          finish_pass cancels scope ?calls ?imports a imports)))) ?P"
    proof (rule run_yields_bind [OF imports_counts [OF 1(1) False]], elim conjE, intro run_yields_checked)
      fix b db2
      assume 2: "ids_distinct db2" "worklist EK_IMPORT scope db2 + b = worklist EK_IMPORT scope db1"
        "worklist EK_CALL scope db2 = worklist EK_CALL scope db1"
      show "run_yields db2 (bind_r (resolve_overrides_on_conn pass scope prepared cancels) (\<lambda>_.
          finish_pass cancels scope ?calls ?imports a b)) ?P"
        by (rule run_yields_bind [OF overrides_counts [OF 2(1) False]], rule finish) (use 1 2 c in auto)
    qed
  qed
qed

text \<open>C26: the counts a successful pass reports are honest: every import it counts as resolved is one that
  left the list of unresolved imports and no other did, and the calls it leaves unresolved and those
  it resolved cover the calls unresolved before, to which clearing stale resolutions only adds.\<close>

theorem pass_counts_balance:
  assumes "ids_distinct (cx_committed conn)"
  shows "case run_with_scope_with_cancel pass env cancels scope_ids stored conn of
    (Inl _, _) \<Rightarrow> True
  | (Inr stats, _) \<Rightarrow> st_unresolved_imports stats + st_resolved_imports stats = st_unresolved_imports_before stats
      \<and> st_unresolved_calls_before stats \<le> st_unresolved_calls stats + st_resolved_calls stats"
proof -
  have "run_yields (cx_committed conn) (pass_work pass cancels scope_ids stored) (\<lambda>stats _.
      st_unresolved_imports stats + st_resolved_imports stats = st_unresolved_imports_before stats
      \<and> st_unresolved_calls_before stats \<le> st_unresolved_calls stats + st_resolved_calls stats)"
    unfolding pass_work_def by (intro run_yields_checked run_yields_read pass_steps_counts assms)
  note stats = this [unfolded run_yields_def, THEN spec, of "\<lparr>rn_db = cx_committed conn, rn_checks = 1, rn_counters = counters_default\<rparr>"]
  show ?thesis
    unfolding run_with_scope_with_cancel_def run_in_immediate_transaction_def
    by (auto split: prod.splits sum.splits dest: stats [simplified, rule_format, OF exI])
qed

theorem pass_counts_balance_witness:
  "ids_distinct (cx_committed sample_conn)
    \<and> (case run_with_scope_with_cancel sample_pass sample_transaction (\<lambda>_. False) None None sample_conn of
        (Inl _, _) \<Rightarrow> True
      | (Inr stats, _) \<Rightarrow> st_unresolved_imports stats + st_resolved_imports stats = st_unresolved_imports_before stats
          \<and> st_unresolved_calls_before stats \<le> st_unresolved_calls stats + st_resolved_calls stats)"
proof -
  have d: "ids_distinct (cx_committed sample_conn)"
    by (simp add: sample_conn_def sample_edge_def)
  show ?thesis by (intro conjI d pass_counts_balance [OF d])
qed

end
