(* ===== verification/Retrieval_Cache.thy ===== *)
theory Retrieval_Cache
  imports CS_Prelude "HOL-Library.AList"
begin

text \<open>
  The version-keyed query result cache, \<^verbatim>\<open>codestory-retrieval/src/cache.rs\<close>.

  A hit is a type variable: the cache only stores and compares lists of them, and
  \<^verbatim>\<open>PartialEq\<close> on them is the argument \<open>hits_eq\<close> of the merge (it is not reflexive on
  scores that are not numbers). The hash map is an association list with distinct keys; its
  iteration order is never observed. The \<^verbatim>\<open>VecDeque\<close> is a list, front first.
\<close>

section \<open>Data and operations\<close>

text \<open>The fields of \<^verbatim>\<open>RetrievalIndexManifest\<close> the key is made of.\<close>

record RetrievalIndexManifest =
  mf_project_id :: string
  mf_lexical_version :: string
  mf_semantic_generation :: string
  mf_scip_revision :: "string option"
  mf_sidecar_generation :: "string option"
  mf_sidecar_input_hash :: "string option"
  mf_sidecar_schema_version :: "int option"
  mf_projection_count :: "int option"

record RetrievalCacheKey =
  ky_core_generation_id :: "string option"
  ky_core_run_id :: "string option"
  ky_project_id :: string
  ky_lexical_version :: string
  ky_semantic_generation :: string
  ky_scip_revision :: "string option"
  ky_sidecar_generation :: "string option"
  ky_sidecar_input_hash :: "string option"
  ky_sidecar_schema_version :: "int option"
  ky_projection_count :: "int option"
  ky_query_fingerprint :: string

record RetrievalPublicationIdentity =
  ri_core_generation_id :: string
  ri_core_run_id :: string

definition from_manifest :: "RetrievalIndexManifest \<Rightarrow> string \<Rightarrow> RetrievalCacheKey" where
  "from_manifest m query_fingerprint =
     \<lparr>ky_core_generation_id = None, ky_core_run_id = None,
      ky_project_id = mf_project_id m, ky_lexical_version = mf_lexical_version m,
      ky_semantic_generation = mf_semantic_generation m, ky_scip_revision = mf_scip_revision m,
      ky_sidecar_generation = mf_sidecar_generation m, ky_sidecar_input_hash = mf_sidecar_input_hash m,
      ky_sidecar_schema_version = mf_sidecar_schema_version m,
      ky_projection_count = mf_projection_count m, ky_query_fingerprint = query_fingerprint\<rparr>"

definition DEFAULT_RETRIEVAL_CACHE_CAPACITY :: nat where
  "DEFAULT_RETRIEVAL_CACHE_CAPACITY = 128"

record 'h RetrievalCache =
  rc_entries :: "(RetrievalCacheKey \<times> 'h list) list"
  rc_order :: "RetrievalCacheKey list"
  rc_capacity :: nat
  rc_publication_identity :: "(string \<times> string) option"

definition with_capacity :: "nat \<Rightarrow> 'h RetrievalCache" where
  "with_capacity capacity =
     \<lparr>rc_entries = [], rc_order = [], rc_capacity = max capacity 1, rc_publication_identity = None\<rparr>"

definition RetrievalCache_default :: "'h RetrievalCache" where
  "RetrievalCache_default = with_capacity DEFAULT_RETRIEVAL_CACHE_CAPACITY"

definition cache_clear :: "'h RetrievalCache \<Rightarrow> 'h RetrievalCache" where
  "cache_clear c = c\<lparr>rc_entries := [], rc_order := [], rc_publication_identity := None\<rparr>"

definition scope_to_publication ::
  "RetrievalPublicationIdentity \<Rightarrow> 'h RetrievalCache \<Rightarrow> 'h RetrievalCache" where
  "scope_to_publication identity c =
     (let publication = (ri_core_generation_id identity, ri_core_run_id identity)
      in if rc_publication_identity c \<noteq> Some publication
         then (cache_clear c)\<lparr>rc_publication_identity := Some publication\<rparr> else c)"

definition key_for_manifest ::
  "'h RetrievalCache \<Rightarrow> RetrievalIndexManifest \<Rightarrow> string \<Rightarrow> RetrievalCacheKey" where
  "key_for_manifest c m query_fingerprint =
     (let key = from_manifest m query_fingerprint
      in case rc_publication_identity c of
           Some (generation_id, run_id) \<Rightarrow>
             key\<lparr>ky_core_generation_id := Some generation_id, ky_core_run_id := Some run_id\<rparr>
         | None \<Rightarrow> key)"

definition cache_get :: "'h RetrievalCache \<Rightarrow> RetrievalCacheKey \<Rightarrow> 'h list option" where
  "cache_get c key = map_of (rc_entries c) key"

text \<open>The eviction loop of \<^verbatim>\<open>insert\<close>.\<close>

fun cache_evict ::
  "nat \<Rightarrow> RetrievalCacheKey list \<Rightarrow> (RetrievalCacheKey \<times> 'h list) list \<Rightarrow>
     (RetrievalCacheKey \<times> 'h list) list \<times> RetrievalCacheKey list" where
  "cache_evict capacity [] entries = (entries, [])"
| "cache_evict capacity (k # ks) entries =
     (if length entries > capacity then cache_evict capacity ks (AList.delete k entries)
      else (entries, k # ks))"

definition cache_insert ::
  "RetrievalCacheKey \<Rightarrow> 'h list \<Rightarrow> 'h RetrievalCache \<Rightarrow> 'h RetrievalCache" where
  "cache_insert key hits c =
     (let order = (if cache_get c key \<noteq> None then filter (\<lambda>existing. existing \<noteq> key) (rc_order c)
                   else rc_order c);
          order' = order @ [key];
          entries = AList.update key hits (rc_entries c)
      in case cache_evict (rc_capacity c) order' entries of
           (es, ks) \<Rightarrow> c\<lparr>rc_entries := es, rc_order := ks\<rparr>)"

definition cache_remove :: "RetrievalCacheKey \<Rightarrow> 'h RetrievalCache \<Rightarrow> 'h RetrievalCache" where
  "cache_remove key c =
     c\<lparr>rc_entries := AList.delete key (rc_entries c),
       rc_order := filter (\<lambda>existing. existing \<noteq> key) (rc_order c)\<rparr>"

fun merge_entries ::
  "('h list \<Rightarrow> 'h list \<Rightarrow> bool) \<Rightarrow> 'h RetrievalCache \<Rightarrow> 'h RetrievalCache \<Rightarrow>
     RetrievalCacheKey list \<Rightarrow> 'h RetrievalCache \<Rightarrow> 'h RetrievalCache" where
  "merge_entries hits_eq baseline other [] c = c"
| "merge_entries hits_eq baseline other (key # keys) c =
     (case cache_get other key of
        None \<Rightarrow> merge_entries hits_eq baseline other keys c
      | Some hits \<Rightarrow>
          if (case cache_get baseline key of Some base \<Rightarrow> hits_eq base hits | None \<Rightarrow> False)
          then merge_entries hits_eq baseline other keys c
          else merge_entries hits_eq baseline other keys (cache_insert key hits c))"

definition merge_delta_from ::
  "('h list \<Rightarrow> 'h list \<Rightarrow> bool) \<Rightarrow> 'h RetrievalCache \<Rightarrow> 'h RetrievalCache \<Rightarrow> 'h RetrievalCache \<Rightarrow>
     'h RetrievalCache" where
  "merge_delta_from hits_eq baseline other c =
     (let publication = rc_publication_identity other; base = rc_publication_identity baseline
      in if rc_publication_identity c \<noteq> base \<and> rc_publication_identity c \<noteq> publication then c
         else
           let c1 = (if rc_publication_identity c = base \<and> publication \<noteq> base
                     then (cache_clear c)\<lparr>rc_publication_identity := publication\<rparr> else c)
           in if rc_publication_identity c1 \<noteq> publication then c1
              else merge_entries hits_eq baseline other (rc_order other) c1)"

definition cache_len :: "'h RetrievalCache \<Rightarrow> nat" where
  "cache_len c = length (rc_entries c)"

definition cache_is_empty :: "'h RetrievalCache \<Rightarrow> bool" where
  "cache_is_empty c \<longleftrightarrow> rc_entries c = []"

section \<open>The cache as an insertion-ordered bounded list\<close>

text \<open>
  What the cache promises: a list of bindings, oldest first. Inserting moves the key to the
  young end and drops from the old end what exceeds the capacity.
\<close>

type_synonym 'h fifo = "(RetrievalCacheKey \<times> 'h list) list"

definition fifo_remove :: "RetrievalCacheKey \<Rightarrow> 'h fifo \<Rightarrow> 'h fifo" where
  "fifo_remove key xs = filter (\<lambda>b. fst b \<noteq> key) xs"

definition fifo_insert :: "nat \<Rightarrow> RetrievalCacheKey \<Rightarrow> 'h list \<Rightarrow> 'h fifo \<Rightarrow> 'h fifo" where
  "fifo_insert capacity key hits xs =
     (let ys = fifo_remove key xs @ [(key, hits)] in drop (length ys - capacity) ys)"

definition cache_view :: "'h RetrievalCache \<Rightarrow> 'h fifo" where
  "cache_view c = map (\<lambda>k. (k, the (map_of (rc_entries c) k))) (rc_order c)"

definition index_inv :: "RetrievalCacheKey list \<Rightarrow> (RetrievalCacheKey \<times> 'h list) list \<Rightarrow> bool" where
  "index_inv order entries \<longleftrightarrow>
     distinct order \<and> distinct (map fst entries) \<and> set order = set (map fst entries)"

definition cache_inv :: "'h RetrievalCache \<Rightarrow> bool" where
  "cache_inv c \<longleftrightarrow> index_inv (rc_order c) (rc_entries c) \<and> length (rc_entries c) \<le> rc_capacity c
     \<and> 0 < rc_capacity c"

lemma index_inv_length: "index_inv order entries \<Longrightarrow> length entries = length order"
  unfolding index_inv_def by (metis distinct_card length_map)

lemma index_inv_delete_head: "index_inv (k # ks) entries \<Longrightarrow> index_inv ks (AList.delete k entries)"
  unfolding index_inv_def AList.delete_keys set_removeAll by (auto simp: distinct_removeAll simp del: set_map)

lemma index_inv_remove:
  "index_inv order entries \<Longrightarrow> index_inv (filter (\<lambda>x. x \<noteq> k) order) (AList.delete k entries)"
  unfolding index_inv_def AList.delete_keys set_removeAll by (auto simp: distinct_removeAll simp del: set_map)

lemma index_inv_update:
  assumes "index_inv order entries"
  shows "index_inv (filter (\<lambda>x. x \<noteq> k) order @ [k]) (AList.update k v entries)"
  using assms unfolding index_inv_def AList.update_keys by (auto simp del: set_map)

text \<open>The loop stops with exactly the youngest \<open>capacity\<close> keys, each with its binding.\<close>

lemma cache_evict_correct:
  assumes "index_inv order entries" and "cache_evict capacity order entries = (es, ks)"
  shows "ks = drop (length order - capacity) order \<and> index_inv ks es
     \<and> (\<forall>k \<in> set ks. map_of es k = map_of entries k)"
  using assms
proof (induction capacity order entries rule: cache_evict.induct)
  case (2 capacity k ks' entries)
  note len = index_inv_length [OF "2.prems"(1)]
  show ?case
  proof (cases "capacity < length entries")
    case True
    then have ih: "ks = drop (length ks' - capacity) ks' \<and> index_inv ks es
        \<and> (\<forall>x \<in> set ks. map_of es x = map_of (AList.delete k entries) x)"
      using "2.prems"(2) by (intro "2.IH" index_inv_delete_head [OF "2.prems"(1)]) simp_all
    have "Suc (length ks') - capacity = Suc (length ks' - capacity)" using True len by simp
    moreover have "k \<notin> set ks"
      using "2.prems"(1) ih set_drop_subset [of "length ks' - capacity" ks'] by (auto simp: index_inv_def)
    ultimately show ?thesis using ih by (auto simp: AList.delete_conv)
  next
    case False
    with len "2.prems" show ?thesis by auto
  qed
qed (auto simp: index_inv_def)

lemma cache_insert_state:
  assumes "cache_inv c"
  obtains es ks where "cache_insert k hits c = c\<lparr>rc_entries := es, rc_order := ks\<rparr>" "index_inv ks es"
    "ks = drop (length (filter (\<lambda>x. x \<noteq> k) (rc_order c) @ [k]) - rc_capacity c) (filter (\<lambda>x. x \<noteq> k) (rc_order c) @ [k])"
    "\<forall>x \<in> set ks. map_of es x = (if x = k then Some hits else map_of (rc_entries c) x)"
proof -
  let ?order = "filter (\<lambda>x. x \<noteq> k) (rc_order c) @ [k]"
  let ?entries = "AList.update k hits (rc_entries c)"
  from assms have inv: "index_inv (rc_order c) (rc_entries c)" by (simp add: cache_inv_def)
  then have "cache_get c k = None \<Longrightarrow> filter (\<lambda>x. x \<noteq> k) (rc_order c) = rc_order c"
    by (auto simp: cache_get_def index_inv_def map_of_eq_None_iff filter_id_conv)
  then have order: "(if cache_get c k \<noteq> None then filter (\<lambda>x. x \<noteq> k) (rc_order c) else rc_order c) = filter (\<lambda>x. x \<noteq> k) (rc_order c)"
    by simp
  obtain es ks where ev: "cache_evict (rc_capacity c) ?order ?entries = (es, ks)" by fastforce
  from cache_evict_correct [OF index_inv_update [OF inv] ev] ev order show ?thesis
    by (intro that) (auto simp: cache_insert_def Let_def AList.update_conv)
qed

lemma fifo_remove_view: "fifo_remove k (cache_view c) = map (\<lambda>x. (x, the (map_of (rc_entries c) x))) (filter (\<lambda>x. x \<noteq> k) (rc_order c))"
  by (simp add: fifo_remove_def cache_view_def filter_map o_def)

lemma cache_insert_inv: "cache_inv c \<Longrightarrow> cache_inv (cache_insert k hits c)"
  by (rule cache_insert_state [of c k hits]) (auto simp: cache_inv_def index_inv_length)

lemma cache_insert_view:
  assumes "cache_inv c"
  shows "cache_view (cache_insert k hits c) = fifo_insert (rc_capacity c) k hits (cache_view c)"
proof (rule cache_insert_state [OF assms, of k hits])
  fix es ks
  let ?order = "filter (\<lambda>x. x \<noteq> k) (rc_order c)"
  let ?b = "\<lambda>x. (x, if x = k then hits else the (map_of (rc_entries c) x))"
  assume c: "cache_insert k hits c = c\<lparr>rc_entries := es, rc_order := ks\<rparr>"
    and ks: "ks = drop (length (?order @ [k]) - rc_capacity c) (?order @ [k])"
    and es: "\<forall>x \<in> set ks. map_of es x = (if x = k then Some hits else map_of (rc_entries c) x)"
  have "cache_view (cache_insert k hits c) = map ?b ks"
    unfolding c cache_view_def using es by auto
  also have "\<dots> = drop (length (?order @ [k]) - rc_capacity c) (map ?b (?order @ [k]))"
    by (simp only: ks drop_map)
  also have "map ?b (?order @ [k]) = fifo_remove k (cache_view c) @ [(k, hits)]"
    by (simp add: fifo_remove_view)
  finally show ?thesis by (simp add: fifo_insert_def Let_def fifo_remove_view)
qed

lemma cache_remove_inv: "cache_inv c \<Longrightarrow> cache_inv (cache_remove k c)"
  using AList.length_delete_le [of k "rc_entries c"] by (auto simp: cache_inv_def cache_remove_def index_inv_remove)

lemma cache_remove_view: "cache_view (cache_remove k c) = fifo_remove k (cache_view c)"
  by (simp add: fifo_remove_view) (simp add: cache_view_def cache_remove_def)

lemma cache_get_view:
  assumes "cache_inv c"
  shows "cache_get c k = map_of (cache_view c) k"
proof -
  have "k \<in> set (rc_order c) \<longleftrightarrow> map_of (rc_entries c) k \<noteq> None"
    using assms by (simp add: cache_inv_def index_inv_def map_of_eq_None_iff)
  then show ?thesis
    by (auto simp: cache_get_def cache_view_def map_of_map_restrict restrict_map_def)
qed

section \<open>Publication scoping\<close>

text \<open>Every key of a cache carries the publication the cache is scoped to.\<close>

definition key_publication :: "RetrievalCacheKey \<Rightarrow> string option \<times> string option" where
  "key_publication k = (ky_core_generation_id k, ky_core_run_id k)"

definition publication_key :: "(string \<times> string) option \<Rightarrow> string option \<times> string option" where
  "publication_key p = (case p of None \<Rightarrow> (None, None) | Some (g, r) \<Rightarrow> (Some g, Some r))"

definition scoped :: "'h RetrievalCache \<Rightarrow> bool" where
  "scoped c \<longleftrightarrow> (\<forall>k. cache_get c k \<noteq> None \<longrightarrow> key_publication k = publication_key (rc_publication_identity c))"

lemma key_for_manifest_publication:
  "key_publication (key_for_manifest c m q) = publication_key (rc_publication_identity c)"
  by (simp add: key_for_manifest_def key_publication_def publication_key_def from_manifest_def Let_def split: option.split prod.split)

lemma publication_key_inj: "publication_key p = publication_key p' \<Longrightarrow> p = p'"
  by (auto simp: publication_key_def split: option.splits prod.splits)

lemma cache_insert_frame [simp]:
  "rc_publication_identity (cache_insert k hits c) = rc_publication_identity c"
  "rc_capacity (cache_insert k hits c) = rc_capacity c"
  by (simp_all add: cache_insert_def Let_def split: prod.split)

lemma map_of_fifo_remove: "map_of (fifo_remove k xs) x = (if x = k then None else map_of xs x)"
  by (induction xs) (auto simp: fifo_remove_def)

lemma map_of_drop_dom: "map_of (drop n xs) x \<noteq> None \<Longrightarrow> map_of xs x \<noteq> None"
  by (auto simp: map_of_eq_None_iff dest: in_set_dropD)

lemma cache_insert_get_dom:
  assumes "cache_inv c" and "cache_get (cache_insert k hits c) x \<noteq> None"
  shows "x = k \<or> cache_get c x \<noteq> None"
proof -
  from assms have "map_of (fifo_insert (rc_capacity c) k hits (cache_view c)) x \<noteq> None"
    by (simp add: cache_get_view cache_insert_inv cache_insert_view)
  then have "map_of (fifo_remove k (cache_view c) @ [(k, hits)]) x \<noteq> None"
    unfolding fifo_insert_def Let_def by (rule map_of_drop_dom)
  with assms(1) show ?thesis
    by (auto simp: map_add_def map_of_fifo_remove cache_get_view split: if_splits option.splits)
qed

lemma cache_insert_scoped:
  assumes "cache_inv c" "scoped c" "key_publication k = publication_key (rc_publication_identity c)"
  shows "scoped (cache_insert k hits c)"
  using assms(2,3) cache_insert_get_dom [OF assms(1), of k hits] unfolding scoped_def cache_insert_frame by blast

definition cache_ok :: "'h RetrievalCache \<Rightarrow> bool" where
  "cache_ok c \<longleftrightarrow> cache_inv c \<and> scoped c"

lemma cache_ok_cleared:
  "cache_ok c \<Longrightarrow> cache_ok ((cache_clear c)\<lparr>rc_publication_identity := p\<rparr>)"
  by (simp add: cache_ok_def cache_inv_def index_inv_def scoped_def cache_clear_def cache_get_def)

lemma cache_ok_remove: "cache_ok c \<Longrightarrow> cache_ok (cache_remove k c)"
  using cache_remove_inv [of c k]
  by (auto simp: cache_ok_def scoped_def cache_get_def cache_remove_def AList.delete_conv split: if_splits)

lemma merge_entries_ok:
  assumes "cache_ok c" "cache_ok other" "rc_publication_identity c = rc_publication_identity other"
  shows "cache_ok (merge_entries eq baseline other keys c)
     \<and> rc_publication_identity (merge_entries eq baseline other keys c) = rc_publication_identity c
     \<and> rc_capacity (merge_entries eq baseline other keys c) = rc_capacity c"
  using assms
proof (induction eq baseline other keys c rule: merge_entries.induct)
  case (2 eq baseline other key keys c)
  show ?case
  proof (cases "cache_get other key")
    case None
    with 2 show ?thesis by simp
  next
    case (Some hits)
    with "2.prems" have "key_publication key = publication_key (rc_publication_identity c)"
      by (simp add: cache_ok_def scoped_def)
    with "2.prems" have "cache_ok (cache_insert key hits c)"
      by (simp add: cache_ok_def cache_insert_inv cache_insert_scoped)
    with Some 2 show ?thesis by simp
  qed
qed simp

lemma merge_delta_ok:
  assumes "cache_ok c" "cache_ok other"
  shows "cache_ok (merge_delta_from eq baseline other c)"
  using assms merge_entries_ok [of _ other eq baseline] cache_ok_cleared [OF assms(1)]
  by (auto simp: merge_delta_from_def Let_def)

datatype 'h cache_op =
    CacheScope RetrievalPublicationIdentity
  | CacheInsert RetrievalIndexManifest string "'h list"
  | CacheRemove RetrievalCacheKey
  | CacheClear

text \<open>The cache as its clients drive it: keys come from \<^verbatim>\<open>key_for_manifest\<close> of the same cache.\<close>

fun cache_step :: "'h cache_op \<Rightarrow> 'h RetrievalCache \<Rightarrow> 'h RetrievalCache" where
  "cache_step (CacheScope i) c = scope_to_publication i c"
| "cache_step (CacheInsert m q hits) c = cache_insert (key_for_manifest c m q) hits c"
| "cache_step (CacheRemove k) c = cache_remove k c"
| "cache_step CacheClear c = cache_clear c"

lemma cache_step_ok: "cache_ok c \<Longrightarrow> cache_ok (cache_step op c)"
proof (cases op)
  case (CacheScope i)
  assume "cache_ok c"
  with CacheScope show ?thesis
    by (auto simp: scope_to_publication_def Let_def intro: cache_ok_cleared)
next
  case (CacheInsert m q hits)
  assume "cache_ok c"
  with CacheInsert show ?thesis
    by (simp add: cache_ok_def cache_insert_inv cache_insert_scoped key_for_manifest_publication)
next
  case (CacheRemove k)
  assume "cache_ok c"
  with CacheRemove show ?thesis by (simp add: cache_ok_remove)
next
  case CacheClear
  assume "cache_ok c"
  with CacheClear cache_ok_cleared [of c None] show ?thesis by (simp add: cache_clear_def)
qed

interpretation cache: machine cache_step cache_ok
  by unfold_locales (rule cache_step_ok)

lemma cache_ok_with_capacity: "cache_ok (with_capacity n)"
  by (simp add: cache_ok_def cache_inv_def index_inv_def scoped_def with_capacity_def cache_get_def)

section \<open>Properties\<close>

text \<open>C11: the hash map with its deque implements an insertion-ordered bounded list: inserting moves
  the key to the young end and drops the oldest bindings beyond the capacity, removing drops the
  binding, and a lookup reads that list; the two structures never disagree.\<close>

theorem cache_refines_fifo:
  assumes "cache_inv c"
  shows "cache_inv (cache_insert k hits c) \<and> cache_inv (cache_remove k c)
     \<and> cache_view (cache_insert k hits c) = fifo_insert (rc_capacity c) k hits (cache_view c)
     \<and> cache_view (cache_remove k c) = fifo_remove k (cache_view c)
     \<and> cache_get c x = map_of (cache_view c) x \<and> cache_len c = length (cache_view c)"
  using assms cache_insert_inv [OF assms] cache_remove_inv [OF assms] cache_insert_view [OF assms]
    cache_get_view [OF assms]
  by (simp add: cache_remove_view) (simp add: cache_len_def cache_view_def cache_inv_def index_inv_length)

lemma cache_insert_get:
  assumes "cache_inv c"
  shows "cache_get (cache_insert k hits c) k = Some hits"
proof -
  let ?ys = "fifo_remove k (cache_view c)"
  from assms have pos: "0 < rc_capacity c" by (simp add: cache_inv_def)
  then have "drop (length (?ys @ [(k, hits)]) - rc_capacity c) (?ys @ [(k, hits)])
      = drop (Suc (length ?ys) - rc_capacity c) ?ys @ [(k, hits)]" by simp
  moreover have "map_of (drop n ?ys) k = None" for n
    using map_of_drop_dom [of n ?ys k] map_of_fifo_remove [of k "cache_view c" k] by metis
  ultimately show ?thesis
    using assms
    by (simp add: cache_get_view cache_insert_inv cache_insert_view fifo_insert_def Let_def map_add_def)
qed

text \<open>Every operation of a client keeps a cache within its capacity, an inserted result is found
  again, and whatever a lookup by manifest finds was stored under the publication the cache is
  scoped to now.\<close>

theorem cache_run_scoped:
  "(let c = fold cache_step ops (with_capacity n) in
     cache_len c \<le> max n 1
     \<and> cache_get (cache_insert k hits c) k = Some hits
     \<and> (cache_get c k \<noteq> None \<longrightarrow> key_publication k = publication_key (rc_publication_identity c)))"
proof -
  let ?c = "fold cache_step ops (with_capacity n)"
  have ok: "cache_ok ?c" by (rule cache.run_inv [OF cache_ok_with_capacity])
  have "rc_capacity (cache_step op c) = rc_capacity c" for op and c :: "'a RetrievalCache"
    by (cases op) (simp_all add: scope_to_publication_def cache_clear_def cache_remove_def Let_def)
  then have "rc_capacity (fold cache_step ops c) = rc_capacity c" for c :: "'a RetrievalCache"
    by (induction ops arbitrary: c) simp_all
  then have "rc_capacity ?c = max n 1" by (simp add: with_capacity_def)
  with ok show ?thesis
    by (auto simp: cache_ok_def cache_insert_get scoped_def) (simp add: cache_inv_def cache_len_def)
qed

text \<open>Merging the delta of a forked cache never mixes publications: the result is again scoped
  to one publication, the other's or its own, and nothing of it exceeds its capacity.\<close>

theorem merge_never_mixes_publications:
  assumes "cache_ok c" and "cache_ok other"
  shows "cache_ok (merge_delta_from hits_eq baseline other c)
     \<and> rc_publication_identity (merge_delta_from hits_eq baseline other c)
         \<in> {rc_publication_identity c, rc_publication_identity other}"
  using merge_delta_ok [OF assms, of hits_eq baseline] assms
    merge_entries_ok [of _ other hits_eq baseline] cache_ok_cleared [OF assms(1)]
  by (auto simp: merge_delta_from_def Let_def)

definition sample_manifest :: "string \<Rightarrow> RetrievalIndexManifest" where
  "sample_manifest project =
     \<lparr>mf_project_id = project, mf_lexical_version = ''1'', mf_semantic_generation = ''1'',
      mf_scip_revision = None, mf_sidecar_generation = None, mf_sidecar_input_hash = None,
      mf_sidecar_schema_version = None, mf_projection_count = None\<rparr>"

definition sample_cache :: "nat RetrievalCache" where
  "sample_cache = cache_insert (from_manifest (sample_manifest ''a'') ''q'') [1] (with_capacity 1)"

lemma sample_cache_ok: "cache_ok sample_cache"
  using cache_step_ok [OF cache_ok_with_capacity, of "CacheInsert (sample_manifest ''a'') ''q'' [1 :: nat]" 1]
  by (simp add: sample_cache_def key_for_manifest_def with_capacity_def Let_def)

theorem cache_refines_fifo_witness:
  "cache_view (cache_insert (from_manifest (sample_manifest ''b'') ''q'') [2] sample_cache)
     = [(from_manifest (sample_manifest ''b'') ''q'', [2])]"
  using cache_refines_fifo [of sample_cache "from_manifest (sample_manifest ''b'') ''q''" "[2]"] sample_cache_ok
  by (simp add: cache_ok_def)
    (simp add: sample_cache_def cache_insert_def with_capacity_def cache_view_def cache_get_def fifo_insert_def
      fifo_remove_def from_manifest_def sample_manifest_def)

theorem cache_run_scoped_witness:
  "key_publication (from_manifest (sample_manifest ''a'') ''q'') = publication_key None"
  using cache_run_scoped [of "[CacheInsert (sample_manifest ''a'') ''q'' [1 :: nat]]" 1 "from_manifest (sample_manifest ''a'') ''q''" "[]"]
  by (simp add: Let_def cache_insert_def key_for_manifest_def with_capacity_def cache_get_def)

theorem merge_never_mixes_publications_witness:
  "cache_ok (merge_delta_from (=) (with_capacity 1) sample_cache (with_capacity 1))"
  using merge_never_mixes_publications [OF cache_ok_with_capacity sample_cache_ok] by blast

end
