(* ===== verification/Trail.thy ===== *)
theory Trail
  imports Graph_Contracts
begin

text \<open>
  Trails: breadth-first exploration of the stored graph,
  \<^verbatim>\<open>codestory-store/src/storage_impl/trail.rs\<close> and its helpers in
  \<^verbatim>\<open>storage_impl/mod.rs\<close>.

  SQLite is the parameter \<open>Storage\<close>: a node lookup that may fail, and for a direction and a node
  the rows of the edge query, in order, each of which may fail while it is read. A row carries
  the edge, the serialized name of its target and the path of the caller's file. Nothing is
  assumed of the rows: the code filters them itself.

  Hash maps of distances are association lists in insertion order; their iteration order is
  only used to build sets and lists that are sorted by a total key afterwards. \<^verbatim>\<open>usize\<close> and
  \<^verbatim>\<open>u32\<close> are natural numbers with the code's saturation written out.
\<close>

section \<open>Rows and filters\<close>

datatype StorageError =
    Sqlite string
  | InvalidBatchLimit string
  | BuildModeRequired string
  | BuildEdgeSeedBatchTooLarge string nat nat
  | ResolutionSupportSnapshotTooBig
  | EnumConversion EnumConversionError
  | OtherStorageError string

record EdgeRow =
  rw_edge :: Edge
  rw_target_symbol :: string
  rw_caller_file_path :: "string option"

record Storage =
  get_node :: "NodeId \<Rightarrow> StorageError + Node option"
  edge_rows :: "TrailDirection \<Rightarrow> NodeId \<Rightarrow> StorageError + (StorageError + EdgeRow) list"

text \<open>The condition of the edge query on the stored columns.\<close>

definition where_clause :: "TrailDirection \<Rightarrow> NodeId \<Rightarrow> Edge \<Rightarrow> bool" where
  "where_clause direction n e =
     (case direction of
        Outgoing \<Rightarrow> ed_source e = n \<or> ed_resolved_source e = Some n
      | Incoming \<Rightarrow> ed_target e = n \<or> ed_resolved_target e = Some n
      | Both \<Rightarrow> ed_source e = n \<or> ed_target e = n \<or> ed_resolved_source e = Some n \<or> ed_resolved_target e = Some n)"

definition neighbor_for_direction :: "NodeId \<Rightarrow> TrailDirection \<Rightarrow> Edge \<Rightarrow> NodeId option" where
  "neighbor_for_direction current_id direction e =
     (let s = effective_source e; t = effective_target e
      in case direction of
           Outgoing \<Rightarrow>
             if s = current_id then Some t
             else if ed_source e = current_id then Some (ed_target e) else None
         | Incoming \<Rightarrow>
             if t = current_id then Some s
             else if ed_target e = current_id then Some (ed_source e) else None
         | Both \<Rightarrow>
             if s = current_id then Some t
             else if t = current_id then Some s
             else if ed_source e = current_id then Some (ed_target e)
             else if ed_target e = current_id then Some (ed_source e) else None)"

definition is_test_or_bench_path :: "string \<Rightarrow> bool" where
  "is_test_or_bench_path path =
     (let n = to_ascii_lowercase (replace_str [CHR 0x5C] ''/'' path)
      in starts_with n ''tests/'' \<or> starts_with n ''test/'' \<or> starts_with n ''benches/''
       \<or> starts_with n ''bench/'' \<or> starts_with n ''__tests__/'' \<or> starts_with n ''__test__/''
       \<or> contains_str n ''/tests/'' \<or> contains_str n ''/test/'' \<or> contains_str n ''/__tests__/''
       \<or> contains_str n ''/__test__/'' \<or> contains_str n ''/benches/'' \<or> contains_str n ''/bench/''
       \<or> ends_with n ''_test.rs'' \<or> contains_str n ''.test.'' \<or> contains_str n ''.spec.'')"

definition is_caller_scope_allowed :: "TrailCallerScope \<Rightarrow> string option \<Rightarrow> bool" where
  "is_caller_scope_allowed scope caller_file_path =
     (case scope of
        IncludeTestsAndBenches \<Rightarrow> True
      | ProductionOnly \<Rightarrow> (case caller_file_path of Some path \<Rightarrow> \<not> is_test_or_bench_path path | None \<Rightarrow> True))"

definition is_indexer_helper_call :: "string \<Rightarrow> bool" where
  "is_indexer_helper_call name \<longleftrightarrow>
     contains_str name ''seed_symbol_table'' \<or> contains_str name ''flush_projection_batch''
     \<or> contains_str name ''flush_errors''"

definition COMMON_CALL_NAMES :: "string list" where
  "COMMON_CALL_NAMES =
     [''add'', ''all'', ''any'', ''append'', ''clear'', ''collect'', ''contains'', ''dedup'', ''extend'',
      ''filter'', ''insert'', ''into_iter'', ''iter'', ''iter_mut'', ''len'', ''map'', ''pop'', ''push'',
      ''remove'', ''retain'', ''sort'', ''sort_by'', ''sort_by_key'', ''truncate'']"

definition is_common_unqualified_call_name :: "string \<Rightarrow> bool" where
  "is_common_unqualified_call_name name =
     (if contains_str name ''::'' \<or> contains_str name ''.'' then False
      else List.member COMMON_CALL_NAMES name)"

definition should_ignore_call_resolution ::
  "string \<Rightarrow> ResolutionCertainty option \<Rightarrow> f32 option \<Rightarrow> bool" where
  "should_ignore_call_resolution target_symbol certainty confidence =
     (if is_indexer_helper_call target_symbol then False
      else case (case certainty of Some c \<Rightarrow> Some c | None \<Rightarrow> from_confidence confidence) of
             None \<Rightarrow> False
           | Some c \<Rightarrow>
               if c = Uncertain then True
               else if is_common_unqualified_call_name target_symbol \<and> c \<noteq> Certain then True
               else False)"

section \<open>Edges of a node\<close>

record EdgeFetchResult =
  ef_edges :: "Edge list"
  ef_truncated :: bool

text \<open>The edge of a row after a weak call resolution is dropped.\<close>

definition row_edge :: "EdgeRow \<Rightarrow> Edge" where
  "row_edge r =
     (let e = rw_edge r
      in if ed_kind e = EK_CALL \<and> ed_resolved_target e \<noteq> None
            \<and> should_ignore_call_resolution (rw_target_symbol r) (ed_certainty e) (ed_confidence e)
         then e\<lparr>ed_resolved_target := None, ed_confidence := None, ed_certainty := None\<rparr> else e)"

definition row_selected ::
  "NodeId \<Rightarrow> TrailDirection \<Rightarrow> EdgeKind list \<Rightarrow> TrailCallerScope \<Rightarrow> bool \<Rightarrow> EdgeRow \<Rightarrow> bool" where
  "row_selected node_id direction edge_filter caller_scope show_utility_calls r =
     (let e = row_edge r
      in if ed_kind e = EK_CALL \<and> \<not> show_utility_calls \<and> is_common_unqualified_call_name (rw_target_symbol r)
         then False
         else if \<not> is_caller_scope_allowed caller_scope (rw_caller_file_path r) then False
         else if edge_filter \<noteq> [] \<and> \<not> List.member edge_filter (ed_kind e) then False
         else case direction of
                Outgoing \<Rightarrow> effective_source e = node_id
              | Incoming \<Rightarrow> effective_target e = node_id
              | Both \<Rightarrow> effective_source e = node_id \<or> effective_target e = node_id)"

fun fetch_rows ::
  "(EdgeRow \<Rightarrow> bool) \<Rightarrow> nat option \<Rightarrow> (StorageError + EdgeRow) list \<Rightarrow> Edge list \<Rightarrow> StorageError + EdgeFetchResult" where
  "fetch_rows sel budget [] edges = Inr \<lparr>ef_edges = edges, ef_truncated = False\<rparr>"
| "fetch_rows sel budget (Inl err # rows) edges = Inl err"
| "fetch_rows sel budget (Inr r # rows) edges =
     (if sel r then
        let edges' = edges @ [row_edge r]
        in if (case budget of Some b \<Rightarrow> length edges' \<ge> b | None \<Rightarrow> False)
           then Inr \<lparr>ef_edges = edges', ef_truncated = True\<rparr>
           else fetch_rows sel budget rows edges'
      else fetch_rows sel budget rows edges)"

definition get_edges_for_node_limited ::
  "Storage \<Rightarrow> NodeId \<Rightarrow> TrailDirection \<Rightarrow> EdgeKind list \<Rightarrow> TrailCallerScope \<Rightarrow> bool \<Rightarrow> nat option \<Rightarrow>
     StorageError + EdgeFetchResult" where
  "get_edges_for_node_limited st node_id direction edge_filter caller_scope show_utility_calls edge_budget =
     (if edge_budget = Some 0 then Inr \<lparr>ef_edges = [], ef_truncated = True\<rparr>
      else case edge_rows st direction node_id of
             Inl err \<Rightarrow> Inl err
           | Inr rows \<Rightarrow>
               fetch_rows (row_selected node_id direction edge_filter caller_scope show_utility_calls)
                 edge_budget rows [])"

definition get_edges_for_node ::
  "Storage \<Rightarrow> NodeId \<Rightarrow> TrailDirection \<Rightarrow> EdgeKind list \<Rightarrow> TrailCallerScope \<Rightarrow> bool \<Rightarrow> StorageError + Edge list" where
  "get_edges_for_node st node_id direction edge_filter caller_scope show_utility_calls =
     (case get_edges_for_node_limited st node_id direction edge_filter caller_scope show_utility_calls None of
        Inl err \<Rightarrow> Inl err | Inr f \<Rightarrow> Inr (ef_edges f))"

definition get_edges_for_node_id :: "Storage \<Rightarrow> NodeId \<Rightarrow> StorageError + Edge list" where
  "get_edges_for_node_id st node_id = get_edges_for_node st node_id Both [] IncludeTestsAndBenches True"

section \<open>Filtering a result\<close>

definition apply_trail_node_filter :: "TrailConfig \<Rightarrow> TrailResult \<Rightarrow> TrailResult" where
  "apply_trail_node_filter config result =
     (if tc_node_filter config = [] then result
      else
        let allowed = (\<lambda>id. (\<exists>n \<in> set (tr_nodes result). List.member (tc_node_filter config) (nd_kind n) \<and> nd_id n = id)
              \<or> id = tc_root_id config \<or> tc_target_id config = Some id)
        in result\<lparr>tr_nodes := filter (\<lambda>n. allowed (nd_id n)) (tr_nodes result),
             tr_edges := filter (\<lambda>e. allowed (effective_source e) \<and> allowed (effective_target e)) (tr_edges result),
             tr_depth_map := (\<lambda>id. if allowed id then tr_depth_map result id else None)\<rparr>)"

text \<open>The last loop of both searches: edges between selected nodes stay, the others are counted.\<close>

definition retain_selected_edges :: "TrailResult \<Rightarrow> TrailResult" where
  "retain_selected_edges result =
     (let selected = set (map nd_id (tr_nodes result));
          keep = (\<lambda>e. effective_source e \<in> selected \<and> effective_target e \<in> selected)
      in result\<lparr>tr_edges := filter keep (tr_edges result),
           tr_omitted_edge_count := tr_omitted_edge_count result + length (filter (\<lambda>e. \<not> keep e) (tr_edges result))\<rparr>)"

section \<open>Neighbourhood search\<close>

definition trail_max_depth :: "TrailConfig \<Rightarrow> nat" where
  "trail_max_depth config = (if tc_depth config = 0 then u32_max else tc_depth config)"

definition trail_max_edges :: "TrailConfig \<Rightarrow> nat" where
  "trail_max_edges config = max (sat_mul64 (tc_max_nodes config) 3) 128"

definition trail_direction :: "TrailConfig \<Rightarrow> TrailDirection" where
  "trail_direction config =
     (case tc_mode config of AllReferenced \<Rightarrow> Outgoing | AllReferencing \<Rightarrow> Incoming | _ \<Rightarrow> tc_direction config)"

record bfs_state =
  bs_result :: TrailResult
  bs_visited :: "NodeId set"
  bs_queue :: "(NodeId \<times> nat) list"

text \<open>The \<^verbatim>\<open>for edge in edge_fetch.edges\<close> loop.\<close>

fun bfs_edges :: "nat \<Rightarrow> NodeId \<Rightarrow> TrailDirection \<Rightarrow> nat \<Rightarrow> Edge list \<Rightarrow> bfs_state \<Rightarrow> bfs_state" where
  "bfs_edges max_edges current_id direction depth [] s = s"
| "bfs_edges max_edges current_id direction depth (e # es) s =
     (if length (tr_edges (bs_result s)) \<ge> max_edges
      then s\<lparr>bs_result := (bs_result s)\<lparr>tr_truncated := True\<rparr>\<rparr>
      else
        let s1 = s\<lparr>bs_result := (bs_result s)\<lparr>tr_edges := tr_edges (bs_result s) @ [e]\<rparr>\<rparr>
        in case neighbor_for_direction current_id direction e of
             None \<Rightarrow> bfs_edges max_edges current_id direction depth es s1
           | Some neighbor_id \<Rightarrow>
               if neighbor_id \<notin> bs_visited s1
               then bfs_edges max_edges current_id direction depth es
                 (s1\<lparr>bs_visited := insert neighbor_id (bs_visited s1),
                     bs_result := (bs_result s1)\<lparr>tr_depth_map := (tr_depth_map (bs_result s1))(neighbor_id \<mapsto> depth + 1)\<rparr>,
                     bs_queue := bs_queue s1 @ [(neighbor_id, depth + 1)]\<rparr>)
               else bfs_edges max_edges current_id direction depth es s1)"

definition bfs_add_node :: "Node option \<Rightarrow> bfs_state \<Rightarrow> bfs_state" where
  "bfs_add_node node s =
     (case node of None \<Rightarrow> s
      | Some n \<Rightarrow> s\<lparr>bs_result := (bs_result s)\<lparr>tr_nodes := tr_nodes (bs_result s) @ [n]\<rparr>\<rparr>)"

definition bfs_truncate :: "bfs_state \<Rightarrow> bfs_state" where
  "bfs_truncate s = s\<lparr>bs_result := (bs_result s)\<lparr>tr_truncated := True\<rparr>\<rparr>"

text \<open>
  One pass of the \<^verbatim>\<open>while let\<close> loop on a popped entry: an error, or the new state and
  whether the loop goes on.
\<close>

definition bfs_visit ::
  "Storage \<Rightarrow> TrailConfig \<Rightarrow> NodeId \<Rightarrow> nat \<Rightarrow> bfs_state \<Rightarrow> StorageError + bfs_state \<times> bool" where
  "bfs_visit st config current_id depth s =
     (if length (tr_nodes (bs_result s)) \<ge> tc_max_nodes config then Inr (bfs_truncate s, False)
      else case get_node st current_id of
             Inl err \<Rightarrow> Inl err
           | Inr node \<Rightarrow>
               let s1 = bfs_add_node node s
               in if depth < trail_max_depth config then
                    let remaining_edges = sat_sub (trail_max_edges config) (length (tr_edges (bs_result s1)))
                    in if remaining_edges = 0 then Inr (bfs_truncate s1, False)
                       else case get_edges_for_node_limited st current_id (trail_direction config)
                                  (tc_edge_filter config) (tc_caller_scope config) (tc_show_utility_calls config)
                                  (Some remaining_edges) of
                              Inl err \<Rightarrow> Inl err
                            | Inr f \<Rightarrow>
                                let s2 = (if ef_truncated f then bfs_truncate s1 else s1);
                                    s3 = bfs_edges (trail_max_edges config) current_id (trail_direction config) depth (ef_edges f) s2
                                in Inr (s3, \<not> tr_truncated (bs_result s3))
                  else Inr (s1, True))"

text \<open>Termination of the search: a queued entry costs an edge, and edges are bounded.\<close>

definition bfs_measure :: "TrailConfig \<Rightarrow> bfs_state \<Rightarrow> nat" where
  "bfs_measure config s = length (bs_queue s) + (trail_max_edges config - length (tr_edges (bs_result s)))"

lemma bfs_edges_measure:
  "length (bs_queue (bfs_edges m c d n es s)) + (m - length (tr_edges (bs_result (bfs_edges m c d n es s))))
     \<le> length (bs_queue s) + (m - length (tr_edges (bs_result s)))"
proof (induction m c d n es s rule: bfs_edges.induct)
  case (2 m c d n e es s)
  show ?case
  proof (cases "m \<le> length (tr_edges (bs_result s))")
    case False
    then have "m - length (tr_edges (bs_result s)) = Suc (m - Suc (length (tr_edges (bs_result s))))" by simp
    with 2 False show ?thesis
      by (cases "neighbor_for_direction c d e") (fastforce simp: Let_def)+
  qed simp
qed simp

lemma bfs_visit_measure:
  "bfs_visit st config n depth s = Inr (s', b) \<Longrightarrow> bfs_measure config s' \<le> bfs_measure config s"
  using bfs_edges_measure
  by (auto simp: bfs_visit_def bfs_measure_def bfs_add_node_def bfs_truncate_def Let_def
      split: if_splits sum.splits option.splits) (fastforce intro: order_trans)+

function bfs_loop :: "Storage \<Rightarrow> TrailConfig \<Rightarrow> bfs_state \<Rightarrow> StorageError + bfs_state" where
  "bfs_loop st config s =
     (case bs_queue s of
        [] \<Rightarrow> Inr s
      | (current_id, depth) # queue \<Rightarrow>
          (case bfs_visit st config current_id depth (s\<lparr>bs_queue := queue\<rparr>) of
             Inl err \<Rightarrow> Inl err
           | Inr (s', True) \<Rightarrow> bfs_loop st config s'
           | Inr (s', False) \<Rightarrow> Inr s'))"
  by pat_completeness auto
termination
proof (relation "measure (\<lambda>(st, config, s). bfs_measure config s)", goal_cases)
  case (2 st config s entry queue current_id depth res s' b)
  then have "bfs_measure config s' \<le> bfs_measure config (s\<lparr>bs_queue := queue\<rparr>)"
    using bfs_visit_measure by blast
  also have "\<dots> < bfs_measure config s" using 2 by (simp add: bfs_measure_def)
  finally show ?case by simp
qed simp

declare bfs_loop.simps [simp del]

definition bfs_start :: "TrailConfig \<Rightarrow> bfs_state" where
  "bfs_start config =
     \<lparr>bs_result = TrailResult_default\<lparr>tr_depth_map := [tc_root_id config \<mapsto> 0]\<rparr>,
      bs_visited = {tc_root_id config}, bs_queue = [(tc_root_id config, 0)]\<rparr>"

definition get_trail_bfs :: "Storage \<Rightarrow> TrailConfig \<Rightarrow> StorageError + TrailResult" where
  "get_trail_bfs st config =
     (case bfs_loop st config (bfs_start config) of
        Inl err \<Rightarrow> Inl err
      | Inr s \<Rightarrow> Inr (retain_selected_edges (apply_trail_node_filter config (bs_result s))))"

section \<open>Distances\<close>

record BfsTraversalOptions =
  bo_edge_filter :: "EdgeKind list"
  bo_caller_scope :: TrailCallerScope
  bo_show_utility_calls :: bool
  bo_max_depth :: nat
  bo_max_nodes :: nat
  bo_max_edges_per_node :: nat

type_synonym distances = "(NodeId \<times> nat) list"

text \<open>
  The inner loop of both distance searches: \<open>candidate\<close> is the neighbour an edge offers, if it
  passes the checks before the map entry; a vacant entry is filled and queued.
\<close>

fun dist_edges ::
  "(Edge \<Rightarrow> NodeId option) \<Rightarrow> nat \<Rightarrow> Edge list \<Rightarrow> distances \<times> (NodeId \<times> nat) list \<Rightarrow>
     distances \<times> (NodeId \<times> nat) list" where
  "dist_edges candidate next_depth [] (dists, queue) = (dists, queue)"
| "dist_edges candidate next_depth (e # es) (dists, queue) =
     (case candidate e of
        None \<Rightarrow> dist_edges candidate next_depth es (dists, queue)
      | Some neighbor_id \<Rightarrow>
          (case map_of dists neighbor_id of
             None \<Rightarrow> dist_edges candidate next_depth es
               (dists @ [(neighbor_id, next_depth)], queue @ [(neighbor_id, next_depth)])
           | Some _ \<Rightarrow> dist_edges candidate next_depth es (dists, queue)))"

text \<open>Each discovered node lengthens the map and the queue together.\<close>

lemma dist_edges_append:
  "\<exists>new. dist_edges c d es (dists, queue) = (dists @ new, queue @ new)"
proof (induction es arbitrary: dists queue)
  case (Cons e es)
  show ?case
  proof (cases "\<exists>m. c e = Some m \<and> map_of dists m = None")
    case True
    then obtain m where "c e = Some m" "map_of dists m = None" by blast
    moreover obtain new where
      "dist_edges c d es (dists @ [(m, d)], queue @ [(m, d)]) = ((dists @ [(m, d)]) @ new, (queue @ [(m, d)]) @ new)"
      using Cons by blast
    ultimately show ?thesis by auto
  next
    case False
    then have "dist_edges c d (e # es) (dists, queue) = dist_edges c d es (dists, queue)"
      by (auto split: option.split)
    with Cons show ?thesis by metis
  qed
qed simp

function dist_loop ::
  "Storage \<Rightarrow> TrailDirection \<Rightarrow> (NodeId \<Rightarrow> nat \<Rightarrow> Edge \<Rightarrow> NodeId option) \<Rightarrow> BfsTraversalOptions \<Rightarrow>
     distances \<Rightarrow> (NodeId \<times> nat) list \<Rightarrow> bool \<Rightarrow> StorageError + distances \<times> bool" where
  "dist_loop st direction candidate opts dists [] truncated = Inr (dists, truncated)"
| "dist_loop st direction candidate opts dists ((current_id, depth) # queue) truncated =
     (if length dists \<ge> bo_max_nodes opts then Inr (dists, True)
      else if depth \<ge> bo_max_depth opts then dist_loop st direction candidate opts dists queue truncated
      else case get_edges_for_node_limited st current_id direction (bo_edge_filter opts)
                  (bo_caller_scope opts) (bo_show_utility_calls opts) (Some (bo_max_edges_per_node opts)) of
             Inl err \<Rightarrow> Inl err
           | Inr f \<Rightarrow>
               (case dist_edges (candidate current_id depth) (sat_add32 depth 1) (ef_edges f) (dists, queue) of
                  (dists', queue') \<Rightarrow>
                    dist_loop st direction candidate opts dists' queue' (truncated \<or> ef_truncated f)))"
  by pat_completeness auto
termination
proof (relation "measures [\<lambda>(st, direction, candidate, opts, dists, queue, truncated). bo_max_nodes opts - length dists,
    \<lambda>(st, direction, candidate, opts, dists, queue, truncated). length queue]", goal_cases)
  case (3 st direction candidate opts dists current_id depth queue truncated f dists' queue')
  obtain new where "dists' = dists @ new" "queue' = queue @ new"
    using dist_edges_append 3(4) by (metis prod.inject)
  with 3 show ?case by (cases new) auto
qed simp_all

declare dist_loop.simps [simp del]

definition bfs_distances ::
  "Storage \<Rightarrow> NodeId \<Rightarrow> TrailDirection \<Rightarrow> BfsTraversalOptions \<Rightarrow> StorageError + distances \<times> bool" where
  "bfs_distances st start direction opts =
     dist_loop st direction (\<lambda>current_id depth. neighbor_for_direction current_id direction) opts
       [(start, 0)] [(start, 0)] False"

definition to_target_candidate ::
  "distances \<Rightarrow> BfsTraversalOptions \<Rightarrow> NodeId \<Rightarrow> nat \<Rightarrow> Edge \<Rightarrow> NodeId option" where
  "to_target_candidate dist_from_root opts current_id depth e =
     (case neighbor_for_direction current_id Incoming e of
        None \<Rightarrow> None
      | Some neighbor_id \<Rightarrow>
          (case map_of dist_from_root neighbor_id of
             None \<Rightarrow> None
           | Some dist_root \<Rightarrow>
               if bo_max_depth opts \<noteq> u32_max \<and> dist_root + sat_add32 depth 1 > bo_max_depth opts
               then None else Some neighbor_id))"

definition bfs_distances_to_target_through_root_reachable ::
  "Storage \<Rightarrow> NodeId \<Rightarrow> distances \<Rightarrow> BfsTraversalOptions \<Rightarrow> StorageError + distances \<times> bool" where
  "bfs_distances_to_target_through_root_reachable st target_id dist_from_root opts =
     dist_loop st Incoming (to_target_candidate dist_from_root opts) opts [(target_id, 0)] [(target_id, 0)] False"

section \<open>Paths to a target\<close>

text \<open>
  The checks shared by the path loop and the edge loop: a path of \<open>d_root + 1 + d_to\<close> steps
  fits the depth limit, where \<^verbatim>\<open>u32::MAX\<close> stands for no limit.
\<close>

definition fits_depth :: "nat \<Rightarrow> nat \<Rightarrow> bool" where
  "fits_depth max_depth len \<longleftrightarrow> \<not> (max_depth \<noteq> u32_max \<and> len > max_depth)"

text \<open>The scan for the best next node: smallest distance to the target, then smallest id.\<close>

definition path_candidate ::
  "nat \<Rightarrow> distances \<Rightarrow> distances \<Rightarrow> NodeId set \<Rightarrow> NodeId \<Rightarrow> nat \<Rightarrow> Edge \<Rightarrow> (nat \<times> NodeId) option" where
  "path_candidate max_depth from_root to_target included current d_cur e =
     (if effective_source e \<noteq> current then None
      else let nxt = effective_target e
        in case map_of from_root nxt of
             None \<Rightarrow> None
           | Some d_next \<Rightarrow>
               if d_next \<noteq> sat_add32 d_cur 1 then None
               else case map_of to_target nxt of
                      None \<Rightarrow> None
                    | Some d_to \<Rightarrow>
                        if \<not> fits_depth max_depth (d_cur + 1 + d_to) then None
                        else if nxt \<notin> included then None
                        else Some (d_to, nxt))"

definition key_less :: "nat \<times> NodeId \<Rightarrow> nat \<times> NodeId \<Rightarrow> bool" where
  "key_less a b \<longleftrightarrow> fst a < fst b \<or> fst a = fst b \<and> snd a < snd b"

fun path_best :: "(Edge \<Rightarrow> (nat \<times> NodeId) option) \<Rightarrow> Edge list \<Rightarrow> (nat \<times> NodeId) option \<Rightarrow> (nat \<times> NodeId) option" where
  "path_best cand [] best = best"
| "path_best cand (e # es) best =
     (case cand e of
        None \<Rightarrow> path_best cand es best
      | Some key \<Rightarrow>
          path_best cand es
            (case best of None \<Rightarrow> Some key | Some k \<Rightarrow> if key_less key k then Some key else best))"

text \<open>The path loop has no bound of its own, so that not returning is the value \<open>None\<close>.\<close>

partial_function (option) path_loop ::
  "Storage \<Rightarrow> TrailConfig \<Rightarrow> BfsTraversalOptions \<Rightarrow> distances \<Rightarrow> distances \<Rightarrow> NodeId set \<Rightarrow> NodeId \<Rightarrow>
     NodeId \<Rightarrow> NodeId list \<Rightarrow> bool \<Rightarrow> (StorageError + NodeId list \<times> bool) option" where
  "path_loop st config opts from_root to_target included target_id current path_nodes truncated =
     (if current = target_id then Some (Inr (path_nodes, truncated))
      else case map_of from_root current of
             None \<Rightarrow> Some (Inr (path_nodes, truncated))
           | Some d_cur \<Rightarrow>
               (case get_edges_for_node_limited st current Outgoing (tc_edge_filter config)
                       (tc_caller_scope config) (tc_show_utility_calls config) (Some (bo_max_edges_per_node opts)) of
                  Inl err \<Rightarrow> Some (Inl err)
                | Inr f \<Rightarrow>
                    (case path_best (path_candidate (bo_max_depth opts) from_root to_target included current d_cur)
                            (ef_edges f) None of
                       None \<Rightarrow> Some (Inr (path_nodes, truncated \<or> ef_truncated f))
                     | Some key \<Rightarrow>
                         path_loop st config opts from_root to_target included target_id (snd key)
                           (path_nodes @ [snd key]) (truncated \<or> ef_truncated f))))"

declare path_loop.simps [code]

definition push_unique :: "NodeId list \<times> NodeId set \<Rightarrow> NodeId \<Rightarrow> NodeId list \<times> NodeId set" where
  "push_unique sel nid =
     (case sel of (selected, selected_set) \<Rightarrow>
        if nid \<in> selected_set then (selected, selected_set) else (selected @ [nid], insert nid selected_set))"

fun fill_selected :: "nat \<Rightarrow> NodeId list \<Rightarrow> NodeId list \<times> NodeId set \<Rightarrow> NodeId list \<times> NodeId set" where
  "fill_selected max_nodes [] sel = sel"
| "fill_selected max_nodes (nid # ids) sel =
     (if length (fst sel) \<ge> max_nodes then sel else fill_selected max_nodes ids (push_unique sel nid))"

definition dist_or :: "nat \<Rightarrow> distances \<Rightarrow> NodeId \<Rightarrow> nat" where
  "dist_or fallback m n = (case map_of m n of Some d \<Rightarrow> d | None \<Rightarrow> fallback)"

definition other_cmp :: "distances \<Rightarrow> distances \<Rightarrow> NodeId \<Rightarrow> NodeId \<Rightarrow> ordering" where
  "other_cmp from_root to_target a b =
     (let da = dist_or u32_max from_root a; db = dist_or u32_max from_root b;
          ta = dist_or u32_max to_target a; tb = dist_or u32_max to_target b
      in then_with (ord_cmp (sat_add32 da ta) (sat_add32 db tb)) (then_with (ord_cmp da db) (ord_cmp a b)))"

definition selected_cmp :: "distances \<Rightarrow> NodeId \<Rightarrow> NodeId \<Rightarrow> ordering" where
  "selected_cmp from_root a b =
     then_with (ord_cmp (dist_or u32_max from_root a) (dist_or u32_max from_root b)) (ord_cmp a b)"

fun target_nodes :: "Storage \<Rightarrow> distances \<Rightarrow> NodeId list \<Rightarrow> TrailResult \<Rightarrow> StorageError + TrailResult" where
  "target_nodes st from_root [] r = Inr r"
| "target_nodes st from_root (nid # ids) r =
     (case get_node st nid of
        Inl err \<Rightarrow> Inl err
      | Inr node \<Rightarrow>
          target_nodes st from_root ids
            (r\<lparr>tr_nodes := tr_nodes r @ (case node of Some n \<Rightarrow> [n] | None \<Rightarrow> []),
               tr_depth_map := (tr_depth_map r)(nid \<mapsto> dist_or 0 from_root nid)\<rparr>))"

fun target_edge_loop ::
  "NodeId \<Rightarrow> nat \<Rightarrow> NodeId set \<Rightarrow> distances \<Rightarrow> nat \<Rightarrow> Edge list \<Rightarrow> Edge list \<times> EdgeId set \<Rightarrow> Edge list \<times> EdgeId set" where
  "target_edge_loop nid d_root selected_set to_target max_depth [] acc = acc"
| "target_edge_loop nid d_root selected_set to_target max_depth (e # es) acc =
     target_edge_loop nid d_root selected_set to_target max_depth es
       (if effective_source e \<noteq> nid \<or> effective_target e \<notin> selected_set then acc
        else case map_of to_target (effective_target e) of
               None \<Rightarrow> acc
             | Some d_to \<Rightarrow>
                 if \<not> fits_depth max_depth (d_root + 1 + d_to) then acc
                 else if ed_id e \<in> snd acc then acc
                 else (fst acc @ [e], insert (ed_id e) (snd acc)))"

fun target_edges ::
  "Storage \<Rightarrow> TrailConfig \<Rightarrow> BfsTraversalOptions \<Rightarrow> distances \<Rightarrow> distances \<Rightarrow> NodeId set \<Rightarrow> NodeId list \<Rightarrow>
     (Edge list \<times> EdgeId set) \<times> bool \<Rightarrow> StorageError + (Edge list \<times> EdgeId set) \<times> bool" where
  "target_edges st config opts from_root to_target selected_set [] acc = Inr acc"
| "target_edges st config opts from_root to_target selected_set (nid # ids) (acc, truncated) =
     (case map_of from_root nid of
        None \<Rightarrow> target_edges st config opts from_root to_target selected_set ids (acc, truncated)
      | Some d_root \<Rightarrow>
          (case get_edges_for_node_limited st nid Outgoing (tc_edge_filter config)
                  (tc_caller_scope config) (tc_show_utility_calls config) (Some (bo_max_edges_per_node opts)) of
             Inl err \<Rightarrow> Inl err
           | Inr f \<Rightarrow>
               target_edges st config opts from_root to_target selected_set ids
                 (target_edge_loop nid d_root selected_set to_target (bo_max_depth opts) (ef_edges f) acc,
                  truncated \<or> ef_truncated f)))"

definition traversal_options :: "TrailConfig \<Rightarrow> BfsTraversalOptions" where
  "traversal_options config =
     \<lparr>bo_edge_filter = tc_edge_filter config, bo_caller_scope = tc_caller_scope config,
      bo_show_utility_calls = tc_show_utility_calls config, bo_max_depth = trail_max_depth config,
      bo_max_nodes = min (max (sat_mul64 (tc_max_nodes config) 4) (tc_max_nodes config)) 100000,
      bo_max_edges_per_node = trail_max_edges config\<rparr>"

definition unreachable_result ::
  "Storage \<Rightarrow> TrailConfig \<Rightarrow> NodeId \<Rightarrow> bool \<Rightarrow> StorageError + TrailResult" where
  "unreachable_result st config target_id truncated_from_root =
     (case get_node st (tc_root_id config) of
        Inl err \<Rightarrow> Inl err
      | Inr root_node \<Rightarrow>
          let r1 = (case root_node of
                      None \<Rightarrow> TrailResult_default
                    | Some n \<Rightarrow> TrailResult_default\<lparr>tr_nodes := [n], tr_depth_map := [tc_root_id config \<mapsto> 0]\<rparr>)
          in (case (if target_id \<noteq> tc_root_id config then get_node st target_id else Inr None) of
                Inl err \<Rightarrow> Inl err
              | Inr target \<Rightarrow>
                  let r2 = (case target of None \<Rightarrow> r1 | Some n \<Rightarrow> r1\<lparr>tr_nodes := tr_nodes r1 @ [n]\<rparr>)
                  in Inr (apply_trail_node_filter config (r2\<lparr>tr_truncated := truncated_from_root\<rparr>))))"

definition included_nodes :: "nat \<Rightarrow> NodeId \<Rightarrow> NodeId \<Rightarrow> distances \<Rightarrow> distances \<Rightarrow> NodeId list" where
  "included_nodes max_depth root_id target_id from_root to_target =
     remdups (map fst (filter (\<lambda>(n, d_root). case map_of to_target n of
                         None \<Rightarrow> False | Some d_to \<Rightarrow> fits_depth max_depth (d_root + d_to)) from_root)
              @ [root_id, target_id])"

definition select_nodes ::
  "TrailConfig \<Rightarrow> NodeId \<Rightarrow> distances \<Rightarrow> distances \<Rightarrow> NodeId list \<Rightarrow> NodeId list \<Rightarrow> NodeId list" where
  "select_nodes config target_id from_root to_target included path_nodes =
     fst (fill_selected (tc_max_nodes config) (sort_by (other_cmp from_root to_target) included)
            (push_unique (foldl push_unique ([], {}) path_nodes) target_id))"

definition target_result ::
  "Storage \<Rightarrow> TrailConfig \<Rightarrow> BfsTraversalOptions \<Rightarrow> distances \<Rightarrow> distances \<Rightarrow> NodeId list \<Rightarrow> bool \<Rightarrow>
     StorageError + TrailResult" where
  "target_result st config opts from_root to_target selected0 truncated =
     (let selected = sort_by (selected_cmp from_root) selected0
      in case target_nodes st from_root selected (TrailResult_default\<lparr>tr_truncated := truncated\<rparr>) of
           Inl err \<Rightarrow> Inl err
         | Inr r \<Rightarrow>
             (case target_edges st config opts from_root to_target (set selected) selected (([], {}), tr_truncated r) of
                Inl err \<Rightarrow> Inl err
              | Inr ((edges, edge_ids), truncated') \<Rightarrow>
                  Inr (retain_selected_edges (apply_trail_node_filter config
                    (r\<lparr>tr_edges := sort_by (\<lambda>a b. ord_cmp (ed_id a) (ed_id b)) edges,
                       tr_truncated := truncated'\<rparr>)))))"

definition get_trail_to_target :: "Storage \<Rightarrow> TrailConfig \<Rightarrow> (StorageError + TrailResult) option" where
  "get_trail_to_target st config =
     (case tc_target_id config of
        None \<Rightarrow> Some (Inl (OtherStorageError ''TrailMode::ToTargetSymbol requires TrailConfig.target_id''))
      | Some target_id \<Rightarrow>
          let opts = traversal_options config
          in (case bfs_distances st (tc_root_id config) Outgoing opts of
                Inl err \<Rightarrow> Some (Inl err)
              | Inr (from_root, truncated_from_root) \<Rightarrow>
                  if map_of from_root target_id = None
                  then Some (unreachable_result st config target_id truncated_from_root)
                  else
                    (case bfs_distances_to_target_through_root_reachable st target_id from_root opts of
                       Inl err \<Rightarrow> Some (Inl err)
                     | Inr (to_target, truncated_to_target) \<Rightarrow>
                         let included = included_nodes (bo_max_depth opts) (tc_root_id config) target_id from_root to_target
                         in (case path_loop st config opts from_root to_target (set included) target_id
                                    (tc_root_id config) [tc_root_id config] False of
                               None \<Rightarrow> None
                             | Some (Inl err) \<Rightarrow> Some (Inl err)
                             | Some (Inr (path_nodes, path_truncated)) \<Rightarrow>
                                 let selected = select_nodes config target_id from_root to_target included path_nodes;
                                     truncated = (truncated_from_root \<or> truncated_to_target \<or> path_truncated
                                       \<or> length included > tc_max_nodes config \<or> length selected < length included)
                                 in Some (target_result st config opts from_root to_target selected truncated)))))"

definition get_trail :: "Storage \<Rightarrow> TrailConfig \<Rightarrow> (StorageError + TrailResult) option" where
  "get_trail st config =
     (case tc_mode config of ToTargetSymbol \<Rightarrow> get_trail_to_target st config | _ \<Rightarrow> Some (get_trail_bfs st config))"

end
