(* ===== verification/Layered_Search.thy ===== *)
theory Layered_Search
  imports CS_Prelude
begin

text \<open>
  Breadth-first search as a contract. A search keeps a partial map of distances and a queue of
  entries to expand; expanding an entry adds its undiscovered neighbours one level deeper. The
  neighbours may depend on the level, as long as a deeper level offers no more of them. The
  locale proves once what the three searches of the trail code rely on: every recorded distance
  is the length of a walk, and a search that empties its queue has recorded exactly the shortest
  ones.
\<close>

section \<open>Discovering nodes\<close>

fun discover :: "'n list \<Rightarrow> 'n set \<Rightarrow> 'n list" where
  "discover [] known = []"
| "discover (m # ms) known = (if m \<in> known then discover ms known else m # discover ms (insert m known))"

lemma set_discover [simp]: "set (discover ms known) = set ms - known"
  by (induction ms known rule: discover.induct) auto

lemma distinct_discover [simp]: "distinct (discover ms known)"
  by (induction ms known rule: discover.induct) auto

lemma map_of_level: "map_of (map (\<lambda>m. (m, d)) ns) n = (if n \<in> set ns then Some d else None)"
  by (induction ns) auto

lemma set_map_filter: "set (List.map_filter f xs) = {y. \<exists>x \<in> set xs. f x = Some y}"
  by (force simp: List.map_filter_def)

section \<open>Walks and the search invariant\<close>

inductive layered_walk :: "('n \<Rightarrow> nat \<Rightarrow> 'n set) \<Rightarrow> 'n \<Rightarrow> nat \<Rightarrow> nat \<Rightarrow> 'n \<Rightarrow> bool"
  for nb start bound where
  start: "layered_walk nb start bound 0 start"
| step: "layered_walk nb start bound d n \<Longrightarrow> d < bound \<Longrightarrow> m \<in> nb n d \<Longrightarrow> layered_walk nb start bound (Suc d) m"

inductive_cases layered_walk_0E: "layered_walk nb start bound 0 n"
inductive_cases layered_walk_SucE: "layered_walk nb start bound (Suc d) n"

lemma layered_walk_bound: "layered_walk nb start bound d n \<Longrightarrow> d \<le> bound"
  by (induction rule: layered_walk.induct) auto

lemma layered_walk_mono:
  assumes "layered_walk nb start bound d n" and "\<And>n d. nb n d \<subseteq> nb' n d"
  shows "layered_walk nb' start bound d n"
  using assms(1) by induction (use assms(2) in \<open>auto intro: layered_walk.intros\<close>)

definition search_sound ::
  "('n \<Rightarrow> nat \<Rightarrow> 'n set) \<Rightarrow> 'n \<Rightarrow> nat \<Rightarrow> ('n \<rightharpoonup> nat) \<Rightarrow> ('n \<times> nat) list \<Rightarrow> bool" where
  "search_sound nb start bound D Q \<longleftrightarrow>
     D start = Some 0 \<and> (\<forall>n d. D n = Some d \<longrightarrow> layered_walk nb start bound d n) \<and> (\<forall>(n, d) \<in> set Q. D n = Some d)"

definition search_inv ::
  "('n \<Rightarrow> nat \<Rightarrow> 'n set) \<Rightarrow> 'n \<Rightarrow> nat \<Rightarrow> ('n \<rightharpoonup> nat) \<Rightarrow> ('n \<times> nat) list \<Rightarrow> bool" where
  "search_inv nb start bound D Q \<longleftrightarrow>
     search_sound nb start bound D Q \<and> sorted (map snd Q)
   \<and> (\<forall>n d. D n = Some d \<longrightarrow> Q \<noteq> [] \<longrightarrow> d \<le> Suc (snd (hd Q)))
   \<and> (\<forall>n d m. D n = Some d \<longrightarrow> (n, d) \<notin> set Q \<longrightarrow> d < bound \<longrightarrow> m \<in> nb n d \<longrightarrow> (\<exists>k \<le> Suc d. D m = Some k))"

text \<open>The map after the nodes \<open>ns\<close> are recorded at distance \<open>d\<close>.\<close>

definition extend_level :: "('n \<rightharpoonup> nat) \<Rightarrow> 'n list \<Rightarrow> nat \<Rightarrow> ('n \<rightharpoonup> nat)" where
  "extend_level D ns d = (\<lambda>m. if m \<in> set ns then Some d else D m)"

lemma extend_level_simps [simp]:
  "extend_level D [] d = D"
  "extend_level D (n # ns) d = extend_level (D(n \<mapsto> d)) ns d"
  by (auto simp: extend_level_def)

lemma search_sound_start: "search_sound nb start bound [start \<mapsto> 0] [(start, 0)]"
  by (auto simp: search_sound_def intro: layered_walk.start)

lemma search_sound_pop: "search_sound nb start bound D ((n, d) # Q) \<Longrightarrow> search_sound nb start bound D Q"
  by (simp add: search_sound_def)

lemma search_sound_expand:
  assumes "search_sound nb start bound D ((n, d) # Q)" and "d < bound"
    and "set ns \<subseteq> nb n d" and "set ns \<inter> dom D = {}"
  shows "search_sound nb start bound (extend_level D ns (Suc d)) (Q @ map (\<lambda>m. (m, Suc d)) ns)"
proof -
  have "layered_walk nb start bound d n" using assms(1) by (simp add: search_sound_def)
  then have "m \<in> set ns \<Longrightarrow> layered_walk nb start bound (Suc d) m" for m
    using assms(2,3) by (auto intro: layered_walk.step)
  moreover have "D m = Some k \<Longrightarrow> m \<notin> set ns" for m k using assms(4) by auto
  ultimately show ?thesis using assms(1) by (auto simp: search_sound_def extend_level_def)
qed

locale layered_search =
  fixes nb :: "'n \<Rightarrow> nat \<Rightarrow> 'n set" and start :: 'n and bound :: nat
  assumes nb_antitone: "d \<le> d' \<Longrightarrow> nb n d' \<subseteq> nb n d"
begin

lemma inv_start: "search_inv nb start bound [start \<mapsto> 0] [(start, 0)]"
  by (auto simp: search_inv_def search_sound_start)

lemma inv_skip:
  assumes "search_inv nb start bound D ((n, d) # Q)" and "bound \<le> d"
  shows "search_inv nb start bound D Q"
proof -
  have "k \<le> Suc (snd (hd Q))" if "D m = Some k" "Q \<noteq> []" for m k
  proof -
    have "k \<le> Suc d" using assms(1) that by (simp add: search_inv_def)
    moreover have "d \<le> snd (hd Q)" using assms(1) that by (cases Q) (auto simp: search_inv_def)
    ultimately show ?thesis by simp
  qed
  then show ?thesis using assms by (auto simp: search_inv_def intro: search_sound_pop)
qed

lemma inv_expand:
  assumes inv: "search_inv nb start bound D ((n, d) # Q)" and d: "d < bound"
    and ns: "set ns = nb n d - dom D"
  shows "search_inv nb start bound (extend_level D ns (Suc d)) (Q @ map (\<lambda>m. (m, Suc d)) ns)"
    (is "search_inv _ _ _ ?D ?Q")
proof -
  have sound: "search_sound nb start bound ?D ?Q"
    using inv d ns by (intro search_sound_expand) (auto simp: search_inv_def)
  have le: "k \<le> Suc d" if "D m = Some k" for m k using inv that by (simp add: search_inv_def)
  have ge: "d \<le> snd p" if "p \<in> set Q" for p using inv that by (auto simp: search_inv_def)
  have Qle: "snd p \<le> Suc d" if "p \<in> set Q" for p
    using inv that le [of "fst p" "snd p"] by (auto simp: search_inv_def search_sound_def)
  have "sorted (map snd ?Q)"
    using inv Qle by (auto simp: search_inv_def sorted_append comp_def map_replicate_const)
  moreover have "k \<le> Suc (snd (hd ?Q))" if "?D m = Some k" "?Q \<noteq> []" for m k
  proof -
    have "d \<le> snd (hd ?Q)" using that(2) ge by (cases Q; cases ns) auto
    moreover have "k \<le> Suc d" using that(1) le by (auto simp: extend_level_def split: if_splits)
    ultimately show ?thesis by simp
  qed
  moreover have "\<exists>j \<le> Suc k. ?D m' = Some j"
    if "?D m = Some k" "(m, k) \<notin> set ?Q" "k < bound" "m' \<in> nb m k" for m k m'
  proof -
    have m: "D m = Some k" "(m, k) \<notin> set Q" using that by (auto simp: extend_level_def split: if_splits)
    show ?thesis
    proof (cases "(m, k) = (n, d)")
      case True
      then show ?thesis using that ns le by (cases "D m'") (auto simp: extend_level_def)
    next
      case False
      then have "\<exists>j \<le> Suc k. D m' = Some j" using inv m that by (auto simp: search_inv_def)
      then show ?thesis using ns by (auto simp: extend_level_def)
    qed
  qed
  ultimately show ?thesis using sound by (simp add: search_inv_def)
qed

lemma done_complete:
  assumes "search_inv nb start bound D []" and "layered_walk nb start bound k n"
  shows "\<exists>d \<le> k. D n = Some d"
  using assms(2)
proof induction
  case start
  then show ?case using assms(1) by (simp add: search_inv_def search_sound_def)
next
  case (step k n m)
  then obtain d where d: "d \<le> k" "D n = Some d" by blast
  moreover have "m \<in> nb n d" using step nb_antitone d by blast
  ultimately obtain j where "j \<le> Suc d" "D m = Some j"
    using assms(1) step by (fastforce simp: search_inv_def)
  then show ?case using d by (intro exI [of _ j]) simp
qed

theorem done_exact:
  assumes "search_inv nb start bound D []"
  shows "D n = Some d \<longleftrightarrow> layered_walk nb start bound d n \<and> (\<forall>k. layered_walk nb start bound k n \<longrightarrow> d \<le> k)"
proof
  assume "D n = Some d"
  then show "layered_walk nb start bound d n \<and> (\<forall>k. layered_walk nb start bound k n \<longrightarrow> d \<le> k)"
    using assms done_complete [OF assms] by (fastforce simp: search_inv_def search_sound_def)
next
  assume w: "layered_walk nb start bound d n \<and> (\<forall>k. layered_walk nb start bound k n \<longrightarrow> d \<le> k)"
  then obtain k where "k \<le> d" "D n = Some k" using done_complete [OF assms] by blast
  moreover from this have "layered_walk nb start bound k n" using assms by (simp add: search_inv_def search_sound_def)
  ultimately show "D n = Some d" using w by (auto dest: antisym)
qed

end

end
