(* ===== verification/Trail_Search.thy ===== *)
theory Trail_Search
  imports Trail Layered_Search "HOL-Library.Code_Target_Nat"
begin

text \<open>
  What the trail searches compute: the edges a fetch admits, the graph those edges span, and the
  neighbourhood and distance searches as instances of \<open>layered_search\<close>.
\<close>

section \<open>Fetching the edges of a node\<close>

text \<open>The edges a search may follow from a node: those of the selected rows.\<close>

definition admitted_edges ::
  "Storage \<Rightarrow> TrailDirection \<Rightarrow> EdgeKind list \<Rightarrow> TrailCallerScope \<Rightarrow> bool \<Rightarrow> NodeId \<Rightarrow> Edge set" where
  "admitted_edges st direction edge_filter caller_scope show_utility_calls n =
     (case edge_rows st direction n of
        Inl err \<Rightarrow> {}
      | Inr rows \<Rightarrow>
          {row_edge r |r. Inr r \<in> set rows \<and> row_selected n direction edge_filter caller_scope show_utility_calls r})"

lemma fetch_rows_prefix:
  "fetch_rows sel budget rows es = Inr f \<Longrightarrow>
     \<exists>k. ef_edges f = es @ map row_edge (filter sel (map projr (take k rows))) \<and> (\<forall>x \<in> set (take k rows). \<not> isl x)
       \<and> (\<not> ef_truncated f \<longrightarrow> take k rows = rows)"
proof (induction sel budget rows es rule: fetch_rows.induct)
  case (3 sel budget r rows es)
  show ?case
  proof (cases "sel r \<and> (case budget of Some b \<Rightarrow> length (es @ [row_edge r]) \<ge> b | None \<Rightarrow> False)")
    case True
    with 3 have "f = \<lparr>ef_edges = es @ [row_edge r], ef_truncated = True\<rparr>" by (auto simp: Let_def)
    with True show ?thesis by (intro exI [of _ 1]) simp
  next
    case False
    with 3 obtain k where
      "ef_edges f = (if sel r then es @ [row_edge r] else es) @ map row_edge (filter sel (map projr (take k rows)))"
      "\<forall>x \<in> set (take k rows). \<not> isl x" "\<not> ef_truncated f \<longrightarrow> take k rows = rows"
      by (auto simp: Let_def split: if_splits)
    then show ?thesis by (intro exI [of _ "Suc k"]) auto
  qed
qed auto

lemma fetch_rows_budget:
  "fetch_rows sel (Some b) rows es = Inr f \<Longrightarrow> length es < b \<Longrightarrow>
     length (ef_edges f) \<le> b \<and> (ef_truncated f \<longleftrightarrow> length (ef_edges f) = b)"
proof (induction sel "Some b" rows es rule: fetch_rows.induct)
  case (3 sel r rows es)
  then show ?case by (cases "Suc (length es) < b") (auto simp: Let_def split: if_splits)
qed auto

lemma Inr_in_rows: "\<forall>x \<in> set xs. \<not> isl x \<Longrightarrow> Inr r \<in> set xs \<longleftrightarrow> r \<in> set (map projr xs)"
proof (induction xs)
  case (Cons x xs)
  then show ?case by (cases x) auto
qed simp

lemma fetch_sound:
  assumes "get_edges_for_node_limited st n dir filt scope util b = Inr f"
  shows "set (ef_edges f) \<subseteq> admitted_edges st dir filt scope util n"
proof (cases "b = Some 0")
  case False
  then obtain rows where rows: "edge_rows st dir n = Inr rows"
    and f: "fetch_rows (row_selected n dir filt scope util) b rows [] = Inr f"
    using assms by (auto simp: get_edges_for_node_limited_def split: sum.splits)
  obtain k where k: "ef_edges f = map row_edge (filter (row_selected n dir filt scope util) (map projr (take k rows)))"
    "\<forall>x \<in> set (take k rows). \<not> isl x"
    using fetch_rows_prefix [OF f] by auto
  have "Inr r \<in> set rows" if "r \<in> set (map projr (take k rows))" for r
    using that Inr_in_rows [OF k(2)] by (meson in_set_takeD)
  then show ?thesis unfolding k(1) admitted_edges_def rows by auto
qed (use assms in \<open>auto simp: get_edges_for_node_limited_def\<close>)

lemma fetch_complete:
  assumes "get_edges_for_node_limited st n dir filt scope util b = Inr f" and "\<not> ef_truncated f"
  shows "set (ef_edges f) = admitted_edges st dir filt scope util n"
proof -
  have "b \<noteq> Some 0" using assms by (auto simp: get_edges_for_node_limited_def)
  then obtain rows where rows: "edge_rows st dir n = Inr rows"
    and f: "fetch_rows (row_selected n dir filt scope util) b rows [] = Inr f"
    using assms by (auto simp: get_edges_for_node_limited_def split: sum.splits)
  have k: "ef_edges f = map row_edge (filter (row_selected n dir filt scope util) (map projr rows))"
    "\<forall>x \<in> set rows. \<not> isl x"
    using fetch_rows_prefix [OF f] assms(2) by auto
  then show ?thesis unfolding k(1) admitted_edges_def rows by (auto simp: Inr_in_rows)
qed

lemma fetch_budget:
  assumes "get_edges_for_node_limited st n dir filt scope util (Some b) = Inr f"
  shows "length (ef_edges f) \<le> b" and "ef_truncated f \<longleftrightarrow> length (ef_edges f) = b"
proof -
  have "length (ef_edges f) \<le> b \<and> (ef_truncated f \<longleftrightarrow> length (ef_edges f) = b)"
  proof (cases "b = 0")
    case False
    then obtain rows where "fetch_rows (row_selected n dir filt scope util) (Some b) rows [] = Inr f"
      using assms by (auto simp: get_edges_for_node_limited_def split: sum.splits)
    then show ?thesis using fetch_rows_budget False by force
  qed (use assms in \<open>auto simp: get_edges_for_node_limited_def\<close>)
  then show "length (ef_edges f) \<le> b" and "ef_truncated f \<longleftrightarrow> length (ef_edges f) = b" by auto
qed

text \<open>An admitted edge always leads somewhere: its neighbour is its other effective end.\<close>

lemma neighbor_of_admitted:
  assumes "e \<in> admitted_edges st dir filt scope util n"
  shows "neighbor_for_direction n dir e =
    Some (case dir of Outgoing \<Rightarrow> effective_target e | Incoming \<Rightarrow> effective_source e
          | Both \<Rightarrow> if effective_source e = n then effective_target e else effective_source e)"
  using assms
  by (auto simp: admitted_edges_def row_selected_def neighbor_for_direction_def Let_def
      split: sum.splits TrailDirection.splits if_splits)

section \<open>Distance searches\<close>

definition dist_neighbors ::
  "Storage \<Rightarrow> TrailDirection \<Rightarrow> (NodeId \<Rightarrow> nat \<Rightarrow> Edge \<Rightarrow> NodeId option) \<Rightarrow> BfsTraversalOptions \<Rightarrow>
     NodeId \<Rightarrow> nat \<Rightarrow> NodeId set" where
  "dist_neighbors st direction candidate opts n d =
     {m. \<exists>e \<in> admitted_edges st direction (bo_edge_filter opts) (bo_caller_scope opts) (bo_show_utility_calls opts) n.
        candidate n d e = Some m}"

lemma dist_edges_discover:
  "dist_edges c d es (dists, queue) =
     (let ns = discover (List.map_filter c es) (fst ` set dists)
      in (dists @ map (\<lambda>m. (m, d)) ns, queue @ map (\<lambda>m. (m, d)) ns))"
proof (induction es arbitrary: dists queue)
  case Nil
  then show ?case by (simp add: List.map_filter_def)
next
  case (Cons e es)
  show ?case
  proof (cases "c e")
    case None
    then show ?thesis using Cons by (simp add: map_filter_simps)
  next
    case (Some m)
    show ?thesis
    proof (cases "map_of dists m")
      case None
      then have "m \<notin> fst ` set dists" by (simp add: map_of_eq_None_iff)
      with None Some Cons show ?thesis by (simp add: map_filter_simps Let_def)
    next
      case (Some k)
      then have "m \<in> fst ` set dists" by (force dest: map_of_SomeD)
      with Some \<open>c e = Some m\<close> Cons show ?thesis by (simp add: map_filter_simps Let_def)
    qed
  qed
qed

lemma map_of_new_level:
  assumes "set ns \<inter> fst ` set dists = {}"
  shows "map_of (dists @ map (\<lambda>m. (m, d)) ns) = extend_level (map_of dists) ns d"
proof
  fix n
  show "map_of (dists @ map (\<lambda>m. (m, d)) ns) n = extend_level (map_of dists) ns d n"
  proof (cases "n \<in> set ns")
    case True
    then have "map_of dists n = None" using assms by (auto simp: map_of_eq_None_iff)
    with True show ?thesis by (simp add: map_add_def map_of_level extend_level_def)
  next
    case False
    then show ?thesis by (auto simp: map_add_def map_of_level extend_level_def split: option.split)
  qed
qed

text \<open>
  One expansion, as the locale sees it: the new entries are the fetched candidates that are not
  recorded yet.
\<close>

lemma dist_edges_expand:
  assumes "dist_edges c d es (dists, queue) = (dists', queue')"
  obtains ns where "set ns = {m. \<exists>e \<in> set es. c e = Some m} - dom (map_of dists)"
    and "queue' = queue @ map (\<lambda>m. (m, d)) ns" and "dists' = dists @ map (\<lambda>m. (m, d)) ns"
    and "map_of dists' = extend_level (map_of dists) ns d" and "distinct ns"
proof -
  define ns where "ns = discover (List.map_filter c es) (fst ` set dists)"
  have "dists' = dists @ map (\<lambda>m. (m, d)) ns" "queue' = queue @ map (\<lambda>m. (m, d)) ns"
    using assms by (simp_all add: dist_edges_discover Let_def ns_def)
  moreover have "set ns = {m. \<exists>e \<in> set es. c e = Some m} - dom (map_of dists)"
    by (simp add: ns_def set_map_filter dom_map_of_conv_image_fst)
  moreover have "distinct ns" by (simp add: ns_def)
  ultimately show ?thesis
    using that map_of_new_level [of ns dists d] by (auto simp: dom_map_of_conv_image_fst)
qed

lemma sat_add32_below: "d < b \<Longrightarrow> b \<le> u32_max \<Longrightarrow> sat_add32 d 1 = Suc d"
  by (simp add: sat_add32_def)

text \<open>
  The loop rule of both distance searches: what every kept entry, every expansion and the
  premature end keep holds of the result.
\<close>

lemma dist_loop_rule [consumes 3, case_names pop expand full finish]:
  assumes "dist_loop st dir cand opts dists queue t = Inr (dists', t')" and "bo_max_depth opts \<le> u32_max"
    and "P dists queue t"
    and "\<And>dists n d queue t. P dists ((n, d) # queue) t \<Longrightarrow> length dists < bo_max_nodes opts \<Longrightarrow>
       bo_max_depth opts \<le> d \<Longrightarrow> P dists queue t"
    and "\<And>dists n d queue t f ns. P dists ((n, d) # queue) t \<Longrightarrow> length dists < bo_max_nodes opts \<Longrightarrow>
       d < bo_max_depth opts \<Longrightarrow>
       get_edges_for_node_limited st n dir (bo_edge_filter opts) (bo_caller_scope opts)
         (bo_show_utility_calls opts) (Some (bo_max_edges_per_node opts)) = Inr f \<Longrightarrow>
       set ns = {m. \<exists>e \<in> set (ef_edges f). cand n d e = Some m} - dom (map_of dists) \<Longrightarrow> distinct ns \<Longrightarrow>
       map_of (dists @ map (\<lambda>m. (m, Suc d)) ns) = extend_level (map_of dists) ns (Suc d) \<Longrightarrow>
       P (dists @ map (\<lambda>m. (m, Suc d)) ns) (queue @ map (\<lambda>m. (m, Suc d)) ns) (t \<or> ef_truncated f)"
    and "\<And>dists entry queue t. P dists (entry # queue) t \<Longrightarrow> bo_max_nodes opts \<le> length dists \<Longrightarrow> Q dists True"
    and "\<And>dists t. P dists [] t \<Longrightarrow> Q dists t"
  shows "Q dists' t'"
  using assms
proof (induction st dir cand opts dists queue t rule: dist_loop.induct)
  case (1 st dir cand opts dists t)
  then show ?case by (simp add: dist_loop.simps)
next
  case (2 st dir cand opts dists n d queue t)
  note pop = 2(6) and expand = 2(7) and full = 2(8) and finish = 2(9)
  consider "bo_max_nodes opts \<le> length dists" | "length dists < bo_max_nodes opts" "bo_max_depth opts \<le> d"
    | "length dists < bo_max_nodes opts" "d < bo_max_depth opts" by linarith
  then show ?case
  proof cases
    case 1
    then show ?thesis using 2(3) full [OF 2(5)] by (simp add: dist_loop.simps)
  next
    case b: 2
    then have "dist_loop st dir cand opts dists queue t = Inr (dists', t')"
      using 2(3) by (simp add: dist_loop.simps)
    moreover have "P dists queue t" using pop 2(5) b by blast
    ultimately show ?thesis using 2(1) b 2(4) pop expand full finish by simp
  next
    case c: 3
    then obtain f dists1 queue1 where f: "get_edges_for_node_limited st n dir (bo_edge_filter opts)
          (bo_caller_scope opts) (bo_show_utility_calls opts) (Some (bo_max_edges_per_node opts)) = Inr f"
      and e: "dist_edges (cand n d) (sat_add32 d 1) (ef_edges f) (dists, queue) = (dists1, queue1)"
      and r: "dist_loop st dir cand opts dists1 queue1 (t \<or> ef_truncated f) = Inr (dists', t')"
      using 2(3) by (auto simp: dist_loop.simps split: sum.splits prod.splits)
    have "P dists1 queue1 (t \<or> ef_truncated f)"
      using e [unfolded sat_add32_below [OF c(2) 2(4)]]
      by (rule dist_edges_expand) (use expand [OF 2(5) c f] in auto)
    then show ?thesis using 2(2) [OF _ _ f e [symmetric]] c r 2(4) pop expand full finish by simp
  qed
qed

lemma fetched_candidates:
  assumes "get_edges_for_node_limited st n dir (bo_edge_filter opts) (bo_caller_scope opts)
      (bo_show_utility_calls opts) b = Inr f"
  shows "{m. \<exists>e \<in> set (ef_edges f). cand n d e = Some m} \<subseteq> dist_neighbors st dir cand opts n d"
    and "\<not> ef_truncated f \<Longrightarrow> {m. \<exists>e \<in> set (ef_edges f). cand n d e = Some m} = dist_neighbors st dir cand opts n d"
  using fetch_sound [OF assms] fetch_complete [OF assms] by (auto simp: dist_neighbors_def)

lemma dist_loop_sound:
  assumes "dist_loop st dir cand opts dists queue t = Inr (dists', t')" and "bo_max_depth opts \<le> u32_max"
    and "search_sound (dist_neighbors st dir cand opts) start (bo_max_depth opts) (map_of dists) queue"
  shows "search_sound (dist_neighbors st dir cand opts) start (bo_max_depth opts) (map_of dists') []"
  using assms
proof (induction rule: dist_loop_rule)
  case (pop dists n d queue t)
  show ?case using pop(1) by (rule search_sound_pop)
next
  case (expand dists n d queue t f ns)
  then show ?case
    unfolding expand(7) using fetched_candidates(1) [OF expand(4), of cand d]
    by (intro search_sound_expand) auto
next
  case (full dists entry queue t)
  then show ?case by (simp add: search_sound_def)
qed simp

text \<open>A search that reports no truncation has emptied its queue and seen every admitted edge.\<close>

lemma dist_loop_exact:
  assumes "layered_search (dist_neighbors st dir cand opts)"
    and "dist_loop st dir cand opts dists queue t = Inr (dists', t')" and "bo_max_depth opts \<le> u32_max"
    and "\<not> t \<Longrightarrow> search_inv (dist_neighbors st dir cand opts) start (bo_max_depth opts) (map_of dists) queue"
    and "\<not> t'"
  shows "search_inv (dist_neighbors st dir cand opts) start (bo_max_depth opts) (map_of dists') []"
proof -
  let ?P = "\<lambda>dists queue t. \<not> t \<longrightarrow>
    search_inv (dist_neighbors st dir cand opts) start (bo_max_depth opts) (map_of dists) queue"
  have "?P dists queue t" using assms(4) by blast
  with assms(2,3) have "\<not> t' \<longrightarrow>
    search_inv (dist_neighbors st dir cand opts) start (bo_max_depth opts) (map_of dists') []"
  proof (induction rule: dist_loop_rule)
    case (pop dists n d queue t)
    then show ?case using layered_search.inv_skip [OF assms(1)] by blast
  next
    case (expand dists n d queue t f ns)
    show ?case unfolding expand(7)
    proof
      assume "\<not> (t \<or> ef_truncated f)"
      then have "set ns = dist_neighbors st dir cand opts n d - dom (map_of dists)"
        using expand(5) fetched_candidates(2) [OF expand(4)] by simp
      with expand(1,3) \<open>\<not> (t \<or> ef_truncated f)\<close>
      show "search_inv (dist_neighbors st dir cand opts) start (bo_max_depth opts)
        (extend_level (map_of dists) ns (Suc d)) (queue @ map (\<lambda>m. (m, Suc d)) ns)"
        by (intro layered_search.inv_expand [OF assms(1)]) auto
    qed
  qed auto
  then show ?thesis using assms(5) by blast
qed

text \<open>Distances are consecutive, so the node cap bounds them as well.\<close>

definition dist_levels :: "nat \<Rightarrow> distances \<Rightarrow> bool" where
  "dist_levels cap dists \<longleftrightarrow> (\<forall>d \<in> snd ` set dists. d \<le> cap \<and> {0..d} \<subseteq> snd ` set dists)"

lemma dist_levels_length: "dist_levels cap dists \<Longrightarrow> d \<in> snd ` set dists \<Longrightarrow> d < length dists"
proof -
  assume "dist_levels cap dists" "d \<in> snd ` set dists"
  then have "{0..d} \<subseteq> snd ` set dists" unfolding dist_levels_def by blast
  then have "card {0..d} \<le> card (snd ` set dists)" by (intro card_mono) auto
  also have "\<dots> \<le> length dists" by (metis card_image_le card_length finite_set order_trans)
  finally show "d < length dists" by simp
qed

lemma dist_levels_extend:
  assumes "dist_levels cap dists" and "d \<in> snd ` set dists" and "d < cap"
  shows "dist_levels cap (dists @ map (\<lambda>m. (m, Suc d)) ns)"
proof (cases "ns = []")
  case False
  then have img: "snd ` set (dists @ map (\<lambda>m. (m, Suc d)) ns) = insert (Suc d) (snd ` set dists)"
    by (cases ns) (auto simp: image_image image_Un)
  have "{0..d} \<subseteq> snd ` set dists" using assms(1,2) unfolding dist_levels_def by blast
  moreover have "{0..Suc d} = insert (Suc d) {0..d}" by auto
  ultimately have "{0..Suc d} \<subseteq> insert (Suc d) (snd ` set dists)" by (simp only:) blast
  moreover have "Suc d \<le> cap" using assms(3) by simp
  moreover have "k \<le> cap \<and> {0..k} \<subseteq> insert (Suc d) (snd ` set dists)" if "k \<in> snd ` set dists" for k
    using assms(1) that unfolding dist_levels_def by (meson subset_insertI2)
  ultimately show ?thesis unfolding dist_levels_def img by (simp only: ball_simps(7)) blast
qed (use assms in simp)

lemma dist_loop_levels:
  assumes "dist_loop st dir cand opts dists queue t = Inr (dists', t')" and "bo_max_depth opts \<le> u32_max"
    and "dist_levels (bo_max_nodes opts) dists \<and> distinct (map fst dists) \<and> set queue \<subseteq> set dists"
  shows "dist_levels (bo_max_nodes opts) dists' \<and> distinct (map fst dists')"
  using assms
proof (induction rule: dist_loop_rule)
  case (expand dists n d queue t f ns)
  have d: "d \<in> snd ` set dists" using expand(1) by force
  then have "d < bo_max_nodes opts" using dist_levels_length [OF _ d] expand(1,2) by fastforce
  then have "dist_levels (bo_max_nodes opts) (dists @ map (\<lambda>m. (m, Suc d)) ns)"
    using expand(1) d by (intro dist_levels_extend) auto
  moreover have "set ns \<inter> fst ` set dists = {}" using expand(5) by (auto simp: dom_map_of_conv_image_fst)
  then have "distinct (map fst (dists @ map (\<lambda>m. (m, Suc d)) ns))"
    using expand(1,6) by (auto simp: comp_def)
  ultimately show ?case using expand(1) by auto
qed auto

text \<open>The graph a trail explores in a direction, and the searches as instances of the contract.\<close>

abbreviation trail_graph :: "Storage \<Rightarrow> TrailDirection \<Rightarrow> BfsTraversalOptions \<Rightarrow> NodeId \<Rightarrow> nat \<Rightarrow> NodeId set" where
  "trail_graph st dir opts \<equiv> dist_neighbors st dir (\<lambda>n d. neighbor_for_direction n dir) opts"

interpretation trail_graph: layered_search "trail_graph st dir opts" start bound for st dir opts start bound
  by unfold_locales (simp add: dist_neighbors_def)

interpretation to_target_graph:
  layered_search "dist_neighbors st Incoming (to_target_candidate from_root opts) opts" start bound
  for st from_root opts start bound
proof unfold_locales
  fix d d' n
  assume "d \<le> (d' :: nat)"
  then have "sat_add32 d 1 \<le> sat_add32 d' 1" by (simp add: sat_add32_def)
  then show "dist_neighbors st Incoming (to_target_candidate from_root opts) opts n d'
      \<subseteq> dist_neighbors st Incoming (to_target_candidate from_root opts) opts n d"
    by (fastforce simp: dist_neighbors_def to_target_candidate_def split: option.splits if_splits)
qed

lemma dist_start: "map_of [(n, 0 :: nat)] = [n \<mapsto> 0]"
  by auto

lemma bfs_distances_inv:
  assumes "bfs_distances st start dir opts = Inr (dists, t)" and "bo_max_depth opts \<le> u32_max"
  shows "search_sound (trail_graph st dir opts) start (bo_max_depth opts) (map_of dists) []"
    and "\<not> t \<Longrightarrow> search_inv (trail_graph st dir opts) start (bo_max_depth opts) (map_of dists) []"
    and "dist_levels (bo_max_nodes opts) dists" and "distinct (map fst dists)"
proof -
  note run = assms(1) [unfolded bfs_distances_def]
  show "search_sound (trail_graph st dir opts) start (bo_max_depth opts) (map_of dists) []"
    using dist_loop_sound [OF run assms(2)] by (simp add: dist_start search_sound_start)
  show "\<not> t \<Longrightarrow> search_inv (trail_graph st dir opts) start (bo_max_depth opts) (map_of dists) []"
    using dist_loop_exact [OF trail_graph.layered_search_axioms run assms(2)]
    by (simp add: dist_start trail_graph.inv_start)
  have "dist_levels (bo_max_nodes opts) [(start, 0)]" by (simp add: dist_levels_def)
  then show "dist_levels (bo_max_nodes opts) dists" "distinct (map fst dists)"
    using dist_loop_levels [OF run assms(2)] by auto
qed

section \<open>Neighbourhood search\<close>

lemma bfs_edges_discover:
  assumes "length (tr_edges (bs_result s)) + length es \<le> M"
  shows "bfs_edges M n dir d es s =
    (let ns = discover (List.map_filter (neighbor_for_direction n dir) es) (bs_visited s)
     in s\<lparr>bs_result := (bs_result s)\<lparr>tr_edges := tr_edges (bs_result s) @ es,
            tr_depth_map := extend_level (tr_depth_map (bs_result s)) ns (Suc d)\<rparr>,
          bs_visited := bs_visited s \<union> set (List.map_filter (neighbor_for_direction n dir) es),
          bs_queue := bs_queue s @ map (\<lambda>m. (m, Suc d)) ns\<rparr>)"
  using assms
proof (induction es arbitrary: s)
  case Nil
  then show ?case by (simp add: List.map_filter_def)
next
  case (Cons e es)
  have room: "\<not> M \<le> length (tr_edges (bs_result s))" using Cons(2) by simp
  show ?case
  proof (cases "neighbor_for_direction n dir e")
    case None
    with room Cons show ?thesis by (simp add: map_filter_simps Let_def)
  next
    case (Some m)
    with room Cons show ?thesis by (cases "m \<in> bs_visited s") (auto simp: map_filter_simps Let_def insert_absorb)
  qed
qed

lemma bfs_add_node_frame [simp]:
  "tr_edges (bs_result (bfs_add_node node s)) = tr_edges (bs_result s)"
  "tr_depth_map (bs_result (bfs_add_node node s)) = tr_depth_map (bs_result s)"
  "tr_truncated (bs_result (bfs_add_node node s)) = tr_truncated (bs_result s)"
  "bs_visited (bfs_add_node node s) = bs_visited s"
  "bs_queue (bfs_add_node node s) = bs_queue s"
  by (auto simp: bfs_add_node_def split: option.split)

text \<open>The state after a node's fetched edges are recorded.\<close>

definition bfs_expanded :: "NodeId list \<Rightarrow> nat \<Rightarrow> EdgeFetchResult \<Rightarrow> bfs_state \<Rightarrow> bfs_state" where
  "bfs_expanded ns d f s =
     s\<lparr>bs_result := (bs_result s)\<lparr>tr_truncated := tr_truncated (bs_result s) \<or> ef_truncated f,
          tr_edges := tr_edges (bs_result s) @ ef_edges f,
          tr_depth_map := extend_level (tr_depth_map (bs_result s)) ns (Suc d)\<rparr>,
        bs_visited := bs_visited s \<union> set ns, bs_queue := bs_queue s @ map (\<lambda>m. (m, Suc d)) ns\<rparr>"

lemma bfs_edges_expanded:
  assumes "length (tr_edges (bs_result s)) + length (ef_edges f) \<le> M"
    and "ns = discover (List.map_filter (neighbor_for_direction n dir) (ef_edges f)) (bs_visited s)"
  shows "bfs_edges M n dir d (ef_edges f) (if ef_truncated f then bfs_truncate s else s) = bfs_expanded ns d f s"
proof -
  have vis: "bs_visited s \<union> set (List.map_filter (neighbor_for_direction n dir) (ef_edges f)) = bs_visited s \<union> set ns"
    by (auto simp: assms(2))
  show ?thesis
    using assms by (auto simp: bfs_edges_discover Let_def bfs_truncate_def bfs_expanded_def vis simp del: set_discover)
qed

text \<open>One pass of the loop: it stops at the node cap or the edge cap, or expands the node.\<close>

lemma bfs_visitE:
  assumes "bfs_visit st config n d s = Inr (s', go)"
  obtains (full) "tc_max_nodes config \<le> length (tr_nodes (bs_result s))" "s' = bfs_truncate s" "\<not> go"
  | (deep) node where "length (tr_nodes (bs_result s)) < tc_max_nodes config" "get_node st n = Inr node"
      "trail_max_depth config \<le> d" "s' = bfs_add_node node s" "go"
  | (spent) node where "length (tr_nodes (bs_result s)) < tc_max_nodes config" "get_node st n = Inr node"
      "s' = bfs_truncate (bfs_add_node node s)" "\<not> go"
  | (expand) node f ns where "length (tr_nodes (bs_result s)) < tc_max_nodes config" "get_node st n = Inr node"
      "d < trail_max_depth config"
      "get_edges_for_node_limited st n (trail_direction config) (tc_edge_filter config) (tc_caller_scope config)
         (tc_show_utility_calls config) (Some (trail_max_edges config - length (tr_edges (bs_result s)))) = Inr f"
      "length (tr_edges (bs_result s)) + length (ef_edges f) \<le> trail_max_edges config"
      "set ns = {m. \<exists>e \<in> set (ef_edges f). neighbor_for_direction n (trail_direction config) e = Some m} - bs_visited s"
      "distinct ns"
      "s' = bfs_expanded ns d f (bfs_add_node node s)"
      "go \<longleftrightarrow> \<not> tr_truncated (bs_result s')"
proof (cases "tc_max_nodes config \<le> length (tr_nodes (bs_result s))")
  case True
  with assms show ?thesis by (intro full) (auto simp: bfs_visit_def)
next
  case False
  then obtain node where node: "get_node st n = Inr node"
    using assms by (cases "get_node st n") (auto simp: bfs_visit_def)
  show ?thesis
  proof (cases "d < trail_max_depth config")
    case False
    with \<open>\<not> tc_max_nodes config \<le> _\<close> node assms show ?thesis by (intro deep) (auto simp: bfs_visit_def)
  next
    case d: True
    let ?b = "trail_max_edges config - length (tr_edges (bs_result s))"
    show ?thesis
    proof (cases "?b = 0")
      case True
      with \<open>\<not> tc_max_nodes config \<le> _\<close> node d assms show ?thesis by (intro spent) (auto simp: bfs_visit_def)
    next
      case b: False
      then obtain f where f: "get_edges_for_node_limited st n (trail_direction config) (tc_edge_filter config)
          (tc_caller_scope config) (tc_show_utility_calls config) (Some ?b) = Inr f"
        using assms \<open>\<not> tc_max_nodes config \<le> _\<close> node d
        by (auto simp: bfs_visit_def Let_def split: sum.splits)
      have fit: "length (tr_edges (bs_result s)) + length (ef_edges f) \<le> trail_max_edges config"
        using fetch_budget(1) [OF f] b by simp
      define ns where "ns = discover (List.map_filter (neighbor_for_direction n (trail_direction config)) (ef_edges f)) (bs_visited s)"
      have "bfs_edges (trail_max_edges config) n (trail_direction config) d (ef_edges f)
          (if ef_truncated f then bfs_truncate (bfs_add_node node s) else bfs_add_node node s)
        = bfs_expanded ns d f (bfs_add_node node s)"
        using fit by (intro bfs_edges_expanded) (simp_all add: ns_def)
      then have "s' = bfs_expanded ns d f (bfs_add_node node s)" "go \<longleftrightarrow> \<not> tr_truncated (bs_result s')"
        using assms \<open>\<not> tc_max_nodes config \<le> _\<close> node d b f by (auto simp: bfs_visit_def Let_def simp del: if_split)
      then show ?thesis
        using \<open>\<not> tc_max_nodes config \<le> _\<close> node d f fit
        by (intro expand [of node f ns]) (simp_all add: ns_def set_map_filter)
    qed
  qed
qed

lemma bfs_loop_rule [consumes 2, case_names visit finish]:
  assumes "bfs_loop st config s = Inr s'" and "P s"
    and "\<And>s n d queue s1 go. P s \<Longrightarrow> bs_queue s = (n, d) # queue \<Longrightarrow>
       bfs_visit st config n d (s\<lparr>bs_queue := queue\<rparr>) = Inr (s1, go) \<Longrightarrow> if go then P s1 else Q s1"
    and "\<And>s. P s \<Longrightarrow> bs_queue s = [] \<Longrightarrow> Q s"
  shows "Q s'"
  using assms
proof (induction st config s rule: bfs_loop.induct)
  case (1 st config s)
  show ?case
  proof (cases "bs_queue s")
    case Nil
    with 1 show ?thesis by (simp add: bfs_loop.simps)
  next
    case (Cons entry queue)
    obtain n d where entry: "entry = (n, d)" by fastforce
    with Cons 1(2) obtain s1 go where v: "bfs_visit st config n d (s\<lparr>bs_queue := queue\<rparr>) = Inr (s1, go)"
      by (subst (asm) bfs_loop.simps) (auto split: sum.splits)
    then have step: "if go then P s1 else Q s1" using 1(3,4) Cons entry by blast
    show ?thesis
    proof (cases go)
      case True
      then have "bfs_loop st config s1 = Inr s'"
        using 1(2) Cons entry v by (subst (asm) bfs_loop.simps) simp
      with True step 1(1) [OF Cons entry [symmetric] v refl] 1(4,5) show ?thesis by simp
    next
      case False
      then have "s' = s1" using 1(2) Cons entry v by (subst (asm) bfs_loop.simps) simp
      with False step show ?thesis by simp
    qed
  qed
qed

text \<open>The graph, the distances and the admitted edges of a neighbourhood search.\<close>

abbreviation config_graph :: "Storage \<Rightarrow> TrailConfig \<Rightarrow> NodeId \<Rightarrow> nat \<Rightarrow> NodeId set" where
  "config_graph st config \<equiv> trail_graph st (trail_direction config) (traversal_options config)"

abbreviation config_edges :: "Storage \<Rightarrow> TrailConfig \<Rightarrow> NodeId \<Rightarrow> Edge set" where
  "config_edges st config \<equiv>
     admitted_edges st (trail_direction config) (tc_edge_filter config) (tc_caller_scope config) (tc_show_utility_calls config)"

definition bfs_inv :: "Storage \<Rightarrow> TrailConfig \<Rightarrow> bfs_state \<Rightarrow> bool" where
  "bfs_inv st config s \<longleftrightarrow>
     length (tr_nodes (bs_result s)) \<le> tc_max_nodes config
   \<and> length (tr_edges (bs_result s)) \<le> trail_max_edges config
   \<and> tr_omitted_edge_count (bs_result s) = 0
   \<and> bs_visited s = dom (tr_depth_map (bs_result s))
   \<and> search_sound (config_graph st config) (tc_root_id config) (trail_max_depth config)
       (tr_depth_map (bs_result s)) (bs_queue s)"

lemma traversal_options_simps [simp]:
  "bo_edge_filter (traversal_options config) = tc_edge_filter config"
  "bo_caller_scope (traversal_options config) = tc_caller_scope config"
  "bo_show_utility_calls (traversal_options config) = tc_show_utility_calls config"
  "bo_max_depth (traversal_options config) = trail_max_depth config"
  "bo_max_edges_per_node (traversal_options config) = trail_max_edges config"
  by (simp_all add: traversal_options_def)

lemma dom_extend_level [simp]: "dom (extend_level D ns d) = dom D \<union> set ns"
  by (auto simp: extend_level_def)

lemma bfs_add_node_bound:
  "length (tr_nodes (bs_result s)) < k \<Longrightarrow> length (tr_nodes (bs_result (bfs_add_node node s))) \<le> k"
  by (simp add: bfs_add_node_def split: option.split)

lemma bfs_add_node_omitted [simp]:
  "tr_omitted_edge_count (bs_result (bfs_add_node node s)) = tr_omitted_edge_count (bs_result s)"
  by (simp add: bfs_add_node_def split: option.split)

lemma bfs_visit_inv:
  assumes inv: "bfs_inv st config s" and queue: "bs_queue s = (n, d) # q"
    and visit: "bfs_visit st config n d (s\<lparr>bs_queue := q\<rparr>) = Inr (s', go)"
  shows "bfs_inv st config s'"
proof -
  let ?s = "s\<lparr>bs_queue := q\<rparr>"
  note sound = inv [unfolded bfs_inv_def queue, THEN conjunct2, THEN conjunct2, THEN conjunct2, THEN conjunct2]
  have pop: "bfs_inv st config ?s"
    using inv search_sound_pop [OF sound] by (simp add: bfs_inv_def)
  from visit show ?thesis
  proof (cases rule: bfs_visitE)
    case full
    with pop show ?thesis by (simp add: bfs_inv_def bfs_truncate_def)
  next
    case (deep node)
    with pop show ?thesis by (simp add: bfs_inv_def bfs_add_node_bound)
  next
    case (spent node)
    with pop show ?thesis by (simp add: bfs_inv_def bfs_truncate_def bfs_add_node_bound)
  next
    case (expand node f ns)
    have "set ns \<subseteq> config_graph st config n d"
      using expand(6) fetch_sound [OF expand(4)] by (auto simp: dist_neighbors_def)
    moreover have "set ns \<inter> dom (tr_depth_map (bs_result s)) = {}" using expand(6) inv by (auto simp: bfs_inv_def)
    ultimately have "search_sound (config_graph st config) (tc_root_id config) (trail_max_depth config)
        (extend_level (tr_depth_map (bs_result s)) ns (Suc d)) (q @ map (\<lambda>m. (m, Suc d)) ns)"
      using sound expand(3) by (intro search_sound_expand)
    with pop expand(1,5,8) show ?thesis by (simp add: bfs_inv_def bfs_expanded_def bfs_add_node_bound)
  qed
qed

lemma bfs_inv_start: "bfs_inv st config (bfs_start config)"
  by (simp add: bfs_inv_def bfs_start_def TrailResult_default_def search_sound_start)

text \<open>
  As long as nothing was truncated, the nodes and edges collected so far are those of the
  entries that have left the queue.
\<close>

definition bfs_done :: "bfs_state \<Rightarrow> NodeId \<Rightarrow> nat \<Rightarrow> bool" where
  "bfs_done s i d \<longleftrightarrow> tr_depth_map (bs_result s) i = Some d \<and> i \<notin> fst ` set (bs_queue s)"

definition bfs_exact :: "Storage \<Rightarrow> TrailConfig \<Rightarrow> bfs_state \<Rightarrow> bool" where
  "bfs_exact st config s \<longleftrightarrow>
     search_inv (config_graph st config) (tc_root_id config) (trail_max_depth config)
       (tr_depth_map (bs_result s)) (bs_queue s)
   \<and> distinct (map fst (bs_queue s))
   \<and> (\<forall>x. x \<in> set (tr_nodes (bs_result s)) \<longleftrightarrow> (\<exists>i d. bfs_done s i d \<and> get_node st i = Inr (Some x)))
   \<and> (\<forall>e. e \<in> set (tr_edges (bs_result s)) \<longleftrightarrow>
        (\<exists>i d. bfs_done s i d \<and> d < trail_max_depth config \<and> e \<in> config_edges st config i))"

lemma bfs_exact_start: "bfs_exact st config (bfs_start config)"
  by (simp add: bfs_exact_def bfs_done_def bfs_start_def TrailResult_default_def trail_graph.inv_start)

lemma set_bfs_add_node:
  "x \<in> set (tr_nodes (bs_result (bfs_add_node node s))) \<longleftrightarrow> x \<in> set (tr_nodes (bs_result s)) \<or> node = Some x"
  by (auto simp: bfs_add_node_def split: option.split)

lemma bfs_done_pop:
  assumes "search_sound nb start bound (tr_depth_map (bs_result s)) ((n, d) # q)"
    and "bs_queue s = (n, d) # q" and "distinct (map fst (bs_queue s))"
  shows "bfs_done (s\<lparr>bs_queue := q\<rparr>) i k \<longleftrightarrow> bfs_done s i k \<or> (i, k) = (n, d)"
  using assms by (auto simp: bfs_done_def search_sound_def)

lemma bfs_done_expanded:
  assumes "set ns \<inter> dom (tr_depth_map (bs_result s)) = {}"
  shows "bfs_done (bfs_expanded ns d f (bfs_add_node node s)) i k \<longleftrightarrow> bfs_done s i k"
proof (cases "i \<in> set ns")
  case True
  then have "tr_depth_map (bs_result s) i = None" using assms by auto
  with True show ?thesis by (auto simp: bfs_done_def bfs_expanded_def image_image image_Un)
next
  case False
  then show ?thesis by (auto simp: bfs_done_def bfs_expanded_def extend_level_def)
qed

lemma bfs_visit_exact:
  assumes inv: "bfs_inv st config s" and exact: "bfs_exact st config s" and queue: "bs_queue s = (n, d) # q"
    and visit: "bfs_visit st config n d (s\<lparr>bs_queue := q\<rparr>) = Inr (s', go)" and go: "\<not> tr_truncated (bs_result s')"
  shows "bfs_exact st config s'"
proof -
  let ?s = "s\<lparr>bs_queue := q\<rparr>"
  have search: "search_inv (config_graph st config) (tc_root_id config) (trail_max_depth config)
      (tr_depth_map (bs_result s)) ((n, d) # q)" and dist: "distinct (map fst (bs_queue s))"
    using exact queue by (simp_all add: bfs_exact_def)
  have pop: "bfs_done ?s i k \<longleftrightarrow> bfs_done s i k \<or> (i, k) = (n, d)" for i k
    using search [unfolded search_inv_def, THEN conjunct1] queue dist by (rule bfs_done_pop)
  from visit show ?thesis
  proof (cases rule: bfs_visitE)
    case full
    with go show ?thesis by (simp add: bfs_truncate_def)
  next
    case (deep node)
    have d': "bfs_done s' i k \<longleftrightarrow> bfs_done s i k \<or> (i, k) = (n, d)" for i k
      using pop deep(4) by (simp add: bfs_done_def)
    show ?thesis
      unfolding bfs_exact_def d'
      using exact trail_graph.inv_skip [OF search deep(3)] dist queue deep
      by (auto simp: bfs_exact_def set_bfs_add_node)
  next
    case (spent node)
    with go show ?thesis by (simp add: bfs_truncate_def)
  next
    case (expand node f ns)
    have f: "\<not> ef_truncated f" using go expand(8) by (simp add: bfs_expanded_def)
    have edges: "set (ef_edges f) = config_edges st config n" by (rule fetch_complete [OF expand(4) f])
    have vis: "bs_visited s = dom (tr_depth_map (bs_result s))" using inv by (simp add: bfs_inv_def)
    have ns: "set ns = config_graph st config n d - dom (tr_depth_map (bs_result s))"
      using expand(6) by (simp add: dist_neighbors_def edges vis)
    have d': "bfs_done s' i k \<longleftrightarrow> bfs_done s i k \<or> (i, k) = (n, d)" for i k
      unfolding expand(8) by (subst bfs_done_expanded) (use ns pop in auto)
    have "fst ` set q \<subseteq> dom (tr_depth_map (bs_result s))"
      using search by (auto simp: search_inv_def search_sound_def)
    then have "distinct (map fst (bs_queue s'))"
      using dist queue expand(7) ns by (auto simp: expand(8) bfs_expanded_def comp_def)
    then show ?thesis
      unfolding bfs_exact_def d'
      using exact trail_graph.inv_expand [OF search expand(3) ns] expand(2,3)
      by (auto simp: bfs_exact_def set_bfs_add_node expand(8) bfs_expanded_def edges)
  qed
qed

lemma bfs_visit_go:
  assumes "bfs_visit st config n d s = Inr (s', go)" and "\<not> tr_truncated (bs_result s)"
  shows "go \<longleftrightarrow> \<not> tr_truncated (bs_result s')"
  using assms(1) by (cases rule: bfs_visitE) (use assms(2) in \<open>auto simp: bfs_truncate_def\<close>)

lemma bfs_loop_spec:
  assumes "bfs_loop st config (bfs_start config) = Inr s"
  shows "bfs_inv st config s" and "\<not> tr_truncated (bs_result s) \<Longrightarrow> bfs_exact st config s \<and> bs_queue s = []"
proof -
  let ?P = "\<lambda>s. \<not> tr_truncated (bs_result s) \<and> bfs_inv st config s \<and> bfs_exact st config s"
  let ?Q = "\<lambda>s. bfs_inv st config s \<and> (\<not> tr_truncated (bs_result s) \<longrightarrow> bfs_exact st config s \<and> bs_queue s = [])"
  have "?P (bfs_start config)"
    using bfs_inv_start bfs_exact_start by (simp add: bfs_start_def TrailResult_default_def)
  with assms have "?Q s"
  proof (induction rule: bfs_loop_rule)
    case (visit s n d queue s1 go)
    then have "go \<longleftrightarrow> \<not> tr_truncated (bs_result s1)" by (intro bfs_visit_go) auto
    moreover have "bfs_inv st config s1" using visit bfs_visit_inv by blast
    moreover have "\<not> tr_truncated (bs_result s1) \<Longrightarrow> bfs_exact st config s1" using visit bfs_visit_exact by blast
    ultimately show ?case by simp
  qed blast
  then show "bfs_inv st config s" "\<not> tr_truncated (bs_result s) \<Longrightarrow> bfs_exact st config s \<and> bs_queue s = []"
    by blast+
qed

section \<open>Results\<close>

text \<open>Both filters only remove; what stays keeps its depth.\<close>

lemma node_filter_shrinks:
  "set (tr_nodes (apply_trail_node_filter config r)) \<subseteq> set (tr_nodes r)"
  "length (tr_nodes (apply_trail_node_filter config r)) \<le> length (tr_nodes r)"
  "length (tr_edges (apply_trail_node_filter config r)) \<le> length (tr_edges r)"
  "tr_depth_map (apply_trail_node_filter config r) n = Some d \<Longrightarrow> tr_depth_map r n = Some d"
  "tr_truncated (apply_trail_node_filter config r) = tr_truncated r"
  "tr_omitted_edge_count (apply_trail_node_filter config r) = tr_omitted_edge_count r"
  by (auto simp: apply_trail_node_filter_def Let_def intro: order_trans [OF length_filter_le] split: if_splits)

lemma retain_frame [simp]:
  "tr_nodes (retain_selected_edges r) = tr_nodes r"
  "tr_depth_map (retain_selected_edges r) = tr_depth_map r"
  "tr_truncated (retain_selected_edges r) = tr_truncated r"
  by (simp_all add: retain_selected_edges_def Let_def)

lemma retain_counts:
  "length (tr_edges (retain_selected_edges r)) + tr_omitted_edge_count (retain_selected_edges r)
     = length (tr_edges r) + tr_omitted_edge_count r"
  by (simp add: retain_selected_edges_def Let_def del: de_Morgan_conj) (simp only: sum_length_filter_compl)

lemma set_retain:
  "e \<in> set (tr_edges (retain_selected_edges r)) \<longleftrightarrow>
     e \<in> set (tr_edges r) \<and> effective_source e \<in> nd_id ` set (tr_nodes r) \<and> effective_target e \<in> nd_id ` set (tr_nodes r)"
  by (auto simp: retain_selected_edges_def Let_def)

lemma get_trail_bfs_cases:
  assumes "get_trail_bfs st config = Inr r"
  obtains s where "bfs_loop st config (bfs_start config) = Inr s"
    and "r = retain_selected_edges (apply_trail_node_filter config (bs_result s))"
  using assms by (auto simp: get_trail_bfs_def split: sum.splits)

text \<open>
  A store that answers every query from a table of rows in id order, which is what the edge
  query asks of SQLite.
\<close>

definition serves_table :: "Storage \<Rightarrow> EdgeRow list \<Rightarrow> bool" where
  "serves_table st table \<longleftrightarrow>
     (\<forall>dir n. edge_rows st dir n = Inr (map Inr (filter (\<lambda>r. where_clause dir n (rw_edge r)) table)))"

definition table_storage :: "Node list \<Rightarrow> EdgeRow list \<Rightarrow> Storage" where
  "table_storage nodes table =
     \<lparr>get_node = (\<lambda>n. Inr (find (\<lambda>x. nd_id x = n) nodes)),
      edge_rows = (\<lambda>dir n. Inr (map Inr (filter (\<lambda>r. where_clause dir n (rw_edge r)) table)))\<rparr>"

lemma table_storage_serves: "serves_table (table_storage nodes table) table"
  by (simp add: serves_table_def table_storage_def)

definition sample_row :: "int \<Rightarrow> int \<Rightarrow> int \<Rightarrow> EdgeRow" where
  "sample_row i s t =
     \<lparr>rw_edge = Edge_default\<lparr>ed_id := EdgeId i, ed_source := NodeId s, ed_target := NodeId t, ed_kind := EK_USAGE\<rparr>,
      rw_target_symbol = ''f'', rw_caller_file_path = None\<rparr>"

text \<open>Nodes 1, 2, 3, 4 and the edges 1-2, 2-3, 1-3, 3-4.\<close>

definition sample_storage :: Storage where
  "sample_storage =
     table_storage (map (\<lambda>i. Node_default\<lparr>nd_id := NodeId i\<rparr>) [1, 2, 3, 4])
       [sample_row 1 1 2, sample_row 2 2 3, sample_row 3 1 3, sample_row 4 3 4]"

definition sample_config :: TrailConfig where
  "sample_config =
     TrailConfig_default\<lparr>tc_root_id := NodeId 1, tc_mode := AllReferenced, tc_target_id := Some (NodeId 4)\<rparr>"

definition sample_trail :: TrailResult where
  "sample_trail = (case get_trail_bfs sample_storage sample_config of Inr r \<Rightarrow> r | Inl _ \<Rightarrow> TrailResult_default)"

lemma sample_trail_facts:
  "\<not> isl (get_trail_bfs sample_storage sample_config)"
  "\<not> tr_truncated sample_trail"
  "map (\<lambda>e. edge_id_val (ed_id e)) (tr_edges sample_trail) = [1, 3, 2, 4]"
  "map (tr_depth_map sample_trail) [NodeId 1, NodeId 2, NodeId 3, NodeId 4, NodeId 5] = [Some 0, Some 1, Some 1, Some 2, None]"
  by code_simp+

lemma sample_trail_eq: "get_trail_bfs sample_storage sample_config = Inr sample_trail"
  using sample_trail_facts(1) by (auto simp: sample_trail_def isl_def split: sum.splits)

text \<open>Every neighbourhood trail respects its limits: at most \<^verbatim>\<open>max_nodes\<close> nodes, at
  most \<^verbatim>\<open>max(3 * max_nodes, 128)\<close> edges (those the result omits included), each edge
  between two nodes of the result, and each recorded depth is the length of a walk from the root
  along admitted edges, within the depth limit, whether or not the search was cut short.
\<close>

theorem trail_bfs_bounded:
  assumes "get_trail_bfs st config = Inr r"
  shows "length (tr_nodes r) \<le> tc_max_nodes config
    \<and> length (tr_edges r) + tr_omitted_edge_count r \<le> max (sat_mul64 (tc_max_nodes config) 3) 128
    \<and> (\<forall>e \<in> set (tr_edges r). {effective_source e, effective_target e} \<subseteq> nd_id ` set (tr_nodes r))
    \<and> (\<forall>n d. tr_depth_map r n = Some d \<longrightarrow>
         d \<le> trail_max_depth config \<and> layered_walk (config_graph st config) (tc_root_id config) (trail_max_depth config) d n)"
proof -
  obtain s where s: "bfs_loop st config (bfs_start config) = Inr s"
    and r: "r = retain_selected_edges (apply_trail_node_filter config (bs_result s))"
    using assms by (rule get_trail_bfs_cases)
  have inv: "bfs_inv st config s" by (rule bfs_loop_spec(1) [OF s])
  let ?f = "apply_trail_node_filter config (bs_result s)"
  have "length (tr_nodes r) \<le> tc_max_nodes config"
    using inv node_filter_shrinks(2) [of config "bs_result s"] by (simp add: r bfs_inv_def)
  moreover have "length (tr_edges r) + tr_omitted_edge_count r \<le> max (sat_mul64 (tc_max_nodes config) 3) 128"
    using inv node_filter_shrinks(3) [of config "bs_result s"]
    by (simp add: r retain_counts node_filter_shrinks(6) bfs_inv_def trail_max_edges_def)
  moreover have "\<forall>e \<in> set (tr_edges r). {effective_source e, effective_target e} \<subseteq> nd_id ` set (tr_nodes r)"
    by (simp add: r set_retain)
  moreover have "d \<le> trail_max_depth config
      \<and> layered_walk (config_graph st config) (tc_root_id config) (trail_max_depth config) d n"
    if "tr_depth_map r n = Some d" for n d
  proof -
    have "layered_walk (config_graph st config) (tc_root_id config) (trail_max_depth config) d n"
      using that inv node_filter_shrinks(4) [of config "bs_result s"] by (simp add: r bfs_inv_def search_sound_def)
    with layered_walk_bound [OF this] show ?thesis by simp
  qed
  ultimately show ?thesis by simp
qed

theorem trail_bfs_bounded_witness:
  "length (tr_nodes sample_trail) \<le> tc_max_nodes sample_config
   \<and> layered_walk (config_graph sample_storage sample_config) (NodeId 1) 2 2 (NodeId 4)"
proof -
  have "tr_depth_map sample_trail (NodeId 4) = Some 2" using sample_trail_facts(4) by simp
  moreover have "tc_root_id sample_config = NodeId 1" "trail_max_depth sample_config = 2"
    by (simp_all add: sample_config_def trail_max_depth_def TrailConfig_default_def)
  ultimately show ?thesis using trail_bfs_bounded [OF sample_trail_eq] by simp
qed

text \<open>C12: a neighbourhood trail that is not marked truncated, without a node filter, is exactly the
  neighbourhood: its depths are the shortest distances from the root within the depth limit, its
  nodes are the stored nodes at those ids, and its edges are the admitted edges of the nodes
  below the limit whose two ends are in the result.
\<close>

theorem trail_bfs_exact:
  assumes "get_trail_bfs st config = Inr r" and "\<not> tr_truncated r" and "tc_node_filter config = []"
  shows "(\<forall>n d. tr_depth_map r n = Some d \<longleftrightarrow>
        layered_walk (config_graph st config) (tc_root_id config) (trail_max_depth config) d n
        \<and> (\<forall>k. layered_walk (config_graph st config) (tc_root_id config) (trail_max_depth config) k n \<longrightarrow> d \<le> k))
    \<and> (\<forall>x. x \<in> set (tr_nodes r) \<longleftrightarrow> (\<exists>n \<in> dom (tr_depth_map r). get_node st n = Inr (Some x)))
    \<and> (\<forall>e. e \<in> set (tr_edges r) \<longleftrightarrow>
         (\<exists>n d. tr_depth_map r n = Some d \<and> d < trail_max_depth config \<and> e \<in> config_edges st config n)
         \<and> {effective_source e, effective_target e} \<subseteq> nd_id ` set (tr_nodes r))"
proof -
  obtain s where s: "bfs_loop st config (bfs_start config) = Inr s"
    and r: "r = retain_selected_edges (bs_result s)"
    using assms(1,3) by (auto simp: apply_trail_node_filter_def elim: get_trail_bfs_cases)
  then have exact: "bfs_exact st config s" and q: "bs_queue s = []"
    using bfs_loop_spec(2) [OF s] assms(2) by simp_all
  have dm: "tr_depth_map r = tr_depth_map (bs_result s)" by (simp add: r)
  have "search_inv (config_graph st config) (tc_root_id config) (trail_max_depth config) (tr_depth_map r) []"
    using exact q by (simp add: bfs_exact_def dm)
  note exactly = trail_graph.done_exact [OF this]
  moreover have "x \<in> set (tr_nodes r) \<longleftrightarrow> (\<exists>n \<in> dom (tr_depth_map r). get_node st n = Inr (Some x))" for x
    using exact by (auto simp: bfs_exact_def bfs_done_def q r)
  moreover have "e \<in> set (tr_edges (bs_result s)) \<longleftrightarrow>
      (\<exists>n d. tr_depth_map r n = Some d \<and> d < trail_max_depth config \<and> e \<in> config_edges st config n)" for e
    using exact by (simp add: bfs_exact_def bfs_done_def q r)
  moreover have "e \<in> set (tr_edges r) \<longleftrightarrow> e \<in> set (tr_edges (bs_result s))
      \<and> {effective_source e, effective_target e} \<subseteq> nd_id ` set (tr_nodes r)" for e
    by (simp add: r set_retain)
  ultimately show ?thesis by (simp only:) blast
qed

theorem trail_bfs_exact_witness:
  "layered_walk (config_graph sample_storage sample_config) (NodeId 1) 2 2 (NodeId 4)
   \<and> \<not> layered_walk (config_graph sample_storage sample_config) (NodeId 1) 2 1 (NodeId 4)
   \<and> (\<forall>k. \<not> layered_walk (config_graph sample_storage sample_config) (NodeId 1) 2 k (NodeId 5))"
proof -
  have "tc_root_id sample_config = NodeId 1" "trail_max_depth sample_config = 2" "tc_node_filter sample_config = []"
    by (simp_all add: sample_config_def trail_max_depth_def TrailConfig_default_def)
  with trail_bfs_exact [OF sample_trail_eq sample_trail_facts(2)]
  have exact: "tr_depth_map sample_trail n = Some d \<longleftrightarrow>
      layered_walk (config_graph sample_storage sample_config) (NodeId 1) 2 d n
      \<and> (\<forall>k. layered_walk (config_graph sample_storage sample_config) (NodeId 1) 2 k n \<longrightarrow> d \<le> k)" for n d
    by simp
  have "\<not> layered_walk (config_graph sample_storage sample_config) (NodeId 1) 2 k (NodeId 5)" for k
  proof
    assume "layered_walk (config_graph sample_storage sample_config) (NodeId 1) 2 k (NodeId 5)"
    then have "\<exists>d. tr_depth_map sample_trail (NodeId 5) = Some d"
      using exact exists_least_iff [of "\<lambda>k. layered_walk (config_graph sample_storage sample_config) (NodeId 1) 2 k (NodeId 5)"]
      by (meson not_less)
    then show False using sample_trail_facts(4) by simp
  qed
  moreover have d: "tr_depth_map sample_trail (NodeId 4) = Some 2" using sample_trail_facts(4) by simp
  moreover have "\<not> layered_walk (config_graph sample_storage sample_config) (NodeId 1) 2 1 (NodeId 4)"
  proof
    assume "layered_walk (config_graph sample_storage sample_config) (NodeId 1) 2 1 (NodeId 4)"
    with exact d have "(2 :: nat) \<le> 1" by blast
    then show False by simp
  qed
  ultimately show ?thesis using exact by blast
qed

text \<open>The distance search behind a path query is exact: when it reports no truncation, its map
  holds a node exactly if a walk along admitted edges within the depth limit reaches it, with the
  length of the shortest such walk; distances never exceed the node cap, cut short or not, so the
  saturating addition never saturates.
\<close>

theorem bfs_distances_exact:
  assumes "bfs_distances st start dir opts = Inr (dists, truncated)" and "bo_max_depth opts \<le> u32_max"
  shows "(\<not> truncated \<longrightarrow> (\<forall>n d. map_of dists n = Some d \<longleftrightarrow>
        layered_walk (trail_graph st dir opts) start (bo_max_depth opts) d n
        \<and> (\<forall>k. layered_walk (trail_graph st dir opts) start (bo_max_depth opts) k n \<longrightarrow> d \<le> k)))
    \<and> (\<forall>n d. map_of dists n = Some d \<longrightarrow>
         d \<le> bo_max_nodes opts \<and> layered_walk (trail_graph st dir opts) start (bo_max_depth opts) d n)"
proof -
  note inv = bfs_distances_inv [OF assms]
  have "d \<le> bo_max_nodes opts" if "map_of dists n = Some d" for n d
    using inv(3) map_of_SomeD [OF that] unfolding dist_levels_def by force
  moreover have "\<forall>n d. map_of dists n = Some d \<longrightarrow> layered_walk (trail_graph st dir opts) start (bo_max_depth opts) d n"
    using inv(1) unfolding search_sound_def by blast
  ultimately show ?thesis by (intro conjI impI allI) (erule trail_graph.done_exact [OF inv(2)], blast+)
qed

theorem bfs_distances_exact_witness:
  "\<exists>dists. bfs_distances sample_storage (NodeId 1) Outgoing (traversal_options sample_config) = Inr (dists, False)
     \<and> map_of dists (NodeId 4) = Some 2
     \<and> layered_walk (trail_graph sample_storage Outgoing (traversal_options sample_config)) (NodeId 1) 2 2 (NodeId 4)"
proof -
  have run: "bfs_distances sample_storage (NodeId 1) Outgoing (traversal_options sample_config)
      = Inr ([(NodeId 1, 0), (NodeId 2, 1), (NodeId 3, 1), (NodeId 4, 2)], False)" by code_simp
  have "trail_max_depth sample_config = 2" by (simp add: sample_config_def trail_max_depth_def TrailConfig_default_def)
  then show ?thesis using bfs_distances_exact [OF run] by (simp add: run u32_max_def)
qed

end
