(* ===== verification/Trail_Target.thy ===== *)
theory Trail_Target
  imports Trail_Search
begin

text \<open>
  Paths to a target: the search always returns, and what it selects are exactly the nodes on
  the walks from the root to the target within the depth limit.
\<close>

section \<open>The path loop returns\<close>

lemma path_best_candidate:
  "path_best cand es best = Some key \<Longrightarrow> best = Some key \<or> (\<exists>e \<in> set es. cand e = Some key)"
  by (induction cand es best rule: path_best.induct) (fastforce split: option.splits if_splits)+

lemma path_candidate_Some:
  "path_candidate max_depth from_root to_target included current d_cur e = Some (d_to, nxt) \<longleftrightarrow>
     effective_source e = current \<and> effective_target e = nxt \<and> map_of from_root nxt = Some (sat_add32 d_cur 1)
     \<and> map_of to_target nxt = Some d_to \<and> fits_depth max_depth (d_cur + 1 + d_to) \<and> nxt \<in> included"
  by (auto simp: path_candidate_def Let_def split: option.splits if_splits)

lemma path_loop_returns:
  assumes "\<And>n d. map_of from_root n = Some d \<Longrightarrow> d \<le> C" and "C < u32_max"
  shows "\<exists>r. path_loop st config opts from_root to_target included target current path t = Some r"
proof (induction "case map_of from_root current of None \<Rightarrow> 0 | Some d \<Rightarrow> Suc C - d"
    arbitrary: current path t rule: less_induct)
  case less
  show ?case
  proof (cases "current = target \<or> map_of from_root current = None")
    case True
    then show ?thesis by (subst path_loop.simps) auto
  next
    case False
    then obtain d where d: "current \<noteq> target" "map_of from_root current = Some d" by blast
    let ?fetch = "get_edges_for_node_limited st current Outgoing (tc_edge_filter config)
      (tc_caller_scope config) (tc_show_utility_calls config) (Some (bo_max_edges_per_node opts))"
    show ?thesis
    proof (cases "\<exists>f key. ?fetch = Inr f \<and> path_best (path_candidate (bo_max_depth opts) from_root to_target included current d)
        (ef_edges f) None = Some key")
      case True
      then obtain f d_to nxt where f: "?fetch = Inr f" and best: "path_best (path_candidate (bo_max_depth opts)
          from_root to_target included current d) (ef_edges f) None = Some (d_to, nxt)" by auto
      have "map_of from_root nxt = Some (sat_add32 d 1)"
        using path_best_candidate [OF best] by (auto simp: path_candidate_Some)
      moreover have "d \<le> C" using assms(1) d(2) by blast
      ultimately have "\<exists>r. path_loop st config opts from_root to_target included target nxt (path @ [nxt])
          (t \<or> ef_truncated f) = Some r"
        using assms(2) d by (intro less) (simp add: sat_add32_def)
      then show ?thesis using d f best by (subst path_loop.simps) simp
    next
      case False
      then show ?thesis using d by (subst path_loop.simps) (auto split: sum.split option.split)
    qed
  qed
qed

lemma trail_max_depth_le: "tc_depth config \<le> u32_max \<Longrightarrow> trail_max_depth config \<le> u32_max"
  by (simp add: trail_max_depth_def)

text \<open>C15: every trail query returns: the neighbourhood search and the distance searches terminate, and
  the path reconstruction, a loop without a bound of its own, reaches the target or stops because
  each step moves one level away from the root and the levels are capped.
\<close>

theorem get_trail_total:
  assumes "tc_depth config \<le> u32_max"
  shows "\<exists>r. get_trail st config = Some r"
proof -
  let ?opts = "traversal_options config"
  have cap: "bo_max_nodes ?opts \<le> 100000" by (simp add: traversal_options_def)
  have "\<exists>r. path_loop st config ?opts from_root to_target included target current path t = Some r"
    if "bfs_distances st (tc_root_id config) Outgoing ?opts = Inr (from_root, tr)"
    for from_root tr to_target included target current path t
  proof (rule path_loop_returns [where C = 100000])
    fix n d
    assume "map_of from_root n = Some d"
    then have "d \<in> snd ` set from_root" by (force dest: map_of_SomeD)
    then show "d \<le> 100000"
      using bfs_distances_inv(3) [OF that] trail_max_depth_le [OF assms] cap unfolding dist_levels_def by fastforce
  qed (simp add: u32_max_def)
  note returns = this
  have "\<exists>r. get_trail_to_target st config = Some r"
  proof (cases "bfs_distances st (tc_root_id config) Outgoing ?opts")
    case (Inr p)
    with returns [of "fst p" "snd p"] have "path_loop st config ?opts (fst p) to_target included target current path t \<noteq> None"
      for to_target included target current path t by force
    with Inr show ?thesis
      by (auto simp: get_trail_to_target_def Let_def simp del: not_None_eq split: option.split sum.split prod.split)
  qed (auto simp: get_trail_to_target_def split: option.split)
  then show ?thesis by (cases "tc_mode config") (auto simp: get_trail_def)
qed

theorem get_trail_total_witness:
  "\<exists>r. get_trail sample_storage (sample_config\<lparr>tc_mode := ToTargetSymbol\<rparr>) = Some r"
  by (rule get_trail_total) (simp add: sample_config_def TrailConfig_default_def u32_max_def)

section \<open>The graph of a table\<close>

text \<open>One admitted edge, as a relation on nodes; \<open>R ^^ i\<close> are the walks of \<open>i\<close> edges.\<close>

definition trail_edge :: "Storage \<Rightarrow> TrailConfig \<Rightarrow> (NodeId \<times> NodeId) set" where
  "trail_edge st config =
     {(a, b). \<exists>e \<in> admitted_edges st Outgoing (tc_edge_filter config) (tc_caller_scope config)
                    (tc_show_utility_calls config) a. effective_target e = b}"

lemma layered_walk_relpow:
  assumes "\<And>n d. nb n d = {m. (n, m) \<in> R}"
  shows "layered_walk nb start bound d n \<longleftrightarrow> (start, n) \<in> R ^^ d \<and> d \<le> bound"
proof (induction d arbitrary: n)
  case 0
  then show ?case by (auto intro: layered_walk.start elim: layered_walk_0E)
next
  case (Suc d)
  have "layered_walk nb start bound (Suc d) n \<longleftrightarrow>
      (\<exists>m. layered_walk nb start bound d m \<and> d < bound \<and> (m, n) \<in> R)"
    using assms by (auto intro: layered_walk.step elim!: layered_walk_SucE)
  then show ?case using Suc by auto
qed

lemma outgoing_graph: "trail_graph st Outgoing (traversal_options config) n d = {m. (n, m) \<in> trail_edge st config}"
  by (auto simp: dist_neighbors_def trail_edge_def neighbor_of_admitted)

lemma forward_walk:
  "layered_walk (trail_graph st Outgoing (traversal_options config)) start bound d n \<longleftrightarrow>
     (start, n) \<in> trail_edge st config ^^ d \<and> d \<le> bound"
  by (rule layered_walk_relpow) (rule outgoing_graph)

lemma row_edge_ends:
  "ed_source (row_edge r) = ed_source (rw_edge r)" "ed_target (row_edge r) = ed_target (rw_edge r)"
  "ed_resolved_source (row_edge r) = ed_resolved_source (rw_edge r)"
  "ed_resolved_target (row_edge r) = Some n \<Longrightarrow> ed_resolved_target (rw_edge r) = Some n"
  by (auto simp: row_edge_def Let_def split: if_splits)

lemma effective_in_where:
  "effective_source (row_edge r) = n \<Longrightarrow> where_clause Outgoing n (rw_edge r)"
  "effective_target (row_edge r) = n \<Longrightarrow> where_clause Incoming n (rw_edge r)"
  using row_edge_ends [of r]
  by (auto simp: effective_source_def effective_target_def where_clause_def split: option.splits)

text \<open>The checks on a row that do not depend on the node.\<close>

definition row_base :: "EdgeKind list \<Rightarrow> TrailCallerScope \<Rightarrow> bool \<Rightarrow> EdgeRow \<Rightarrow> bool" where
  "row_base filt scope util r \<longleftrightarrow>
     \<not> (ed_kind (row_edge r) = EK_CALL \<and> \<not> util \<and> is_common_unqualified_call_name (rw_target_symbol r))
     \<and> is_caller_scope_allowed scope (rw_caller_file_path r)
     \<and> (filt = [] \<or> List.member filt (ed_kind (row_edge r)))"

lemma row_selected_base:
  "row_selected n Outgoing filt scope util r \<longleftrightarrow> row_base filt scope util r \<and> effective_source (row_edge r) = n"
  "row_selected n Incoming filt scope util r \<longleftrightarrow> row_base filt scope util r \<and> effective_target (row_edge r) = n"
  by (auto simp: row_selected_def row_base_def Let_def)

lemma admitted_in_table:
  assumes "serves_table st table"
  shows "admitted_edges st Outgoing filt scope util n =
      {row_edge r |r. r \<in> set table \<and> row_base filt scope util r \<and> effective_source (row_edge r) = n}"
    and "admitted_edges st Incoming filt scope util n =
      {row_edge r |r. r \<in> set table \<and> row_base filt scope util r \<and> effective_target (row_edge r) = n}"
proof -
  have rows: "edge_rows st dir n = Inr (map Inr (filter (\<lambda>r. where_clause dir n (rw_edge r)) table))" for dir
    using assms by (simp add: serves_table_def)
  show "admitted_edges st Outgoing filt scope util n =
      {row_edge r |r. r \<in> set table \<and> row_base filt scope util r \<and> effective_source (row_edge r) = n}"
    unfolding admitted_edges_def rows using effective_in_where(1) by (auto simp: row_selected_base)
  show "admitted_edges st Incoming filt scope util n =
      {row_edge r |r. r \<in> set table \<and> row_base filt scope util r \<and> effective_target (row_edge r) = n}"
    unfolding admitted_edges_def rows using effective_in_where(2) by (auto simp: row_selected_base)
qed

text \<open>In a table, an edge admitted at its source is admitted at its target.\<close>

lemma incoming_edge:
  assumes "serves_table st table"
  shows "(\<exists>e \<in> admitted_edges st Incoming (tc_edge_filter config) (tc_caller_scope config)
      (tc_show_utility_calls config) b. effective_source e = a) \<longleftrightarrow> (a, b) \<in> trail_edge st config"
  unfolding trail_edge_def admitted_in_table [OF assms] by auto

section \<open>Distances from the root and to the target\<close>

text \<open>Both distance searches over a table, neither cut short.\<close>

definition target_search ::
  "Storage \<Rightarrow> EdgeRow list \<Rightarrow> TrailConfig \<Rightarrow> NodeId \<Rightarrow> distances \<Rightarrow> distances \<Rightarrow> bool" where
  "target_search st table config target from_root to_target \<longleftrightarrow>
     serves_table st table \<and> tc_depth config \<le> u32_max
     \<and> bfs_distances st (tc_root_id config) Outgoing (traversal_options config) = Inr (from_root, False)
     \<and> bfs_distances_to_target_through_root_reachable st target from_root (traversal_options config) = Inr (to_target, False)"

lemma depth_limit: "tc_depth config \<le> u32_max \<Longrightarrow> bo_max_depth (traversal_options config) \<le> u32_max"
  by (simp add: trail_max_depth_le)

lemma from_root_exact:
  assumes "target_search st table config target from_root to_target"
  shows "map_of from_root n = Some d \<longleftrightarrow>
    (tc_root_id config, n) \<in> trail_edge st config ^^ d \<and> d \<le> trail_max_depth config
    \<and> (\<forall>k \<le> trail_max_depth config. (tc_root_id config, n) \<in> trail_edge st config ^^ k \<longrightarrow> d \<le> k)"
proof -
  from assms have "bfs_distances st (tc_root_id config) Outgoing (traversal_options config) = Inr (from_root, False)"
    and "tc_depth config \<le> u32_max" by (simp_all add: target_search_def)
  from bfs_distances_inv(2) [OF this(1) depth_limit [OF this(2)]]
  have "search_inv (trail_graph st Outgoing (traversal_options config)) (tc_root_id config)
      (trail_max_depth config) (map_of from_root) []" by simp
  from trail_graph.done_exact [OF this] show ?thesis by (auto simp: forward_walk)
qed

lemma to_target_inv:
  assumes "bfs_distances_to_target_through_root_reachable st target from_root opts = Inr (dists, t)"
    and "bo_max_depth opts \<le> u32_max"
  shows "search_sound (dist_neighbors st Incoming (to_target_candidate from_root opts) opts) target (bo_max_depth opts) (map_of dists) []"
    and "\<not> t \<Longrightarrow> search_inv (dist_neighbors st Incoming (to_target_candidate from_root opts) opts) target (bo_max_depth opts) (map_of dists) []"
    and "dist_levels (bo_max_nodes opts) dists"
proof -
  note run = assms(1) [unfolded bfs_distances_to_target_through_root_reachable_def]
  show "search_sound (dist_neighbors st Incoming (to_target_candidate from_root opts) opts) target (bo_max_depth opts) (map_of dists) []"
    using dist_loop_sound [OF run assms(2)] by (simp add: dist_start search_sound_start)
  show "\<not> t \<Longrightarrow> search_inv (dist_neighbors st Incoming (to_target_candidate from_root opts) opts) target (bo_max_depth opts) (map_of dists) []"
    using dist_loop_exact [OF to_target_graph.layered_search_axioms run assms(2)]
    by (simp add: dist_start to_target_graph.inv_start)
  have "dist_levels (bo_max_nodes opts) [(target, 0)]" by (simp add: dist_levels_def)
  then show "dist_levels (bo_max_nodes opts) dists" using dist_loop_levels [OF run assms(2)] by simp
qed

lemma dist_levels_cap: "dist_levels cap dists \<Longrightarrow> map_of dists n = Some d \<Longrightarrow> d \<le> cap"
  unfolding dist_levels_def by (force dest: map_of_SomeD)

lemma distance_cap:
  assumes "target_search st table config target from_root to_target"
  shows "map_of from_root n = Some d \<Longrightarrow> d \<le> 100000" and "map_of to_target n = Some d \<Longrightarrow> d \<le> 100000"
proof -
  let ?opts = "traversal_options config"
  have cap: "bo_max_nodes ?opts \<le> 100000" by (simp add: traversal_options_def)
  have lim: "bo_max_depth ?opts \<le> u32_max" using assms by (simp add: target_search_def trail_max_depth_le)
  have "dist_levels (bo_max_nodes ?opts) from_root" "dist_levels (bo_max_nodes ?opts) to_target"
    using assms bfs_distances_inv(3) [OF _ lim] to_target_inv(3) [OF _ lim] by (auto simp: target_search_def)
  then show "map_of from_root n = Some d \<Longrightarrow> d \<le> 100000" "map_of to_target n = Some d \<Longrightarrow> d \<le> 100000"
    using cap dist_levels_cap order_trans by metis+
qed

text \<open>The neighbours of the search towards the target, read forwards.\<close>

lemma to_target_graph:
  assumes "serves_table st table" and "d < u32_max"
  shows "n \<in> dist_neighbors st Incoming (to_target_candidate from_root (traversal_options config)) (traversal_options config) m d \<longleftrightarrow>
    (n, m) \<in> trail_edge st config
    \<and> (\<exists>k. map_of from_root n = Some k \<and> fits_depth (trail_max_depth config) (k + Suc d))"
proof -
  have "sat_add32 d 1 = Suc d" using assms(2) by (simp add: sat_add32_def)
  then have "n \<in> dist_neighbors st Incoming (to_target_candidate from_root (traversal_options config)) (traversal_options config) m d \<longleftrightarrow>
      (\<exists>e \<in> admitted_edges st Incoming (tc_edge_filter config) (tc_caller_scope config) (tc_show_utility_calls config) m.
         effective_source e = n) \<and> (\<exists>k. map_of from_root n = Some k \<and> fits_depth (trail_max_depth config) (k + Suc d))"
    by (auto simp: dist_neighbors_def to_target_candidate_def neighbor_of_admitted fits_depth_def split: option.splits if_splits)
  then show ?thesis by (simp add: incoming_edge [OF assms(1)])
qed

lemma from_root_le:
  assumes "target_search st table config target from_root to_target"
    and "(tc_root_id config, n) \<in> trail_edge st config ^^ i" and "i \<le> trail_max_depth config"
  shows "\<exists>k \<le> i. map_of from_root n = Some k"
proof -
  let ?P = "\<lambda>k. (tc_root_id config, n) \<in> trail_edge st config ^^ k"
  have "?P (LEAST k. ?P k)" "(LEAST k. ?P k) \<le> i" using assms(2) by (auto intro: LeastI Least_le)
  moreover have "\<forall>k. ?P k \<longrightarrow> (LEAST k. ?P k) \<le> k" by (auto intro: Least_le)
  ultimately have "map_of from_root n = Some (LEAST k. ?P k)"
    using from_root_exact [OF assms(1)] assms(3) by auto
  with \<open>(LEAST k. ?P k) \<le> i\<close> show ?thesis by blast
qed

lemma to_target_walk_any:
  assumes tab: "serves_table st table" and depth: "tc_depth config \<le> u32_max"
    and run: "bfs_distances_to_target_through_root_reachable st target from_root (traversal_options config) = Inr (to_target, t)"
    and n: "map_of to_target n = Some k"
  shows "(n, target) \<in> trail_edge st config ^^ k"
proof -
  let ?nb = "dist_neighbors st Incoming (to_target_candidate from_root (traversal_options config)) (traversal_options config)"
  have "layered_walk ?nb target (trail_max_depth config) k n"
    using to_target_inv(1) [OF run depth_limit [OF depth]] n by (simp add: search_sound_def)
  then show ?thesis
  proof induction
    case (step d m n)
    have "(n, m) \<in> trail_edge st config"
      using step(2,3) trail_max_depth_le [OF depth] to_target_graph [OF tab, of d n from_root config m] by simp
    then show ?case using step(4) by (rule relpow_Suc_I2)
  qed simp
qed

lemma to_target_walk:
  assumes "target_search st table config target from_root to_target" and "map_of to_target n = Some k"
  shows "(n, target) \<in> trail_edge st config ^^ k"
  using assms to_target_walk_any by (auto simp: target_search_def)

lemma from_root_walk:
  assumes "bfs_distances st (tc_root_id config) Outgoing (traversal_options config) = Inr (from_root, t)"
    and "tc_depth config \<le> u32_max" and "map_of from_root n = Some d"
  shows "(tc_root_id config, n) \<in> trail_edge st config ^^ d"
  using bfs_distances_inv(1) [OF assms(1) depth_limit [OF assms(2)]] assms(3)
  by (simp add: search_sound_def forward_walk)

lemma to_target_le:
  assumes "target_search st table config target from_root to_target"
    and "(tc_root_id config, n) \<in> trail_edge st config ^^ i" and "(n, target) \<in> trail_edge st config ^^ j"
    and "i + j \<le> trail_max_depth config"
  shows "\<exists>k \<le> j. map_of to_target n = Some k"
proof -
  let ?nb = "dist_neighbors st Incoming (to_target_candidate from_root (traversal_options config)) (traversal_options config)"
  have lim: "bo_max_depth (traversal_options config) \<le> u32_max" and tab: "serves_table st table"
    using assms by (simp_all add: target_search_def trail_max_depth_le)
  have "layered_walk ?nb target (trail_max_depth config) j n"
    using assms(2-4)
  proof (induction j arbitrary: i n)
    case 0
    then show ?case by (simp add: layered_walk.start)
  next
    case (Suc j)
    then obtain m where m: "(n, m) \<in> trail_edge st config" "(m, target) \<in> trail_edge st config ^^ j"
      by (meson relpow_Suc_D2)
    then have root_m: "(tc_root_id config, m) \<in> trail_edge st config ^^ Suc i" using Suc(2) by auto
    have walk: "layered_walk ?nb target (trail_max_depth config) j m" using Suc(1) [OF root_m m(2)] Suc(4) by simp
    obtain k where "k \<le> i" "map_of from_root n = Some k" using from_root_le [OF assms(1) Suc(2)] Suc(4) by auto
    then have "n \<in> ?nb m j"
      using m(1) Suc(4) lim to_target_graph [OF tab, of j n from_root config m] by (auto simp: fits_depth_def)
    with walk show ?case using Suc(4) by (auto intro: layered_walk.step)
  qed
  moreover have "search_inv ?nb target (trail_max_depth config) (map_of to_target) []"
    using assms(1) to_target_inv(2) [OF _ lim] by (fastforce simp: target_search_def)
  ultimately show ?thesis using to_target_graph.done_complete by blast
qed

section \<open>The included nodes and the path\<close>

lemma from_root_entry:
  assumes "target_search st table config target from_root to_target"
  shows "(n, d) \<in> set from_root \<longleftrightarrow> map_of from_root n = Some d"
proof -
  have "distinct (map fst from_root)"
    using assms bfs_distances_inv(4) depth_limit by (fastforce simp: target_search_def)
  then show ?thesis by (metis map_of_SomeD map_of_is_SomeI)
qed

lemma set_included:
  "n \<in> set (included_nodes M root_id target from_root to_target) \<longleftrightarrow>
     n = root_id \<or> n = target
     \<or> (\<exists>d k. (n, d) \<in> set from_root \<and> map_of to_target n = Some k \<and> fits_depth M (d + k))"
  by (force simp: included_nodes_def split: option.splits)

lemma included_exact:
  assumes ts: "target_search st table config target from_root to_target" and reach: "map_of from_root target = Some D"
  shows "set (included_nodes (trail_max_depth config) (tc_root_id config) target from_root to_target) =
    {n. \<exists>i j. (tc_root_id config, n) \<in> trail_edge st config ^^ i \<and> (n, target) \<in> trail_edge st config ^^ j
         \<and> i + j \<le> trail_max_depth config}" (is "?inc = ?walks")
proof -
  have sound: "n \<in> ?walks" if "map_of from_root n = Some i" "map_of to_target n = Some j"
    "fits_depth (trail_max_depth config) (i + j)" for n i j
  proof -
    have "i + j \<le> trail_max_depth config"
      using that distance_cap [OF ts] by (cases "trail_max_depth config = u32_max") (fastforce simp: fits_depth_def u32_max_def)+
    then show ?thesis using that from_root_exact [OF ts] to_target_walk [OF ts] by blast
  qed
  have complete: "\<exists>d k. map_of from_root n = Some d \<and> map_of to_target n = Some k
      \<and> fits_depth (trail_max_depth config) (d + k)" if n: "n \<in> ?walks" for n
  proof -
    obtain i j where ij: "(tc_root_id config, n) \<in> trail_edge st config ^^ i" "(n, target) \<in> trail_edge st config ^^ j"
      "i + j \<le> trail_max_depth config" using n by blast
    obtain d where "d \<le> i" "map_of from_root n = Some d" using from_root_le [OF ts ij(1)] ij(3) by auto
    moreover obtain k where "k \<le> j" "map_of to_target n = Some k" using to_target_le [OF ts ij] by blast
    ultimately show ?thesis using ij(3) by (auto simp: fits_depth_def)
  qed
  have "(tc_root_id config, target) \<in> trail_edge st config ^^ D" "D \<le> trail_max_depth config"
    using from_root_exact [OF ts] reach by auto
  then have "tc_root_id config \<in> ?walks" "target \<in> ?walks" by (force intro: exI [of _ 0])+
  then show ?thesis
    using sound complete unfolding set_eq_iff set_included from_root_entry [OF ts] by blast
qed

lemma path_loop_extends:
  assumes "path_loop st config opts from_root to_target included target current path t = Some r"
  shows "\<forall>path' t'. r = Inr (path', t') \<longrightarrow> (t \<longrightarrow> t') \<and> (\<exists>ext. path' = path @ ext \<and> set ext \<subseteq> included)"
proof (rule path_loop.raw_induct [OF _ assms, where P = "\<lambda>st config opts from_root to_target included target current path t r.
    \<forall>path' t'. r = Inr (path', t') \<longrightarrow> (t \<longrightarrow> t') \<and> (\<exists>ext. path' = path @ ext \<and> set ext \<subseteq> included)"], goal_cases)
  case (1 loop st config opts from_root to_target included target current path t r)
  show ?case
  proof (cases "\<exists>d f d_to nxt. current \<noteq> target \<and> map_of from_root current = Some d
      \<and> get_edges_for_node_limited st current Outgoing (tc_edge_filter config) (tc_caller_scope config)
          (tc_show_utility_calls config) (Some (bo_max_edges_per_node opts)) = Inr f
      \<and> path_best (path_candidate (bo_max_depth opts) from_root to_target included current d) (ef_edges f) None
          = Some (d_to, nxt)")
    case True
    then obtain d f d_to nxt where step: "current \<noteq> target" "map_of from_root current = Some d"
      "get_edges_for_node_limited st current Outgoing (tc_edge_filter config) (tc_caller_scope config)
          (tc_show_utility_calls config) (Some (bo_max_edges_per_node opts)) = Inr f"
      and best: "path_best (path_candidate (bo_max_depth opts) from_root to_target included current d) (ef_edges f) None
          = Some (d_to, nxt)" by blast
    then have loop: "loop st config opts from_root to_target included target nxt (path @ [nxt]) (t \<or> ef_truncated f) = Some r"
      using 1(2) by simp
    from path_best_candidate [OF best] have "nxt \<in> included" by (auto simp: path_candidate_Some)
    with 1(1) [OF loop] show ?thesis by fastforce
  next
    case False
    then show ?thesis using 1(2) by (auto split: if_splits option.splits sum.splits)
  qed
qed

lemma path_best_minimal:
  "best = Some key' \<or> (\<exists>e \<in> set es. cand e = Some key') \<Longrightarrow>
     \<exists>key. path_best cand es best = Some key \<and> fst key \<le> fst key'"
proof (induction es arbitrary: best key')
  case (Cons e es)
  show ?case
  proof (cases "cand e")
    case None
    with Cons show ?thesis by auto
  next
    case (Some k)
    let ?best = "case best of None \<Rightarrow> Some k | Some b \<Rightarrow> if key_less k b then Some k else best"
    show ?thesis
    proof (cases "\<exists>e \<in> set es. cand e = Some key'")
      case True
      with Cons(1) [of ?best key'] Some show ?thesis by simp
    next
      case False
      with Cons(2) Some have "best = Some key' \<or> k = key'" by auto
      then have "\<exists>key''. ?best = Some key'' \<and> fst key'' \<le> fst key'"
        by (cases best; cases k; cases key') (auto simp: key_less_def)
      then obtain key'' where "?best = Some key''" "fst key'' \<le> fst key'" by blast
      moreover from this(1) obtain key where "path_best cand es ?best = Some key" "fst key \<le> fst key''"
        using Cons(1) [of ?best key''] by blast
      ultimately show ?thesis using Some by (intro exI [of _ key]) simp
    qed
  qed
qed simp

text \<open>
  One step of the path loop from a node on a shortest walk: some admitted edge continues the
  walk, and whatever the scan picks continues a shortest walk as well.
\<close>

lemma shortest_split:
  assumes ts: "target_search st table config target from_root to_target" and D: "map_of from_root target = Some D"
    and "map_of from_root n = Some d" and "map_of to_target n = Some k" and "d + k \<le> D"
  shows "d + k = D"
proof -
  have "(tc_root_id config, target) \<in> trail_edge st config ^^ (d + k)"
    using from_root_exact [OF ts] assms(3) to_target_walk [OF ts assms(4)] by (auto simp: relpow_add)
  moreover have "D \<le> trail_max_depth config"
    and "\<forall>j \<le> trail_max_depth config. (tc_root_id config, target) \<in> trail_edge st config ^^ j \<longrightarrow> D \<le> j"
    using from_root_exact [OF ts] D by blast+
  ultimately have "D \<le> d + k" using assms(5) order_trans by blast
  with assms(5) show ?thesis by simp
qed

lemma admitted_source: "e \<in> admitted_edges st Outgoing filt scope util n \<Longrightarrow> effective_source e = n"
  by (auto simp: admitted_edges_def row_selected_base split: sum.splits)

lemma path_step:
  assumes ts: "target_search st table config target from_root to_target" and D: "map_of from_root target = Some D"
    and d: "map_of from_root current = Some d" and k: "map_of to_target current = Some k" and dk: "d + k = D"
    and ne: "current \<noteq> target"
    and f: "get_edges_for_node_limited st current Outgoing (tc_edge_filter config) (tc_caller_scope config)
        (tc_show_utility_calls config) b = Inr f" "\<not> ef_truncated f"
    and inc: "included = set (included_nodes (trail_max_depth config) (tc_root_id config) target from_root to_target)"
  shows "\<exists>nxt k'. path_best (path_candidate (trail_max_depth config) from_root to_target included current d)
      (ef_edges f) None = Some (k', nxt) \<and> (current, nxt) \<in> trail_edge st config
      \<and> map_of from_root nxt = Some (Suc d) \<and> map_of to_target nxt = Some k' \<and> k = Suc k'"
proof -
  let ?cand = "path_candidate (trail_max_depth config) from_root to_target included current d"
  have edges: "set (ef_edges f) = admitted_edges st Outgoing (tc_edge_filter config) (tc_caller_scope config)
      (tc_show_utility_calls config) current" by (rule fetch_complete [OF f])
  have sat: "sat_add32 d 1 = Suc d" using distance_cap(1) [OF ts d] by (simp add: sat_add32_def u32_max_def)
  have root: "(tc_root_id config, current) \<in> trail_edge st config ^^ d" and M: "D \<le> trail_max_depth config"
    using from_root_exact [OF ts] d D by blast+
  have walk: "(current, target) \<in> trail_edge st config ^^ k" by (rule to_target_walk [OF ts k])
  then obtain j where j: "k = Suc j" using ne by (cases k) auto
  obtain m where m: "(current, m) \<in> trail_edge st config" "(m, target) \<in> trail_edge st config ^^ j"
    using walk unfolding j by (meson relpow_Suc_D2)
  have root_m: "(tc_root_id config, m) \<in> trail_edge st config ^^ Suc d" using root m(1) by auto
  obtain d' where d': "d' \<le> Suc d" "map_of from_root m = Some d'" using from_root_le [OF ts root_m] M dk j by auto
  obtain j' where j': "j' \<le> j" "map_of to_target m = Some j'" using to_target_le [OF ts root_m m(2)] M dk j by auto
  have "d' + j' = D" using shortest_split [OF ts D d'(2) j'(2)] d'(1) j'(1) dk j by simp
  then have eq: "d' = Suc d" "j' = j" using d'(1) j'(1) dk j by simp_all
  have "m \<in> included"
    unfolding inc included_exact [OF ts D]
    by (intro CollectI exI conjI, rule root_m, rule m(2)) (use M dk j in simp)
  moreover obtain e where e: "e \<in> set (ef_edges f)" "effective_target e = m" "effective_source e = current"
    using m(1) admitted_source unfolding edges trail_edge_def by blast
  ultimately have "?cand e = Some (j, m)"
    unfolding path_candidate_Some sat using eq d' j' M dk j by (simp add: fits_depth_def)
  then obtain k' nxt where best: "path_best ?cand (ef_edges f) None = Some (k', nxt)" "k' \<le> j"
    using path_best_minimal [of None "(j, m)" "ef_edges f" ?cand] e(1) by auto
  then obtain e where "e \<in> set (ef_edges f)" "?cand e = Some (k', nxt)" using path_best_candidate by blast
  then have nxt: "(current, nxt) \<in> trail_edge st config" "map_of from_root nxt = Some (Suc d)" "map_of to_target nxt = Some k'"
    unfolding edges trail_edge_def path_candidate_Some sat by auto
  then have "Suc d + k' = D" using shortest_split [OF ts D] best(2) dk j by fastforce
  with nxt best dk j show ?thesis by auto
qed

lemma path_loop_shortest:
  assumes ts: "target_search st table config target from_root to_target" and D: "map_of from_root target = Some D"
    and inc: "included = set (included_nodes (trail_max_depth config) (tc_root_id config) target from_root to_target)"
    and "map_of from_root current = Some d" and "map_of to_target current = Some k" and "d + k = D"
    and "path_loop st config (traversal_options config) from_root to_target included target current path t = Some (Inr (path', False))"
  shows "\<exists>ext. path' = path @ ext \<and> length ext = k \<and> last (current # ext) = target
    \<and> successively (\<lambda>a b. (a, b) \<in> trail_edge st config) (current # ext)"
  using assms(4-7)
proof (induction k arbitrary: current d path t)
  case 0
  then have "current = target" using to_target_walk [OF ts 0(2)] by simp
  with 0 show ?case by (subst (asm) path_loop.simps) simp
next
  case (Suc k)
  have ne: "current \<noteq> target"
  proof
    assume "current = target"
    with D Suc(2,4) show False by simp
  qed
  let ?best = "\<lambda>f. path_best (path_candidate (trail_max_depth config) from_root to_target included current d) (ef_edges f) None"
  obtain f where f: "get_edges_for_node_limited st current Outgoing (tc_edge_filter config) (tc_caller_scope config)
      (tc_show_utility_calls config) (Some (trail_max_edges config)) = Inr f"
    and loop: "(case ?best f of None \<Rightarrow> Some (Inr (path, t \<or> ef_truncated f))
      | Some key \<Rightarrow> path_loop st config (traversal_options config) from_root to_target included target (snd key)
          (path @ [snd key]) (t \<or> ef_truncated f)) = Some (Inr (path', False))"
    using Suc(2,5) ne by (subst (asm) path_loop.simps) (auto split: sum.splits)
  have "\<not> ef_truncated f"
    using loop path_loop_extends by (cases "?best f") fastforce+
  then obtain nxt k' where step: "?best f = Some (k', nxt)" "(current, nxt) \<in> trail_edge st config"
      "map_of from_root nxt = Some (Suc d)" "map_of to_target nxt = Some k'" "Suc k = Suc k'"
    using path_step [OF ts D Suc(2,3,4) ne f _ inc] by blast
  then obtain ext where "path' = (path @ [nxt]) @ ext" "length ext = k" "last (nxt # ext) = target"
    "successively (\<lambda>a b. (a, b) \<in> trail_edge st config) (nxt # ext)"
    using Suc(1) [of nxt "Suc d" "path @ [nxt]" "t \<or> ef_truncated f"] loop Suc(4) by auto
  with step(2) show ?case by (intro exI [of _ "nxt # ext"]) simp
qed

section \<open>Selecting nodes and edges\<close>

definition selection_ok :: "NodeId list \<times> NodeId set \<Rightarrow> bool" where
  "selection_ok sel \<longleftrightarrow> snd sel = set (fst sel) \<and> distinct (fst sel)"

lemma push_unique_ok: "selection_ok sel \<Longrightarrow> selection_ok (push_unique sel n)"
  and push_unique_set: "selection_ok sel \<Longrightarrow> set (fst (push_unique sel n)) = insert n (set (fst sel))"
  by (cases sel; auto simp: selection_ok_def push_unique_def)+

lemma foldl_push_unique:
  "selection_ok sel \<Longrightarrow> selection_ok (foldl push_unique sel ns)
     \<and> set (fst (foldl push_unique sel ns)) = set (fst sel) \<union> set ns"
  by (induction ns arbitrary: sel) (auto simp: push_unique_ok push_unique_set)

lemma fill_selected_set:
  "selection_ok sel \<Longrightarrow> selection_ok (fill_selected m ns sel)
     \<and> set (fst sel) \<subseteq> set (fst (fill_selected m ns sel))
     \<and> set (fst (fill_selected m ns sel)) \<subseteq> set (fst sel) \<union> set ns"
proof (induction m ns sel rule: fill_selected.induct)
  case (2 m n ns sel)
  then show ?case using push_unique_ok [of sel n] push_unique_set [of sel n] by auto
qed simp

lemma select_nodes_set:
  "distinct (select_nodes config target from_root to_target included path)"
  "insert target (set path) \<subseteq> set (select_nodes config target from_root to_target included path)"
  "set (select_nodes config target from_root to_target included path) \<subseteq> insert target (set path) \<union> set included"
proof -
  let ?start = "push_unique (foldl push_unique ([], {}) path) target"
  have "selection_ok ([], {})" by (simp add: selection_ok_def)
  then have "selection_ok ?start" "set (fst ?start) = insert target (set path)"
    using foldl_push_unique [of "([], {})" path] by (simp_all add: push_unique_ok push_unique_set)
  then show "distinct (select_nodes config target from_root to_target included path)"
    "insert target (set path) \<subseteq> set (select_nodes config target from_root to_target included path)"
    "set (select_nodes config target from_root to_target included path) \<subseteq> insert target (set path) \<union> set included"
    using fill_selected_set [of ?start "tc_max_nodes config" "sort_by (other_cmp from_root to_target) included"]
    by (auto simp: select_nodes_def selection_ok_def)
qed

lemma target_nodes_spec:
  "target_nodes st from_root ns r = Inr r' \<Longrightarrow>
     tr_depth_map r' = (\<lambda>n. if n \<in> set ns then Some (dist_or 0 from_root n) else tr_depth_map r n)
     \<and> tr_truncated r' = tr_truncated r
     \<and> (\<forall>x. x \<in> set (tr_nodes r') \<longleftrightarrow> x \<in> set (tr_nodes r) \<or> (\<exists>n \<in> set ns. get_node st n = Inr (Some x)))"
proof (induction st from_root ns r rule: target_nodes.induct)
  case (2 st from_root n ns r)
  then obtain node where "get_node st n = Inr node" by (auto split: sum.splits)
  with 2 show ?case by (cases node) auto
qed simp

lemma target_edge_loop_spec:
  assumes "snd acc = ed_id ` set (fst acc)" and "distinct (map ed_id (fst acc))"
  shows "snd (target_edge_loop n d sel to_target M es acc) = ed_id ` set (fst (target_edge_loop n d sel to_target M es acc))
    \<and> distinct (map ed_id (fst (target_edge_loop n d sel to_target M es acc)))
    \<and> set (fst (target_edge_loop n d sel to_target M es acc)) \<subseteq> set (fst acc) \<union>
        {e \<in> set es. effective_source e = n \<and> effective_target e \<in> sel
           \<and> (\<exists>k. map_of to_target (effective_target e) = Some k \<and> fits_depth M (d + 1 + k))}"
  using assms
proof (induction es arbitrary: acc)
  case (Cons e es)
  define acc1 where "acc1 = (if effective_source e \<noteq> n \<or> effective_target e \<notin> sel then acc
        else case map_of to_target (effective_target e) of
               None \<Rightarrow> acc
             | Some d_to \<Rightarrow>
                 if \<not> fits_depth M (d + 1 + d_to) then acc
                 else if ed_id e \<in> snd acc then acc
                 else (fst acc @ [e], insert (ed_id e) (snd acc)))"
  have ok: "snd acc1 = ed_id ` set (fst acc1)" "distinct (map ed_id (fst acc1))"
    and kept: "set (fst acc1) \<subseteq> set (fst acc) \<union> {e' \<in> {e}. effective_source e' = n \<and> effective_target e' \<in> sel
           \<and> (\<exists>k. map_of to_target (effective_target e') = Some k \<and> fits_depth M (d + 1 + k))}"
    using Cons(2,3) by (auto simp: acc1_def split: option.split)
  have "target_edge_loop n d sel to_target M (e # es) acc = target_edge_loop n d sel to_target M es acc1"
    by (simp only: target_edge_loop.simps acc1_def)
  moreover note Cons(1) [OF ok]
  ultimately show ?case using kept by (simp only:) auto
qed simp

text \<open>The edges kept: each starts at a selected node and lies on a walk within the limit.\<close>

lemma target_edges_spec:
  assumes "target_edges st config opts from_root to_target sel ns ((es, ids), t) = Inr ((es', ids'), t')"
    and "ids = ed_id ` set es" and "distinct (map ed_id es)"
  shows "distinct (map ed_id es') \<and> (t \<longrightarrow> t') \<and> set es' \<subseteq> set es \<union>
    {e. \<exists>n \<in> set ns. \<exists>d k. map_of from_root n = Some d \<and> map_of to_target (effective_target e) = Some k
        \<and> e \<in> admitted_edges st Outgoing (tc_edge_filter config) (tc_caller_scope config) (tc_show_utility_calls config) n
        \<and> effective_target e \<in> sel \<and> fits_depth (bo_max_depth opts) (d + 1 + k)}"
  using assms
proof (induction ns arbitrary: es ids t)
  case (Cons n ns)
  show ?case
  proof (cases "map_of from_root n")
    case None
    with Cons show ?thesis by fastforce
  next
    case (Some d)
    then obtain f where f: "get_edges_for_node_limited st n Outgoing (tc_edge_filter config) (tc_caller_scope config)
        (tc_show_utility_calls config) (Some (bo_max_edges_per_node opts)) = Inr f"
      using Cons(2) by (auto split: sum.splits)
    let ?acc = "target_edge_loop n d sel to_target (bo_max_depth opts) (ef_edges f) (es, ids)"
    obtain es1 ids1 where acc: "?acc = (es1, ids1)" by fastforce
    have next_run: "target_edges st config opts from_root to_target sel ns ((es1, ids1), t \<or> ef_truncated f) = Inr ((es', ids'), t')"
      using Cons(2) Some f acc by simp
    have es1: "ids1 = ed_id ` set es1" "distinct (map ed_id es1)"
      "set es1 \<subseteq> set es \<union> {e \<in> set (ef_edges f). effective_source e = n \<and> effective_target e \<in> sel
           \<and> (\<exists>k. map_of to_target (effective_target e) = Some k \<and> fits_depth (bo_max_depth opts) (d + 1 + k))}"
      using target_edge_loop_spec [of "(es, ids)" n d sel to_target "bo_max_depth opts" "ef_edges f",
          unfolded acc fst_conv snd_conv, OF Cons(3,4)] by blast+
    note ih = Cons(1) [OF next_run es1(1,2)]
    let ?kept = "\<lambda>ns. {e. \<exists>n \<in> set ns. \<exists>d k. map_of from_root n = Some d \<and> map_of to_target (effective_target e) = Some k
        \<and> e \<in> admitted_edges st Outgoing (tc_edge_filter config) (tc_caller_scope config) (tc_show_utility_calls config) n
        \<and> effective_target e \<in> sel \<and> fits_depth (bo_max_depth opts) (d + 1 + k)}"
    have "set es1 \<subseteq> set es \<union> ?kept (n # ns)" using es1(3) fetch_sound [OF f] Some by auto
    moreover have "?kept ns \<subseteq> ?kept (n # ns)" by auto
    ultimately show ?thesis using ih by blast
  qed
qed simp

section \<open>Path queries\<close>

lemma target_result_cases:
  assumes "target_result st config opts from_root to_target selected0 t = Inr r"
  obtains r1 es ids t' where
    "target_nodes st from_root (sort_by (selected_cmp from_root) selected0) (TrailResult_default\<lparr>tr_truncated := t\<rparr>) = Inr r1"
    "target_edges st config opts from_root to_target (set selected0) (sort_by (selected_cmp from_root) selected0)
       (([], {}), tr_truncated r1) = Inr ((es, ids), t')"
    "r = retain_selected_edges (apply_trail_node_filter config
       (r1\<lparr>tr_edges := sort_by (\<lambda>a b. ord_cmp (ed_id a) (ed_id b)) es, tr_truncated := t'\<rparr>))"
  using assms by (auto simp: target_result_def Let_def split: sum.splits prod.splits)

lemma target_result_spec:
  assumes "target_result st config opts from_root to_target selected t = Inr r"
  shows "t \<Longrightarrow> tr_truncated r"
    and "tc_node_filter config = [] \<Longrightarrow>
      tr_depth_map r = (\<lambda>n. if n \<in> set selected then Some (dist_or 0 from_root n) else None)"
    and "distinct (map ed_id (tr_edges r))"
    and "set (tr_edges r) \<subseteq> {e. \<exists>n \<in> set selected. \<exists>d k. map_of from_root n = Some d \<and> map_of to_target (effective_target e) = Some k
        \<and> e \<in> admitted_edges st Outgoing (tc_edge_filter config) (tc_caller_scope config) (tc_show_utility_calls config) n
        \<and> effective_target e \<in> set selected \<and> fits_depth (bo_max_depth opts) (d + 1 + k)}"
proof -
  from assms obtain r1 es ids t' where
    n: "target_nodes st from_root (sort_by (selected_cmp from_root) selected) (TrailResult_default\<lparr>tr_truncated := t\<rparr>) = Inr r1"
    and e: "target_edges st config opts from_root to_target (set selected) (sort_by (selected_cmp from_root) selected)
       (([], {}), tr_truncated r1) = Inr ((es, ids), t')"
    and r: "r = retain_selected_edges (apply_trail_node_filter config
       (r1\<lparr>tr_edges := sort_by (\<lambda>a b. ord_cmp (ed_id a) (ed_id b)) es, tr_truncated := t'\<rparr>))"
    by (rule target_result_cases)
  note nodes = target_nodes_spec [OF n] and edges = target_edges_spec [OF e]
  show "t \<Longrightarrow> tr_truncated r" using nodes edges by (simp add: r node_filter_shrinks(5))
  show "tr_depth_map r = (\<lambda>n. if n \<in> set selected then Some (dist_or 0 from_root n) else None)"
    if "tc_node_filter config = []"
    using nodes that by (auto simp: r apply_trail_node_filter_def TrailResult_default_def fun_eq_iff)
  have sub: "\<exists>P. tr_edges r = filter P (sort_by (\<lambda>a b. ord_cmp (ed_id a) (ed_id b)) es)"
    by (simp add: r retain_selected_edges_def apply_trail_node_filter_def Let_def) blast
  then have "set (tr_edges r) \<subseteq> set es" by auto
  then show "set (tr_edges r) \<subseteq> {e. \<exists>n \<in> set selected. \<exists>d k. map_of from_root n = Some d \<and> map_of to_target (effective_target e) = Some k
        \<and> e \<in> admitted_edges st Outgoing (tc_edge_filter config) (tc_caller_scope config) (tc_show_utility_calls config) n
        \<and> effective_target e \<in> set selected \<and> fits_depth (bo_max_depth opts) (d + 1 + k)}"
    using edges by auto
  have "mset (map ed_id (sort_by (\<lambda>a b. ord_cmp (ed_id a) (ed_id b)) es)) = mset (map ed_id es)"
    by (simp only: mset_map mset_sort_by)
  then have "distinct (map ed_id (sort_by (\<lambda>a b. ord_cmp (ed_id a) (ed_id b)) es))"
    using edges by (metis mset_eq_imp_distinct_iff empty_set image_empty list.simps(8) distinct.simps(1))
  then show "distinct (map ed_id (tr_edges r))" using sub distinct_map_filter by fastforce
qed

lemma get_trail_to_target_reached:
  assumes "get_trail_to_target st config = Some (Inr r)" and "tc_target_id config = Some target"
    and "bfs_distances st (tc_root_id config) Outgoing (traversal_options config) = Inr (from_root, t1)"
    and "map_of from_root target \<noteq> None"
  obtains to_target t2 included path t3 where
    "bfs_distances_to_target_through_root_reachable st target from_root (traversal_options config) = Inr (to_target, t2)"
    "included = included_nodes (trail_max_depth config) (tc_root_id config) target from_root to_target"
    "path_loop st config (traversal_options config) from_root to_target (set included) target
       (tc_root_id config) [tc_root_id config] False = Some (Inr (path, t3))"
    "target_result st config (traversal_options config) from_root to_target
       (select_nodes config target from_root to_target included path)
       (t1 \<or> t2 \<or> t3 \<or> length included > tc_max_nodes config
        \<or> length (select_nodes config target from_root to_target included path) < length included) = Inr r"
proof -
  obtain to_target t2 where d2: "bfs_distances_to_target_through_root_reachable st target from_root
      (traversal_options config) = Inr (to_target, t2)"
    using assms by (auto simp: get_trail_to_target_def Let_def split: sum.splits prod.splits)
  moreover obtain path t3 where p: "path_loop st config (traversal_options config) from_root to_target
      (set (included_nodes (trail_max_depth config) (tc_root_id config) target from_root to_target)) target
      (tc_root_id config) [tc_root_id config] False = Some (Inr (path, t3))"
    using assms d2 by (auto simp: get_trail_to_target_def Let_def split: option.splits sum.splits prod.splits)
  ultimately show ?thesis
    using assms that by (auto simp: get_trail_to_target_def Let_def)
qed

text \<open>A cut in the selection is reported: without it, the selection is the included set.\<close>

lemma selected_is_included:
  assumes "\<not> length (select_nodes config target from_root to_target included path) < length included"
    and "distinct included" and "insert target (set path) \<subseteq> set included"
  shows "set (select_nodes config target from_root to_target included path) = set included"
proof (rule card_subset_eq)
  let ?sel = "select_nodes config target from_root to_target included path"
  show sub: "set ?sel \<subseteq> set included" using select_nodes_set(3) assms(3) by blast
  have "card (set included) \<le> card (set ?sel)"
    using assms(1,2) select_nodes_set(1) by (simp add: distinct_card)
  then show "card (set ?sel) = card (set included)" using card_mono [OF _ sub] by simp
qed simp

lemma unreachable_no_edges:
  assumes "unreachable_result st config target t = Inr r"
  shows "tr_edges r = []"
proof -
  have "\<exists>r0. r = apply_trail_node_filter config r0 \<and> tr_edges r0 = []"
    using assms by (auto simp: unreachable_result_def TrailResult_default_def Let_def split: sum.splits option.splits if_splits)
  then obtain r0 where "r = apply_trail_node_filter config r0" "tr_edges r0 = []" by blast
  then show ?thesis using node_filter_shrinks(3) [of config r0] by simp
qed

lemma unreached_result:
  assumes "tc_depth config \<le> u32_max" and "tc_node_filter config = []"
    and d1: "bfs_distances st (tc_root_id config) Outgoing (traversal_options config) = Inr (from_root, t1)"
    and none: "map_of from_root target = None"
    and r: "unreachable_result st config target t1 = Inr r" and "\<not> tr_truncated r"
  shows "\<not> (\<exists>i \<le> trail_max_depth config. (tc_root_id config, target) \<in> trail_edge st config ^^ i)"
    and "tr_edges r = []" and "dom (tr_depth_map r) \<subseteq> {tc_root_id config}"
proof -
  have res: "tr_truncated r = t1" "tr_edges r = []" "dom (tr_depth_map r) \<subseteq> {tc_root_id config}"
    using r assms(2) by (auto simp: unreachable_result_def apply_trail_node_filter_def TrailResult_default_def Let_def
        split: sum.splits option.splits if_splits)
  then have "search_inv (trail_graph st Outgoing (traversal_options config)) (tc_root_id config)
      (trail_max_depth config) (map_of from_root) []"
    using bfs_distances_inv(2) [OF d1 depth_limit [OF assms(1)]] assms(6) by simp
  then have "\<not> layered_walk (trail_graph st Outgoing (traversal_options config)) (tc_root_id config) (trail_max_depth config) i target" for i
    using trail_graph.done_complete none by fastforce
  with res show "\<not> (\<exists>i \<le> trail_max_depth config. (tc_root_id config, target) \<in> trail_edge st config ^^ i)"
    "tr_edges r = []" "dom (tr_depth_map r) \<subseteq> {tc_root_id config}" by (auto simp: forward_walk)
qed

lemma reached_result:
  assumes "serves_table st table" and "tc_depth config \<le> u32_max" and "tc_target_id config = Some target"
    and filt: "tc_node_filter config = []" and run: "get_trail_to_target st config = Some (Inr r)" and "\<not> tr_truncated r"
    and d1: "bfs_distances st (tc_root_id config) Outgoing (traversal_options config) = Inr (from_root, t1)"
    and D: "map_of from_root target = Some D"
  obtains to_target where "target_search st table config target from_root to_target"
    and "tr_depth_map r = (\<lambda>n. if n \<in> set (included_nodes (trail_max_depth config) (tc_root_id config) target from_root to_target)
           then Some (dist_or 0 from_root n) else None)"
proof -
  have D': "map_of from_root target \<noteq> None" using D by simp
  obtain to_target t2 included path t3 where
    d2: "bfs_distances_to_target_through_root_reachable st target from_root (traversal_options config) = Inr (to_target, t2)"
    and inc: "included = included_nodes (trail_max_depth config) (tc_root_id config) target from_root to_target"
    and path: "path_loop st config (traversal_options config) from_root to_target (set included) target
       (tc_root_id config) [tc_root_id config] False = Some (Inr (path, t3))"
    and res: "target_result st config (traversal_options config) from_root to_target
       (select_nodes config target from_root to_target included path)
       (t1 \<or> t2 \<or> t3 \<or> length included > tc_max_nodes config
        \<or> length (select_nodes config target from_root to_target included path) < length included) = Inr r"
    by (rule get_trail_to_target_reached [OF run assms(3) d1 D'])
  have flags: "\<not> t1" "\<not> t2" "\<not> length (select_nodes config target from_root to_target included path) < length included"
    using target_result_spec(1) [OF res] assms(6) by blast+
  have sub: "insert target (set path) \<subseteq> set included"
    using path_loop_extends [OF path] unfolding inc by (auto simp: set_included)
  have "distinct included" by (simp add: inc included_nodes_def)
  then have sel: "set (select_nodes config target from_root to_target included path) = set included"
    using sub by (rule selected_is_included [OF flags(3)])
  show ?thesis
  proof
    show "target_search st table config target from_root to_target"
      using assms(1,2) d1 d2 flags by (simp add: target_search_def)
    show "tr_depth_map r = (\<lambda>n. if n \<in> set (included_nodes (trail_max_depth config) (tc_root_id config) target from_root to_target)
        then Some (dist_or 0 from_root n) else None)"
      using target_result_spec(2) [OF res filt] by (simp only: sel inc [symmetric])
  qed
qed

text \<open>C13: a path query over a stored table that is not marked truncated, without a node filter, selects
  exactly the nodes that lie on a walk of admitted edges from the root to the target within the
  depth limit, each with its shortest distance from the root as depth; when no such walk exists it
  returns no edge and at most the root in its depths.
\<close>

theorem trail_to_target_exact:
  assumes "serves_table st table" and "tc_depth config \<le> u32_max" and "tc_target_id config = Some target"
    and "tc_node_filter config = []" and "get_trail_to_target st config = Some (Inr r)" and "\<not> tr_truncated r"
  shows "if \<exists>i \<le> trail_max_depth config. (tc_root_id config, target) \<in> trail_edge st config ^^ i
    then dom (tr_depth_map r) = {n. \<exists>i j. (tc_root_id config, n) \<in> trail_edge st config ^^ i
           \<and> (n, target) \<in> trail_edge st config ^^ j \<and> i + j \<le> trail_max_depth config}
      \<and> (\<forall>n d. tr_depth_map r n = Some d \<longrightarrow> (tc_root_id config, n) \<in> trail_edge st config ^^ d
           \<and> (\<forall>k \<le> trail_max_depth config. (tc_root_id config, n) \<in> trail_edge st config ^^ k \<longrightarrow> d \<le> k))
    else tr_edges r = [] \<and> dom (tr_depth_map r) \<subseteq> {tc_root_id config}"
proof -
  obtain from_root t1 where d1: "bfs_distances st (tc_root_id config) Outgoing (traversal_options config) = Inr (from_root, t1)"
    using assms(3,5) by (auto simp: get_trail_to_target_def Let_def split: sum.splits)
  show ?thesis
  proof (cases "map_of from_root target")
    case None
    then have "unreachable_result st config target t1 = Inr r"
      using assms(3,5) d1 by (simp add: get_trail_to_target_def)
    from unreached_result [OF assms(2,4) d1 None this assms(6)] show ?thesis by (simp only: if_False simp_thms)
  next
    case (Some D)
    then obtain to_target where ts: "target_search st table config target from_root to_target"
      and depths: "tr_depth_map r = (\<lambda>n. if n \<in> set (included_nodes (trail_max_depth config) (tc_root_id config) target from_root to_target)
         then Some (dist_or 0 from_root n) else None)"
      using reached_result [OF assms d1] by blast
    have reach: "\<exists>i \<le> trail_max_depth config. (tc_root_id config, target) \<in> trail_edge st config ^^ i"
      using from_root_exact [OF ts] Some by blast
    have "(tc_root_id config, n) \<in> trail_edge st config ^^ d
        \<and> (\<forall>k \<le> trail_max_depth config. (tc_root_id config, n) \<in> trail_edge st config ^^ k \<longrightarrow> d \<le> k)"
      if n: "tr_depth_map r n = Some d" for n d
    proof -
      have "\<exists>i \<le> trail_max_depth config. (tc_root_id config, n) \<in> trail_edge st config ^^ i"
        using n unfolding depths included_exact [OF ts Some]
        by (auto split: if_splits intro: add_leD1)
      then obtain k where "map_of from_root n = Some k" using from_root_le [OF ts] by blast
      moreover from this have "d = k" using n by (simp add: depths dist_or_def split: if_splits)
      ultimately show ?thesis using from_root_exact [OF ts] by blast
    qed
    moreover have "dom (tr_depth_map r) = set (included_nodes (trail_max_depth config) (tc_root_id config) target from_root to_target)"
      by (auto simp: depths split: if_splits)
    ultimately show ?thesis using reach included_exact [OF ts Some] by simp
  qed
qed

definition sample_target_config :: TrailConfig where
  "sample_target_config = sample_config\<lparr>tc_mode := ToTargetSymbol, tc_target_id := Some (NodeId 4)\<rparr>"

definition sample_target_trail :: TrailResult where
  "sample_target_trail =
     (case get_trail_to_target sample_storage sample_target_config of Some (Inr r) \<Rightarrow> r | _ \<Rightarrow> TrailResult_default)"

text \<open>C14: a node cap never costs the path: whenever the two distance searches and the reconstruction
  were not cut short and the target is reachable, the reconstructed path is a walk of admitted
  edges from the root to the target of the shortest length, and every node of it is selected, even
  when \<^verbatim>\<open>max_nodes\<close> is smaller than the path.
\<close>

theorem trail_path_shortest:
  assumes "target_search st table config target from_root to_target" and "map_of from_root target = Some D"
    and "included = included_nodes (trail_max_depth config) (tc_root_id config) target from_root to_target"
    and "path_loop st config (traversal_options config) from_root to_target (set included) target
       (tc_root_id config) [tc_root_id config] False = Some (Inr (path, False))"
  shows "length path = Suc D \<and> hd path = tc_root_id config \<and> last path = target
    \<and> successively (\<lambda>a b. (a, b) \<in> trail_edge st config) path
    \<and> (\<forall>k \<le> trail_max_depth config. (tc_root_id config, target) \<in> trail_edge st config ^^ k \<longrightarrow> D \<le> k)
    \<and> set path \<subseteq> set (select_nodes config target from_root to_target included path)"
proof -
  have walk: "(tc_root_id config, target) \<in> trail_edge st config ^^ D" "D \<le> trail_max_depth config"
    "\<forall>k \<le> trail_max_depth config. (tc_root_id config, target) \<in> trail_edge st config ^^ k \<longrightarrow> D \<le> k"
    using from_root_exact [OF assms(1)] assms(2) by blast+
  have root: "map_of from_root (tc_root_id config) = Some 0"
    using from_root_exact [OF assms(1), of "tc_root_id config" 0] by simp
  obtain k where k: "k \<le> D" "map_of to_target (tc_root_id config) = Some k"
    using to_target_le [OF assms(1) _ walk(1), of 0] walk(2) by auto
  have "k = D" using shortest_split [OF assms(1,2) root k(2)] k(1) by simp
  then obtain ext where "path = [tc_root_id config] @ ext" "length ext = D" "last (tc_root_id config # ext) = target"
    "successively (\<lambda>a b. (a, b) \<in> trail_edge st config) (tc_root_id config # ext)"
    using path_loop_shortest [OF assms(1,2) _ root k(2) _ assms(4)] assms(3) by auto
  moreover have "set path \<subseteq> set (select_nodes config target from_root to_target included path)"
    using select_nodes_set(2) by blast
  ultimately show ?thesis using walk(3) by simp
qed

text \<open>The edges of a path query are justified, cut short or not: their ids are distinct, and each
  edge is admitted and lies on a walk from the root to the target of admitted edges, within the
  depth limit when there is one.
\<close>

theorem trail_to_target_edges:
  assumes "serves_table st table" and "tc_depth config \<le> u32_max" and "tc_target_id config = Some target"
    and "get_trail_to_target st config = Some (Inr r)"
  shows "distinct (map ed_id (tr_edges r))
    \<and> (\<forall>e \<in> set (tr_edges r). (effective_source e, effective_target e) \<in> trail_edge st config
        \<and> (\<exists>i j. (tc_root_id config, effective_source e) \<in> trail_edge st config ^^ i
             \<and> (effective_target e, target) \<in> trail_edge st config ^^ j
             \<and> (trail_max_depth config = u32_max \<or> i + 1 + j \<le> trail_max_depth config)))"
proof -
  obtain from_root t1 where d1: "bfs_distances st (tc_root_id config) Outgoing (traversal_options config) = Inr (from_root, t1)"
    using assms(3,4) by (auto simp: get_trail_to_target_def Let_def split: sum.splits)
  show ?thesis
  proof (cases "map_of from_root target = None")
    case True
    then have "unreachable_result st config target t1 = Inr r"
      using assms(3,4) d1 by (simp add: get_trail_to_target_def)
    then show ?thesis by (simp add: unreachable_no_edges)
  next
    case False
    obtain to_target t2 included path t3 where
      d2: "bfs_distances_to_target_through_root_reachable st target from_root (traversal_options config) = Inr (to_target, t2)"
      and res: "target_result st config (traversal_options config) from_root to_target
         (select_nodes config target from_root to_target included path)
         (t1 \<or> t2 \<or> t3 \<or> length included > tc_max_nodes config
          \<or> length (select_nodes config target from_root to_target included path) < length included) = Inr r"
      by (rule get_trail_to_target_reached [OF assms(4,3) d1 False])
    have "(effective_source e, effective_target e) \<in> trail_edge st config
        \<and> (\<exists>i j. (tc_root_id config, effective_source e) \<in> trail_edge st config ^^ i
             \<and> (effective_target e, target) \<in> trail_edge st config ^^ j
             \<and> (trail_max_depth config = u32_max \<or> i + 1 + j \<le> trail_max_depth config))"
      if member: "e \<in> set (tr_edges r)" for e
    proof -
      obtain n d k where e: "map_of from_root n = Some d" "map_of to_target (effective_target e) = Some k"
        "e \<in> admitted_edges st Outgoing (tc_edge_filter config) (tc_caller_scope config) (tc_show_utility_calls config) n"
        "fits_depth (trail_max_depth config) (d + 1 + k)"
        using subsetD [OF target_result_spec(4) [OF res] member] unfolding traversal_options_simps by blast
      have n: "effective_source e = n" by (rule admitted_source [OF e(3)])
      have "(n, effective_target e) \<in> trail_edge st config" using e(3) by (auto simp: trail_edge_def)
      moreover have "trail_max_depth config = u32_max \<or> d + 1 + k \<le> trail_max_depth config"
        using e(4) by (simp add: fits_depth_def not_less)
      moreover note from_root_walk [OF d1 assms(2) e(1)] to_target_walk_any [OF assms(1,2) d2 e(2)]
      ultimately show ?thesis unfolding n by (intro conjI exI [of _ d] exI [of _ k])
    qed
    then show ?thesis using target_result_spec(3) [OF res] by blast
  qed
qed

lemma sample_target_facts:
  "get_trail_to_target sample_storage sample_target_config \<noteq> None"
  "\<not> isl (the (get_trail_to_target sample_storage sample_target_config))"
  "\<not> tr_truncated sample_target_trail"
  "map (tr_depth_map sample_target_trail) [NodeId 1, NodeId 2, NodeId 3, NodeId 4] = [Some 0, None, Some 1, Some 2]"
  "map (\<lambda>e. edge_id_val (ed_id e)) (tr_edges sample_target_trail) = [3, 4]"
  by code_simp+

lemma sample_target_eq: "get_trail_to_target sample_storage sample_target_config = Some (Inr sample_target_trail)"
  using sample_target_facts(1,2) by (auto simp: sample_target_trail_def isl_def split: sum.splits)

lemma sample_serves:
  "serves_table sample_storage [sample_row 1 1 2, sample_row 2 2 3, sample_row 3 1 3, sample_row 4 3 4]"
  unfolding sample_storage_def by (rule table_storage_serves)

lemma sample_target_config_facts:
  "tc_depth sample_target_config \<le> u32_max" "tc_target_id sample_target_config = Some (NodeId 4)"
  "tc_node_filter sample_target_config = []" "tc_root_id sample_target_config = NodeId 1"
  "trail_max_depth sample_target_config = 2"
  by (simp_all add: sample_target_config_def sample_config_def TrailConfig_default_def u32_max_def trail_max_depth_def)

lemma if_then_branch: "(if P then X else Y) \<Longrightarrow> \<not> Y \<Longrightarrow> X"
  by (simp split: if_splits)

theorem trail_to_target_exact_witness:
  "(NodeId 1, NodeId 3) \<in> trail_edge sample_storage sample_target_config ^^ 1
   \<and> NodeId 2 \<notin> {n. \<exists>i j. (NodeId 1, n) \<in> trail_edge sample_storage sample_target_config ^^ i
        \<and> (n, NodeId 4) \<in> trail_edge sample_storage sample_target_config ^^ j \<and> i + j \<le> 2}"
proof -
  note exact = trail_to_target_exact [OF sample_serves sample_target_config_facts(1-3) sample_target_eq sample_target_facts(3),
      unfolded sample_target_config_facts(4,5)]
  have d: "tr_depth_map sample_target_trail (NodeId 3) = Some 1" "NodeId 2 \<notin> dom (tr_depth_map sample_target_trail)"
    using sample_target_facts(4) by auto
  then have "\<not> dom (tr_depth_map sample_target_trail) \<subseteq> {NodeId 1}" by force
  then have "dom (tr_depth_map sample_target_trail) = {n. \<exists>i j. (NodeId 1, n) \<in> trail_edge sample_storage sample_target_config ^^ i
        \<and> (n, NodeId 4) \<in> trail_edge sample_storage sample_target_config ^^ j \<and> i + j \<le> 2}"
    and "\<forall>n d. tr_depth_map sample_target_trail n = Some d \<longrightarrow> (NodeId 1, n) \<in> trail_edge sample_storage sample_target_config ^^ d"
    using if_then_branch [OF exact] by blast+
  with d show ?thesis by blast
qed

theorem trail_path_shortest_witness:
  "\<exists>from_root to_target path. target_search sample_storage
       [sample_row 1 1 2, sample_row 2 2 3, sample_row 3 1 3, sample_row 4 3 4]
       sample_target_config (NodeId 4) from_root to_target
     \<and> map_of from_root (NodeId 4) = Some 2 \<and> length path = Suc 2 \<and> last path = NodeId 4
     \<and> successively (\<lambda>a b. (a, b) \<in> trail_edge sample_storage sample_target_config) path"
proof -
  let ?from = "[(NodeId 1, 0 :: nat), (NodeId 2, 1), (NodeId 3, 1), (NodeId 4, 2)]"
  let ?to = "[(NodeId 4, 0 :: nat), (NodeId 3, 1), (NodeId 1, 2)]"
  have "bfs_distances sample_storage (NodeId 1) Outgoing (traversal_options sample_target_config) = Inr (?from, False)"
    "bfs_distances_to_target_through_root_reachable sample_storage (NodeId 4) ?from (traversal_options sample_target_config)
       = Inr (?to, False)" by code_simp+
  then have ts: "target_search sample_storage [sample_row 1 1 2, sample_row 2 2 3, sample_row 3 1 3, sample_row 4 3 4]
      sample_target_config (NodeId 4) ?from ?to"
    using sample_serves sample_target_config_facts by (simp add: target_search_def)
  have inc: "[NodeId 3, NodeId 1, NodeId 4] = included_nodes (trail_max_depth sample_target_config)
      (tc_root_id sample_target_config) (NodeId 4) ?from ?to" by code_simp
  have path: "path_loop sample_storage sample_target_config (traversal_options sample_target_config) ?from ?to
      (set [NodeId 3, NodeId 1, NodeId 4]) (NodeId 4) (tc_root_id sample_target_config) [tc_root_id sample_target_config] False
      = Some (Inr ([NodeId 1, NodeId 3, NodeId 4], False))" by code_simp
  have "map_of ?from (NodeId 4) = Some 2" by simp
  then show ?thesis using ts trail_path_shortest [OF ts _ inc path, of 2] by blast
qed

theorem trail_to_target_edges_witness:
  "tr_edges sample_target_trail \<noteq> [] \<and> distinct (map ed_id (tr_edges sample_target_trail))
   \<and> effective_endpoints ` set (tr_edges sample_target_trail) \<subseteq> trail_edge sample_storage sample_target_config"
  using trail_to_target_edges [OF sample_serves sample_target_config_facts(1,2) sample_target_eq] sample_target_facts(5)
  by (auto simp: effective_endpoints_def)

end
