(* ===== verification/Spec2Isabelle.thy ===== *)
theory Spec2Isabelle
  imports Connection_Safety Graph_Analysis Layout_Facts Query_Language Resolution_Pass Retrieval_Cache Server_Lifecycle Trail_Target
begin

text \<open>
  A verification development of CodeStory, a code-intelligence tool in Rust: it indexes a repository
  into a graph of symbols and edges, resolves the edges, answers structural queries about the graph,
  and retrieves code by embeddings computed in a server process that a user's clients share. Paths
  below are relative to \<^verbatim>\<open>src/crates/\<close>.

  \<^bold>\<open>The program and its parts.\<close> The indexer writes nodes and unresolved edges into the SQLite store;
  its resolution pass then chooses a target for each call, import and override. The runtime reads
  the resolved graph: trails follow edges from a node, the query language drives them, the
  repository report ranks nodes, and the canonical layout folds a graph response for
  display. Retrieval caches results by the version of the index and sends texts to the per-user
  embedding server, which admits requests, hands them to the native engine's queues and answers over
  an authenticated framed protocol. All parts share the contracts of the graph.

  \<^bold>\<open>Theories and the code they model.\<close>

  \<^item> \<open>CS_Prelude\<close>, \<open>Rust_Str\<close>: what the code uses of Rust's standard library (bounded integers,
    \<^verbatim>\<open>str\<close> on UTF-8 bytes, \<^verbatim>\<open>sort_by\<close>, \<^verbatim>\<open>BTreeMap\<close>), the lemma collections and the shared interfaces
    \<open>codec\<close>, \<open>comparator\<close>, \<open>ordered_map\<close>, \<open>machine\<close> and \<open>monotone_machine\<close>.
  \<^item> \<open>Graph_Contracts\<close>: \<^verbatim>\<open>codestory-contracts/src/graph.rs\<close>, \<^verbatim>\<open>graph/error.rs\<close>, \<^verbatim>\<open>api/types.rs\<close> and
    \<^verbatim>\<open>query.rs\<close>: kinds with their persisted discriminants, certainties, nodes, edges with their
    effective endpoints, and the query AST. Every pair of conversions is an interpretation of \<open>codec\<close>.
  \<^item> \<open>Resolution_Names\<close>, \<open>Candidate_Index\<close>, \<open>Semantic_Resolvers\<close>, \<open>Edge_Resolution\<close>,
    \<open>Override_Resolution\<close>, \<open>Resolution_Store\<close>, \<open>Resolution_Pass\<close>: the edge resolution of
    \<^verbatim>\<open>codestory-indexer/src/resolution\<close> and \<^verbatim>\<open>src/semantic\<close>, from the names it takes apart up to
    \<^verbatim>\<open>ResolutionPass::run_with_scope_with_cancel\<close> with its transaction.
  \<^item> \<open>Trail\<close>, \<open>Layered_Search\<close>, \<open>Trail_Search\<close>, \<open>Trail_Target\<close>: \<^verbatim>\<open>codestory-store/src/storage_impl/trail.rs\<close>;
    \<open>layered_search\<close> is the breadth-first search its three loops share.
  \<^item> \<open>Query_Language\<close>, \<open>Graph_Analysis\<close>, \<open>Canonical_Layout\<close> with \<open>Layout_Facts\<close>: \<^verbatim>\<open>query_language.rs\<close>,
    \<^verbatim>\<open>graph_analysis.rs\<close> and \<^verbatim>\<open>graph_canonical.rs\<close> of \<^verbatim>\<open>codestory-runtime/src\<close>.
  \<^item> \<open>Embedding_Admission\<close>, \<open>Engine_Queue\<close>: \<^verbatim>\<open>codestory-llama-sys/src/admission.rs\<close> and the queues,
    scheduler, residency and batching of its \<^verbatim>\<open>lib.rs\<close>.
  \<^item> \<open>Embedding_Protocol\<close>, \<open>Embedding_Wire\<close>, \<open>Embedding_Exchange\<close>: \<^verbatim>\<open>protocol.rs\<close>, \<^verbatim>\<open>exchange.rs\<close>,
    \<^verbatim>\<open>transport.rs\<close>, \<^verbatim>\<open>server/frame.rs\<close> and the responses of \<^verbatim>\<open>server/response.rs\<close> of
    \<^verbatim>\<open>codestory-retrieval/src/per_user_embedding\<close>.
  \<^item> \<open>Server_Admission\<close>, \<open>Server_State\<close>, \<open>Server_Lifecycle\<close>: its \<^verbatim>\<open>admission.rs\<close>, \<^verbatim>\<open>server/state.rs\<close>,
    \<^verbatim>\<open>scheduler.rs\<close> and \<^verbatim>\<open>server/lifecycle.rs\<close>.
  \<^item> \<open>Handler_Monad\<close>, \<open>Connection_Handlers\<close>, \<open>Connection_Safety\<close>: \<^verbatim>\<open>server/connection.rs\<close>,
    \<^verbatim>\<open>server/operation.rs\<close> and \<^verbatim>\<open>server/response.rs\<close>.
  \<^item> \<open>Retrieval_Cache\<close>: \<^verbatim>\<open>codestory-retrieval/src/cache.rs\<close>.

  A struct is a record with a two-letter prefix on its fields, an enum a datatype with the source's
  constructors, a function or method a definition of the same name. A \<^verbatim>\<open>Result\<close> is a sum with the error
  on the left. A value behind a lock is a record that an operation takes and returns; where the order
  of threads matters the operations are the steps of a relation.

  \<^bold>\<open>What is shown.\<close>

  \<^item> Edge resolution. The hash maps of the candidate index answer what scans of its nodes would, and
    its memos are transparent under any interleaving. The target of a call or an import is the first
    of a fixed order of choices, is an indexed node, an import binding or an offered semantic
    candidate, and does not depend on whether candidates are recorded. Overrides are methods of
    proper ancestors, on cyclic inheritance graphs too. A pass changes only calls, imports and
    overrides of its scope, keeps resolved edges labelled with a certainty, reports balanced counts,
    and is atomic: an error leaves the committed tables as they were. The interface \<open>pass_relation\<close>
    carries an argument about the single statements to the whole pass; it is interpreted for the frame
    and for the typing of the tables.
  \<^item> Trails. An untruncated neighbourhood holds exactly the nodes within the depth and their shortest
    distances; a path query selects exactly the nodes on walks from root to target; the bounds hold
    when a result is cut short; every query returns.
  \<^item> Queries and the report. Printing and parsing a query gives it back, errors point into their
    source; the rankings of the report are sorted, bounded and leave out nothing better.
  \<^item> The canonical layout. It is a function of the response alone, although it is built by iterating hash
    maps in a random order; its edges are the routes of the given edges, each folding exactly the edges
    that run there; every node keeps a row or a place in the row of its host, and edges join two rows.
  \<^item> The embedding server. Along every interleaving of handlers its account of requests is exact and
    draining starts only when no request is admitted; each connection handler's run is a path of that
    transition system and gives back all it took; only an authenticated activation moves the server;
    requests end by their deadline; a lease connection's replies stay with the lease it granted. One
    fault shows in the model as well: a failed attempt to drain is visible to the
    listener, which then leaves its loop.
  \<^item> The protocol. Frames and vectors survive encoding, and the incremental reader yields the same
    frames however the bytes arrive. A client accepts what the server answers to its request and
    nothing else.
  \<^item> The engine and the cache. A request has one terminal outcome, the queues are bounded FIFOs of their
    live requests and serve both classes, batches partition their inputs; the cache is an
    insertion-ordered bounded list.

  \<^bold>\<open>Loops, fuel and bounds.\<close> Loops over data are structural or have a measure. Four may not end by
  their shape alone. The path loop of a trail, the walk up the inheritance graph and the batching
  loop are partial functions into \<open>option\<close>; each is shown to return a value, the first for every depth
  that fits a \<^verbatim>\<open>u32\<close> and the last for every positive limit on a batch. A polling loop of a
  connection handler waits for other threads; it polls \<open>ev_fuel\<close> times and is \<open>Running\<close> after that, the
  safety results hold in that state as well, and a request whose clock passes its deadline within the
  fuel is shown to end. \<^verbatim>\<open>usize\<close>, \<^verbatim>\<open>u64\<close> and \<^verbatim>\<open>u32\<close> are naturals with saturation and checks written
  out; discriminants and bytes are words.

  \<^bold>\<open>The environment.\<close> These are arguments: the clock, the streams, fresh identifiers, the engine's
  worker, the other threads between a handler's accesses, \<^verbatim>\<open>serde_json\<close> and SHA-256, the rows SQLite
  returns to a trail, whether \<^verbatim>\<open>BEGIN\<close>, \<^verbatim>\<open>COMMIT\<close> and \<^verbatim>\<open>ROLLBACK\<close> succeed, the answers of the
  cancellation token, the stored snapshot of the resolution indexes, and the iteration order of the
  hash maps of a layout.

  \<^bold>\<open>Not modelled.\<close> The extraction of nodes and edges from sources (\<^verbatim>\<open>codestory-indexer/src/lib.rs\<close> and
  its structural collectors) is decided by tree-sitter grammars and query files; of it only the
  language registry is here. Of the store, everything but trails and the two tables of resolution is
  SQL text: schema, migrations, bulk writes, projections. The retrieval indexes, the ranker and the
  sidecars work on floating-point scores and on files of other tools. The runtime's controllers and
  agent packets, the command line, the transports and workspace discovery are glue, wording or I/O.
  Within the modelled parts: the JSON form of the resolution snapshot with its size limit, environment
  flags, timing telemetry, the qualification files of the server's tests, model loading and the calls
  into llama.cpp. Vendored code, benchmarks, plugins and scripts are left aside.
\<close>

end
